(* ===== verification/Prelude.thy ===== *)
theory Prelude
  imports Complex_Main "HOL-Library.List_Lexorder" "HOL-Library.Char_ord"
begin

text \<open>
  Shared vocabulary of the development: Go's fixed-width integers written out over
  \<open>int\<close>, instants and durations in nanoseconds, association lists for Go maps whose
  entries are iterated, and the generic lemmas the component theories use.  A map that is
  only looked up and updated is a HOL map.
\<close>

named_theorems go_arith \<open>facts about 64-bit wrap-around, saturation and truncated division\<close>
named_theorems alist_simps \<open>lookup, insertion and deletion laws of association lists\<close>

section \<open>64-bit integers\<close>

definition max_int64 :: int where
  "max_int64 = 2 ^ 63 - 1"

definition min_int64 :: int where
  "min_int64 = - (2 ^ 63)"

definition in_int64 :: "int \<Rightarrow> bool" where
  "in_int64 x \<longleftrightarrow> min_int64 \<le> x \<and> x \<le> max_int64"

text \<open>Two's complement wrap-around of Go's \<open>int64\<close> (and of \<open>int\<close> on 64-bit platforms).\<close>

definition wrap64 :: "int \<Rightarrow> int" where
  "wrap64 x = (x + 2 ^ 63) mod 2 ^ 64 - 2 ^ 63"

text \<open>Saturation, as \<open>time.Time.Sub\<close> applies it to a difference of instants.\<close>

definition sat64 :: "int \<Rightarrow> int" where
  "sat64 x = max min_int64 (min max_int64 x)"

text \<open>Go's \<open>/\<close> and \<open>%\<close> truncate towards zero.\<close>

definition go_div :: "int \<Rightarrow> int \<Rightarrow> int" where
  "go_div a b = sgn a * sgn b * (\<bar>a\<bar> div \<bar>b\<bar>)"

definition go_mod :: "int \<Rightarrow> int \<Rightarrow> int" where
  "go_mod a b = a - b * go_div a b"

type_synonym duration = int
type_synonym instant = int

abbreviation Millisecond :: duration where
  "Millisecond \<equiv> 1000000"

abbreviation Second :: duration where
  "Second \<equiv> 1000000000"

abbreviation Minute :: duration where
  "Minute \<equiv> 60000000000"

abbreviation Hour :: duration where
  "Hour \<equiv> 3600000000000"

text \<open>\<open>t.Sub(u)\<close> on instants.\<close>

definition time_sub :: "instant \<Rightarrow> instant \<Rightarrow> duration" where
  "time_sub t u = sat64 (t - u)"

lemma in_int64_bounds: "in_int64 x \<longleftrightarrow> - (2 ^ 63) \<le> x \<and> x < 2 ^ 63"
  by (auto simp: in_int64_def min_int64_def max_int64_def)

lemma wrap64_id [go_arith]: "in_int64 x \<Longrightarrow> wrap64 x = x"
  by (simp add: wrap64_def in_int64_bounds)

lemma wrap64_in_int64 [go_arith]: "in_int64 (wrap64 x)"
proof -
  have "0 \<le> (x + 2 ^ 63) mod 2 ^ 64" and "(x + 2 ^ 63) mod 2 ^ 64 < (2 ^ 64 :: int)"
    by simp_all
  then show ?thesis by (simp add: wrap64_def in_int64_bounds)
qed

text \<open>Doubling a positive \<open>int64\<close> either is exact or wraps to a non-positive value.\<close>

lemma wrap64_double:
  assumes "0 < x" "x < 2 ^ 63"
  shows "wrap64 (2 * x) = (if 2 * x < 2 ^ 63 then 2 * x else 2 * x - 2 ^ 64)"
proof (cases "2 * x < 2 ^ 63")
  case True
  with assms show ?thesis by (simp add: wrap64_id in_int64_bounds)
next
  case False
  have "(2 * x + 2 ^ 63) mod 2 ^ 64 = (2 * x + 2 ^ 63 - 2 ^ 64) mod (2 ^ 64 :: int)"
    by (rule minus_mod_self2 [symmetric])
  also have "\<dots> = 2 * x + 2 ^ 63 - 2 ^ 64"
    using False assms by (intro mod_pos_pos_trivial) auto
  finally show ?thesis using False by (simp add: wrap64_def)
qed

lemma wrap64_over:
  assumes "2 ^ 63 \<le> x" "x < 3 * 2 ^ 63"
  shows "wrap64 x = x - 2 ^ 64"
proof -
  have "(x + 2 ^ 63) mod 2 ^ 64 = (x + 2 ^ 63 - 2 ^ 64) mod 2 ^ 64" by (metis minus_mod_self2)
  also have "\<dots> = x + 2 ^ 63 - 2 ^ 64" using assms by (intro mod_pos_pos_trivial) simp_all
  finally show ?thesis by (simp add: wrap64_def)
qed

lemma sat64_id [go_arith]: "in_int64 x \<Longrightarrow> sat64 x = x"
  by (simp add: sat64_def in_int64_def)

lemma sat64_in_int64 [go_arith]: "in_int64 (sat64 x)"
  by (auto simp: sat64_def in_int64_def min_int64_def max_int64_def)

lemma sat64_mono: "x \<le> y \<Longrightarrow> sat64 x \<le> sat64 y"
  by (auto simp: sat64_def)

lemma go_div_nonneg [go_arith]:
  assumes "0 \<le> a" "0 < b"
  shows "go_div a b = a div b"
  using assms by (cases "a = 0") (auto simp: go_div_def)

lemma go_mod_nonneg [go_arith]:
  assumes "0 \<le> a" "0 < b"
  shows "go_mod a b = a mod b"
  using assms by (simp add: go_mod_def go_div_nonneg minus_mult_div_eq_mod)

section \<open>Association lists\<close>

text \<open>
  A Go map that the code iterates is an association list with distinct keys; insertion
  replaces the entry of its key and keeps the place of a key already there.
\<close>

primrec al_put :: "'k \<Rightarrow> 'v \<Rightarrow> ('k \<times> 'v) list \<Rightarrow> ('k \<times> 'v) list" where
  "al_put k v [] = [(k, v)]"
| "al_put k v (e # es) = (if fst e = k then (k, v) # es else e # al_put k v es)"

definition al_del :: "'k \<Rightarrow> ('k \<times> 'v) list \<Rightarrow> ('k \<times> 'v) list" where
  "al_del k es = filter (\<lambda>e. fst e \<noteq> k) es"

definition al_keys :: "('k \<times> 'v) list \<Rightarrow> 'k list" where
  "al_keys es = map fst es"

lemma map_of_al_put [alist_simps]: "map_of (al_put k v es) = (map_of es)(k \<mapsto> v)"
  by (induction es) auto

lemma map_of_al_del [alist_simps]: "map_of (al_del k es) = (map_of es)(k := None)"
  by (induction es) (auto simp: al_del_def fun_eq_iff)

lemma set_al_keys_put [alist_simps]: "set (al_keys (al_put k v es)) = insert k (set (al_keys es))"
  by (induction es) (auto simp: al_keys_def)

lemma distinct_al_put [alist_simps]: "distinct (al_keys es) \<Longrightarrow> distinct (al_keys (al_put k v es))"
proof (induction es)
  case Nil
  then show ?case by (simp add: al_keys_def)
next
  case (Cons e es)
  then show ?case
    using set_al_keys_put [of k v es] by (auto simp: al_keys_def)
qed

lemma distinct_al_del [alist_simps]: "distinct (al_keys es) \<Longrightarrow> distinct (al_keys (al_del k es))"
  by (induction es) (auto simp: al_keys_def al_del_def)

lemma length_al_put [alist_simps]:
  "length (al_put k v es) = (if k \<in> set (al_keys es) then length es else Suc (length es))"
  by (induction es) (auto simp: al_keys_def)

section \<open>Sums, maps and lists\<close>

lemma map_sum_Inl: "map_sum f g x = Inl b \<longleftrightarrow> (\<exists>a. x = Inl a \<and> f a = b)"
  by (cases x) auto

lemma map_le_Some: "m \<subseteq>\<^sub>m m' \<Longrightarrow> m k = Some v \<Longrightarrow> m' k = Some v"
  by (metis domI map_le_def)

lemma takeWhile_all_lt: "\<forall>x \<in> set xs. P x \<Longrightarrow> takeWhile P xs = xs"
  by (induction xs) auto

lemma sum_list_filter_le:
  "(\<And>x. x \<in> set xs \<Longrightarrow> 0 \<le> f x) \<Longrightarrow>
   sum_list (map f (filter P xs)) \<le> (sum_list (map f xs) :: int)"
  by (induction xs) (auto intro: add_increasing)

end
