(* ===== verification/GoStrings.thy ===== *)
theory GoStrings
  imports Prelude
begin

text \<open>
  The part of Go's \<open>strings\<close>, \<open>strconv\<close> and \<open>path\<close> packages the gateway uses, on
  strings of bytes (\<open>char list\<close>).  Case mapping and white space are the ASCII ones, and a
  glob's \<open>?\<close> or character class consumes one byte: model ids, header values and
  configuration keywords are ASCII.
\<close>

section \<open>Prefixes, substrings, case and white space\<close>

definition has_prefix :: "string \<Rightarrow> string \<Rightarrow> bool" where
  "has_prefix s p \<longleftrightarrow> take (length p) s = p"

definition trim_prefix :: "string \<Rightarrow> string \<Rightarrow> string" where
  "trim_prefix s p = (if has_prefix s p then drop (length p) s else s)"

fun contains :: "string \<Rightarrow> string \<Rightarrow> bool" where
  "contains [] sub = (sub = [])"
| "contains (c # s) sub = (has_prefix (c # s) sub \<or> contains s sub)"

definition is_upper :: "char \<Rightarrow> bool" where
  "is_upper c \<longleftrightarrow> 65 \<le> (of_char c :: nat) \<and> (of_char c :: nat) \<le> 90"

definition lower_char :: "char \<Rightarrow> char" where
  "lower_char c = (if is_upper c then char_of ((of_char c :: nat) + 32) else c)"

definition to_lower :: "string \<Rightarrow> string" where
  "to_lower s = map lower_char s"

definition equal_fold :: "string \<Rightarrow> string \<Rightarrow> bool" where
  "equal_fold s t \<longleftrightarrow> to_lower s = to_lower t"

definition is_space :: "char \<Rightarrow> bool" where
  "is_space c \<longleftrightarrow> (let n = (of_char c :: nat) in n = 32 \<or> (9 \<le> n \<and> n \<le> 13))"

definition trim_left :: "(char \<Rightarrow> bool) \<Rightarrow> string \<Rightarrow> string" where
  "trim_left P s = dropWhile P s"

definition trim_right :: "(char \<Rightarrow> bool) \<Rightarrow> string \<Rightarrow> string" where
  "trim_right P s = rev (dropWhile P (rev s))"

definition trim_space :: "string \<Rightarrow> string" where
  "trim_space s = trim_right is_space (trim_left is_space s)"

fun split_on :: "char \<Rightarrow> string \<Rightarrow> string list" where
  "split_on c [] = [[]]"
| "split_on c (x # xs) =
     (if x = c then [] # split_on c xs
      else case split_on c xs of [] \<Rightarrow> [[x]] | w # ws \<Rightarrow> (x # w) # ws)"

fun join_with :: "string \<Rightarrow> string list \<Rightarrow> string" where
  "join_with sep [] = []"
| "join_with sep [w] = w"
| "join_with sep (w # ws) = w @ sep @ join_with sep ws"

section \<open>Numbers\<close>

definition digit_char :: "nat \<Rightarrow> char" where
  "digit_char d = char_of (48 + d)"

definition is_digit :: "char \<Rightarrow> bool" where
  "is_digit c \<longleftrightarrow> 48 \<le> (of_char c :: nat) \<and> (of_char c :: nat) \<le> 57"

definition digit_val :: "char \<Rightarrow> nat" where
  "digit_val c = of_char c - 48"

fun nat_str :: "nat \<Rightarrow> string" where
  "nat_str n = (if n < 10 then [digit_char n] else nat_str (n div 10) @ [digit_char (n mod 10)])"

declare nat_str.simps [simp del]

text \<open>\<open>strconv.Itoa\<close>.\<close>

definition itoa :: "int \<Rightarrow> string" where
  "itoa n = (if n < 0 then CHR ''-'' # nat_str (nat (- n)) else nat_str (nat n))"

definition digits_val :: "string \<Rightarrow> nat" where
  "digits_val s = foldl (\<lambda>acc c. 10 * acc + digit_val c) 0 s"

text \<open>\<open>strconv.Atoi\<close>: an optional sign and at least one decimal digit, in the range of
  \<open>int64\<close>; \<open>None\<close> is the error.\<close>

definition atoi :: "string \<Rightarrow> int option" where
  "atoi s = (let neg = has_prefix s ''-'';
                 ds = (if neg \<or> has_prefix s ''+'' then tl s else s);
                 v = (if neg then - int (digits_val ds) else int (digits_val ds))
             in if ds \<noteq> [] \<and> list_all is_digit ds \<and> in_int64 v then Some v else None)"

section \<open>Glob patterns: \<open>path.Match\<close>\<close>

text \<open>
  A pattern is split into chunks, each a run of single-character matchers that may be
  preceded by a star; a chunk after a star is placed at its leftmost position, and a star
  never crosses a slash.  A malformed pattern is \<open>None\<close>, Go's \<open>ErrBadPattern\<close>.
\<close>

datatype gtok = GAny | GLit char | GClass bool "(char \<times> char) list"

definition get_esc :: "string \<Rightarrow> (char \<times> string) option" where
  "get_esc s = (case s of
     [] \<Rightarrow> None
   | c # t \<Rightarrow>
       if c = CHR ''-'' \<or> c = CHR '']'' then None
       else (let u = (if c = CHR 0x5C then t else s) in
             case u of [] \<Rightarrow> None | d # rest \<Rightarrow> if rest = [] then None else Some (d, rest)))"

lemma get_esc_shorter: "get_esc s = Some (c, rest) \<Longrightarrow> length rest < length s"
  by (auto simp: get_esc_def Let_def split: list.splits if_splits)

fun class_ranges :: "nat \<Rightarrow> bool \<Rightarrow> string \<Rightarrow> ((char \<times> char) list \<times> string) option" where
  "class_ranges 0 some s = None"
| "class_ranges (Suc fuel) some s =
     (if some \<and> has_prefix s '']'' then Some ([], tl s)
      else case get_esc s of
        None \<Rightarrow> None
      | Some (lo, s1) \<Rightarrow>
          (case (if has_prefix s1 ''-'' then get_esc (tl s1) else Some (lo, s1)) of
             None \<Rightarrow> None
           | Some (hi, s2) \<Rightarrow>
               (case class_ranges fuel True s2 of
                  None \<Rightarrow> None
                | Some (rs, s3) \<Rightarrow> Some ((lo, hi) # rs, s3))))"

datatype gitem = GStar | GTok gtok

fun scan_glob :: "nat \<Rightarrow> string \<Rightarrow> gitem list option" where
  "scan_glob 0 s = (if s = [] then Some [] else None)"
| "scan_glob (Suc fuel) [] = Some []"
| "scan_glob (Suc fuel) (c # s) =
     (if c = CHR ''*'' then map_option ((#) GStar) (scan_glob fuel s)
      else if c = CHR ''?'' then map_option ((#) (GTok GAny)) (scan_glob fuel s)
      else if c = CHR ''['' then
        (let neg = has_prefix s ''^''; t = (if neg then tl s else s) in
         case class_ranges (length s) False t of
           None \<Rightarrow> None
         | Some (rs, rest) \<Rightarrow> map_option ((#) (GTok (GClass neg rs))) (scan_glob fuel rest))
      else if c = CHR 0x5C then
        (case s of [] \<Rightarrow> None | d # t \<Rightarrow> map_option ((#) (GTok (GLit d))) (scan_glob fuel t))
      else map_option ((#) (GTok (GLit c))) (scan_glob fuel s))"

definition parse_glob :: "string \<Rightarrow> gitem list option" where
  "parse_glob p = scan_glob (length p) p"

fun glob_chunks :: "gitem list \<Rightarrow> (bool \<times> gtok list) list" where
  "glob_chunks [] = []"
| "glob_chunks (GStar # is) =
     (case is of
        GTok _ # _ \<Rightarrow> (case glob_chunks is of [] \<Rightarrow> [(True, [])] | (_, c) # cs \<Rightarrow> (True, c) # cs)
      | GStar # _ \<Rightarrow> glob_chunks is
      | [] \<Rightarrow> [(True, [])])"
| "glob_chunks (GTok t # is) =
     (case is of
        GTok _ # _ \<Rightarrow> (case glob_chunks is of [] \<Rightarrow> [(False, [t])] | (_, c) # cs \<Rightarrow> (False, t # c) # cs)
      | _ \<Rightarrow> (False, [t]) # glob_chunks is)"

fun tok_match :: "gtok \<Rightarrow> char \<Rightarrow> bool" where
  "tok_match GAny c = (c \<noteq> CHR ''/'')"
| "tok_match (GLit d) c = (c = d)"
| "tok_match (GClass neg rs) c = (list_ex (\<lambda>(lo, hi). lo \<le> c \<and> c \<le> hi) rs \<noteq> neg)"

fun match_chunk :: "gtok list \<Rightarrow> string \<Rightarrow> string option" where
  "match_chunk [] s = Some s"
| "match_chunk (t # ts) [] = None"
| "match_chunk (t # ts) (c # s) = (if tok_match t c then match_chunk ts s else None)"

fun skip_match :: "gtok list \<Rightarrow> bool \<Rightarrow> string \<Rightarrow> string option" where
  "skip_match ch fin [] = None"
| "skip_match ch fin (x # xs) =
     (if x = CHR ''/'' then None
      else case match_chunk ch xs of
        Some t \<Rightarrow> if fin \<and> t \<noteq> [] then skip_match ch fin xs else Some t
      | None \<Rightarrow> skip_match ch fin xs)"

fun glob_match :: "(bool \<times> gtok list) list \<Rightarrow> string \<Rightarrow> bool" where
  "glob_match [] name = (name = [])"
| "glob_match ((star, ch) # rest) name =
     (if star \<and> ch = [] then CHR ''/'' \<notin> set name
      else case (case match_chunk ch name of
                   Some t \<Rightarrow> if t = [] \<or> rest \<noteq> [] then Some t else None
                 | None \<Rightarrow> None) of
        Some t \<Rightarrow> glob_match rest t
      | None \<Rightarrow>
          if star then
            (case skip_match ch (rest = []) name of
               Some t \<Rightarrow> glob_match rest t
             | None \<Rightarrow> False)
          else False)"

text \<open>\<open>path.Match(pattern, name)\<close>: \<open>None\<close> is \<open>ErrBadPattern\<close>.\<close>

definition path_match :: "string \<Rightarrow> string \<Rightarrow> bool option" where
  "path_match p name = map_option (\<lambda>is. glob_match (glob_chunks is) name) (parse_glob p)"

section \<open>Lemmas\<close>

lemma has_prefix_append [simp]: "has_prefix (p @ s) p"
  by (simp add: has_prefix_def)

lemma has_prefix_iff: "has_prefix s p \<longleftrightarrow> (\<exists>r. s = p @ r)"
proof
  assume "has_prefix s p"
  then have "s = p @ drop (length p) s"
    by (metis has_prefix_def append_take_drop_id)
  then show "\<exists>r. s = p @ r" ..
qed auto

lemma contains_iff: "contains s sub \<longleftrightarrow> (\<exists>a b. s = a @ sub @ b)"
proof (induction s)
  case Nil
  then show ?case by auto
next
  case (Cons c s)
  show ?case
  proof
    assume "contains (c # s) sub"
    then consider "has_prefix (c # s) sub" | "contains s sub" by auto
    then show "\<exists>a b. c # s = a @ sub @ b"
    proof cases
      case 1
      then show ?thesis by (metis append_Nil has_prefix_iff)
    next
      case 2
      with Cons.IH show ?thesis by (metis append_Cons)
    qed
  next
    assume "\<exists>a b. c # s = a @ sub @ b"
    then obtain a b where ab: "c # s = a @ sub @ b" by blast
    show "contains (c # s) sub"
    proof (cases a)
      case Nil
      with ab have "has_prefix (c # s) sub" by (metis append_Nil has_prefix_iff)
      then show ?thesis by simp
    next
      case (Cons x a')
      with ab have "s = a' @ sub @ b" by simp
      then have "contains s sub" using \<open>contains s sub = (\<exists>a b. s = a @ sub @ b)\<close> by blast
      then show ?thesis by simp
    qed
  qed
qed

lemma lower_char_idem [simp]: "lower_char (lower_char c) = lower_char c"
proof (cases "is_upper c")
  case True
  then have "(of_char c :: nat) + 32 < 256" by (simp add: is_upper_def)
  then have "of_char (char_of ((of_char c :: nat) + 32)) = (of_char c :: nat) + 32" by simp
  with True show ?thesis by (simp add: lower_char_def is_upper_def)
qed (simp add: lower_char_def)

lemma to_lower_idem [simp]: "to_lower (to_lower s) = to_lower s"
  by (simp add: to_lower_def)

lemma equal_fold_refl [simp]: "equal_fold s s"
  by (simp add: equal_fold_def)

subsection \<open>Decimal numerals\<close>

lemma digit_of_digit_char [simp]:
  assumes "d < 10"
  shows "is_digit (digit_char d)" and "digit_val (digit_char d) = d"
proof -
  have "(of_char (char_of (48 + d)) :: nat) = 48 + d" using assms by simp
  then show "is_digit (digit_char d)" and "digit_val (digit_char d) = d"
    using assms by (simp_all add: is_digit_def digit_char_def digit_val_def)
qed

lemma digits_val_snoc: "digits_val (s @ [c]) = 10 * digits_val s + digit_val c"
  by (simp add: digits_val_def)

lemma nat_str_digits: "nat_str n \<noteq> [] \<and> list_all is_digit (nat_str n) \<and> digits_val (nat_str n) = n"
proof (induction n rule: nat_str.induct)
  case (1 n)
  show ?case
  proof (cases "n < 10")
    case True
    then show ?thesis by (simp add: nat_str.simps [of n] digits_val_def)
  next
    case False
    then have "nat_str n = nat_str (n div 10) @ [digit_char (n mod 10)]"
      by (simp add: nat_str.simps [of n])
    with 1 [OF False] show ?thesis by (simp add: digits_val_snoc)
  qed
qed

lemma is_digit_not_sign: "is_digit c \<Longrightarrow> c \<noteq> CHR ''-'' \<and> c \<noteq> CHR ''+''"
  by (auto simp: is_digit_def)

lemma digits_no_sign:
  assumes "list_all is_digit s"
  shows "\<not> has_prefix s ''-'' \<and> \<not> has_prefix s ''+''"
  using assms is_digit_not_sign by (cases s) (auto simp: has_prefix_def)

text \<open>Printing and reading back an \<open>int64\<close>.\<close>

lemma atoi_itoa [simp]:
  assumes "in_int64 n"
  shows "atoi (itoa n) = Some n"
proof (cases "n < 0")
  case True
  with nat_str_digits [of "nat (- n)"] assms show ?thesis
    by (simp add: atoi_def itoa_def has_prefix_def)
next
  case False
  with nat_str_digits [of "nat n"] digits_no_sign [of "nat_str (nat n)"] assms show ?thesis
    by (simp add: atoi_def itoa_def)
qed

subsection \<open>Globs\<close>

definition glob_special :: "char \<Rightarrow> bool" where
  "glob_special c \<longleftrightarrow> c \<in> {CHR ''*'', CHR ''?'', CHR ''['', CHR 0x5C}"

lemma scan_glob_literal:
  "list_all (\<lambda>c. \<not> glob_special c) p \<Longrightarrow> length p + length q \<le> n \<Longrightarrow>
   scan_glob n (p @ q) = map_option ((@) (map (GTok \<circ> GLit) p)) (scan_glob (n - length p) q)"
proof (induction p arbitrary: n)
  case Nil
  then show ?case by (cases "scan_glob n q") simp_all
next
  case (Cons c p)
  then obtain m where "n = Suc m" by (cases n) auto
  with Cons show ?case by (simp add: glob_special_def option.map_comp comp_def)
qed

lemma glob_chunks_literal:
  "p \<noteq> [] \<Longrightarrow> glob_chunks (map (GTok \<circ> GLit) p) = [(False, map GLit p)]"
proof (induction p)
  case (Cons c p)
  then show ?case by (cases p) auto
qed simp

lemma glob_chunks_literal_star:
  "p \<noteq> [] \<Longrightarrow> glob_chunks (map (GTok \<circ> GLit) p @ [GStar]) = [(False, map GLit p), (True, [])]"
proof (induction p)
  case (Cons c p)
  then show ?case by (cases p) auto
qed simp

lemma match_chunk_literal:
  "match_chunk (map GLit p) s = (if has_prefix s p then Some (drop (length p) s) else None)"
proof (induction p arbitrary: s)
  case (Cons c p)
  then show ?case by (cases s) (auto simp: has_prefix_def)
qed (simp add: has_prefix_def)

text \<open>A literal pattern matches exactly itself.\<close>

lemma path_match_literal:
  assumes "list_all (\<lambda>c. \<not> glob_special c) p"
  shows "path_match p name = Some (name = p)"
proof (cases "p = []")
  case True
  then show ?thesis by (simp add: path_match_def parse_glob_def)
next
  case False
  have "parse_glob p = Some (map (GTok \<circ> GLit) p)"
    using scan_glob_literal [OF assms, of "[]" "length p"] by (simp add: parse_glob_def)
  with False show ?thesis
    by (auto simp: path_match_def glob_chunks_literal match_chunk_literal has_prefix_iff)
qed

text \<open>A literal followed by a star matches its extensions that stay within one path segment.\<close>

lemma path_match_prefix_star:
  assumes "list_all (\<lambda>c. \<not> glob_special c) p" "p \<noteq> []"
  shows "path_match (p @ ''*'') name =
    Some (has_prefix name p \<and> CHR ''/'' \<notin> set (drop (length p) name))"
proof -
  have "parse_glob (p @ ''*'') = Some (map (GTok \<circ> GLit) p @ [GStar])"
    using scan_glob_literal [OF assms(1), of "''*''" "length p + 1"] by (simp add: parse_glob_def)
  with assms(2) show ?thesis
    by (simp add: path_match_def glob_chunks_literal_star match_chunk_literal)
qed

end
