(* ===== verification/Float64.thy ===== *)
theory Float64
  imports Prelude "HOL-Library.Log_Nat"
begin

text \<open>
  Go's \<open>float64\<close> as the rational numbers it denotes: every operation is the exact
  rational one followed by \<open>fl64\<close>, rounding to the nearest 53-bit significand with ties
  to even.  The exponent is not bounded: the values the gateway computes (ratios, jittered
  delays, token budgets) stay far from overflow and from the subnormal range, and none of
  them is a NaN.  The lemmas are the ones a client needs: rounding is monotone, fixes zero
  and the integers up to \<open>2\<^sup>5\<^sup>3\<close>, and keeps signs.
\<close>

section \<open>Rounding\<close>

text \<open>Nearest integer, ties to even.\<close>

definition rne :: "rat \<Rightarrow> int" where
  "rne x = (let f = \<lfloor>x\<rfloor>; d = x - of_int f in
     if d < 1 / 2 then f else if 1 / 2 < d then f + 1 else if even f then f else f + 1)"

text \<open>\<open>\<lfloor>log\<^sub>2 x\<rfloor>\<close> of a positive rational.\<close>

definition ilog2 :: "rat \<Rightarrow> int" where
  "ilog2 x = (if 1 \<le> x then bitlen \<lfloor>x\<rfloor> - 1 else - bitlen (\<lceil>1 / x\<rceil> - 1))"

definition fl64 :: "rat \<Rightarrow> rat" where
  "fl64 x = (if x = 0 then 0
     else let e = ilog2 \<bar>x\<bar> - 52 in of_int (rne (x * 2 powi (- e))) * 2 powi e)"

text \<open>\<open>float64(n)\<close>, the arithmetic operations, and \<open>int(x)\<close>, which truncates towards zero.\<close>

definition f_of_int :: "int \<Rightarrow> rat" where
  "f_of_int n = fl64 (of_int n)"

definition f_mul :: "rat \<Rightarrow> rat \<Rightarrow> rat" where
  "f_mul x y = fl64 (x * y)"

definition f_add :: "rat \<Rightarrow> rat \<Rightarrow> rat" where
  "f_add x y = fl64 (x + y)"

definition f_div :: "rat \<Rightarrow> rat \<Rightarrow> rat" where
  "f_div x y = fl64 (x / y)"

definition f_trunc :: "rat \<Rightarrow> int" where
  "f_trunc x = (if 0 \<le> x then \<lfloor>x\<rfloor> else \<lceil>x\<rceil>)"

section \<open>Rounding to integers\<close>

lemma rne_floor: "rne x = \<lfloor>x\<rfloor> \<or> rne x = \<lfloor>x\<rfloor> + 1"
  by (simp add: rne_def Let_def)

lemma rne_of_int [simp]: "rne (of_int n) = n"
  by (simp add: rne_def)

lemma rne_mono:
  assumes "x \<le> y"
  shows "rne x \<le> rne y"
proof (cases "\<lfloor>x\<rfloor> = \<lfloor>y\<rfloor>")
  case True
  with assms show ?thesis by (auto simp: rne_def Let_def)
next
  case False
  with floor_mono [OF assms] have "\<lfloor>x\<rfloor> + 1 \<le> \<lfloor>y\<rfloor>" by simp
  with rne_floor [of x] rne_floor [of y] show ?thesis by linarith
qed

lemma rne_le_of_int: "x \<le> of_int n \<Longrightarrow> rne x \<le> n"
  using rne_mono [of x "of_int n"] by simp

lemma rne_ge_of_int: "of_int n \<le> x \<Longrightarrow> n \<le> rne x"
  using rne_mono [of "of_int n" x] by simp

section \<open>Binary magnitude\<close>

lemma powi_nonneg_rat: "0 \<le> e \<Longrightarrow> (2 :: rat) powi e = of_int (2 ^ nat e)"
  by (simp add: power_int_def)

lemma bitlen_pos: "0 < n \<Longrightarrow> 1 \<le> bitlen n"
  by (simp add: bitlen_alt_def)

lemma ilog2_large:
  assumes "1 \<le> x"
  shows "2 powi (ilog2 x) \<le> x \<and> x < 2 powi (ilog2 x + 1)"
proof -
  let ?f = "\<lfloor>x\<rfloor>"
  have f: "0 < ?f" using assms by simp
  note bb = bitlen_bounds [OF f] and b1 = bitlen_pos [OF f]
  have "(2 :: rat) powi (bitlen ?f - 1) = of_int (2 ^ nat (bitlen ?f - 1))"
    using b1 by (intro powi_nonneg_rat) simp
  also have "\<dots> \<le> of_int ?f" using bb by (intro of_int_le_iff [THEN iffD2]) simp
  finally have lo: "(2 :: rat) powi (bitlen ?f - 1) \<le> x" by linarith
  have "x < of_int (?f + 1)" by linarith
  also have "\<dots> \<le> of_int (2 ^ nat (bitlen ?f))"
    using bb by (intro of_int_le_iff [THEN iffD2]) simp
  also have "\<dots> = (2 :: rat) powi (bitlen ?f)"
    using b1 by (intro powi_nonneg_rat [symmetric]) simp
  finally have hi: "x < 2 powi (bitlen ?f)" .
  from lo hi show ?thesis using assms by (simp add: ilog2_def)
qed

lemma ilog2_small:
  assumes "0 < x" "x < 1"
  shows "2 powi (ilog2 x) \<le> x \<and> x < 2 powi (ilog2 x + 1)"
proof -
  let ?c = "\<lceil>1 / x\<rceil> - 1"
  have "1 < 1 / x" using assms by simp
  then have c: "0 < ?c" by linarith
  note bb = bitlen_bounds [OF c] and b1 = bitlen_pos [OF c]
  have "1 / x \<le> of_int (?c + 1)" by simp
  also have "\<dots> \<le> of_int (2 ^ nat (bitlen ?c))"
    using bb by (intro of_int_le_iff [THEN iffD2]) simp
  also have "\<dots> = (2 :: rat) powi (bitlen ?c)"
    using b1 by (intro powi_nonneg_rat [symmetric]) simp
  finally have lo: "1 / x \<le> 2 powi (bitlen ?c)" .
  have "(2 :: rat) powi (bitlen ?c - 1) = of_int (2 ^ nat (bitlen ?c - 1))"
    using b1 by (intro powi_nonneg_rat) simp
  also have "\<dots> \<le> of_int ?c" using bb by (intro of_int_le_iff [THEN iffD2]) simp
  also have "\<dots> < 1 / x" by linarith
  finally have hi: "(2 :: rat) powi (bitlen ?c - 1) < 1 / x" .
  have "(2 :: rat) powi (- bitlen ?c) \<le> x"
    using lo assms by (simp add: power_int_minus field_simps)
  moreover have "x < 2 powi (- bitlen ?c + 1)"
    using hi assms by (simp add: power_int_minus power_int_diff power_int_add field_simps)
  ultimately show ?thesis using assms by (simp add: ilog2_def)
qed

lemma ilog2_bounds:
  assumes "0 < x"
  shows "2 powi (ilog2 x) \<le> x" and "x < 2 powi (ilog2 x + 1)"
  using assms ilog2_large [of x] ilog2_small [of x] by (cases "1 \<le> x"; simp)+

lemma ilog2_mono:
  assumes "0 < x" "x \<le> y"
  shows "ilog2 x \<le> ilog2 y"
proof (rule ccontr)
  assume "\<not> ilog2 x \<le> ilog2 y"
  then have "(2 :: rat) powi (ilog2 y + 1) \<le> 2 powi (ilog2 x)"
    by (intro power_int_increasing) simp_all
  with ilog2_bounds(1) [of x] ilog2_bounds(2) [of y] assms show False by linarith
qed

section \<open>Rounding to a float\<close>

lemma fl64_zero [simp]: "fl64 0 = 0"
  by (simp add: fl64_def)

lemma powi_pos_rat: "0 < (2 :: rat) powi e"
  by (simp add: zero_less_power_int)

lemma fl64_binade:
  assumes "0 < x"
  shows "2 powi (ilog2 x) \<le> fl64 x" and "fl64 x \<le> 2 powi (ilog2 x + 1)"
proof -
  define e where "e = ilog2 x - 52"
  let ?p = "(2 :: rat) powi e"
  have eq: "fl64 x = of_int (rne (x * 2 powi (- e))) * ?p"
    using assms by (simp add: fl64_def Let_def e_def)
  have sc: "(2 :: rat) powi (e + k) * 2 powi (- e) = 2 powi k" for k
    by (simp add: power_int_add power_int_minus)
  have "(2 :: rat) powi (e + 52) * 2 powi (- e) \<le> x * 2 powi (- e)"
    using ilog2_bounds(1) [OF assms] powi_pos_rat [of "- e"]
    by (intro mult_right_mono) (simp_all add: e_def)
  then have "2 ^ 52 \<le> rne (x * 2 powi (- e))"
    by (intro rne_ge_of_int) (simp add: sc)
  then have "(of_int (2 ^ 52) :: rat) \<le> of_int (rne (x * 2 powi (- e)))"
    by (rule of_int_le_iff [THEN iffD2])
  then have "(2 ^ 52 :: rat) * ?p \<le> fl64 x"
    unfolding eq using powi_pos_rat [of e] by (intro mult_right_mono) simp_all
  moreover have "(2 ^ 52 :: rat) * ?p = 2 powi (ilog2 x)"
    by (simp add: e_def power_int_diff)
  ultimately show "2 powi (ilog2 x) \<le> fl64 x" by simp
  have "x * 2 powi (- e) \<le> (2 :: rat) powi (e + 53) * 2 powi (- e)"
    using ilog2_bounds(2) [OF assms] powi_pos_rat [of "- e"]
    by (intro mult_right_mono) (simp_all add: e_def add.commute)
  then have "rne (x * 2 powi (- e)) \<le> 2 ^ 53"
    by (intro rne_le_of_int) (simp add: sc)
  then have "(of_int (rne (x * 2 powi (- e))) :: rat) \<le> of_int (2 ^ 53)"
    by (rule of_int_le_iff [THEN iffD2])
  then have "fl64 x \<le> (2 ^ 53 :: rat) * ?p"
    unfolding eq using powi_pos_rat [of e] by (intro mult_right_mono) simp_all
  moreover have "(2 ^ 53 :: rat) * ?p = 2 powi (ilog2 x + 1)"
    by (simp add: e_def power_int_diff power_int_add)
  ultimately show "fl64 x \<le> 2 powi (ilog2 x + 1)" by simp
qed

lemma fl64_pos: "0 < x \<Longrightarrow> 0 < fl64 x"
  using fl64_binade(1) [of x] powi_pos_rat [of "ilog2 x"] by linarith

lemma fl64_nonneg: "0 \<le> x \<Longrightarrow> 0 \<le> fl64 x"
  using fl64_pos [of x] by (cases "x = 0") simp_all

lemma fl64_mono:
  assumes "0 \<le> x" "x \<le> y"
  shows "fl64 x \<le> fl64 y"
proof (cases "x = 0")
  case True
  with assms show ?thesis by (simp add: fl64_nonneg)
next
  case False
  with assms have x: "0 < x" and y: "0 < y" by simp_all
  show ?thesis
  proof (cases "ilog2 x = ilog2 y")
    case True
    have "x * 2 powi (- (ilog2 y - 52)) \<le> y * 2 powi (- (ilog2 y - 52))"
      using assms(2) powi_pos_rat [of "- (ilog2 y - 52)"] by (intro mult_right_mono) simp_all
    then have "rne (x * 2 powi (- (ilog2 y - 52))) \<le> rne (y * 2 powi (- (ilog2 y - 52)))"
      by (rule rne_mono)
    then show ?thesis
      using x y True powi_pos_rat [of "ilog2 y - 52"]
      by (simp add: fl64_def Let_def mult_right_mono)
  next
    case False
    with ilog2_mono [OF x assms(2)] have "(2 :: rat) powi (ilog2 x + 1) \<le> 2 powi (ilog2 y)"
      by (intro power_int_increasing) simp_all
    with fl64_binade(2) [OF x] fl64_binade(1) [OF y] show ?thesis by linarith
  qed
qed

lemma fl64_exact_scaled:
  assumes "0 < x" "x * 2 powi (52 - ilog2 x) = of_int k"
  shows "fl64 x = x"
proof -
  have "fl64 x = of_int (rne (of_int k)) * 2 powi (ilog2 x - 52)"
    using assms by (simp add: fl64_def Let_def)
  also have "\<dots> = x * (2 powi (52 - ilog2 x) * 2 powi (ilog2 x - 52))"
    using assms(2) by simp
  also have "\<dots> = x" by (simp flip: power_int_add)
  finally show ?thesis .
qed

lemma ilog2_power: "ilog2 (of_int (2 ^ k)) = int k"
proof -
  have "(1 :: rat) \<le> of_int (2 ^ k)" by simp
  moreover have "bitlen (2 ^ k) = int k + 1" using bitlen_twopow_add_eq [of 0 k] by simp
  ultimately show ?thesis by (simp add: ilog2_def del: of_int_power)
qed

lemma fl64_power: "fl64 (of_int (2 ^ k)) = of_int (2 ^ k)"
proof (rule fl64_exact_scaled)
  show "(of_int (2 ^ k) :: rat) * 2 powi (52 - ilog2 (of_int (2 ^ k))) = of_int (2 ^ 52)"
    unfolding ilog2_power by (simp add: power_int_diff)
qed simp

lemma fl64_of_int [simp]:
  assumes "0 \<le> n" "n \<le> 2 ^ 53"
  shows "fl64 (of_int n) = of_int n"
proof (cases "n = 0 \<or> n = 2 ^ 53")
  case True
  then show ?thesis using fl64_power [of 53] by auto
next
  case False
  with assms have n: "0 < n" "n < 2 ^ 53" by auto
  have "ilog2 (of_int n) \<le> 52"
  proof (rule ccontr)
    assume "\<not> ?thesis"
    then have "(2 :: rat) powi 53 \<le> 2 powi (ilog2 (of_int n))"
      by (intro power_int_increasing) simp_all
    also have "\<dots> \<le> of_int n" using n by (intro ilog2_bounds(1)) simp
    also have "\<dots> < of_int (2 ^ 53)" using n by (intro of_int_less_iff [THEN iffD2])
    finally show False by simp
  qed
  then have "(of_int n :: rat) * 2 powi (52 - ilog2 (of_int n)) =
      of_int (n * 2 ^ nat (52 - ilog2 (of_int n)))"
    by (simp add: power_int_def)
  then show ?thesis using n by (intro fl64_exact_scaled [where k = "n * 2 ^ nat (52 - ilog2 (of_int n))"]) simp_all
qed

lemma fl64_le_of_int: "0 \<le> x \<Longrightarrow> x \<le> of_int n \<Longrightarrow> n \<le> 2 ^ 53 \<Longrightarrow> fl64 x \<le> of_int n"
proof -
  assume a: "0 \<le> x" "x \<le> of_int n" "n \<le> 2 ^ 53"
  then have "0 \<le> (of_int n :: rat)" by linarith
  then have "0 \<le> n" by simp
  with fl64_mono [OF a(1,2)] a(3) show ?thesis by simp
qed

lemma fl64_half_int:
  assumes "0 \<le> n" "n < 2 ^ 53"
  shows "fl64 (of_int n / 2) = of_int n / 2"
proof (cases "n = 0")
  case False
  let ?x = "(of_int n :: rat) / 2"
  have x: "0 < ?x" using assms False by simp
  have "ilog2 ?x \<le> 51"
  proof (rule ccontr)
    assume "\<not> ?thesis"
    then have "(2 :: rat) powi 52 \<le> 2 powi (ilog2 ?x)" by (intro power_int_increasing) simp_all
    also have "\<dots> \<le> ?x" using x by (rule ilog2_bounds(1))
    also have "\<dots> < of_int (2 ^ 53) / 2"
      using assms(2) by (intro divide_strict_right_mono of_int_less_iff [THEN iffD2]) simp_all
    finally show False by simp
  qed
  then have "(2 :: rat) powi (52 - ilog2 ?x) = 2 * 2 ^ nat (51 - ilog2 ?x)"
    by (simp add: power_int_def nat_diff_distrib flip: power_Suc)
  then have "?x * 2 powi (52 - ilog2 ?x) = of_int (n * 2 ^ nat (51 - ilog2 ?x))" by simp
  with x show ?thesis by (rule fl64_exact_scaled)
qed simp

lemma fl64_half_bounds:
  assumes "0 \<le> x" "x < 2 ^ 51"
  shows "of_int \<lfloor>2 * x\<rfloor> / 2 \<le> fl64 x" "fl64 x \<le> of_int \<lceil>2 * x\<rceil> / 2"
proof -
  have lo: "0 \<le> \<lfloor>2 * x\<rfloor>" "\<lfloor>2 * x\<rfloor> < 2 ^ 53" "\<lceil>2 * x\<rceil> < 2 ^ 53" "0 \<le> \<lceil>2 * x\<rceil>"
    using assms by (simp_all add: floor_less_iff ceiling_less_iff le_ceiling_iff)
  have "of_int \<lfloor>2 * x\<rfloor> / 2 \<le> x" by linarith
  then have "fl64 (of_int \<lfloor>2 * x\<rfloor> / 2) \<le> fl64 x" using lo by (intro fl64_mono) simp_all
  then show "of_int \<lfloor>2 * x\<rfloor> / 2 \<le> fl64 x" using fl64_half_int [OF lo(1,2)] by simp
  have "x \<le> of_int \<lceil>2 * x\<rceil> / 2" by linarith
  then have "fl64 x \<le> fl64 (of_int \<lceil>2 * x\<rceil> / 2)" using assms by (intro fl64_mono) simp_all
  then show "fl64 x \<le> of_int \<lceil>2 * x\<rceil> / 2" using fl64_half_int [OF lo(4,3)] by simp
qed

section \<open>The operations\<close>

lemma f_of_int_exact: "0 \<le> n \<Longrightarrow> n \<le> 2 ^ 53 \<Longrightarrow> f_of_int n = of_int n"
  by (simp add: f_of_int_def)

lemma f_of_int_nonneg: "0 \<le> n \<Longrightarrow> 0 \<le> f_of_int n"
  by (simp add: f_of_int_def fl64_nonneg)

lemma f_mul_nonneg: "0 \<le> x \<Longrightarrow> 0 \<le> y \<Longrightarrow> 0 \<le> f_mul x y"
  by (simp add: f_mul_def fl64_nonneg)

lemma f_trunc_nonneg: "0 \<le> x \<Longrightarrow> 0 \<le> f_trunc x"
  by (simp add: f_trunc_def)

lemma f_trunc_mono: "0 \<le> x \<Longrightarrow> x \<le> y \<Longrightarrow> f_trunc x \<le> f_trunc y"
  by (simp add: f_trunc_def floor_mono)

text \<open>A factor of at most one shrinks an integer that a float holds exactly.\<close>

lemma f_trunc_mul_le:
  assumes "0 \<le> n" "n \<le> 2 ^ 53" "0 \<le> r" "r \<le> 1"
  shows "0 \<le> f_trunc (f_mul r (f_of_int n))" and "f_trunc (f_mul r (f_of_int n)) \<le> n"
proof -
  have eq: "f_of_int n = of_int n" using assms(1,2) by (rule f_of_int_exact)
  have nn: "0 \<le> r * (of_int n :: rat)" using assms by simp
  show "0 \<le> f_trunc (f_mul r (f_of_int n))"
    unfolding eq f_mul_def by (intro f_trunc_nonneg fl64_nonneg nn)
  have "r * of_int n \<le> (of_int n :: rat)"
    using assms by (intro mult_left_le_one_le) simp_all
  then have "fl64 (r * of_int n) \<le> of_int n"
    using nn assms(2) by (intro fl64_le_of_int)
  then show "f_trunc (f_mul r (f_of_int n)) \<le> n"
    using fl64_nonneg [OF nn] by (simp add: eq f_mul_def f_trunc_def floor_le_iff)
qed

section \<open>The error of rounding\<close>

lemma rne_error: "\<bar>of_int (rne x) - x\<bar> \<le> 1 / 2"
proof -
  have "of_int \<lfloor>x\<rfloor> \<le> x" "x < of_int \<lfloor>x\<rfloor> + 1" by linarith+
  then show ?thesis by (auto simp: rne_def Let_def abs_le_iff)
qed

text \<open>The relative error of rounding to the nearest float.\<close>

lemma fl64_error:
  assumes "0 \<le> x"
  shows "\<bar>fl64 x - x\<bar> \<le> x / 2 ^ 53"
proof (cases "x = 0")
  case False
  define e where "e = ilog2 x - 52"
  have pos: "0 < x" using assms False by simp
  have p: "0 < (2 :: rat) powi e" by (rule powi_pos_rat)
  have inv: "x * 2 powi (- e) * 2 powi e = x" by (simp add: power_int_minus field_simps)
  have "fl64 x = of_int (rne (x * 2 powi (- e))) * 2 powi e" using pos by (simp add: fl64_def e_def Let_def)
  then have "fl64 x - x = (of_int (rne (x * 2 powi (- e))) - x * 2 powi (- e)) * 2 powi e" using inv by (simp add: algebra_simps)
  then have "\<bar>fl64 x - x\<bar> = \<bar>of_int (rne (x * 2 powi (- e))) - x * 2 powi (- e)\<bar> * 2 powi e" using p by (simp add: abs_mult)
  also have "\<dots> \<le> 1 / 2 * 2 powi e" by (rule mult_right_mono [OF rne_error]) (use p in simp)
  also have "\<dots> = 2 powi (ilog2 x) / 2 ^ 53" unfolding e_def by (simp add: power_int_diff)
  also have "\<dots> \<le> x / 2 ^ 53" using ilog2_bounds(1) [OF pos] by (simp add: divide_right_mono)
  finally show ?thesis .
qed simp

lemma fl64_within:
  assumes "0 \<le> x" "x < 2 ^ 50"
  shows "\<bar>fl64 x - x\<bar> \<le> 1 / 8"
proof -
  have "x / 2 ^ 53 \<le> 1 / 8" using assms(2) by simp
  with fl64_error [OF assms(1)] show ?thesis by linarith
qed

end
