(* ===== verification/ProviderTypes.thy ===== *)
theory ProviderTypes
  imports GoStrings Float64
begin

text \<open>
  The vocabulary of \<open>internal/provider\<close>: the error values every adapter returns
  (\<open>errors.go\<close>) and the OpenAI-shaped request, response and stream types
  (\<open>types.go\<close>, \<open>provider.go\<close>).  A Go \<open>error\<close> is a value of \<open>goerr\<close>; \<open>nil\<close> is
  \<open>None\<close>.  A pointer field is an option, a nil slice is the empty list.
\<close>

section \<open>JSON values\<close>

text \<open>
  What \<open>encoding/json\<close> reads and writes.  A number token without fraction or exponent is
  \<open>JInt\<close>; any other one is \<open>JFloat\<close> with the \<open>float64\<close> value it denotes.
\<close>

datatype json = JNull | JBool bool | JInt int | JFloat rat | JStr string
  | JArr "json list" | JObj "(string \<times> json) list"

type_synonym extra = "(string \<times> json) list"

section \<open>Errors\<close>

text \<open>The seven sentinels of \<open>errors.go\<close>.\<close>

datatype sentinel = ErrAuth | ErrRateLimited | ErrContextLength | ErrInvalidRequest
  | ErrUpstream | ErrUnavailable | ErrTimeout

record UpstreamError =
  ue_Provider :: string
  ue_StatusCode :: int
  ue_RetryAfter :: duration
  ue_Message :: string
  ue_Sentinel :: sentinel

text \<open>
  Error values by the identity of the package variable they are compared against:
  the provider sentinels, the sentinels of the other packages and of the libraries the
  gateway matches with \<open>errors.Is\<close>, a \<open>*UpstreamError\<close>, an \<open>fmt.Errorf("...%w")\<close>
  wrapper and an error that matches nothing.
\<close>

datatype goerr =
    ProviderErr sentinel
  | ErrUnknownProvider | ErrNoProviderForModel
  | ErrMissingCredentials | ErrInvalidCredentials | ErrKeyNotFound
  | ErrMiss
  | ErrOpenState | ErrTooManyRequests
  | CtxCanceled | CtxDeadlineExceeded
  | RedisNil | PgxErrNoRows
  | ErrNotFlushable
  | UpstreamErr UpstreamError
  | Wrapped string goerr
  | OtherErr string

fun errors_Is :: "goerr \<Rightarrow> goerr \<Rightarrow> bool" where
  "errors_Is (UpstreamErr u) target =
     (UpstreamErr u = target \<or> ProviderErr (ue_Sentinel u) = target)"
| "errors_Is (Wrapped m e) target = (Wrapped m e = target \<or> errors_Is e target)"
| "errors_Is e target = (e = target)"

text \<open>\<open>errors.As(err, &ue)\<close> for \<open>*UpstreamError\<close>.\<close>

fun as_UpstreamError :: "goerr \<Rightarrow> UpstreamError option" where
  "as_UpstreamError (UpstreamErr u) = Some u"
| "as_UpstreamError (Wrapped m e) = as_UpstreamError e"
| "as_UpstreamError e = None"

definition NewUpstreamError :: "string \<Rightarrow> sentinel \<Rightarrow> int \<Rightarrow> string \<Rightarrow> UpstreamError" where
  "NewUpstreamError providerName sentinel statusCode message =
     \<lparr>ue_Provider = providerName, ue_StatusCode = statusCode, ue_RetryAfter = 0,
      ue_Message = message, ue_Sentinel = sentinel\<rparr>"

definition IsRetryable :: "goerr \<Rightarrow> bool" where
  "IsRetryable err \<longleftrightarrow>
     errors_Is err (ProviderErr ErrRateLimited) \<or> errors_Is err (ProviderErr ErrUpstream) \<or>
     errors_Is err (ProviderErr ErrUnavailable) \<or> errors_Is err (ProviderErr ErrTimeout)"

section \<open>Requests, responses and stream frames\<close>

record Message =
  m_Role :: string
  m_Content :: string
  m_Name :: string
  m_ToolCallID :: string
  m_Extra :: extra

record ChatRequest =
  r_Model :: string
  r_Messages :: "Message list"
  r_MaxTokens :: int
  r_Temperature :: "rat option"
  r_TopP :: "rat option"
  r_N :: int
  r_Stream :: bool
  r_Stop :: "string list"
  r_User :: string
  r_Extra :: extra

record Choice =
  c_Index :: int
  c_Message :: Message
  c_FinishReason :: string
  c_Extra :: extra

record Usage =
  u_PromptTokens :: int
  u_CompletionTokens :: int
  u_TotalTokens :: int
  u_Extra :: extra

record ChatResponse =
  p_ID :: string
  p_Object :: string
  p_Created :: int
  p_Model :: string
  p_Choices :: "Choice list"
  p_Usage :: "Usage option"
  p_Provider :: string

record MessageDelta =
  d_Role :: string
  d_Content :: string
  d_Extra :: extra

record StreamChoice =
  sc_Index :: int
  sc_Delta :: MessageDelta
  sc_FinishReason :: string

record ChatStreamChunk =
  k_ID :: string
  k_Object :: string
  k_Created :: int
  k_Model :: string
  k_Choices :: "StreamChoice list"
  k_Usage :: "Usage option"

text \<open>A stream event is exactly one of a chunk and an error.\<close>

datatype StreamEvent = EvChunk ChatStreamChunk | EvErr goerr

record ModelPricing =
  mp_Prompt :: string
  mp_Completion :: string
  mp_Currency :: string
  mp_Unit :: string

record DataPolicy =
  dp_Training :: string
  dp_RetentionDays :: int

record ModelInfo =
  mi_ID :: string
  mi_Object :: string
  mi_Created :: int
  mi_OwnedBy :: string
  mi_Pricing :: "ModelPricing option"
  mi_ContextLength :: int
  mi_Capabilities :: "string list"
  mi_DataPolicy :: "DataPolicy option"
  mi_Status :: string
  mi_Provider :: string

section \<open>Lemmas\<close>

lemma IsRetryable_Upstream [simp]:
  "IsRetryable (UpstreamErr u) \<longleftrightarrow>
     ue_Sentinel u \<in> {ErrRateLimited, ErrUpstream, ErrUnavailable, ErrTimeout}"
  by (auto simp: IsRetryable_def)

lemma IsRetryable_Wrapped [simp]: "IsRetryable (Wrapped m e) \<longleftrightarrow> IsRetryable e"
  by (simp add: IsRetryable_def)

lemma IsRetryable_not_breaker [simp]:
  "\<not> IsRetryable ErrOpenState" "\<not> IsRetryable ErrTooManyRequests"
  "\<not> IsRetryable CtxCanceled" "\<not> IsRetryable ErrNoProviderForModel"
  by (simp_all add: IsRetryable_def)

text \<open>Every error that carries a provider sentinel carries exactly one.\<close>

lemma errors_Is_sentinel_unique:
  "errors_Is e (ProviderErr s) \<Longrightarrow> errors_Is e (ProviderErr t) \<Longrightarrow> s = t"
  by (induction e) auto

lemma as_UpstreamError_Is:
  "as_UpstreamError e = Some u \<Longrightarrow> errors_Is e (ProviderErr s) \<longleftrightarrow> ue_Sentinel u = s"
  by (induction e) auto

end
