(* ===== verification/Adapters.thy ===== *)
theory Adapters
  imports ProviderTypes
begin

text \<open>
  Construction of the provider adapters (\<open>provider/openai/openai.go\<close>,
  \<open>provider/deepseek/deepseek.go\<close>, \<open>provider/anthropic/anthropic.go\<close>) and their
  translation of upstream failures into the sentinels of \<open>provider/errors.go\<close>
  (\<open>errors.go\<close> of both adapters).  An HTTP date in a \<open>Retry-After\<close> header and the clock it
  is compared with are the argument \<open>until\<close> of \<open>parseRetryAfter\<close>: the time left until
  the date, when the value parses as one.
\<close>

section \<open>Configuration and construction\<close>

record openai_Config =
  oc_Name :: string
  oc_Endpoint :: string
  oc_APIKey :: string
  oc_Organization :: string
  oc_Timeout :: duration
  oc_Exact :: "string list"
  oc_Glob :: "string list"
  oc_OwnedBy :: string

record openai_Provider =
  op_cfg :: openai_Config
  op_baseURL :: string

record anthropic_Config =
  ac_Name :: string
  ac_Endpoint :: string
  ac_APIKey :: string
  ac_APIVersion :: string
  ac_Timeout :: duration
  ac_DefaultMaxTokens :: int
  ac_Exact :: "string list"
  ac_Glob :: "string list"

record anthropic_Provider =
  ap_cfg :: anthropic_Config
  ap_baseURL :: string
  ap_defaultMaxTokens :: int

record deepseek_Config =
  dc_Name :: string
  dc_Endpoint :: string
  dc_APIKey :: string
  dc_Timeout :: duration
  dc_Exact :: "string list"
  dc_Glob :: "string list"

datatype new_error = NameRequired | APIKeyRequired

definition trim_slashes :: "string \<Rightarrow> string" where
  "trim_slashes s = trim_right (\<lambda>c. c = CHR ''/'') s"

definition openai_New :: "openai_Config \<Rightarrow> new_error + openai_Provider" where
  "openai_New cfg =
     (if oc_Name cfg = [] then Inl NameRequired
      else if oc_APIKey cfg = [] then Inl APIKeyRequired
      else let cfg1 = (if oc_Endpoint cfg = [] then cfg\<lparr>oc_Endpoint := ''https://api.openai.com''\<rparr> else cfg);
               cfg2 = (if oc_Timeout cfg1 = 0 then cfg1\<lparr>oc_Timeout := 60 * Second\<rparr> else cfg1);
               cfg3 = (if oc_OwnedBy cfg2 = [] then cfg2\<lparr>oc_OwnedBy := ''openai''\<rparr> else cfg2)
           in Inr \<lparr>op_cfg = cfg3, op_baseURL = trim_slashes (oc_Endpoint cfg3)\<rparr>)"

definition deepseek_New :: "deepseek_Config \<Rightarrow> new_error + openai_Provider" where
  "deepseek_New cfg =
     (let endpoint = (if dc_Endpoint cfg = [] then ''https://api.deepseek.com'' else dc_Endpoint cfg)
      in openai_New \<lparr>oc_Name = dc_Name cfg, oc_Endpoint = endpoint, oc_APIKey = dc_APIKey cfg,
           oc_Organization = [], oc_Timeout = dc_Timeout cfg, oc_Exact = dc_Exact cfg,
           oc_Glob = dc_Glob cfg, oc_OwnedBy = ''deepseek''\<rparr>)"

definition anthropic_New :: "anthropic_Config \<Rightarrow> new_error + anthropic_Provider" where
  "anthropic_New cfg =
     (if ac_Name cfg = [] then Inl NameRequired
      else if ac_APIKey cfg = [] then Inl APIKeyRequired
      else let cfg1 = (if ac_Endpoint cfg = [] then cfg\<lparr>ac_Endpoint := ''https://api.anthropic.com''\<rparr> else cfg);
               cfg2 = (if ac_APIVersion cfg1 = [] then cfg1\<lparr>ac_APIVersion := ''2023-06-01''\<rparr> else cfg1);
               cfg3 = (if ac_Timeout cfg2 = 0 then cfg2\<lparr>ac_Timeout := 60 * Second\<rparr> else cfg2);
               cfg4 = (if ac_DefaultMaxTokens cfg3 = 0 then cfg3\<lparr>ac_DefaultMaxTokens := 4096\<rparr> else cfg3)
           in Inr \<lparr>ap_cfg = cfg4, ap_baseURL = trim_slashes (ac_Endpoint cfg4),
                   ap_defaultMaxTokens = ac_DefaultMaxTokens cfg4\<rparr>)"

text \<open>A value of the interface \<open>provider.Provider\<close> is one of the two adapters.\<close>

datatype Provider = OpenAI openai_Provider | Anthropic anthropic_Provider

fun Name :: "Provider \<Rightarrow> string" where
  "Name (OpenAI p) = oc_Name (op_cfg p)"
| "Name (Anthropic p) = ac_Name (ap_cfg p)"

definition model_info :: "string \<Rightarrow> string \<Rightarrow> string \<Rightarrow> ModelInfo" where
  "model_info mid owner prov =
     \<lparr>mi_ID = mid, mi_Object = ''model'', mi_Created = 0, mi_OwnedBy = owner, mi_Pricing = None,
      mi_ContextLength = 0, mi_Capabilities = [], mi_DataPolicy = None, mi_Status = [],
      mi_Provider = prov\<rparr>"

definition openai_SupportedModels :: "openai_Provider \<Rightarrow> ModelInfo list" where
  "openai_SupportedModels p =
     map (\<lambda>mid. model_info mid (oc_OwnedBy (op_cfg p)) (oc_Name (op_cfg p))) (oc_Exact (op_cfg p))"

definition anthropic_SupportedModels :: "anthropic_Provider \<Rightarrow> ModelInfo list" where
  "anthropic_SupportedModels p =
     map (\<lambda>mid. model_info mid ''anthropic'' (ac_Name (ap_cfg p))) (ac_Exact (ap_cfg p))"

fun SupportedModels :: "Provider \<Rightarrow> ModelInfo list" where
  "SupportedModels (OpenAI p) = openai_SupportedModels p"
| "SupportedModels (Anthropic p) = anthropic_SupportedModels p"

section \<open>Request headers\<close>

type_synonym header = "(string \<times> string) list"

definition UserAgent :: "string \<Rightarrow> string" where
  "UserAgent version = ''x-beacon/'' @ version"

definition openai_setHeaders :: "string \<Rightarrow> openai_Provider \<Rightarrow> header \<Rightarrow> header" where
  "openai_setHeaders version p h =
     (let h1 = al_put ''Authorization'' (''Bearer '' @ oc_APIKey (op_cfg p)) h;
          h2 = al_put ''Content-Type'' ''application/json'' h1;
          h3 = al_put ''Accept'' ''application/json'' h2;
          h4 = al_put ''User-Agent'' (UserAgent version) h3
      in if oc_Organization (op_cfg p) \<noteq> []
         then al_put ''OpenAI-Organization'' (oc_Organization (op_cfg p)) h4 else h4)"

definition anthropic_setHeaders :: "string \<Rightarrow> anthropic_Provider \<Rightarrow> header \<Rightarrow> header" where
  "anthropic_setHeaders version p h =
     (let h1 = al_put ''X-Api-Key'' (ac_APIKey (ap_cfg p)) h;
          h2 = al_put ''Anthropic-Version'' (ac_APIVersion (ap_cfg p)) h1;
          h3 = al_put ''Content-Type'' ''application/json'' h2;
          h4 = al_put ''Accept'' ''application/json'' h3
      in al_put ''User-Agent'' (UserAgent version) h4)"

section \<open>Upstream failures\<close>

definition openai_mapStatusToSentinel :: "int \<Rightarrow> string \<Rightarrow> sentinel" where
  "openai_mapStatusToSentinel status code =
     (if status = 401 \<or> status = 403 then ErrAuth
      else if status = 429 then ErrRateLimited
      else if status = 400 then
        (if code = ''context_length_exceeded'' then ErrContextLength else ErrInvalidRequest)
      else if status = 404 \<or> status = 422 then ErrInvalidRequest
      else if status = 408 then ErrTimeout
      else if status = 503 then ErrUnavailable
      else ErrUpstream)"

definition anthropic_mapToSentinel :: "int \<Rightarrow> string \<Rightarrow> sentinel" where
  "anthropic_mapToSentinel status errorType =
     (if errorType = ''authentication_error'' \<or> errorType = ''permission_error'' then ErrAuth
      else if errorType = ''rate_limit_error'' then ErrRateLimited
      else if errorType = ''overloaded_error'' then ErrUnavailable
      else if errorType = ''invalid_request_error'' \<or> errorType = ''not_found_error'' then ErrInvalidRequest
      else if errorType = ''request_too_large'' then ErrContextLength
      else if errorType = ''api_error'' then ErrUpstream
      else if status = 401 \<or> status = 403 then ErrAuth
      else if status = 429 then ErrRateLimited
      else if status = 400 \<or> status = 404 \<or> status = 422 then ErrInvalidRequest
      else if status = 408 then ErrTimeout
      else if status = 503 then ErrUnavailable
      else if status = 529 then ErrUnavailable
      else ErrUpstream)"

text \<open>
  \<open>time.Duration(secs) * time.Second\<close> is an \<open>int64\<close> multiplication: a delta of more than
  9223372036 seconds wraps around.  Both adapters have this function.
\<close>

definition parseRetryAfter :: "(string \<Rightarrow> duration option) \<Rightarrow> string \<Rightarrow> duration" where
  "parseRetryAfter until v =
     (if v = [] then 0
      else case atoi v of
        Some secs \<Rightarrow>
          if 0 \<le> secs then wrap64 (secs * Second)
          else (case until v of Some d \<Rightarrow> if d > 0 then d else 0 | None \<Rightarrow> 0)
      | None \<Rightarrow> (case until v of Some d \<Rightarrow> if d > 0 then d else 0 | None \<Rightarrow> 0))"

text \<open>The message of an error body, or the body itself cut at 200 bytes.\<close>

definition embedded_message :: "string \<Rightarrow> string \<Rightarrow> string" where
  "embedded_message msg body =
     (if msg = [] then (if length body > 200 then take 200 body @ ''...'' else body) else msg)"

definition openai_mapHTTPError ::
    "(string \<Rightarrow> duration option) \<Rightarrow> string \<Rightarrow> int \<Rightarrow> string \<Rightarrow> string \<times> string \<Rightarrow> string \<Rightarrow> goerr" where
  "openai_mapHTTPError until providerName status body err_msg_code retryAfter =
     (let ue = NewUpstreamError providerName (openai_mapStatusToSentinel status (snd err_msg_code))
                 status (embedded_message (fst err_msg_code) body)
      in UpstreamErr (if status = 429 then ue\<lparr>ue_RetryAfter := parseRetryAfter until retryAfter\<rparr> else ue))"

definition anthropic_mapHTTPError ::
    "(string \<Rightarrow> duration option) \<Rightarrow> string \<Rightarrow> int \<Rightarrow> string \<Rightarrow> string \<times> string \<Rightarrow> string \<Rightarrow> goerr" where
  "anthropic_mapHTTPError until providerName status body err_msg_type retryAfter =
     (let ue = NewUpstreamError providerName (anthropic_mapToSentinel status (snd err_msg_type))
                 status (embedded_message (fst err_msg_type) body)
      in UpstreamErr (if status = 429 \<or> snd err_msg_type = ''overloaded_error''
                      then ue\<lparr>ue_RetryAfter := parseRetryAfter until retryAfter\<rparr> else ue))"

text \<open>
  Failures of \<open>http.Client.Do\<close>; \<open>msg\<close> is \<open>err.Error()\<close>.  The function is the same in
  both adapters.
\<close>

definition mapRequestError :: "string \<Rightarrow> goerr \<Rightarrow> string \<Rightarrow> goerr" where
  "mapRequestError providerName err msg =
     (if errors_Is err CtxCanceled then err
      else if errors_Is err CtxDeadlineExceeded
        then UpstreamErr (NewUpstreamError providerName ErrTimeout 0 ''request deadline exceeded'')
      else UpstreamErr (NewUpstreamError providerName ErrUnavailable 0 msg))"

section \<open>Lemmas\<close>

lemma openai_New_Name: "openai_New cfg = Inr p \<Longrightarrow> oc_Name (op_cfg p) = oc_Name cfg"
  by (auto simp: openai_New_def Let_def split: if_splits)

lemma openai_New_models: "openai_New cfg = Inr p \<Longrightarrow> oc_Exact (op_cfg p) = oc_Exact cfg"
  by (auto simp: openai_New_def Let_def split: if_splits)

lemma anthropic_New_Name: "anthropic_New cfg = Inr p \<Longrightarrow> ac_Name (ap_cfg p) = ac_Name cfg"
  by (auto simp: anthropic_New_def Let_def split: if_splits)

lemma anthropic_New_models: "anthropic_New cfg = Inr p \<Longrightarrow> ac_Exact (ap_cfg p) = ac_Exact cfg"
  by (auto simp: anthropic_New_def Let_def split: if_splits)

lemma deepseek_New_Name: "deepseek_New cfg = Inr p \<Longrightarrow> oc_Name (op_cfg p) = dc_Name cfg"
  by (auto simp: deepseek_New_def Let_def dest!: openai_New_Name)

lemma deepseek_New_models: "deepseek_New cfg = Inr p \<Longrightarrow> oc_Exact (op_cfg p) = dc_Exact cfg"
  by (auto simp: deepseek_New_def Let_def dest!: openai_New_models)

lemmas New_Name = openai_New_Name anthropic_New_Name deepseek_New_Name
lemmas New_models = openai_New_models anthropic_New_models deepseek_New_models

text \<open>Both tables agree on which statuses are worth a retry when the body names no type.\<close>

lemma mapStatus_agree:
  "openai_mapStatusToSentinel status [] =
     (if status = 529 then ErrUpstream else anthropic_mapToSentinel status [])"
  by (simp add: openai_mapStatusToSentinel_def anthropic_mapToSentinel_def)

lemma retry_seconds_in_range:
  "0 \<le> secs \<Longrightarrow> secs \<le> 9223372036 \<Longrightarrow> wrap64 (secs * Second) = secs * Second"
  by (rule wrap64_id) (simp add: in_int64_bounds)

end
