(* ===== verification/GoJson.thy ===== *)
theory GoJson
  imports ProviderTypes "HOL-Library.Multiset"
begin

text \<open>
  What the gateway uses of \<open>encoding/json\<close>: decoding a JSON value into a Go field, walking
  the members of an object, and the \<open>Extra\<close> idiom of \<open>types.go\<close>, which keeps the members a
  struct does not know and merges them back when it is written.  A decoder returns \<open>None\<close>
  for an error; a JSON \<open>null\<close> leaves a field as it was.  Struct keys match without regard to
  case, map keys exactly.
\<close>

section \<open>Scalars\<close>

fun dec_str :: "json \<Rightarrow> string \<Rightarrow> string option" where
  "dec_str (JStr s) old = Some s"
| "dec_str JNull old = Some old"
| "dec_str _ old = None"

fun dec_int :: "json \<Rightarrow> int \<Rightarrow> int option" where
  "dec_int (JInt n) old = (if in_int64 n then Some n else None)"
| "dec_int JNull old = Some old"
| "dec_int _ old = None"

fun dec_bool :: "json \<Rightarrow> bool \<Rightarrow> bool option" where
  "dec_bool (JBool b) old = Some b"
| "dec_bool JNull old = Some old"
| "dec_bool _ old = None"

fun dec_float_ptr :: "json \<Rightarrow> rat option option" where
  "dec_float_ptr (JInt n) = Some (Some (f_of_int n))"
| "dec_float_ptr (JFloat x) = Some (Some (fl64 x))"
| "dec_float_ptr JNull = Some None"
| "dec_float_ptr _ = None"

text \<open>Go prints a \<open>float64\<close> below \<open>10\<^sup>2\<^sup>1\<close> without exponent, so an integral one becomes an
  integer token.\<close>

definition enc_float :: "rat \<Rightarrow> json" where
  "enc_float x = (if of_int \<lfloor>x\<rfloor> = x \<and> \<bar>x\<bar> < 10 ^ 21 then JInt \<lfloor>x\<rfloor> else JFloat x)"

definition dec_list :: "(json \<Rightarrow> 'a option) \<Rightarrow> json \<Rightarrow> 'a list option" where
  "dec_list f j = (case j of JNull \<Rightarrow> Some [] | JArr js \<Rightarrow> those (map f js) | _ \<Rightarrow> None)"

text \<open>A nil slice is written as \<open>null\<close>.\<close>

definition enc_list :: "('a \<Rightarrow> json) \<Rightarrow> 'a list \<Rightarrow> json" where
  "enc_list f xs = (if xs = [] then JNull else JArr (map f xs))"

section \<open>Objects\<close>

text \<open>Decoding into a struct: each member in turn, an unknown key is skipped by \<open>field\<close>.\<close>

fun dec_members :: "(string \<Rightarrow> json \<Rightarrow> 'a \<Rightarrow> 'a option) \<Rightarrow> (string \<times> json) list \<Rightarrow> 'a \<Rightarrow> 'a option" where
  "dec_members field [] x = Some x"
| "dec_members field ((k, v) # kvs) x = (case field k v x of None \<Rightarrow> None | Some y \<Rightarrow> dec_members field kvs y)"

definition dec_struct :: "(string \<Rightarrow> json \<Rightarrow> 'a \<Rightarrow> 'a option) \<Rightarrow> 'a \<Rightarrow> json \<Rightarrow> 'a option" where
  "dec_struct field zero j = (case j of
     JNull \<Rightarrow> Some zero | JObj kvs \<Rightarrow> dec_members field kvs zero | _ \<Rightarrow> None)"

text \<open>A struct's own members: a field with \<open>omitempty\<close> is left out when it is empty.\<close>

definition members :: "(string \<times> bool \<times> json) list \<Rightarrow> (string \<times> json) list" where
  "members fs = map (\<lambda>(k, _, v). (k, v)) (filter (\<lambda>(_, present, _). present) fs)"

section \<open>The Extra idiom\<close>

text \<open>\<open>json.Unmarshal\<close> into a map: a repeated key keeps its last value.\<close>

definition to_map :: "(string \<times> json) list \<Rightarrow> (string \<times> json) list" where
  "to_map kvs = foldl (\<lambda>m (k, v). al_put k v m) [] kvs"

definition extra_of :: "string list \<Rightarrow> json \<Rightarrow> extra" where
  "extra_of known j = (case j of JObj kvs \<Rightarrow> filter (\<lambda>(k, _). k \<notin> set known) (to_map kvs) | _ \<Rightarrow> [])"

definition with_extra :: "string list \<Rightarrow> (string \<times> json) list \<Rightarrow> extra \<Rightarrow> json" where
  "with_extra known base ex =
     (if ex = [] then JObj base
      else JObj (sort_key fst (foldl (\<lambda>m (k, v). if k \<in> set known then m else al_put k v m) base ex)))"

fun opt_all :: "('a \<Rightarrow> bool) \<Rightarrow> 'a option \<Rightarrow> bool" where
  "opt_all P None = True"
| "opt_all P (Some x) = P x"

section \<open>Lemmas on scalars and lists\<close>

lemma dec_float_enc: "fl64 x = x \<Longrightarrow> dec_float_ptr (enc_float x) = Some (Some x)"
  by (auto simp: enc_float_def f_of_int_def)

lemma those_map_inverse: "(\<And>x. x \<in> set xs \<Longrightarrow> dec (enc x) = Some (nf x)) \<Longrightarrow>
  those (map (dec \<circ> enc) xs) = Some (map nf xs)"
  by (induction xs) auto

lemma dec_list_enc_list:
  "(\<And>x. x \<in> set xs \<Longrightarrow> dec (enc x) = Some (nf x)) \<Longrightarrow> dec_list dec (enc_list enc xs) = Some (map nf xs)"
  using those_map_inverse [of xs dec enc nf] by (auto simp: dec_list_def enc_list_def)

section \<open>Decoding does not depend on the order of the members\<close>

definition commutes :: "(string \<Rightarrow> json \<Rightarrow> 'a \<Rightarrow> 'a option) \<Rightarrow> string \<times> json \<Rightarrow> string \<times> json \<Rightarrow> bool" where
  "commutes field a b \<longleftrightarrow> (\<forall>x. Option.bind (field (fst a) (snd a) x) (field (fst b) (snd b)) =
     Option.bind (field (fst b) (snd b) x) (field (fst a) (snd a)))"

lemma dec_members_Cons: "dec_members field (a # kvs) x = Option.bind (field (fst a) (snd a) x) (dec_members field kvs)"
  by (cases a) (simp split: option.splits)

lemma dec_members_append:
  "dec_members field (xs @ ys) x = Option.bind (dec_members field xs x) (dec_members field ys)"
  by (induction xs arbitrary: x) (auto split: option.splits)

lemma dec_members_front:
  assumes "\<And>b. b \<in> set xs \<Longrightarrow> commutes field a b"
  shows "dec_members field (xs @ a # ys) x = dec_members field (a # xs @ ys) x"
  using assms
proof (induction xs arbitrary: x)
  case (Cons b xs)
  have "dec_members field (xs @ a # ys) = dec_members field (a # xs @ ys)" by (rule ext) (use Cons in simp)
  then have "dec_members field ((b # xs) @ a # ys) x = Option.bind (field (fst b) (snd b) x) (dec_members field (a # xs @ ys))"
    by (simp only: append_Cons dec_members_Cons)
  also have "\<dots> = Option.bind (Option.bind (field (fst b) (snd b) x) (field (fst a) (snd a))) (dec_members field (xs @ ys))"
    by (simp add: dec_members_Cons [abs_def])
  also have "\<dots> = dec_members field (a # (b # xs) @ ys) x"
    using Cons.prems [of b] by (simp add: commutes_def dec_members_Cons [abs_def] flip: bind_assoc)
  finally show ?case .
qed simp

lemma dec_members_perm:
  assumes "mset kvs = mset kvs'" "\<And>a b. a \<in> set kvs \<Longrightarrow> b \<in> set kvs \<Longrightarrow> a \<noteq> b \<Longrightarrow> commutes field a b"
  shows "dec_members field kvs x = dec_members field kvs' x"
  using assms
proof (induction kvs arbitrary: kvs' x)
  case (Cons a kvs)
  then have "a \<in> set kvs'" by (metis list.set_intros(1) set_mset_mset)
  then obtain us vs where uv: "kvs' = us @ a # vs" "a \<notin> set us" by (meson split_list_first)
  have ms: "mset kvs = mset (us @ vs)" using Cons.prems(1) by (simp add: uv)
  have sub: "set us \<subseteq> set kvs" using mset_eq_setD [OF ms] by auto
  have "dec_members field kvs' x = dec_members field (a # us @ vs) x"
    unfolding uv(1) using Cons.prems(2) sub uv(2) by (intro dec_members_front) (metis in_mono list.set_intros)
  moreover have "dec_members field kvs = dec_members field (us @ vs)"
    by (rule ext, rule Cons.IH [OF ms]) (use Cons.prems(2) in simp)
  ultimately show ?case by (simp add: dec_members_Cons)
qed simp

section \<open>Writing and reading the extra members\<close>

text \<open>The extra members of a value: distinct keys, none of which a field of the struct claims.\<close>

definition extra_ok :: "string list \<Rightarrow> extra \<Rightarrow> bool" where
  "extra_ok known ex \<longleftrightarrow> distinct (map fst ex) \<and> (\<forall>k \<in> set (map fst ex). \<forall>f \<in> set known. \<not> equal_fold k f)"

lemma extra_ok_known: "extra_ok known ex \<Longrightarrow> k \<in> set (map fst ex) \<Longrightarrow> k \<notin> set known"
  unfolding extra_ok_def by (metis equal_fold_refl)

lemma al_put_new: "k \<notin> fst ` set m \<Longrightarrow> al_put k v m = m @ [(k, v)]"
  by (induction m) auto

lemma merge_extra:
  assumes "distinct (map fst (base @ ex))" "\<And>k. k \<in> set (map fst ex) \<Longrightarrow> k \<notin> set known"
  shows "foldl (\<lambda>m (k, v). if k \<in> set known then m else al_put k v m) base ex = base @ ex"
  using assms
proof (induction ex arbitrary: base)
  case (Cons e ex)
  obtain k v where e: "e = (k, v)" by (cases e)
  have "k \<notin> fst ` set base" using Cons.prems(1) by (auto simp: e)
  moreover have "distinct (map fst ((base @ [(k, v)]) @ ex))" using Cons.prems(1) by (auto simp: e)
  ultimately show ?case using Cons.IH [of "base @ [(k, v)]"] Cons.prems(2) by (simp add: e al_put_new)
qed simp

lemma to_map_distinct: "distinct (map fst kvs) \<Longrightarrow> to_map kvs = kvs"
  unfolding to_map_def using merge_extra [of "[]" kvs "[]"] by simp

text \<open>
  The generic round trip: a struct written with its extra members reads back as the struct
  its own members describe, and the extra members come back, sorted by key.
\<close>

lemma with_extra_members:
  assumes base: "distinct (map fst base)" "set (map fst base) \<subseteq> set known" and ex: "extra_ok known ex"
  shows "\<exists>kvs. with_extra known base ex = JObj kvs \<and> mset kvs = mset (base @ ex) \<and> distinct (map fst kvs) \<and>
    extra_of known (JObj kvs) = sort_key fst ex"
proof -
  have disj: "distinct (map fst (base @ ex))"
    using base ex extra_ok_known [OF ex] by (auto simp: extra_ok_def)
  have "filter (\<lambda>(k, _). k \<notin> set known) base = []" using base(2) by (auto simp: filter_empty_conv)
  moreover have "filter (\<lambda>(k, _). k \<notin> set known) ex = ex"
    using extra_ok_known [OF ex] by (intro filter_True) force
  ultimately have filt: "filter (\<lambda>(k, _). k \<notin> set known) (base @ ex) = ex" by simp
  show ?thesis
  proof (cases "ex = []")
    case True
    with base filt show ?thesis by (auto simp: with_extra_def extra_of_def to_map_distinct)
  next
    case False
    let ?s = "sort_key fst (base @ ex)"
    have w: "with_extra known base ex = JObj ?s"
      using False merge_extra [OF disj extra_ok_known [OF ex]] by (simp add: with_extra_def)
    have "mset (map fst ?s) = mset (map fst (base @ ex))" by (simp only: mset_map mset_sort)
    then have d: "distinct (map fst ?s)" using disj by (metis mset_eq_imp_distinct_iff)
    have "filter (\<lambda>(k, _). k \<notin> set known) ?s = sort_key fst ex"
      unfolding filter_sort filt ..
    with d w show ?thesis by (auto simp: extra_of_def to_map_distinct)
  qed
qed

lemma commutes_skip:
  assumes "\<And>x. field (fst a) (snd a) x = Some x"
  shows "commutes field a b" "commutes field b a"
proof -
  have "field (fst a) (snd a) = Some" using assms by (rule ext)
  then show "commutes field a b" "commutes field b a" by (simp_all add: commutes_def)
qed

text \<open>
  The contract between a struct's field decoder and the \<open>Extra\<close> idiom: the known keys are
  lower case, a key that is none of them, in any case, is skipped, and two different fields
  do not interfere.
\<close>

locale struct_codec =
  fixes known :: "string list" and field :: "string \<Rightarrow> json \<Rightarrow> 'a \<Rightarrow> 'a option"
  assumes lower: "k \<in> set known \<Longrightarrow> to_lower k = k"
    and skip: "to_lower k \<notin> set known \<Longrightarrow> field k v x = Some x"
    and independent: "k \<in> set known \<Longrightarrow> l \<in> set known \<Longrightarrow> k \<noteq> l \<Longrightarrow> commutes field (k, v) (l, w)"
begin

lemma skip_extra: "extra_ok known ex \<Longrightarrow> (k, v) \<in> set ex \<Longrightarrow> field k v x = Some x"
  by (rule skip) (force simp: extra_ok_def equal_fold_def lower)

lemma dec_extra: "extra_ok known ex \<Longrightarrow> set ex' \<subseteq> set ex \<Longrightarrow> dec_members field ex' x = Some x"
  by (induction ex') (auto simp: skip_extra)

lemma read_back:
  assumes "distinct (map fst base)" "set (map fst base) \<subseteq> set known" "extra_ok known ex"
    and "dec_members field base zero = Some y"
  shows "dec_struct field zero (with_extra known base ex) = Some y"
    and "extra_of known (with_extra known base ex) = sort_key fst ex"
proof -
  from with_extra_members [OF assms(1-3)] obtain kvs where kvs: "with_extra known base ex = JObj kvs"
    "mset kvs = mset (base @ ex)" "distinct (map fst kvs)" "extra_of known (JObj kvs) = sort_key fst ex" by blast
  have set: "set kvs = set base \<union> set ex" using mset_eq_setD [OF kvs(2)] by simp
  have comm: "commutes field a b" if ab: "a \<in> set kvs" "b \<in> set kvs" "a \<noteq> b" for a b
  proof (cases "a \<in> set base \<and> b \<in> set base")
    case True
    have "fst a \<noteq> fst b" using kvs(3) ab by (metis distinct_map inj_onD)
    then show ?thesis using True assms(2) independent [of "fst a" "fst b" "snd a" "snd b"] by auto
  next
    case False
    then consider "a \<in> set ex" | "b \<in> set ex" using ab set by blast
    then show ?thesis
    proof cases
      case 1
      then have "field (fst a) (snd a) x = Some x" for x by (intro skip_extra [OF assms(3)]) simp
      then show ?thesis by (rule commutes_skip)
    next
      case 2
      then have "field (fst b) (snd b) x = Some x" for x by (intro skip_extra [OF assms(3)]) simp
      then show ?thesis by (rule commutes_skip)
    qed
  qed
  have "dec_members field kvs zero = dec_members field (base @ ex) zero"
    using kvs(2) comm by (rule dec_members_perm)
  also have "\<dots> = Some y" using assms(4) dec_extra [OF assms(3) order_refl] by (simp add: dec_members_append)
  finally show "dec_struct field zero (with_extra known base ex) = Some y" by (simp add: kvs(1) dec_struct_def)
  show "extra_of known (with_extra known base ex) = sort_key fst ex" using kvs by simp
qed

end

end
