(* ===== verification/ProviderJson.thy ===== *)
theory ProviderJson
  imports GoJson
begin

text \<open>
  \<open>internal/provider/types.go\<close>: how the wire types are read from and written to JSON.  Each
  of the five types with an \<open>Extra\<close> map has its field decoder, its \<open>UnmarshalJSON\<close> and its
  \<open>MarshalJSON\<close>, and interprets the locale \<open>struct_codec\<close>; the round trips follow from it.
\<close>

section \<open>Message\<close>

definition messageKnownKeys :: "string list" where
  "messageKnownKeys = [''role'', ''content'', ''name'', ''tool_call_id'']"

definition Message0 :: Message where
  "Message0 = \<lparr>m_Role = [], m_Content = [], m_Name = [], m_ToolCallID = [], m_Extra = []\<rparr>"

definition Message_field :: "string \<Rightarrow> json \<Rightarrow> Message \<Rightarrow> Message option" where
  "Message_field key v m = (let k = to_lower key in
     if k = ''role'' then map_option (\<lambda>s. m\<lparr>m_Role := s\<rparr>) (dec_str v (m_Role m))
     else if k = ''content'' then map_option (\<lambda>s. m\<lparr>m_Content := s\<rparr>) (dec_str v (m_Content m))
     else if k = ''name'' then map_option (\<lambda>s. m\<lparr>m_Name := s\<rparr>) (dec_str v (m_Name m))
     else if k = ''tool_call_id'' then map_option (\<lambda>s. m\<lparr>m_ToolCallID := s\<rparr>) (dec_str v (m_ToolCallID m))
     else Some m)"

definition Message_UnmarshalJSON :: "json \<Rightarrow> Message option" where
  "Message_UnmarshalJSON data = map_option (\<lambda>a. a\<lparr>m_Extra := extra_of messageKnownKeys data\<rparr>)
     (dec_struct Message_field Message0 data)"

definition Message_MarshalJSON :: "Message \<Rightarrow> json" where
  "Message_MarshalJSON m = with_extra messageKnownKeys (members [
     (''role'', True, JStr (m_Role m)),
     (''content'', True, JStr (m_Content m)),
     (''name'', m_Name m \<noteq> [], JStr (m_Name m)),
     (''tool_call_id'', m_ToolCallID m \<noteq> [], JStr (m_ToolCallID m))]) (m_Extra m)"

section \<open>ChatRequest\<close>

definition chatRequestKnownKeys :: "string list" where
  "chatRequestKnownKeys = [''model'', ''messages'', ''max_tokens'', ''temperature'', ''top_p'', ''n'',
     ''stream'', ''stop'', ''user'']"

definition ChatRequest0 :: ChatRequest where
  "ChatRequest0 = \<lparr>r_Model = [], r_Messages = [], r_MaxTokens = 0, r_Temperature = None, r_TopP = None,
     r_N = 0, r_Stream = False, r_Stop = [], r_User = [], r_Extra = []\<rparr>"

definition dec_string_elem :: "json \<Rightarrow> string option" where
  "dec_string_elem j = dec_str j []"

definition ChatRequest_field :: "string \<Rightarrow> json \<Rightarrow> ChatRequest \<Rightarrow> ChatRequest option" where
  "ChatRequest_field key v r = (let k = to_lower key in
     if k = ''model'' then map_option (\<lambda>s. r\<lparr>r_Model := s\<rparr>) (dec_str v (r_Model r))
     else if k = ''messages'' then map_option (\<lambda>ms. r\<lparr>r_Messages := ms\<rparr>) (dec_list Message_UnmarshalJSON v)
     else if k = ''max_tokens'' then map_option (\<lambda>n. r\<lparr>r_MaxTokens := n\<rparr>) (dec_int v (r_MaxTokens r))
     else if k = ''temperature'' then map_option (\<lambda>x. r\<lparr>r_Temperature := x\<rparr>) (dec_float_ptr v)
     else if k = ''top_p'' then map_option (\<lambda>x. r\<lparr>r_TopP := x\<rparr>) (dec_float_ptr v)
     else if k = ''n'' then map_option (\<lambda>n. r\<lparr>r_N := n\<rparr>) (dec_int v (r_N r))
     else if k = ''stream'' then map_option (\<lambda>b. r\<lparr>r_Stream := b\<rparr>) (dec_bool v (r_Stream r))
     else if k = ''stop'' then map_option (\<lambda>ss. r\<lparr>r_Stop := ss\<rparr>) (dec_list dec_string_elem v)
     else if k = ''user'' then map_option (\<lambda>s. r\<lparr>r_User := s\<rparr>) (dec_str v (r_User r))
     else Some r)"

definition ChatRequest_UnmarshalJSON :: "json \<Rightarrow> ChatRequest option" where
  "ChatRequest_UnmarshalJSON data = map_option (\<lambda>a. a\<lparr>r_Extra := extra_of chatRequestKnownKeys data\<rparr>)
     (dec_struct ChatRequest_field ChatRequest0 data)"

definition ChatRequest_MarshalJSON :: "ChatRequest \<Rightarrow> json" where
  "ChatRequest_MarshalJSON r = with_extra chatRequestKnownKeys (members [
     (''model'', True, JStr (r_Model r)),
     (''messages'', True, enc_list Message_MarshalJSON (r_Messages r)),
     (''max_tokens'', r_MaxTokens r \<noteq> 0, JInt (r_MaxTokens r)),
     (''temperature'', r_Temperature r \<noteq> None, enc_float (the (r_Temperature r))),
     (''top_p'', r_TopP r \<noteq> None, enc_float (the (r_TopP r))),
     (''n'', r_N r \<noteq> 0, JInt (r_N r)),
     (''stream'', r_Stream r, JBool (r_Stream r)),
     (''stop'', r_Stop r \<noteq> [], enc_list JStr (r_Stop r)),
     (''user'', r_User r \<noteq> [], JStr (r_User r))]) (r_Extra r)"

section \<open>Choice, Usage and the response\<close>

definition choiceKnownKeys :: "string list" where
  "choiceKnownKeys = [''index'', ''message'', ''finish_reason'']"

definition Choice0 :: Choice where
  "Choice0 = \<lparr>c_Index = 0, c_Message = Message0, c_FinishReason = [], c_Extra = []\<rparr>"

definition Choice_field :: "string \<Rightarrow> json \<Rightarrow> Choice \<Rightarrow> Choice option" where
  "Choice_field key v c = (let k = to_lower key in
     if k = ''index'' then map_option (\<lambda>n. c\<lparr>c_Index := n\<rparr>) (dec_int v (c_Index c))
     else if k = ''message'' then map_option (\<lambda>m. c\<lparr>c_Message := m\<rparr>) (Message_UnmarshalJSON v)
     else if k = ''finish_reason'' then map_option (\<lambda>s. c\<lparr>c_FinishReason := s\<rparr>) (dec_str v (c_FinishReason c))
     else Some c)"

definition Choice_UnmarshalJSON :: "json \<Rightarrow> Choice option" where
  "Choice_UnmarshalJSON data = map_option (\<lambda>a. a\<lparr>c_Extra := extra_of choiceKnownKeys data\<rparr>)
     (dec_struct Choice_field Choice0 data)"

definition Choice_MarshalJSON :: "Choice \<Rightarrow> json" where
  "Choice_MarshalJSON c = with_extra choiceKnownKeys (members [
     (''index'', True, JInt (c_Index c)),
     (''message'', True, Message_MarshalJSON (c_Message c)),
     (''finish_reason'', c_FinishReason c \<noteq> [], JStr (c_FinishReason c))]) (c_Extra c)"

definition usageKnownKeys :: "string list" where
  "usageKnownKeys = [''prompt_tokens'', ''completion_tokens'', ''total_tokens'']"

definition Usage0 :: Usage where
  "Usage0 = \<lparr>u_PromptTokens = 0, u_CompletionTokens = 0, u_TotalTokens = 0, u_Extra = []\<rparr>"

definition Usage_field :: "string \<Rightarrow> json \<Rightarrow> Usage \<Rightarrow> Usage option" where
  "Usage_field key v u = (let k = to_lower key in
     if k = ''prompt_tokens'' then map_option (\<lambda>n. u\<lparr>u_PromptTokens := n\<rparr>) (dec_int v (u_PromptTokens u))
     else if k = ''completion_tokens'' then map_option (\<lambda>n. u\<lparr>u_CompletionTokens := n\<rparr>) (dec_int v (u_CompletionTokens u))
     else if k = ''total_tokens'' then map_option (\<lambda>n. u\<lparr>u_TotalTokens := n\<rparr>) (dec_int v (u_TotalTokens u))
     else Some u)"

definition Usage_UnmarshalJSON :: "json \<Rightarrow> Usage option" where
  "Usage_UnmarshalJSON data = map_option (\<lambda>a. a\<lparr>u_Extra := extra_of usageKnownKeys data\<rparr>)
     (dec_struct Usage_field Usage0 data)"

definition Usage_MarshalJSON :: "Usage \<Rightarrow> json" where
  "Usage_MarshalJSON u = with_extra usageKnownKeys (members [
     (''prompt_tokens'', True, JInt (u_PromptTokens u)),
     (''completion_tokens'', True, JInt (u_CompletionTokens u)),
     (''total_tokens'', True, JInt (u_TotalTokens u))]) (u_Extra u)"

text \<open>\<open>*Usage\<close>: \<open>null\<close> is the nil pointer.\<close>

definition dec_usage_ptr :: "json \<Rightarrow> Usage option option" where
  "dec_usage_ptr j = (if j = JNull then Some None else map_option Some (Usage_UnmarshalJSON j))"

definition ChatResponse0 :: ChatResponse where
  "ChatResponse0 = \<lparr>p_ID = [], p_Object = [], p_Created = 0, p_Model = [], p_Choices = [], p_Usage = None, p_Provider = []\<rparr>"

definition ChatResponse_field :: "string \<Rightarrow> json \<Rightarrow> ChatResponse \<Rightarrow> ChatResponse option" where
  "ChatResponse_field key v p = (let k = to_lower key in
     if k = ''id'' then map_option (\<lambda>s. p\<lparr>p_ID := s\<rparr>) (dec_str v (p_ID p))
     else if k = ''object'' then map_option (\<lambda>s. p\<lparr>p_Object := s\<rparr>) (dec_str v (p_Object p))
     else if k = ''created'' then map_option (\<lambda>n. p\<lparr>p_Created := n\<rparr>) (dec_int v (p_Created p))
     else if k = ''model'' then map_option (\<lambda>s. p\<lparr>p_Model := s\<rparr>) (dec_str v (p_Model p))
     else if k = ''choices'' then map_option (\<lambda>cs. p\<lparr>p_Choices := cs\<rparr>) (dec_list Choice_UnmarshalJSON v)
     else if k = ''usage'' then map_option (\<lambda>u. p\<lparr>p_Usage := u\<rparr>) (dec_usage_ptr v)
     else Some p)"

definition ChatResponse_Unmarshal :: "json \<Rightarrow> ChatResponse option" where
  "ChatResponse_Unmarshal data = dec_struct ChatResponse_field ChatResponse0 data"

definition ChatResponse_Marshal :: "ChatResponse \<Rightarrow> json" where
  "ChatResponse_Marshal p = JObj (members [
     (''id'', True, JStr (p_ID p)),
     (''object'', True, JStr (p_Object p)),
     (''created'', True, JInt (p_Created p)),
     (''model'', True, JStr (p_Model p)),
     (''choices'', True, enc_list Choice_MarshalJSON (p_Choices p)),
     (''usage'', p_Usage p \<noteq> None, Usage_MarshalJSON (the (p_Usage p)))])"

section \<open>Stream chunks\<close>

definition messageDeltaKnownKeys :: "string list" where
  "messageDeltaKnownKeys = [''role'', ''content'']"

definition MessageDelta0 :: MessageDelta where
  "MessageDelta0 = \<lparr>d_Role = [], d_Content = [], d_Extra = []\<rparr>"

definition MessageDelta_field :: "string \<Rightarrow> json \<Rightarrow> MessageDelta \<Rightarrow> MessageDelta option" where
  "MessageDelta_field key v d = (let k = to_lower key in
     if k = ''role'' then map_option (\<lambda>s. d\<lparr>d_Role := s\<rparr>) (dec_str v (d_Role d))
     else if k = ''content'' then map_option (\<lambda>s. d\<lparr>d_Content := s\<rparr>) (dec_str v (d_Content d))
     else Some d)"

definition MessageDelta_UnmarshalJSON :: "json \<Rightarrow> MessageDelta option" where
  "MessageDelta_UnmarshalJSON data = map_option (\<lambda>a. a\<lparr>d_Extra := extra_of messageDeltaKnownKeys data\<rparr>)
     (dec_struct MessageDelta_field MessageDelta0 data)"

definition MessageDelta_MarshalJSON :: "MessageDelta \<Rightarrow> json" where
  "MessageDelta_MarshalJSON d = with_extra messageDeltaKnownKeys (members [
     (''role'', d_Role d \<noteq> [], JStr (d_Role d)),
     (''content'', d_Content d \<noteq> [], JStr (d_Content d))]) (d_Extra d)"

definition StreamChoice0 :: StreamChoice where
  "StreamChoice0 = \<lparr>sc_Index = 0, sc_Delta = MessageDelta0, sc_FinishReason = []\<rparr>"

definition StreamChoice_field :: "string \<Rightarrow> json \<Rightarrow> StreamChoice \<Rightarrow> StreamChoice option" where
  "StreamChoice_field key v c = (let k = to_lower key in
     if k = ''index'' then map_option (\<lambda>n. c\<lparr>sc_Index := n\<rparr>) (dec_int v (sc_Index c))
     else if k = ''delta'' then map_option (\<lambda>d. c\<lparr>sc_Delta := d\<rparr>) (MessageDelta_UnmarshalJSON v)
     else if k = ''finish_reason'' then map_option (\<lambda>s. c\<lparr>sc_FinishReason := s\<rparr>) (dec_str v (sc_FinishReason c))
     else Some c)"

definition ChatStreamChunk0 :: ChatStreamChunk where
  "ChatStreamChunk0 = \<lparr>k_ID = [], k_Object = [], k_Created = 0, k_Model = [], k_Choices = [], k_Usage = None\<rparr>"

definition ChatStreamChunk_field :: "string \<Rightarrow> json \<Rightarrow> ChatStreamChunk \<Rightarrow> ChatStreamChunk option" where
  "ChatStreamChunk_field key v c = (let k = to_lower key in
     if k = ''id'' then map_option (\<lambda>s. c\<lparr>k_ID := s\<rparr>) (dec_str v (k_ID c))
     else if k = ''object'' then map_option (\<lambda>s. c\<lparr>k_Object := s\<rparr>) (dec_str v (k_Object c))
     else if k = ''created'' then map_option (\<lambda>n. c\<lparr>k_Created := n\<rparr>) (dec_int v (k_Created c))
     else if k = ''model'' then map_option (\<lambda>s. c\<lparr>k_Model := s\<rparr>) (dec_str v (k_Model c))
     else if k = ''choices'' then
       map_option (\<lambda>cs. c\<lparr>k_Choices := cs\<rparr>) (dec_list (dec_struct StreamChoice_field StreamChoice0) v)
     else if k = ''usage'' then map_option (\<lambda>u. c\<lparr>k_Usage := u\<rparr>) (dec_usage_ptr v)
     else Some c)"

section \<open>The codecs\<close>

lemma known_lower:
  "list_all (\<lambda>k. to_lower k = k) (messageKnownKeys @ chatRequestKnownKeys @ choiceKnownKeys @ usageKnownKeys @ messageDeltaKnownKeys)"
  by code_simp

lemma lower_known_simps [simp]:
  "to_lower ''role'' = ''role''" "to_lower ''content'' = ''content''" "to_lower ''name'' = ''name''"
  "to_lower ''tool_call_id'' = ''tool_call_id''" "to_lower ''model'' = ''model''" "to_lower ''messages'' = ''messages''"
  "to_lower ''max_tokens'' = ''max_tokens''" "to_lower ''temperature'' = ''temperature''" "to_lower ''top_p'' = ''top_p''"
  "to_lower ''n'' = ''n''" "to_lower ''stream'' = ''stream''" "to_lower ''stop'' = ''stop''" "to_lower ''user'' = ''user''"
  "to_lower ''index'' = ''index''" "to_lower ''message'' = ''message''" "to_lower ''finish_reason'' = ''finish_reason''"
  "to_lower ''prompt_tokens'' = ''prompt_tokens''" "to_lower ''completion_tokens'' = ''completion_tokens''"
  "to_lower ''total_tokens'' = ''total_tokens''" "to_lower ''id'' = ''id''" "to_lower ''object'' = ''object''"
  "to_lower ''created'' = ''created''" "to_lower ''choices'' = ''choices''" "to_lower ''usage'' = ''usage''"
  by code_simp+

lemma bind_map_option [simp]: "Option.bind (map_option f x) g = Option.bind x (\<lambda>y. g (f y))"
  by (cases x) simp_all

lemma Message_fields:
  "Message_field ''role'' v m = map_option (\<lambda>s. m\<lparr>m_Role := s\<rparr>) (dec_str v (m_Role m))"
  "Message_field ''content'' v m = map_option (\<lambda>s. m\<lparr>m_Content := s\<rparr>) (dec_str v (m_Content m))"
  "Message_field ''name'' v m = map_option (\<lambda>s. m\<lparr>m_Name := s\<rparr>) (dec_str v (m_Name m))"
  "Message_field ''tool_call_id'' v m = map_option (\<lambda>s. m\<lparr>m_ToolCallID := s\<rparr>) (dec_str v (m_ToolCallID m))"
  by (simp_all add: Message_field_def)

interpretation message: struct_codec messageKnownKeys Message_field
proof unfold_locales
  fix k assume "k \<in> set messageKnownKeys"
  then show "to_lower k = k" using known_lower by (simp add: list_all_iff)
next
  fix k v x assume "to_lower k \<notin> set messageKnownKeys"
  then show "Message_field k v x = Some x" by (simp add: Message_field_def messageKnownKeys_def)
next
  fix k l v w assume "k \<in> set messageKnownKeys" "l \<in> set messageKnownKeys" "k \<noteq> l"
  then show "commutes Message_field (k, v) (l, w)"
    by (unfold messageKnownKeys_def list.set insert_iff empty_iff HOL.simp_thms, elim disjE;
        simp add: commutes_def Message_fields split: Option.bind_splits)
qed

lemma ChatRequest_fields:
  "ChatRequest_field ''model'' v r = map_option (\<lambda>s. r\<lparr>r_Model := s\<rparr>) (dec_str v (r_Model r))"
  "ChatRequest_field ''messages'' v r = map_option (\<lambda>ms. r\<lparr>r_Messages := ms\<rparr>) (dec_list Message_UnmarshalJSON v)"
  "ChatRequest_field ''max_tokens'' v r = map_option (\<lambda>n. r\<lparr>r_MaxTokens := n\<rparr>) (dec_int v (r_MaxTokens r))"
  "ChatRequest_field ''temperature'' v r = map_option (\<lambda>x. r\<lparr>r_Temperature := x\<rparr>) (dec_float_ptr v)"
  "ChatRequest_field ''top_p'' v r = map_option (\<lambda>x. r\<lparr>r_TopP := x\<rparr>) (dec_float_ptr v)"
  "ChatRequest_field ''n'' v r = map_option (\<lambda>n. r\<lparr>r_N := n\<rparr>) (dec_int v (r_N r))"
  "ChatRequest_field ''stream'' v r = map_option (\<lambda>b. r\<lparr>r_Stream := b\<rparr>) (dec_bool v (r_Stream r))"
  "ChatRequest_field ''stop'' v r = map_option (\<lambda>ss. r\<lparr>r_Stop := ss\<rparr>) (dec_list dec_string_elem v)"
  "ChatRequest_field ''user'' v r = map_option (\<lambda>s. r\<lparr>r_User := s\<rparr>) (dec_str v (r_User r))"
  by (simp_all add: ChatRequest_field_def)

interpretation chat_request: struct_codec chatRequestKnownKeys ChatRequest_field
proof unfold_locales
  fix k assume "k \<in> set chatRequestKnownKeys"
  then show "to_lower k = k" using known_lower by (simp add: list_all_iff)
next
  fix k v x assume "to_lower k \<notin> set chatRequestKnownKeys"
  then show "ChatRequest_field k v x = Some x" by (simp add: ChatRequest_field_def chatRequestKnownKeys_def)
next
  fix k l v w assume "k \<in> set chatRequestKnownKeys" "l \<in> set chatRequestKnownKeys" "k \<noteq> l"
  then show "commutes ChatRequest_field (k, v) (l, w)"
    by (unfold chatRequestKnownKeys_def list.set insert_iff empty_iff HOL.simp_thms, elim disjE;
        simp add: commutes_def ChatRequest_fields split: Option.bind_splits)
qed

lemma Choice_fields:
  "Choice_field ''index'' v c = map_option (\<lambda>n. c\<lparr>c_Index := n\<rparr>) (dec_int v (c_Index c))"
  "Choice_field ''message'' v c = map_option (\<lambda>m. c\<lparr>c_Message := m\<rparr>) (Message_UnmarshalJSON v)"
  "Choice_field ''finish_reason'' v c = map_option (\<lambda>s. c\<lparr>c_FinishReason := s\<rparr>) (dec_str v (c_FinishReason c))"
  by (simp_all add: Choice_field_def)

interpretation choice: struct_codec choiceKnownKeys Choice_field
proof unfold_locales
  fix k assume "k \<in> set choiceKnownKeys"
  then show "to_lower k = k" using known_lower by (simp add: list_all_iff)
next
  fix k v x assume "to_lower k \<notin> set choiceKnownKeys"
  then show "Choice_field k v x = Some x" by (simp add: Choice_field_def choiceKnownKeys_def)
next
  fix k l v w assume "k \<in> set choiceKnownKeys" "l \<in> set choiceKnownKeys" "k \<noteq> l"
  then show "commutes Choice_field (k, v) (l, w)"
    by (unfold choiceKnownKeys_def list.set insert_iff empty_iff HOL.simp_thms, elim disjE;
        simp add: commutes_def Choice_fields split: Option.bind_splits)
qed

lemma Usage_fields:
  "Usage_field ''prompt_tokens'' v u = map_option (\<lambda>n. u\<lparr>u_PromptTokens := n\<rparr>) (dec_int v (u_PromptTokens u))"
  "Usage_field ''completion_tokens'' v u = map_option (\<lambda>n. u\<lparr>u_CompletionTokens := n\<rparr>) (dec_int v (u_CompletionTokens u))"
  "Usage_field ''total_tokens'' v u = map_option (\<lambda>n. u\<lparr>u_TotalTokens := n\<rparr>) (dec_int v (u_TotalTokens u))"
  by (simp_all add: Usage_field_def)

interpretation usage: struct_codec usageKnownKeys Usage_field
proof unfold_locales
  fix k assume "k \<in> set usageKnownKeys"
  then show "to_lower k = k" using known_lower by (simp add: list_all_iff)
next
  fix k v x assume "to_lower k \<notin> set usageKnownKeys"
  then show "Usage_field k v x = Some x" by (simp add: Usage_field_def usageKnownKeys_def)
next
  fix k l v w assume "k \<in> set usageKnownKeys" "l \<in> set usageKnownKeys" "k \<noteq> l"
  then show "commutes Usage_field (k, v) (l, w)"
    by (unfold usageKnownKeys_def list.set insert_iff empty_iff HOL.simp_thms, elim disjE;
        simp add: commutes_def Usage_fields split: Option.bind_splits)
qed

lemma MessageDelta_fields:
  "MessageDelta_field ''role'' v d = map_option (\<lambda>s. d\<lparr>d_Role := s\<rparr>) (dec_str v (d_Role d))"
  "MessageDelta_field ''content'' v d = map_option (\<lambda>s. d\<lparr>d_Content := s\<rparr>) (dec_str v (d_Content d))"
  by (simp_all add: MessageDelta_field_def)

interpretation message_delta: struct_codec messageDeltaKnownKeys MessageDelta_field
proof unfold_locales
  fix k assume "k \<in> set messageDeltaKnownKeys"
  then show "to_lower k = k" using known_lower by (simp add: list_all_iff)
next
  fix k v x assume "to_lower k \<notin> set messageDeltaKnownKeys"
  then show "MessageDelta_field k v x = Some x" by (simp add: MessageDelta_field_def messageDeltaKnownKeys_def)
next
  fix k l v w assume "k \<in> set messageDeltaKnownKeys" "l \<in> set messageDeltaKnownKeys" "k \<noteq> l"
  then show "commutes MessageDelta_field (k, v) (l, w)"
    by (unfold messageDeltaKnownKeys_def list.set insert_iff empty_iff HOL.simp_thms, elim disjE;
        simp add: commutes_def MessageDelta_fields split: Option.bind_splits)
qed

lemma dec_members_members:
  "dec_members field (members ((k, p, v) # fs)) x =
     (if p then Option.bind (field k v x) (dec_members field (members fs)) else dec_members field (members fs) x)"
  "dec_members field (members []) x = Some x"
  by (simp_all add: members_def dec_members_Cons)

lemma map_fst_members: "map fst (members fs) = map fst (filter (\<lambda>(_, p, _). p) fs)"
  by (induction fs) (auto simp: members_def)

lemma members_keys:
  "distinct (map fst fs) \<Longrightarrow> distinct (map fst (members fs))" "set (map fst (members fs)) \<subseteq> set (map fst fs)"
  unfolding map_fst_members by (rule distinct_map_filter) auto

section \<open>Round trips\<close>

text \<open>What a value reads back as: the same, with its extra members sorted by key.\<close>

definition sorted_extra :: "extra \<Rightarrow> extra" where
  "sorted_extra ex = sort_key fst ex"

definition Message_norm :: "Message \<Rightarrow> Message" where
  "Message_norm m = m\<lparr>m_Extra := sorted_extra (m_Extra m)\<rparr>"

definition Message_ok :: "Message \<Rightarrow> bool" where
  "Message_ok m \<longleftrightarrow> extra_ok messageKnownKeys (m_Extra m)"

lemma Message_read_back:
  assumes "Message_ok m"
  shows "Message_UnmarshalJSON (Message_MarshalJSON m) = Some (Message_norm m)"
proof -
  let ?fs = "[(''role'', True, JStr (m_Role m)), (''content'', True, JStr (m_Content m)),
     (''name'', m_Name m \<noteq> [], JStr (m_Name m)), (''tool_call_id'', m_ToolCallID m \<noteq> [], JStr (m_ToolCallID m))]"
  have d: "dec_members Message_field (members ?fs) Message0 = Some (m\<lparr>m_Extra := []\<rparr>)"
    by (cases m; cases "m_Name m = []"; cases "m_ToolCallID m = []")
       (simp_all add: dec_members_members Message_fields Message0_def)
  have k: "distinct (map fst (members ?fs))" "set (map fst (members ?fs)) \<subseteq> set messageKnownKeys"
    using members_keys [of ?fs] by (auto simp: messageKnownKeys_def)
  from message.read_back [OF k assms [unfolded Message_ok_def] d] show ?thesis
    by (simp add: Message_UnmarshalJSON_def Message_MarshalJSON_def Message_norm_def sorted_extra_def)
qed

definition Usage_norm :: "Usage \<Rightarrow> Usage" where
  "Usage_norm u = u\<lparr>u_Extra := sorted_extra (u_Extra u)\<rparr>"

definition Usage_ok :: "Usage \<Rightarrow> bool" where
  "Usage_ok u \<longleftrightarrow> extra_ok usageKnownKeys (u_Extra u) \<and>
     in_int64 (u_PromptTokens u) \<and> in_int64 (u_CompletionTokens u) \<and> in_int64 (u_TotalTokens u)"

lemma Usage_read_back:
  assumes "Usage_ok u"
  shows "Usage_UnmarshalJSON (Usage_MarshalJSON u) = Some (Usage_norm u)"
proof -
  let ?fs = "[(''prompt_tokens'', True, JInt (u_PromptTokens u)), (''completion_tokens'', True, JInt (u_CompletionTokens u)),
     (''total_tokens'', True, JInt (u_TotalTokens u))]"
  have d: "dec_members Usage_field (members ?fs) Usage0 = Some (u\<lparr>u_Extra := []\<rparr>)"
    using assms by (cases u) (simp add: dec_members_members Usage_fields Usage0_def Usage_ok_def)
  have k: "distinct (map fst (members ?fs))" "set (map fst (members ?fs)) \<subseteq> set usageKnownKeys"
    using members_keys [of ?fs] by (auto simp: usageKnownKeys_def)
  have "extra_ok usageKnownKeys (u_Extra u)" using assms by (simp add: Usage_ok_def)
  from usage.read_back [OF k this d] show ?thesis
    by (simp add: Usage_UnmarshalJSON_def Usage_MarshalJSON_def Usage_norm_def sorted_extra_def)
qed

definition Choice_norm :: "Choice \<Rightarrow> Choice" where
  "Choice_norm c = c\<lparr>c_Message := Message_norm (c_Message c), c_Extra := sorted_extra (c_Extra c)\<rparr>"

definition Choice_ok :: "Choice \<Rightarrow> bool" where
  "Choice_ok c \<longleftrightarrow> extra_ok choiceKnownKeys (c_Extra c) \<and> Message_ok (c_Message c) \<and> in_int64 (c_Index c)"

lemma Choice_read_back:
  assumes "Choice_ok c"
  shows "Choice_UnmarshalJSON (Choice_MarshalJSON c) = Some (Choice_norm c)"
proof -
  let ?fs = "[(''index'', True, JInt (c_Index c)), (''message'', True, Message_MarshalJSON (c_Message c)),
     (''finish_reason'', c_FinishReason c \<noteq> [], JStr (c_FinishReason c))]"
  have d: "dec_members Choice_field (members ?fs) Choice0 = Some (c\<lparr>c_Message := Message_norm (c_Message c), c_Extra := []\<rparr>)"
    using assms by (cases c; cases "c_FinishReason c = []")
      (simp_all add: dec_members_members Choice_fields Choice0_def Choice_ok_def Message_read_back)
  have k: "distinct (map fst (members ?fs))" "set (map fst (members ?fs)) \<subseteq> set choiceKnownKeys"
    using members_keys [of ?fs] by (auto simp: choiceKnownKeys_def)
  have "extra_ok choiceKnownKeys (c_Extra c)" using assms by (simp add: Choice_ok_def)
  from choice.read_back [OF k this d] show ?thesis
    by (simp add: Choice_UnmarshalJSON_def Choice_MarshalJSON_def Choice_norm_def sorted_extra_def)
qed

definition ChatRequest_norm :: "ChatRequest \<Rightarrow> ChatRequest" where
  "ChatRequest_norm r = r\<lparr>r_Messages := map Message_norm (r_Messages r), r_Extra := sorted_extra (r_Extra r)\<rparr>"

text \<open>A request a Go program can hold: integers of 64 bits, numbers that are \<open>float64\<close>s.\<close>

definition ChatRequest_ok :: "ChatRequest \<Rightarrow> bool" where
  "ChatRequest_ok r \<longleftrightarrow> extra_ok chatRequestKnownKeys (r_Extra r) \<and> list_all Message_ok (r_Messages r) \<and>
     in_int64 (r_MaxTokens r) \<and> in_int64 (r_N r) \<and>
     opt_all (\<lambda>x. fl64 x = x) (r_Temperature r) \<and> opt_all (\<lambda>x. fl64 x = x) (r_TopP r)"

lemma messages_read_back:
  "list_all Message_ok ms \<Longrightarrow> dec_list Message_UnmarshalJSON (enc_list Message_MarshalJSON ms) = Some (map Message_norm ms)"
  by (rule dec_list_enc_list) (simp add: list_all_iff Message_read_back)

lemma stop_read_back: "dec_list dec_string_elem (enc_list JStr ss) = Some ss"
  using dec_list_enc_list [of ss dec_string_elem JStr id] by (simp add: dec_string_elem_def)

lemma ChatRequest_members_read_back:
  assumes "ChatRequest_ok r"
  shows "dec_members ChatRequest_field (members [
     (''model'', True, JStr (r_Model r)),
     (''messages'', True, enc_list Message_MarshalJSON (r_Messages r)),
     (''max_tokens'', r_MaxTokens r \<noteq> 0, JInt (r_MaxTokens r)),
     (''temperature'', r_Temperature r \<noteq> None, enc_float (the (r_Temperature r))),
     (''top_p'', r_TopP r \<noteq> None, enc_float (the (r_TopP r))),
     (''n'', r_N r \<noteq> 0, JInt (r_N r)),
     (''stream'', r_Stream r, JBool (r_Stream r)),
     (''stop'', r_Stop r \<noteq> [], enc_list JStr (r_Stop r)),
     (''user'', r_User r \<noteq> [], JStr (r_User r))]) ChatRequest0 =
   Some (r\<lparr>r_Messages := map Message_norm (r_Messages r), r_Extra := []\<rparr>)"
proof -
  have t: "r_Temperature r \<noteq> None \<Longrightarrow> dec_float_ptr (enc_float (the (r_Temperature r))) = Some (r_Temperature r)"
    "r_TopP r \<noteq> None \<Longrightarrow> dec_float_ptr (enc_float (the (r_TopP r))) = Some (r_TopP r)"
    using assms by (auto simp: ChatRequest_ok_def dec_float_enc)
  have m: "dec_list Message_UnmarshalJSON (enc_list Message_MarshalJSON (r_Messages r)) = Some (map Message_norm (r_Messages r))"
    using assms by (intro messages_read_back) (simp add: ChatRequest_ok_def)
  have i: "in_int64 (r_MaxTokens r)" "in_int64 (r_N r)" using assms by (simp_all add: ChatRequest_ok_def)
  show ?thesis
    using t m i stop_read_back [of "r_Stop r"]
    by (cases r; cases "r_Temperature r = None"; cases "r_TopP r = None"; cases "r_Stream r")
       (simp_all add: dec_members_members ChatRequest_fields ChatRequest0_def)
qed

definition ChatResponse_ok :: "ChatResponse \<Rightarrow> bool" where
  "ChatResponse_ok p \<longleftrightarrow> list_all Choice_ok (p_Choices p) \<and> opt_all Usage_ok (p_Usage p) \<and> in_int64 (p_Created p)"

definition ChatResponse_norm :: "ChatResponse \<Rightarrow> ChatResponse" where
  "ChatResponse_norm p = p\<lparr>p_Choices := map Choice_norm (p_Choices p), p_Usage := map_option Usage_norm (p_Usage p), p_Provider := []\<rparr>"

lemma ChatResponse_fields:
  "ChatResponse_field ''id'' v p = map_option (\<lambda>s. p\<lparr>p_ID := s\<rparr>) (dec_str v (p_ID p))"
  "ChatResponse_field ''object'' v p = map_option (\<lambda>s. p\<lparr>p_Object := s\<rparr>) (dec_str v (p_Object p))"
  "ChatResponse_field ''created'' v p = map_option (\<lambda>n. p\<lparr>p_Created := n\<rparr>) (dec_int v (p_Created p))"
  "ChatResponse_field ''model'' v p = map_option (\<lambda>s. p\<lparr>p_Model := s\<rparr>) (dec_str v (p_Model p))"
  "ChatResponse_field ''choices'' v p = map_option (\<lambda>cs. p\<lparr>p_Choices := cs\<rparr>) (dec_list Choice_UnmarshalJSON v)"
  "ChatResponse_field ''usage'' v p = map_option (\<lambda>u. p\<lparr>p_Usage := u\<rparr>) (dec_usage_ptr v)"
  by (simp_all add: ChatResponse_field_def)

lemma usage_ptr_read_back: "Usage_ok u \<Longrightarrow> dec_usage_ptr (Usage_MarshalJSON u) = Some (Some (Usage_norm u))"
  by (simp add: dec_usage_ptr_def Usage_read_back) (auto simp: Usage_MarshalJSON_def with_extra_def)

lemma ChatResponse_read_back:
  assumes "ChatResponse_ok p"
  shows "ChatResponse_Unmarshal (ChatResponse_Marshal p) = Some (ChatResponse_norm p)"
proof -
  have c: "dec_list Choice_UnmarshalJSON (enc_list Choice_MarshalJSON (p_Choices p)) = Some (map Choice_norm (p_Choices p))"
    using assms by (intro dec_list_enc_list Choice_read_back) (simp add: ChatResponse_ok_def list_all_iff)
  show ?thesis
    using assms c
    by (cases p; cases "p_Usage p")
       (simp_all add: ChatResponse_Unmarshal_def ChatResponse_Marshal_def dec_struct_def dec_members_members ChatResponse_fields
         ChatResponse0_def ChatResponse_norm_def ChatResponse_ok_def usage_ptr_read_back)
qed

section \<open>Properties\<close>

text \<open>
  C9: a chat request that is written for an upstream and read again is the same request, the
  unknown members of the request and of its messages included; only their order is
  normalised.
\<close>

theorem chat_request_roundtrip:
  assumes "ChatRequest_ok r"
  shows "ChatRequest_UnmarshalJSON (ChatRequest_MarshalJSON r) = Some (ChatRequest_norm r)"
proof -
  let ?fs = "[
     (''model'', True, JStr (r_Model r)),
     (''messages'', True, enc_list Message_MarshalJSON (r_Messages r)),
     (''max_tokens'', r_MaxTokens r \<noteq> 0, JInt (r_MaxTokens r)),
     (''temperature'', r_Temperature r \<noteq> None, enc_float (the (r_Temperature r))),
     (''top_p'', r_TopP r \<noteq> None, enc_float (the (r_TopP r))),
     (''n'', r_N r \<noteq> 0, JInt (r_N r)),
     (''stream'', r_Stream r, JBool (r_Stream r)),
     (''stop'', r_Stop r \<noteq> [], enc_list JStr (r_Stop r)),
     (''user'', r_User r \<noteq> [], JStr (r_User r))]"
  have k: "distinct (map fst (members ?fs))" "set (map fst (members ?fs)) \<subseteq> set chatRequestKnownKeys"
    using members_keys [of ?fs] by (auto simp: chatRequestKnownKeys_def)
  have "extra_ok chatRequestKnownKeys (r_Extra r)" using assms by (simp add: ChatRequest_ok_def)
  from chat_request.read_back [OF k this ChatRequest_members_read_back [OF assms]] show ?thesis
    by (simp add: ChatRequest_UnmarshalJSON_def ChatRequest_MarshalJSON_def ChatRequest_norm_def sorted_extra_def)
qed

definition demo_chat_request :: ChatRequest where
  "demo_chat_request = ChatRequest0\<lparr>r_Model := ''gpt'', r_Temperature := Some 0, r_N := 2,
     r_Messages := [Message0\<lparr>m_Role := ''user'', m_Content := ''hi'', m_Extra := [(''refusal'', JNull)]\<rparr>],
     r_Extra := [(''tools'', JArr [JStr ''t'']), (''seed'', JInt 7)]\<rparr>"

theorem chat_request_roundtrip_witness:
  "ChatRequest_UnmarshalJSON (ChatRequest_MarshalJSON demo_chat_request) =
     Some (demo_chat_request\<lparr>r_Extra := [(''seed'', JInt 7), (''tools'', JArr [JStr ''t''])]\<rparr>)"
proof -
  have "ChatRequest_ok demo_chat_request" by code_simp
  moreover have "ChatRequest_norm demo_chat_request =
      demo_chat_request\<lparr>r_Extra := [(''seed'', JInt 7), (''tools'', JArr [JStr ''t''])]\<rparr>" by code_simp
  ultimately show ?thesis using chat_request_roundtrip [of demo_chat_request] by simp
qed

end
