(* ===== verification/Upstream.thy ===== *)
theory Upstream
  imports Adapters ProviderJson
begin

text \<open>
  What the two adapters share when they talk to an upstream: the HTTP exchange, the decoding
  of error bodies (\<open>errors.go\<close> of both), and the scanning of an SSE body with the channel
  the events are sent on (\<open>stream.go\<close> of both).  The HTTP client, the parser of JSON texts
  and the clock are a record of arguments.  The locale \<open>sse_handler\<close> is the contract between
  the scan loop and an adapter's treatment of one payload.
\<close>

section \<open>HTTP\<close>

text \<open>A request body: the bytes \<open>json.Marshal\<close> gives for a value, or bytes as they are.\<close>

datatype payload = Marshalled json | Raw string

record http_request =
  hq_URL :: string
  hq_Header :: header
  hq_Body :: payload
  hq_Timeout :: "duration option"

text \<open>A response; reading its body may fail.\<close>

record http_response =
  hs_Status :: int
  hs_Header :: header
  hs_Body :: "goerr + string"

record 'w http_env =
  he_Build :: "string \<Rightarrow> goerr option"
  he_Do :: "http_request \<Rightarrow> 'w \<Rightarrow> (goerr + http_response) \<times> 'w"
  he_Parse :: "string \<Rightarrow> string + json"
  he_Until :: "string \<Rightarrow> duration option"
  he_Version :: string
  he_Text :: "goerr \<Rightarrow> string"
  he_Now :: "'w \<Rightarrow> int"

definition header_get :: "header \<Rightarrow> string \<Rightarrow> string" where
  "header_get h k = (case map_of h k of None \<Rightarrow> [] | Some v \<Rightarrow> v)"

section \<open>Error bodies\<close>

text \<open>
  \<open>json.Unmarshal\<close> whose error is ignored: a member of the wrong type leaves its field empty
  and decoding goes on.
\<close>

definition lenient_str :: "string \<Rightarrow> (string \<times> json) list \<Rightarrow> string" where
  "lenient_str key kvs = foldl (\<lambda>old (k, v). if equal_fold k key then (case dec_str v old of Some s \<Rightarrow> s | None \<Rightarrow> old) else old) [] kvs"

definition lenient_obj :: "string \<Rightarrow> (string \<times> json) list \<Rightarrow> (string \<times> json) list" where
  "lenient_obj key kvs = concat (map (\<lambda>(k, v). if equal_fold k key then (case v of JObj m \<Rightarrow> m | _ \<Rightarrow> []) else []) kvs)"

text \<open>The message and the classifying member of the \<open>error\<close> object of a body.\<close>

definition error_body :: "(string \<Rightarrow> string + json) \<Rightarrow> string \<Rightarrow> string \<Rightarrow> string \<times> string" where
  "error_body parse classifier body = (case parse body of
     Inr (JObj kvs) \<Rightarrow> (lenient_str ''message'' (lenient_obj ''error'' kvs), lenient_str classifier (lenient_obj ''error'' kvs))
   | _ \<Rightarrow> ([], []))"

section \<open>Server-sent events\<close>

text \<open>The payload of a \<open>data:\<close> line; other lines are skipped.\<close>

definition sse_data :: "string \<Rightarrow> string option" where
  "sse_data line = (if line = [] \<or> has_prefix line '':'' then None
     else if \<not> has_prefix line ''data:'' then None
     else Some (trim_prefix (drop 5 line) '' ''))"

text \<open>
  \<open>sendEvent\<close>: \<open>sends i\<close> says whether the \<open>i\<close>-th send completes before the context is
  cancelled.
\<close>

definition sendEvent :: "(nat \<Rightarrow> bool) \<Rightarrow> StreamEvent \<Rightarrow> StreamEvent list \<Rightarrow> StreamEvent list \<times> bool" where
  "sendEvent sends ev evs = (if sends (length evs) then (evs @ [ev], True) else (evs, False))"

text \<open>The loop of \<open>readSSE\<close>; the flag of the result says that the handler ended it.\<close>

fun scan_sse ::
  "(string \<Rightarrow> 's \<Rightarrow> StreamEvent list \<Rightarrow> 's \<times> StreamEvent list \<times> bool) \<Rightarrow> string list \<Rightarrow> 's \<Rightarrow> StreamEvent list \<Rightarrow> StreamEvent list \<times> bool" where
  "scan_sse handle [] s evs = (evs, False)"
| "scan_sse handle (line # lines) s evs = (case sse_data line of
     None \<Rightarrow> scan_sse handle lines s evs
   | Some data \<Rightarrow> (case handle data s evs of (s', evs', stop) \<Rightarrow>
       if stop then (evs', True) else scan_sse handle lines s' evs'))"

text \<open>
  What the producer reads: the lines the scanner returns, its error at the end, and whether
  the context is done by then.
\<close>

record sse_input =
  si_lines :: "string list"
  si_scan_err :: "string option"
  si_ctx_done :: bool
  si_sends :: "nat \<Rightarrow> bool"

definition upstream_event :: "string \<Rightarrow> sentinel \<Rightarrow> string \<Rightarrow> StreamEvent" where
  "upstream_event name sentinel msg = EvErr (UpstreamErr (NewUpstreamError name sentinel 0 msg))"

definition end_sse :: "string \<Rightarrow> string \<Rightarrow> sse_input \<Rightarrow> StreamEvent list \<times> bool \<Rightarrow> StreamEvent list" where
  "end_sse name truncated inp = (\<lambda>(evs, returned).
     if returned \<or> si_ctx_done inp then evs
     else case si_scan_err inp of
       Some err \<Rightarrow> fst (sendEvent (si_sends inp) (upstream_event name ErrUpstream (''stream read: '' @ err)) evs)
     | None \<Rightarrow> fst (sendEvent (si_sends inp) (upstream_event name ErrUpstream truncated) evs))"

section \<open>The shape of a stream\<close>

text \<open>Chunks, and at most one error, which is last.\<close>

fun stream_shape :: "StreamEvent list \<Rightarrow> bool" where
  "stream_shape [] = True"
| "stream_shape (EvChunk c # evs) = stream_shape evs"
| "stream_shape (EvErr e # evs) = (evs = [])"

fun is_chunk :: "StreamEvent \<Rightarrow> bool" where
  "is_chunk (EvChunk c) = True"
| "is_chunk (EvErr e) = False"

lemma stream_shape_chunks: "list_all is_chunk evs \<Longrightarrow> stream_shape evs"
  by (induction evs rule: stream_shape.induct) auto

lemma stream_shape_snoc: "list_all is_chunk evs \<Longrightarrow> stream_shape (evs @ [ev])"
  by (induction evs rule: stream_shape.induct) (cases ev; auto)+

text \<open>
  The contract of a handler: on chunks so far it either goes on with at most one chunk more,
  or stops, with at most one event more.
\<close>

locale sse_handler =
  fixes handle :: "string \<Rightarrow> 's \<Rightarrow> StreamEvent list \<Rightarrow> 's \<times> StreamEvent list \<times> bool"
  assumes goes_on: "handle data s evs = (s', evs', False) \<Longrightarrow> evs' = evs \<or> (\<exists>c. evs' = evs @ [EvChunk c])"
    and stops: "handle data s evs = (s', evs', True) \<Longrightarrow> evs' = evs \<or> (\<exists>ev. evs' = evs @ [ev])"
begin

lemma scan_shape:
  "scan_sse handle lines s evs = (evs', returned) \<Longrightarrow> list_all is_chunk evs \<Longrightarrow>
   stream_shape evs' \<and> (\<not> returned \<longrightarrow> list_all is_chunk evs')"
proof (induction lines arbitrary: s evs)
  case Nil
  then show ?case by (simp add: stream_shape_chunks)
next
  case (Cons line lines)
  show ?case
  proof (cases "sse_data line")
    case None
    with Cons.IH [of s evs] Cons.prems show ?thesis by simp
  next
    case (Some data)
    obtain s1 evs1 stop where h: "handle data s evs = (s1, evs1, stop)" by (metis prod_cases3)
    show ?thesis
    proof (cases stop)
      case True
      with h Cons.prems Some have e: "evs' = evs1" "returned" by auto
      from True h have "handle data s evs = (s1, evs1, True)" by simp
      from stops [OF this] Cons.prems(2) e show ?thesis
        by (auto intro: stream_shape_chunks stream_shape_snoc)
    next
      case False
      then have "handle data s evs = (s1, evs1, False)" using h by simp
      from goes_on [OF this] Cons.prems(2) have "list_all is_chunk evs1"
        by auto
      with Cons h Some False show ?thesis by auto
    qed
  qed
qed

lemma read_shape: "stream_shape (end_sse name truncated inp (scan_sse handle lines s []))"
proof -
  obtain evs returned where r: "scan_sse handle lines s [] = (evs, returned)" by (meson surj_pair)
  from scan_shape [OF r] show ?thesis
    by (auto simp: r end_sse_def sendEvent_def intro: stream_shape_snoc split: option.splits)
qed

text \<open>With nothing cancelled, a stream that ends without an error was ended by its handler.\<close>

lemma clean_end_returned:
  assumes "\<not> si_ctx_done inp" "\<And>i. si_sends inp i"
    and "list_all is_chunk (end_sse name truncated inp (scan_sse handle lines s []))"
  shows "snd (scan_sse handle lines s [])"
  using assms
  by (auto simp: end_sse_def sendEvent_def upstream_event_def split: prod.splits option.splits if_splits)

end

lemma scan_returned:
  "snd (scan_sse handle lines s evs) \<Longrightarrow>
   \<exists>line data s' evs' t. line \<in> set lines \<and> sse_data line = Some data \<and>
     handle data s' evs' = (t, fst (scan_sse handle lines s evs), True)"
proof (induction lines arbitrary: s evs)
  case (Cons line lines)
  show ?case
  proof (cases "sse_data line")
    case None
    with Cons.IH [of s evs] Cons.prems show ?thesis by simp blast
  next
    case (Some data)
    obtain s1 evs1 stop where h: "handle data s evs = (s1, evs1, stop)" by (metis prod_cases3)
    show ?thesis
    proof (cases stop)
      case True
      with h Some show ?thesis by (intro exI [of _ line] exI [of _ data] exI [of _ s] exI [of _ evs] exI [of _ s1]) simp
    next
      case False
      with h Some Cons.IH [of s1 evs1] Cons.prems show ?thesis by simp blast
    qed
  qed
qed simp

end
