(* ===== verification/OpenaiAdapter.thy ===== *)
theory OpenaiAdapter
  imports Upstream
begin

text \<open>
  \<open>provider/openai/chat.go\<close> and \<open>stream.go\<close>: the requests of the OpenAI adapter (DeepSeek
  uses the same code) and the reader of its SSE stream.  The goroutine that reads the stream
  and the channel it fills are the list of the events it sends.  A nil request, which the
  router never passes, is not modelled; \<open>json.Marshal\<close> of a request cannot fail.
\<close>

section \<open>Non-streaming calls\<close>

definition chatPath :: string where
  "chatPath = ''/v1/chat/completions''"

definition openai_request :: "'w http_env \<Rightarrow> openai_Provider \<Rightarrow> ChatRequest \<Rightarrow> http_request" where
  "openai_request env p r = \<lparr>hq_URL = op_baseURL p @ chatPath, hq_Header = openai_setHeaders (he_Version env) p [],
     hq_Body = Marshalled (ChatRequest_MarshalJSON r), hq_Timeout = None\<rparr>"

definition openai_http_error :: "'w http_env \<Rightarrow> openai_Provider \<Rightarrow> http_response \<Rightarrow> string \<Rightarrow> goerr" where
  "openai_http_error env p resp body = openai_mapHTTPError (he_Until env) (oc_Name (op_cfg p)) (hs_Status resp) body
     (error_body (he_Parse env) ''code'' body) (header_get (hs_Header resp) ''Retry-After'')"

definition openai_ChatCompletion :: "'w http_env \<Rightarrow> openai_Provider \<Rightarrow> ChatRequest \<Rightarrow> 'w \<Rightarrow> (goerr + ChatResponse) \<times> 'w" where
  "openai_ChatCompletion env p req w =
     (let name = oc_Name (op_cfg p);
          httpReq = (openai_request env p (req\<lparr>r_Stream := False\<rparr>))\<lparr>hq_Timeout := Some (oc_Timeout (op_cfg p))\<rparr>
      in case he_Build env (hq_URL httpReq) of
        Some err \<Rightarrow> (Inl (Wrapped ''openai: build request'' err), w)
      | None \<Rightarrow> (case he_Do env httpReq w of
          (Inl err, w') \<Rightarrow> (Inl (mapRequestError name err (he_Text env err)), w')
        | (Inr resp, w') \<Rightarrow>
            ((case hs_Body resp of
                Inl err \<Rightarrow> Inl (mapRequestError name err (he_Text env err))
              | Inr respBody \<Rightarrow>
                  if hs_Status resp \<ge> 400 then Inl (openai_http_error env p resp respBody)
                  else let bad = (\<lambda>msg. Inl (UpstreamErr (NewUpstreamError name ErrUpstream (hs_Status resp) (''decode response: '' @ msg))))
                       in case he_Parse env respBody of
                            Inl msg \<Rightarrow> bad msg
                          | Inr j \<Rightarrow> (case ChatResponse_Unmarshal j of
                              None \<Rightarrow> bad ''json: type mismatch''
                            | Some out \<Rightarrow> Inr (out\<lparr>p_Provider := name\<rparr>))), w')))"

section \<open>Streaming calls\<close>

record openaiErrorPayload =
  oe_Message :: string
  oe_Type :: string
  oe_Code :: string
  oe_Param :: string

definition openaiErrorPayload0 :: openaiErrorPayload where
  "openaiErrorPayload0 = \<lparr>oe_Message = [], oe_Type = [], oe_Code = [], oe_Param = []\<rparr>"

definition openaiErrorPayload_field :: "string \<Rightarrow> json \<Rightarrow> openaiErrorPayload \<Rightarrow> openaiErrorPayload option" where
  "openaiErrorPayload_field key v e = (let k = to_lower key in
     if k = ''message'' then map_option (\<lambda>s. e\<lparr>oe_Message := s\<rparr>) (dec_str v (oe_Message e))
     else if k = ''type'' then map_option (\<lambda>s. e\<lparr>oe_Type := s\<rparr>) (dec_str v (oe_Type e))
     else if k = ''code'' then map_option (\<lambda>s. e\<lparr>oe_Code := s\<rparr>) (dec_str v (oe_Code e))
     else if k = ''param'' then map_option (\<lambda>s. e\<lparr>oe_Param := s\<rparr>) (dec_str v (oe_Param e))
     else Some e)"

record streamWirePayload =
  wp_Chunk :: ChatStreamChunk
  wp_Error :: "openaiErrorPayload option"

definition streamWirePayload_field :: "string \<Rightarrow> json \<Rightarrow> streamWirePayload \<Rightarrow> streamWirePayload option" where
  "streamWirePayload_field key v p =
     (if to_lower key = ''error'' then
        (if v = JNull then Some (p\<lparr>wp_Error := None\<rparr>)
         else map_option (\<lambda>e. p\<lparr>wp_Error := Some e\<rparr>)
           (dec_struct openaiErrorPayload_field (case wp_Error p of None \<Rightarrow> openaiErrorPayload0 | Some e \<Rightarrow> e) v))
      else map_option (\<lambda>c. p\<lparr>wp_Chunk := c\<rparr>) (ChatStreamChunk_field key v (wp_Chunk p)))"

definition streamWirePayload_Unmarshal :: "json \<Rightarrow> streamWirePayload option" where
  "streamWirePayload_Unmarshal j = dec_struct streamWirePayload_field \<lparr>wp_Chunk = ChatStreamChunk0, wp_Error = None\<rparr> j"

text \<open>The treatment of one payload in \<open>readSSE\<close>.\<close>

definition openai_handle ::
  "(string \<Rightarrow> string + json) \<Rightarrow> string \<Rightarrow> (nat \<Rightarrow> bool) \<Rightarrow> string \<Rightarrow> unit \<Rightarrow> StreamEvent list \<Rightarrow> unit \<times> StreamEvent list \<times> bool" where
  "openai_handle parse name sends data s evs =
     (if data = ''[DONE]'' then (s, evs, True)
      else let bad = (\<lambda>msg. (s, fst (sendEvent sends (upstream_event name ErrUpstream (''decode chunk: '' @ msg)) evs), True))
           in case parse data of
                Inl msg \<Rightarrow> bad msg
              | Inr j \<Rightarrow> (case streamWirePayload_Unmarshal j of
                  None \<Rightarrow> bad ''json: type mismatch''
                | Some payload \<Rightarrow> (case wp_Error payload of
                    Some e \<Rightarrow>
                      (s, fst (sendEvent sends (upstream_event name (openai_mapStatusToSentinel 0 (oe_Code e)) (oe_Message e)) evs), True)
                  | None \<Rightarrow> (case sendEvent sends (EvChunk (wp_Chunk payload)) evs of (evs', ok) \<Rightarrow> (s, evs', \<not> ok)))))"

definition openai_readSSE :: "(string \<Rightarrow> string + json) \<Rightarrow> string \<Rightarrow> sse_input \<Rightarrow> StreamEvent list" where
  "openai_readSSE parse name inp = end_sse name ''stream ended without [DONE]'' inp
     (scan_sse (openai_handle parse name (si_sends inp)) (si_lines inp) () [])"

text \<open>
  \<open>ChatCompletionStream\<close>: the stream of a response whose status is below 400 is read from
  the lines \<open>stream_of\<close> gives for the response.
\<close>

definition openai_ChatCompletionStream ::
  "'w http_env \<Rightarrow> (http_response \<Rightarrow> sse_input) \<Rightarrow> openai_Provider \<Rightarrow> ChatRequest \<Rightarrow> 'w \<Rightarrow> (goerr + StreamEvent list) \<times> 'w" where
  "openai_ChatCompletionStream env stream_of p req w =
     (let name = oc_Name (op_cfg p);
          httpReq = openai_request env p (req\<lparr>r_Stream := True\<rparr>);
          httpReq' = httpReq\<lparr>hq_Header := al_put ''Accept'' ''text/event-stream'' (hq_Header httpReq)\<rparr>
      in case he_Build env (hq_URL httpReq') of
        Some err \<Rightarrow> (Inl (Wrapped ''openai: build request'' err), w)
      | None \<Rightarrow> (case he_Do env httpReq' w of
          (Inl err, w') \<Rightarrow> (Inl (mapRequestError name err (he_Text env err)), w')
        | (Inr resp, w') \<Rightarrow>
            (if hs_Status resp \<ge> 400
             then Inl (openai_http_error env p resp (case hs_Body resp of Inl _ \<Rightarrow> [] | Inr b \<Rightarrow> b))
             else Inr (openai_readSSE (he_Parse env) name (stream_of resp)), w')))"

section \<open>The reader meets the contract\<close>

interpretation openai_sse: sse_handler "openai_handle parse name sends" for parse name sends
  by unfold_locales (auto simp: openai_handle_def Let_def sendEvent_def split: if_splits sum.splits option.splits prod.splits)

lemma openai_handle_stop_clean:
  assumes "openai_handle parse name sends data s evs = (t, evs', True)" "\<And>i. sends i" "list_all is_chunk evs'"
  shows "data = ''[DONE]''"
  using assms by (auto simp: openai_handle_def Let_def sendEvent_def upstream_event_def split: if_splits sum.splits option.splits)

section \<open>Chunks on the wire\<close>

definition StreamChoice_Marshal :: "StreamChoice \<Rightarrow> json" where
  "StreamChoice_Marshal c = JObj (members [
     (''index'', True, JInt (sc_Index c)),
     (''delta'', True, MessageDelta_MarshalJSON (sc_Delta c)),
     (''finish_reason'', sc_FinishReason c \<noteq> [], JStr (sc_FinishReason c))])"

definition ChatStreamChunk_Marshal :: "ChatStreamChunk \<Rightarrow> json" where
  "ChatStreamChunk_Marshal c = JObj (members [
     (''id'', True, JStr (k_ID c)),
     (''object'', True, JStr (k_Object c)),
     (''created'', True, JInt (k_Created c)),
     (''model'', True, JStr (k_Model c)),
     (''choices'', True, enc_list StreamChoice_Marshal (k_Choices c)),
     (''usage'', k_Usage c \<noteq> None, Usage_MarshalJSON (the (k_Usage c)))])"

definition chunk_ok :: "ChatStreamChunk \<Rightarrow> bool" where
  "chunk_ok c \<longleftrightarrow> in_int64 (k_Created c) \<and> opt_all Usage_ok (k_Usage c) \<and>
     list_all (\<lambda>ch. in_int64 (sc_Index ch) \<and> extra_ok messageDeltaKnownKeys (d_Extra (sc_Delta ch))) (k_Choices c)"

definition delta_norm :: "MessageDelta \<Rightarrow> MessageDelta" where
  "delta_norm d = d\<lparr>d_Extra := sorted_extra (d_Extra d)\<rparr>"

definition chunk_norm :: "ChatStreamChunk \<Rightarrow> ChatStreamChunk" where
  "chunk_norm c = c\<lparr>k_Choices := map (\<lambda>ch. ch\<lparr>sc_Delta := delta_norm (sc_Delta ch)\<rparr>) (k_Choices c), k_Usage := map_option Usage_norm (k_Usage c)\<rparr>"

lemma MessageDelta_read_back:
  assumes "extra_ok messageDeltaKnownKeys (d_Extra d)"
  shows "MessageDelta_UnmarshalJSON (MessageDelta_MarshalJSON d) = Some (delta_norm d)"
proof -
  let ?fs = "[(''role'', d_Role d \<noteq> [], JStr (d_Role d)), (''content'', d_Content d \<noteq> [], JStr (d_Content d))]"
  have d: "dec_members MessageDelta_field (members ?fs) MessageDelta0 = Some (d\<lparr>d_Extra := []\<rparr>)"
    by (cases d; cases "d_Role d = []"; cases "d_Content d = []")
       (simp_all add: dec_members_members MessageDelta_fields MessageDelta0_def)
  have k: "distinct (map fst (members ?fs))" "set (map fst (members ?fs)) \<subseteq> set messageDeltaKnownKeys"
    using members_keys [of ?fs] by (auto simp: messageDeltaKnownKeys_def)
  from message_delta.read_back [OF k assms d] show ?thesis
    by (simp add: MessageDelta_UnmarshalJSON_def MessageDelta_MarshalJSON_def delta_norm_def sorted_extra_def)
qed

lemma lower_delta [simp]: "to_lower ''delta'' = ''delta''" "to_lower ''error'' = ''error''"
  by code_simp+

lemma StreamChoice_fields:
  "StreamChoice_field ''index'' v c = map_option (\<lambda>n. c\<lparr>sc_Index := n\<rparr>) (dec_int v (sc_Index c))"
  "StreamChoice_field ''delta'' v c = map_option (\<lambda>d. c\<lparr>sc_Delta := d\<rparr>) (MessageDelta_UnmarshalJSON v)"
  "StreamChoice_field ''finish_reason'' v c = map_option (\<lambda>s. c\<lparr>sc_FinishReason := s\<rparr>) (dec_str v (sc_FinishReason c))"
  by (simp_all add: StreamChoice_field_def)

lemma StreamChoice_read_back:
  assumes "in_int64 (sc_Index c)" "extra_ok messageDeltaKnownKeys (d_Extra (sc_Delta c))"
  shows "dec_struct StreamChoice_field StreamChoice0 (StreamChoice_Marshal c) = Some (c\<lparr>sc_Delta := delta_norm (sc_Delta c)\<rparr>)"
  using assms MessageDelta_read_back [OF assms(2)]
  by (cases c; cases "sc_FinishReason c = []")
     (simp_all add: StreamChoice_Marshal_def dec_struct_def dec_members_members StreamChoice_fields StreamChoice0_def)

lemma wire_fields:
  "streamWirePayload_field ''id'' v p = map_option (\<lambda>s. p\<lparr>wp_Chunk := (wp_Chunk p)\<lparr>k_ID := s\<rparr>\<rparr>) (dec_str v (k_ID (wp_Chunk p)))"
  "streamWirePayload_field ''object'' v p = map_option (\<lambda>s. p\<lparr>wp_Chunk := (wp_Chunk p)\<lparr>k_Object := s\<rparr>\<rparr>) (dec_str v (k_Object (wp_Chunk p)))"
  "streamWirePayload_field ''created'' v p = map_option (\<lambda>s. p\<lparr>wp_Chunk := (wp_Chunk p)\<lparr>k_Created := s\<rparr>\<rparr>) (dec_int v (k_Created (wp_Chunk p)))"
  "streamWirePayload_field ''model'' v p = map_option (\<lambda>s. p\<lparr>wp_Chunk := (wp_Chunk p)\<lparr>k_Model := s\<rparr>\<rparr>) (dec_str v (k_Model (wp_Chunk p)))"
  "streamWirePayload_field ''choices'' v p = map_option (\<lambda>s. p\<lparr>wp_Chunk := (wp_Chunk p)\<lparr>k_Choices := s\<rparr>\<rparr>)
     (dec_list (dec_struct StreamChoice_field StreamChoice0) v)"
  "streamWirePayload_field ''usage'' v p = map_option (\<lambda>s. p\<lparr>wp_Chunk := (wp_Chunk p)\<lparr>k_Usage := s\<rparr>\<rparr>) (dec_usage_ptr v)"
  by (simp_all add: streamWirePayload_field_def ChatStreamChunk_field_def option.map_comp comp_def)

lemma chunk_read_back:
  assumes "chunk_ok c"
  shows "streamWirePayload_Unmarshal (ChatStreamChunk_Marshal c) = Some \<lparr>wp_Chunk = chunk_norm c, wp_Error = None\<rparr>"
proof -
  have ch: "dec_list (dec_struct StreamChoice_field StreamChoice0) (enc_list StreamChoice_Marshal (k_Choices c)) =
      Some (map (\<lambda>ch. ch\<lparr>sc_Delta := delta_norm (sc_Delta ch)\<rparr>) (k_Choices c))"
    using assms by (intro dec_list_enc_list StreamChoice_read_back) (auto simp: chunk_ok_def list_all_iff)
  show ?thesis
    using assms ch
    by (cases c; cases "k_Usage c")
       (simp_all add: streamWirePayload_Unmarshal_def ChatStreamChunk_Marshal_def dec_struct_def dec_members_members wire_fields
         ChatStreamChunk0_def chunk_norm_def chunk_ok_def usage_ptr_read_back)
qed

end
