(* ===== verification/Http.thy ===== *)
theory Http
  imports OpenaiAdapter
begin

text \<open>
  The server's side of HTTP: what the gateway uses of \<open>http.ResponseWriter\<close>, the error
  envelope of \<open>internal/server/errmap.go\<close> and the SSE writer of
  \<open>internal/server/sse/writer.go\<close>.  A response body is the list of the parts written;
  \<open>render\<close> gives the bytes of a part, with the printer of JSON values as an argument.
\<close>

section \<open>Response writers\<close>

datatype body_part = BJson json | BData json | BDone | BComment string | BText string

text \<open>
  \<open>rw_sent\<close> are the headers at the moment the status was written.  \<open>rw_writes i\<close> says whether
  the \<open>i\<close>-th write reaches the client.
\<close>

record resp_writer =
  rw_header :: header
  rw_status :: "int option"
  rw_sent :: header
  rw_body :: "body_part list"
  rw_writes :: "nat \<Rightarrow> bool"
  rw_flusher :: bool

definition set_header :: "string \<Rightarrow> string \<Rightarrow> resp_writer \<Rightarrow> resp_writer" where
  "set_header k v w = w\<lparr>rw_header := al_put k v (rw_header w)\<rparr>"

text \<open>Only the first \<open>WriteHeader\<close> counts; a \<open>Write\<close> before it implies status 200.\<close>

definition WriteHeader :: "int \<Rightarrow> resp_writer \<Rightarrow> resp_writer" where
  "WriteHeader status w = (if rw_status w \<noteq> None then w else w\<lparr>rw_status := Some status, rw_sent := rw_header w\<rparr>)"

definition write_part :: "body_part \<Rightarrow> resp_writer \<Rightarrow> bool \<times> resp_writer" where
  "write_part part w = (let w' = WriteHeader 200 w in
     if rw_writes w (length (rw_body w)) then (True, w'\<lparr>rw_body := rw_body w @ [part]\<rparr>) else (False, w'))"

definition jsonEncode :: "json \<Rightarrow> resp_writer \<Rightarrow> resp_writer" where
  "jsonEncode v w = snd (write_part (BJson v) w)"

definition new_writer :: "(nat \<Rightarrow> bool) \<Rightarrow> bool \<Rightarrow> resp_writer" where
  "new_writer writes flusher = \<lparr>rw_header = [], rw_status = None, rw_sent = [], rw_body = [], rw_writes = writes, rw_flusher = flusher\<rparr>"

section \<open>Errors\<close>

record mappedError =
  me_Status :: int
  me_Type :: string
  me_Code :: string
  me_Message :: string
  me_RetryAfter :: int

definition mapped :: "int \<Rightarrow> string \<Rightarrow> string \<Rightarrow> string \<Rightarrow> mappedError" where
  "mapped status typ code msg = \<lparr>me_Status = status, me_Type = typ, me_Code = code, me_Message = msg, me_RetryAfter = 0\<rparr>"

definition messageOrDefault :: "goerr \<Rightarrow> string \<Rightarrow> string" where
  "messageOrDefault err fallback = (case as_UpstreamError err of
     Some ue \<Rightarrow> (if ue_Message ue \<noteq> [] then ue_Message ue else fallback) | None \<Rightarrow> fallback)"

text \<open>\<open>d.Seconds()\<close>, a \<open>float64\<close>.\<close>

definition duration_Seconds :: "duration \<Rightarrow> rat" where
  "duration_Seconds d = f_add (f_of_int (go_div d Second)) (f_div (f_of_int (go_mod d Second)) (10 ^ 9))"

definition mapProviderError :: "goerr \<Rightarrow> mappedError" where
  "mapProviderError err =
     (if errors_Is err (ProviderErr ErrAuth) then
        mapped 502 ''upstream_error'' ''upstream_auth_failed'' ''Upstream provider rejected the gateway's credentials''
      else if errors_Is err (ProviderErr ErrRateLimited) then
        (let m = mapped 429 ''rate_limit_error'' [] ''Upstream rate limit exceeded''
         in case as_UpstreamError err of
              None \<Rightarrow> m
            | Some ue \<Rightarrow>
                let m1 = (if ue_RetryAfter ue > 0 then m\<lparr>me_RetryAfter := f_trunc (duration_Seconds (ue_RetryAfter ue))\<rparr> else m)
                in if ue_Message ue \<noteq> [] then m1\<lparr>me_Message := ue_Message ue\<rparr> else m1)
      else if errors_Is err (ProviderErr ErrContextLength) then
        mapped 400 ''invalid_request_error'' ''context_length_exceeded'' (messageOrDefault err ''Request exceeds the model's context length'')
      else if errors_Is err (ProviderErr ErrInvalidRequest) then
        mapped 400 ''invalid_request_error'' [] (messageOrDefault err ''Invalid request'')
      else if errors_Is err (ProviderErr ErrTimeout) then
        mapped 504 ''timeout_error'' [] (messageOrDefault err ''Upstream request timed out'')
      else if errors_Is err (ProviderErr ErrUnavailable) then
        mapped 503 ''service_unavailable'' [] (messageOrDefault err ''Upstream provider is unavailable'')
      else if errors_Is err (ProviderErr ErrUpstream) then
        mapped 502 ''upstream_error'' [] (messageOrDefault err ''Upstream provider returned an error'')
      else mapped 500 ''internal_error'' [] ''Internal server error'')"

definition errorEnvelope :: "mappedError \<Rightarrow> string \<Rightarrow> json" where
  "errorEnvelope m reqID = JObj [(''error'', JObj (members [
     (''type'', True, JStr (me_Type m)),
     (''code'', me_Code m \<noteq> [], JStr (me_Code m)),
     (''message'', True, JStr (me_Message m)),
     (''req_id'', reqID \<noteq> [], JStr reqID)]))]"

definition writeError :: "mappedError \<Rightarrow> string \<Rightarrow> resp_writer \<Rightarrow> resp_writer" where
  "writeError m reqID w =
     (let w1 = (if me_RetryAfter m > 0 then set_header ''Retry-After'' (itoa (me_RetryAfter m)) w else w)
      in jsonEncode (errorEnvelope m reqID) (WriteHeader (me_Status m) (set_header ''Content-Type'' ''application/json'' w1)))"

section \<open>The SSE writer\<close>

definition sse_New :: "resp_writer \<Rightarrow> goerr + resp_writer" where
  "sse_New w = (if \<not> rw_flusher w then Inl ErrNotFlushable
     else Inr (set_header ''X-Accel-Buffering'' ''no'' (set_header ''Connection'' ''keep-alive''
            (set_header ''Cache-Control'' ''no-cache'' (set_header ''Content-Type'' ''text/event-stream'' w)))))"

text \<open>A frame is written whole, under the writer's lock; its three writes fail together.\<close>

definition WriteData :: "json \<Rightarrow> resp_writer \<Rightarrow> bool \<times> resp_writer" where
  "WriteData payload w = write_part (BData payload) w"

definition WriteDone :: "resp_writer \<Rightarrow> bool \<times> resp_writer" where
  "WriteDone w = write_part BDone w"

definition WriteComment :: "string \<Rightarrow> resp_writer \<Rightarrow> bool \<times> resp_writer" where
  "WriteComment text w = write_part (BComment text) w"

fun render :: "(json \<Rightarrow> string) \<Rightarrow> body_part \<Rightarrow> string" where
  "render pr (BJson j) = pr j @ ''\<newline>''"
| "render pr (BData j) = ''data: '' @ pr j @ ''\<newline>\<newline>''"
| "render pr BDone = ''data: '' @ ''[DONE]'' @ ''\<newline>\<newline>''"
| "render pr (BComment t) = '': '' @ t @ ''\<newline>\<newline>''"
| "render pr (BText t) = t"

section \<open>Lemmas\<close>

lemma set_header_simps [simp]:
  "rw_status (set_header k v w) = rw_status w" "rw_sent (set_header k v w) = rw_sent w" "rw_body (set_header k v w) = rw_body w"
  "rw_writes (set_header k v w) = rw_writes w" "rw_flusher (set_header k v w) = rw_flusher w"
  by (simp_all add: set_header_def)

lemma WriteHeader_simps [simp]:
  "rw_body (WriteHeader st w) = rw_body w" "rw_writes (WriteHeader st w) = rw_writes w" "rw_flusher (WriteHeader st w) = rw_flusher w"
  "rw_status (WriteHeader st w) = (case rw_status w of None \<Rightarrow> Some st | Some s \<Rightarrow> Some s)"
  by (auto simp: WriteHeader_def split: option.splits)

lemma write_part_simps [simp]:
  "rw_writes (snd (write_part p w)) = rw_writes w" "rw_flusher (snd (write_part p w)) = rw_flusher w"
  "rw_status (snd (write_part p w)) = (case rw_status w of None \<Rightarrow> Some 200 | Some s \<Rightarrow> Some s)"
  by (simp_all add: write_part_def Let_def)

lemma write_part_body: "rw_body (snd (write_part p w)) = rw_body w @ (if rw_writes w (length (rw_body w)) then [p] else [])"
  by (simp add: write_part_def Let_def)

lemma jsonEncode_status [simp]: "rw_status (jsonEncode j w) = (case rw_status w of None \<Rightarrow> Some 200 | Some s \<Rightarrow> Some s)"
  by (simp add: jsonEncode_def)

lemma writeError_status: "rw_status w = None \<Longrightarrow> rw_status (writeError m reqID w) = Some (me_Status m)"
  by (simp add: writeError_def Let_def)

lemma writeError_body:
  "rw_status w = None \<Longrightarrow> rw_body (writeError m reqID w) =
     rw_body w @ (if rw_writes w (length (rw_body w)) then [BJson (errorEnvelope m reqID)] else [])"
  by (simp add: writeError_def Let_def jsonEncode_def write_part_body)

lemma mapProviderError_status:
  "me_Status (mapProviderError e) \<in> {400, 429, 500, 502, 503, 504}"
  by (auto simp: mapProviderError_def mapped_def Let_def split: option.splits)

section \<open>Reading what was written\<close>

lemma split_on_append: "c \<notin> set a \<Longrightarrow> split_on c (a @ c # b) = a # split_on c b"
  by (induction a) auto

text \<open>The lines of a body that consists of whole frames.\<close>

fun frame_lines :: "(json \<Rightarrow> string) \<Rightarrow> body_part \<Rightarrow> string list" where
  "frame_lines pr (BData j) = [''data: '' @ pr j, []]"
| "frame_lines pr BDone = [''data: [DONE]'', []]"
| "frame_lines pr (BComment t) = ['': '' @ t, []]"
| "frame_lines pr (BJson j) = [pr j]"
| "frame_lines pr (BText t) = [t]"

definition is_frame :: "body_part \<Rightarrow> bool" where
  "is_frame p = (case p of BData _ \<Rightarrow> True | BDone \<Rightarrow> True | BComment t \<Rightarrow> CHR ''\<newline>'' \<notin> set t | _ \<Rightarrow> False)"

lemma lines_of_frames:
  assumes "\<forall>j. BData j \<in> set ps \<longrightarrow> CHR ''\<newline>'' \<notin> set (pr j)" "list_all is_frame ps"
  shows "split_on CHR ''\<newline>'' (concat (map (render pr) ps)) = concat (map (frame_lines pr) ps) @ [[]]"
  using assms
proof (induction ps)
  case Nil
  then show ?case by simp
next
  case (Cons p ps)
  have "split_on CHR ''\<newline>'' (render pr p @ rest) = frame_lines pr p @ split_on CHR ''\<newline>'' rest" for rest
    using Cons.prems
    by (cases p) (auto simp: is_frame_def split_on_append split_on_append [of _ "_ # _", simplified])
  with Cons show ?case by simp
qed

text \<open>
  \<open>bufio.ScanLines\<close> with the adapters' buffer: lines without their end, no last line when it is
  empty.  A line has to fit the buffer together with its end; the first that does not ends the
  scan (with an error, the field \<open>si_scan_err\<close> of the input).
\<close>

definition sseLineBufferLimit :: int where
  "sseLineBufferLimit = 1048576"

definition line_fits :: "string \<Rightarrow> bool" where
  "line_fits l \<longleftrightarrow> int (length l) < sseLineBufferLimit"

definition drop_cr :: "string \<Rightarrow> string" where
  "drop_cr s = (if s \<noteq> [] \<and> last s = CHR 13 then butlast s else s)"

definition scan_lines :: "string \<Rightarrow> string list" where
  "scan_lines s = (let ls = split_on CHR ''\<newline>'' s in map drop_cr (takeWhile line_fits (if last ls = [] then butlast ls else ls)))"

text \<open>A text that can stand on a line of a frame.\<close>

definition line_safe :: "string \<Rightarrow> bool" where
  "line_safe s \<longleftrightarrow> CHR ''\<newline>'' \<notin> set s \<and> CHR 13 \<notin> set s \<and> line_fits (''data: '' @ s)"

definition is_comment :: "body_part \<Rightarrow> bool" where
  "is_comment p = (case p of BComment t \<Rightarrow> line_safe t | _ \<Rightarrow> False)"

lemma drop_cr_safe: "CHR 13 \<notin> set s \<Longrightarrow> drop_cr s = s"
  by (metis drop_cr_def last_in_set)

lemma sse_data_frames [simp]:
  "sse_data [] = None" "sse_data ('': '' @ t) = None" "sse_data (''data: '' @ t) = Some t"
  by (simp_all add: sse_data_def has_prefix_def trim_prefix_def)

definition printable :: "(string \<Rightarrow> string + json) \<Rightarrow> (json \<Rightarrow> string) \<Rightarrow> json \<Rightarrow> bool" where
  "printable parse pr j \<longleftrightarrow> parse (pr j) = Inr j \<and> line_safe (pr j) \<and> pr j \<noteq> ''[DONE]''"

lemma drop_cr_frames:
  assumes "p = BData j \<and> line_safe (pr j) \<or> p = BDone \<or> is_comment p"
  shows "map drop_cr (frame_lines pr p) = frame_lines pr p \<and> is_frame p \<and> list_all line_fits (frame_lines pr p)"
  using assms by (cases p) (auto simp: line_safe_def is_comment_def is_frame_def drop_cr_safe line_fits_def sseLineBufferLimit_def)

text \<open>The lines of a body of frames, comments among them.\<close>

lemma scan_lines_frames:
  assumes "\<And>p. p \<in> set ps \<Longrightarrow> \<exists>j. p = BData j \<and> line_safe (pr j) \<or> p = BDone \<or> is_comment p"
  shows "scan_lines (concat (map (render pr) ps)) = concat (map (frame_lines pr) ps)"
proof -
  have frames: "list_all is_frame ps" "map drop_cr (concat (map (frame_lines pr) ps)) = concat (map (frame_lines pr) ps)"
    using assms drop_cr_frames [of _ _ pr] unfolding list_all_iff map_concat
    by (blast, intro arg_cong [of _ _ concat]) (auto simp: comp_def)
  have "\<forall>l \<in> set (concat (map (frame_lines pr) ps)). line_fits l"
    using assms drop_cr_frames [of _ _ pr] by (fastforce simp: list_all_iff)
  then have fit: "takeWhile line_fits (concat (map (frame_lines pr) ps)) = concat (map (frame_lines pr) ps)" by (simp add: takeWhile_eq_all_conv)
  have "CHR ''\<newline>'' \<notin> set (pr j)" if "BData j \<in> set ps" for j
    using assms [OF that] by (auto simp: line_safe_def is_comment_def)
  then have "\<forall>j. BData j \<in> set ps \<longrightarrow> CHR ''\<newline>'' \<notin> set (pr j)" by blast
  from lines_of_frames [OF this frames(1)] frames(2) show ?thesis by (simp add: scan_lines_def Let_def fit del: takeWhile_eq_all_conv)
qed

lemma openai_handle_chunk:
  assumes "chunk_ok c" "printable parse pr (ChatStreamChunk_Marshal c)" "\<And>i. sends i"
  shows "openai_handle parse name sends (pr (ChatStreamChunk_Marshal c)) s evs = (s, evs @ [EvChunk (chunk_norm c)], False)"
  using assms by (simp add: openai_handle_def Let_def chunk_read_back sendEvent_def printable_def)

text \<open>The frames of a stream: one per chunk, the end marker, and comments anywhere.\<close>

inductive frames_of :: "ChatStreamChunk list \<Rightarrow> body_part list \<Rightarrow> bool" where
  finished: "list_all is_comment ps \<Longrightarrow> frames_of [] (BDone # ps)"
| chunk: "frames_of cs ps \<Longrightarrow> frames_of (c # cs) (BData (ChatStreamChunk_Marshal c) # ps)"
| comment: "frames_of cs ps \<Longrightarrow> is_comment p \<Longrightarrow> frames_of cs (p # ps)"

lemma scan_frames:
  assumes "frames_of cs ps" "list_all (\<lambda>c. chunk_ok c \<and> printable parse pr (ChatStreamChunk_Marshal c)) cs" "\<And>i. sends i"
  shows "scan_sse (openai_handle parse name sends) (concat (map (frame_lines pr) ps)) () evs =
    (evs @ map (EvChunk \<circ> chunk_norm) cs, True)"
  using assms(1,2)
proof (induction arbitrary: evs rule: frames_of.induct)
  case (finished ps)
  have "sse_data ''data: [DONE]'' = Some ''[DONE]''" using sse_data_frames(3) [of "''[DONE]''"] by simp
  then show ?case by (simp add: openai_handle_def)
next
  case (chunk cs ps c)
  have "sse_data (''data: '' @ pr (ChatStreamChunk_Marshal c)) = Some (pr (ChatStreamChunk_Marshal c))" by (rule sse_data_frames)
  with chunk show ?case using assms(3) by (simp add: openai_handle_chunk)
next
  case (comment cs ps p)
  then obtain t where "p = BComment t" by (auto simp: is_comment_def split: body_part.splits)
  with comment show ?case using sse_data_frames(2) [of t] by simp
qed

section \<open>Properties\<close>

text \<open>
  What the gateway's SSE writer emits for a stream of chunks and the end marker, keep-alive
  comments in between, is read by the OpenAI adapter as exactly those chunks, in order and
  without an error; only extra members are put in key order.
\<close>

lemma sse_roundtrip:
  assumes "frames_of chunks parts" "list_all (\<lambda>c. chunk_ok c \<and> printable parse pr (ChatStreamChunk_Marshal c)) chunks"
    "\<forall>i. si_sends inp i" "si_lines inp = scan_lines (concat (map (render pr) parts))"
  shows "openai_readSSE parse name inp = map (EvChunk \<circ> chunk_norm) chunks"
proof -
  have shape: "\<exists>j. p = BData j \<and> line_safe (pr j) \<or> p = BDone \<or> is_comment p" if "p \<in> set parts" for p
    using assms(1,2) that by (induction rule: frames_of.induct) (auto simp: printable_def list_all_iff)
  have "si_lines inp = concat (map (frame_lines pr) parts)" unfolding assms(4) using shape by (rule scan_lines_frames)
  with scan_frames [OF assms(1,2), of "si_sends inp" name "[]"] assms(3) show ?thesis
    by (simp add: openai_readSSE_def end_sse_def)
qed

text \<open>A printer that knows two documents, and its parser.\<close>

definition demo_chunk :: "string \<Rightarrow> ChatStreamChunk" where
  "demo_chunk t = ChatStreamChunk0\<lparr>k_ID := ''c1'', k_Choices := [StreamChoice0\<lparr>sc_Delta := MessageDelta0\<lparr>d_Content := t\<rparr>\<rparr>]\<rparr>"

definition demo_print :: "json \<Rightarrow> string" where
  "demo_print j = (if j = ChatStreamChunk_Marshal (demo_chunk ''a'') then ''{a}'' else ''{b}'')"

definition demo_unprint :: "string \<Rightarrow> string + json" where
  "demo_unprint s = (if s = ''{a}'' then Inr (ChatStreamChunk_Marshal (demo_chunk ''a''))
     else if s = ''{b}'' then Inr (ChatStreamChunk_Marshal (demo_chunk ''b'')) else Inl ''syntax'')"

definition demo_parts :: "body_part list" where
  "demo_parts = [BData (ChatStreamChunk_Marshal (demo_chunk ''a'')), BComment ''keepalive'',
     BData (ChatStreamChunk_Marshal (demo_chunk ''b'')), BDone]"

definition demo_input :: sse_input where
  "demo_input = \<lparr>si_lines = scan_lines (concat (map (render demo_print) demo_parts)), si_scan_err = None,
     si_ctx_done = False, si_sends = (\<lambda>_. True)\<rparr>"

lemma sse_roundtrip_witness:
  "openai_readSSE demo_unprint ''openai'' demo_input = [EvChunk (demo_chunk ''a''), EvChunk (demo_chunk ''b'')]"
proof -
  have f: "frames_of [demo_chunk ''a'', demo_chunk ''b''] demo_parts" unfolding demo_parts_def
    by (intro frames_of.intros) (simp_all add: is_comment_def line_safe_def line_fits_def sseLineBufferLimit_def)
  have ok: "list_all (\<lambda>c. chunk_ok c \<and> printable demo_unprint demo_print (ChatStreamChunk_Marshal c)) [demo_chunk ''a'', demo_chunk ''b'']"
    by code_simp
  have n: "map (EvChunk \<circ> chunk_norm) [demo_chunk ''a'', demo_chunk ''b''] = [EvChunk (demo_chunk ''a''), EvChunk (demo_chunk ''b'')]"
    by code_simp
  from sse_roundtrip [OF f ok, of demo_input "''openai''"] show ?thesis unfolding n by (simp add: demo_input_def)
qed

end
