(* ===== verification/KeyValue.thy ===== *)
theory KeyValue
  imports GoJson
begin

text \<open>
  The Redis key-value commands the auth cache and the response cache use, as a record of
  operations with their documented laws, and the hexadecimal encoding of the hashes in their
  keys.  Bytes that hold JSON are given by the value they parse to.
\<close>

section \<open>Key-value cache\<close>

datatype blob = Blob json | Garbage string

record 'k kv_ops =
  kv_Get :: "string \<Rightarrow> 'k \<Rightarrow> (goerr + blob) \<times> 'k"
  kv_Set :: "string \<Rightarrow> blob \<Rightarrow> duration \<Rightarrow> 'k \<Rightarrow> goerr option \<times> 'k"
  kv_Del :: "string \<Rightarrow> 'k \<Rightarrow> goerr option \<times> 'k"

text \<open>
  What Redis documents of \<open>GET\<close>, \<open>SET\<close> and \<open>DEL\<close>; an operation that reports an error may
  or may not have taken effect.
\<close>

definition kv_laws :: "'k kv_ops \<Rightarrow> ('k \<Rightarrow> string \<rightharpoonup> blob) \<Rightarrow> bool" where
  "kv_laws kv look \<longleftrightarrow>
     (\<forall>k s r s'. kv_Get kv k s = (r, s') \<longrightarrow> look s' = look s \<and>
        (\<forall>v. r = Inr v \<longrightarrow> look s k = Some v) \<and> (r = Inl RedisNil \<longrightarrow> look s k = None)) \<and>
     (\<forall>k v d s r s'. kv_Set kv k v d s = (r, s') \<longrightarrow>
        look s' = (look s)(k \<mapsto> v) \<or> (r \<noteq> None \<and> look s' = look s)) \<and>
     (\<forall>k s r s'. kv_Del kv k s = (r, s') \<longrightarrow>
        look s' = (look s)(k := None) \<or> (r \<noteq> None \<and> look s' = look s))"

lemma kv_Get_frame: "kv_laws kv look \<Longrightarrow> kv_Get kv k s = (r, s') \<Longrightarrow> look s' = look s"
  and kv_Get_hit: "kv_laws kv look \<Longrightarrow> kv_Get kv k s = (Inr v, s') \<Longrightarrow> look s k = Some v"
  and kv_Get_nil: "kv_laws kv look \<Longrightarrow> kv_Get kv k s = (Inl RedisNil, s') \<Longrightarrow> look s k = None"
  and kv_Set_done: "kv_laws kv look \<Longrightarrow> kv_Set kv k v d s = (None, s') \<Longrightarrow> look s' = (look s)(k \<mapsto> v)"
  and kv_Del_done: "kv_laws kv look \<Longrightarrow> kv_Del kv k s = (None, s') \<Longrightarrow> look s' = (look s)(k := None)"
  unfolding kv_laws_def by blast+

text \<open>A cache that is a map and never fails.\<close>

definition map_kv :: "(string \<rightharpoonup> blob) kv_ops" where
  "map_kv = \<lparr>kv_Get = (\<lambda>k m. ((case m k of None \<Rightarrow> Inl RedisNil | Some v \<Rightarrow> Inr v), m)),
     kv_Set = (\<lambda>k v d m. (None, m(k \<mapsto> v))), kv_Del = (\<lambda>k m. (None, m(k := None)))\<rparr>"

lemma map_kv_laws: "kv_laws map_kv (\<lambda>m. m)"
  by (auto simp: kv_laws_def map_kv_def split: option.splits)

section \<open>Hexadecimal strings\<close>

definition hex_digit :: "nat \<Rightarrow> char" where
  "hex_digit n = ''0123456789abcdef'' ! n"

definition hex_encode :: "string \<Rightarrow> string" where
  "hex_encode bs = concat (map (\<lambda>c. let n = (of_char c :: nat) in [hex_digit (n div 16), hex_digit (n mod 16)]) bs)"

lemma hex_digit_inj: "m < 16 \<Longrightarrow> n < 16 \<Longrightarrow> hex_digit m = hex_digit n \<Longrightarrow> m = n"
proof -
  have "distinct ''0123456789abcdef''" by simp
  then show "m < 16 \<Longrightarrow> n < 16 \<Longrightarrow> hex_digit m = hex_digit n \<Longrightarrow> m = n"
    unfolding hex_digit_def by (subst (asm) nth_eq_iff_index_eq) simp_all
qed

lemma hex_encode_Cons:
  "hex_encode (c # bs) = hex_digit (of_char c div 16) # hex_digit (of_char c mod 16) # hex_encode bs"
  by (simp add: hex_encode_def Let_def)

lemma hex_encode_inj: "hex_encode xs = hex_encode ys \<Longrightarrow> xs = ys"
proof (induction xs arbitrary: ys)
  case Nil
  then show ?case by (cases ys) (simp_all add: hex_encode_Cons, simp add: hex_encode_def)
next
  case (Cons c xs)
  then obtain d ys' where ys: "ys = d # ys'" by (cases ys) (simp_all add: hex_encode_Cons, simp add: hex_encode_def)
  have lt: "(of_char c :: nat) div 16 < 16" "(of_char d :: nat) div 16 < 16" by (simp_all add: less_mult_imp_div_less)
  have "(of_char c :: nat) div 16 = of_char d div 16" "(of_char c :: nat) mod 16 = of_char d mod 16"
    using Cons.prems lt by (auto simp: ys hex_encode_Cons intro: hex_digit_inj)
  then have "(of_char c :: nat) = of_char d" by (metis div_mult_mod_eq)
  then show ?case using Cons by (simp add: ys hex_encode_Cons)
qed

end
