(* ===== verification/Auth.thy ===== *)
theory Auth
  imports KeyValue ProviderJson "HOL-Library.Sublist"
begin

text \<open>
  \<open>internal/auth\<close>: principals and scopes (\<open>auth.go\<close>), the three authenticators
  (\<open>static.go\<close>, \<open>postgres.go\<close>, \<open>cached.go\<close>) and the hashes they look keys up by
  (\<open>hash.go\<close>).  SHA-256 is a parameter.  The table \<open>api_keys\<close> is a list of rows, on which
  the SQL statements of the source are functions; \<open>as_db_err\<close> is the error a query meets
  while the database is unreachable.  The Redis the cache lives in is a record of
  operations with the laws \<open>kv_laws\<close>.  Bytes that hold JSON are given by the value they
  parse to.
\<close>

section \<open>Principals\<close>

text \<open>The map of scopes has distinct keys; a nil map is \<open>None\<close>.\<close>

record Principal =
  pr_ID :: string
  pr_Name :: string
  pr_Scopes :: "(string \<times> string list) list option"

definition scope_values :: "(string \<times> string list) list option \<Rightarrow> string \<Rightarrow> string list" where
  "scope_values scopes category = (case scopes of None \<Rightarrow> []
     | Some m \<Rightarrow> (case map_of m category of None \<Rightarrow> [] | Some vs \<Rightarrow> vs))"

definition HasScope :: "Principal option \<Rightarrow> string \<Rightarrow> string \<Rightarrow> bool" where
  "HasScope p category value = (case p of None \<Rightarrow> False
     | Some q \<Rightarrow> list_ex (\<lambda>v. v = ''*'' \<or> v = value) (scope_values (pr_Scopes q) category))"

section \<open>Hashes\<close>

definition hashKeyBytes :: "(string \<Rightarrow> string) \<Rightarrow> string \<Rightarrow> string" where
  "hashKeyBytes sha256 secret = sha256 secret"

definition hashKeyHex :: "(string \<Rightarrow> string) \<Rightarrow> string \<Rightarrow> string" where
  "hashKeyHex sha256 secret = hex_encode (sha256 secret)"

section \<open>The static authenticator\<close>

record StaticEntry =
  se_ID :: string
  se_Name :: string
  se_Secret :: string
  se_Scopes :: "(string \<times> string list) list option"

record StaticAuthenticator =
  byHash :: "(string \<times> Principal) list"

datatype static_error = NoEntries | IDRequired nat | SecretRequired nat | DuplicateID nat | SecretCollides nat string

definition static_principal :: "StaticEntry \<Rightarrow> Principal" where
  "static_principal e = \<lparr>pr_ID = se_ID e, pr_Name = se_Name e, pr_Scopes = se_Scopes e\<rparr>"

fun static_loop ::
    "(string \<Rightarrow> string) \<Rightarrow> nat \<Rightarrow> StaticEntry list \<Rightarrow> string set \<Rightarrow> (string \<times> Principal) list \<Rightarrow> static_error list \<Rightarrow>
     static_error list \<times> (string \<times> Principal) list" where
  "static_loop sha i [] seenID bh errs = (errs, bh)"
| "static_loop sha i (e # es) seenID bh errs =
     (if se_ID e = [] then static_loop sha (i + 1) es seenID bh (errs @ [IDRequired i])
      else if se_Secret e = [] then static_loop sha (i + 1) es seenID bh (errs @ [SecretRequired i])
      else if se_ID e \<in> seenID then static_loop sha (i + 1) es seenID bh (errs @ [DuplicateID i])
      else let seen' = insert (se_ID e) seenID; hash = hashKeyHex sha (se_Secret e)
           in case map_of bh hash of
                Some existing \<Rightarrow> static_loop sha (i + 1) es seen' bh (errs @ [SecretCollides i (pr_ID existing)])
              | None \<Rightarrow> static_loop sha (i + 1) es seen' (al_put hash (static_principal e) bh) errs)"

definition NewStatic :: "(string \<Rightarrow> string) \<Rightarrow> StaticEntry list \<Rightarrow> static_error list + StaticAuthenticator" where
  "NewStatic sha entries =
     (if entries = [] then Inl [NoEntries]
      else case static_loop sha 0 entries {} [] [] of
             (errs, bh) \<Rightarrow> if errs \<noteq> [] then Inl errs else Inr \<lparr>byHash = bh\<rparr>)"

definition static_Authenticate :: "(string \<Rightarrow> string) \<Rightarrow> StaticAuthenticator \<Rightarrow> string \<Rightarrow> goerr + Principal" where
  "static_Authenticate sha s key =
     (if key = [] then Inl ErrMissingCredentials
      else case map_of (byHash s) (hashKeyHex sha key) of
             None \<Rightarrow> Inl ErrInvalidCredentials
           | Some p \<Rightarrow> Inr p)"

section \<open>The Postgres authenticator\<close>

record api_key =
  ak_ID :: string
  ak_Hash :: string
  ak_Name :: string
  ak_Scopes :: blob
  ak_CreatedAt :: instant
  ak_LastUsedAt :: "instant option"
  ak_RevokedAt :: "instant option"

record 'k auth_state =
  as_rows :: "api_key list"
  as_db_err :: "goerr option"
  as_kv :: 'k

text \<open>\<open>json.Unmarshal\<close> into \<open>map[string][]string\<close>.\<close>

definition dec_scopes :: "json \<Rightarrow> (string \<times> string list) list option option" where
  "dec_scopes j = (case j of
     JNull \<Rightarrow> Some None
   | JObj kvs \<Rightarrow> map_option Some (those (map (\<lambda>(k, v). map_option (Pair k) (dec_list dec_string_elem v)) (to_map kvs)))
   | _ \<Rightarrow> None)"

text \<open>The scopes column: empty, \<open>{}\<close> and \<open>null\<close> leave the principal without scopes.\<close>

definition decode_scopes_column :: "blob \<Rightarrow> (string \<times> string list) list option option" where
  "decode_scopes_column b = (case b of
     Garbage s \<Rightarrow> if s = [] then Some None else None
   | Blob j \<Rightarrow> if j = JObj [] \<or> j = JNull then Some None else dec_scopes j)"

definition active_row :: "string \<Rightarrow> api_key \<Rightarrow> bool" where
  "active_row h r \<longleftrightarrow> ak_Hash r = h \<and> ak_RevokedAt r = None"

definition row_principal :: "api_key \<Rightarrow> goerr + Principal" where
  "row_principal r = (case decode_scopes_column (ak_Scopes r) of
     None \<Rightarrow> Inl (Wrapped (''auth: decode scopes for '' @ ak_ID r) (OtherErr ''json''))
   | Some sc \<Rightarrow> Inr \<lparr>pr_ID = ak_ID r, pr_Name = ak_Name r, pr_Scopes = sc\<rparr>)"

definition pg_Authenticate ::
    "(string \<Rightarrow> string) \<Rightarrow> instant \<Rightarrow> string \<Rightarrow> 'k auth_state \<Rightarrow> (goerr + Principal) \<times> 'k auth_state" where
  "pg_Authenticate sha now key s =
     (if key = [] then (Inl ErrMissingCredentials, s)
      else case as_db_err s of
        Some e \<Rightarrow> (Inl (Wrapped ''auth: query api_keys'' e), s)
      | None \<Rightarrow>
          (let h = hashKeyBytes sha key;
               s' = s\<lparr>as_rows := map (\<lambda>r. if active_row h r then r\<lparr>ak_LastUsedAt := Some now\<rparr> else r) (as_rows s)\<rparr>
           in case filter (active_row h) (as_rows s) of
                [] \<Rightarrow> (Inl ErrInvalidCredentials, s')
              | r # _ \<Rightarrow> (row_principal r, s')))"

section \<open>The cached authenticator\<close>

record CachedAuthenticator =
  ca_posTTL :: duration
  ca_negTTL :: duration

definition enc_scopes :: "(string \<times> string list) list option \<Rightarrow> json" where
  "enc_scopes sc = (case sc of None \<Rightarrow> JNull
     | Some m \<Rightarrow> JObj (map (\<lambda>(k, vs). (k, enc_list JStr vs)) (sort_key fst m)))"

definition enc_principal :: "Principal \<Rightarrow> json" where
  "enc_principal p = JObj [(''ID'', JStr (pr_ID p)), (''Name'', JStr (pr_Name p)), (''Scopes'', enc_scopes (pr_Scopes p))]"

definition Principal_field :: "string \<Rightarrow> json \<Rightarrow> Principal \<Rightarrow> Principal option" where
  "Principal_field key v p = (let k = to_lower key in
     if k = ''id'' then map_option (\<lambda>s. p\<lparr>pr_ID := s\<rparr>) (dec_str v (pr_ID p))
     else if k = ''name'' then map_option (\<lambda>s. p\<lparr>pr_Name := s\<rparr>) (dec_str v (pr_Name p))
     else if k = ''scopes'' then map_option (\<lambda>sc. p\<lparr>pr_Scopes := sc\<rparr>) (dec_scopes v)
     else Some p)"

definition dec_principal :: "json \<Rightarrow> Principal option" where
  "dec_principal j = dec_struct Principal_field \<lparr>pr_ID = [], pr_Name = [], pr_Scopes = None\<rparr> j"

definition auth_cache_key :: "(string \<Rightarrow> string) \<Rightarrow> string \<Rightarrow> string" where
  "auth_cache_key sha key = ''auth:k:'' @ hashKeyHex sha key"

text \<open>\<open>read\<close>: \<open>None\<close> is a miss (also an outage), \<open>Some None\<close> a malformed value.\<close>

definition cached_read ::
    "'k kv_ops \<Rightarrow> string \<Rightarrow> 'k \<Rightarrow> (goerr + Principal) option option \<times> 'k" where
  "cached_read kv cacheKey s = (case kv_Get kv cacheKey s of
     (Inl e, s') \<Rightarrow> (None, s')
   | (Inr raw, s') \<Rightarrow>
       ((case raw of
           Garbage _ \<Rightarrow> Some None
         | Blob j \<Rightarrow> if j = JNull then Some (Some (Inl ErrInvalidCredentials))
                     else (case dec_principal j of None \<Rightarrow> Some None | Some p \<Rightarrow> Some (Some (Inr p)))), s'))"

definition cached_write ::
    "CachedAuthenticator \<Rightarrow> 'k kv_ops \<Rightarrow> string \<Rightarrow> goerr + Principal \<Rightarrow> 'k \<Rightarrow> 'k" where
  "cached_write c kv cacheKey res s = (case res of
     Inr p \<Rightarrow> if ca_posTTL c \<le> 0 then s else snd (kv_Set kv cacheKey (Blob (enc_principal p)) (ca_posTTL c) s)
   | Inl e \<Rightarrow>
       if errors_Is e ErrInvalidCredentials
       then (if ca_negTTL c \<le> 0 then s else snd (kv_Set kv cacheKey (Blob JNull) (ca_negTTL c) s))
       else s)"

text \<open>
  \<open>Authenticate\<close> for one caller; \<open>inner\<close> is the wrapped authenticator.  Concurrent callers
  with the same key share the outcome of the first through \<open>singleflight\<close>.
\<close>

definition cached_Authenticate ::
    "(string \<Rightarrow> string) \<Rightarrow> CachedAuthenticator \<Rightarrow> 'k kv_ops \<Rightarrow>
     (string \<Rightarrow> 'k auth_state \<Rightarrow> (goerr + Principal) \<times> 'k auth_state) option \<Rightarrow>
     string \<Rightarrow> 'k auth_state \<Rightarrow> (goerr + Principal) \<times> 'k auth_state" where
  "cached_Authenticate sha c kv inner key s =
     (if key = [] then (Inl ErrMissingCredentials, s)
      else case inner of
        None \<Rightarrow> (Inl (OtherErr ''auth: cached authenticator has no inner''), s)
      | Some authenticate \<Rightarrow>
          (case cached_read kv (auth_cache_key sha key) (as_kv s) of
             (Some (Some hit), k1) \<Rightarrow> (hit, s\<lparr>as_kv := k1\<rparr>)
           | (_, k1) \<Rightarrow>
               (case authenticate key (s\<lparr>as_kv := k1\<rparr>) of
                  (res, s') \<Rightarrow> (res, s'\<lparr>as_kv := cached_write c kv (auth_cache_key sha key) res (as_kv s')\<rparr>))))"

section \<open>Lemmas: hashes\<close>

lemma auth_cache_key_inj: "auth_cache_key sha k = auth_cache_key sha l \<Longrightarrow> sha k = sha l"
  by (auto simp: auth_cache_key_def hashKeyHex_def dest: hex_encode_inj)

section \<open>Lemmas: principals in the cache\<close>

definition norm_scopes :: "(string \<times> string list) list option \<Rightarrow> (string \<times> string list) list option" where
  "norm_scopes sc = map_option (sort_key fst) sc"

definition norm_principal :: "Principal \<Rightarrow> Principal" where
  "norm_principal p = p\<lparr>pr_Scopes := norm_scopes (pr_Scopes p)\<rparr>"

definition principal_ok :: "Principal \<Rightarrow> bool" where
  "principal_ok p \<longleftrightarrow> opt_all (\<lambda>m. distinct (map fst m)) (pr_Scopes p)"

lemma dec_scopes_enc:
  assumes "opt_all (\<lambda>m. distinct (map fst m)) sc"
  shows "dec_scopes (enc_scopes sc) = Some (norm_scopes sc)"
proof (cases sc)
  case None
  then show ?thesis by (simp add: enc_scopes_def dec_scopes_def norm_scopes_def)
next
  case (Some m)
  let ?m = "sort_key fst m" and ?e = "\<lambda>(k, vs). (k, enc_list JStr vs)"
  have "distinct (map fst ?m)" using assms Some by (metis mset_eq_imp_distinct_iff mset_map mset_sort opt_all.simps(2))
  then have "distinct (map fst (map ?e ?m))" by (simp add: comp_def case_prod_beta)
  note d = to_map_distinct [OF this]
  have "those (map (\<lambda>(k, v). map_option (Pair k) (dec_list dec_string_elem v)) (map ?e xs)) = Some xs" for xs
    by (induction xs) (auto simp: stop_read_back)
  with d show ?thesis by (simp add: Some enc_scopes_def dec_scopes_def norm_scopes_def)
qed

lemma lower_principal_keys [simp]: "to_lower ''ID'' = ''id''" "to_lower ''Name'' = ''name''" "to_lower ''Scopes'' = ''scopes''"
  by code_simp+

lemma dec_principal_enc: "principal_ok p \<Longrightarrow> dec_principal (enc_principal p) = Some (norm_principal p)"
  by (cases p) (simp add: dec_principal_def enc_principal_def dec_struct_def Principal_field_def dec_scopes_enc
      principal_ok_def norm_principal_def)

lemma to_map_keys: "distinct (map fst (to_map kvs))"
proof -
  have "distinct (al_keys (foldl (\<lambda>m (k, v). al_put k v m) m kvs))" if "distinct (al_keys m)" for m
    using that by (induction kvs arbitrary: m) (auto simp: distinct_al_put)
  from this [of "[]"] show ?thesis by (simp add: to_map_def al_keys_def)
qed

lemma those_pairs_keys:
  "those (map (\<lambda>(k, v). map_option (Pair k) (f v)) kvs) = Some m \<Longrightarrow> map fst m = map fst kvs"
  by (induction kvs arbitrary: m) (auto split: option.splits)

lemma row_principal_ok: "row_principal r = Inr p \<Longrightarrow> principal_ok p"
  by (auto simp: row_principal_def decode_scopes_column_def dec_scopes_def principal_ok_def to_map_keys
      split: option.splits blob.splits if_splits json.splits dest!: those_pairs_keys)

section \<open>The interface\<close>

text \<open>What the middleware relies on: no key, no principal, and a principal only for a key.\<close>

locale authenticator =
  fixes authenticate :: "string \<Rightarrow> 's \<Rightarrow> (goerr + Principal) \<times> 's"
  assumes missing: "authenticate [] s = (Inl ErrMissingCredentials, s)"
begin

lemma key_given: "authenticate key s = (Inr p, s') \<Longrightarrow> key \<noteq> []"
  using missing by fastforce

end

interpretation static_auth: authenticator "\<lambda>key s. (static_Authenticate sha a key, s)" for sha a
  by unfold_locales (simp add: static_Authenticate_def)

interpretation pg_auth: authenticator "pg_Authenticate sha now" for sha now
  by unfold_locales (simp add: pg_Authenticate_def)

interpretation cached_auth: authenticator "cached_Authenticate sha c kv inner" for sha c kv inner
  by unfold_locales (simp add: cached_Authenticate_def)

section \<open>The cache agrees with the table\<close>

definition pg_outcome :: "(string \<Rightarrow> string) \<Rightarrow> api_key list \<Rightarrow> string \<Rightarrow> goerr + Principal" where
  "pg_outcome sha rows key = (case filter (active_row (sha key)) rows of
     [] \<Rightarrow> Inl ErrInvalidCredentials | r # _ \<Rightarrow> row_principal r)"

definition norm_result :: "goerr + Principal \<Rightarrow> goerr + Principal" where
  "norm_result r = map_sum id norm_principal r"

definition cached_value :: "blob \<Rightarrow> (goerr + Principal) option" where
  "cached_value b = (case b of
     Garbage _ \<Rightarrow> None
   | Blob j \<Rightarrow> if j = JNull then Some (Inl ErrInvalidCredentials) else map_option Inr (dec_principal j))"

definition auth_coherent :: "(string \<Rightarrow> string) \<Rightarrow> (string \<rightharpoonup> blob) \<Rightarrow> api_key list \<Rightarrow> bool" where
  "auth_coherent sha m rows \<longleftrightarrow>
     (\<forall>key b r. m (auth_cache_key sha key) = Some b \<longrightarrow> cached_value b = Some r \<longrightarrow>
        norm_result r = norm_result (pg_outcome sha rows key))"

lemma norm_principal_idem [simp]: "norm_principal (norm_principal p) = norm_principal p"
  by (cases p) (auto simp: norm_principal_def norm_scopes_def option.map_comp comp_def sort_key_id_if_sorted)

lemma pg_outcome_invalid:
  assumes "pg_outcome sha rows key = Inl e" "errors_Is e ErrInvalidCredentials"
  shows "e = ErrInvalidCredentials"
proof (cases "filter (active_row (sha key)) rows")
  case Nil
  with assms show ?thesis by (simp add: pg_outcome_def)
next
  case (Cons r rs)
  with assms(1) obtain m where "e = Wrapped m (OtherErr ''json'')"
    by (auto simp: pg_outcome_def row_principal_def split: option.splits)
  with assms(2) show ?thesis by simp
qed

lemma cached_value_outcome:
  assumes "pg_outcome sha rows key = r" "cached_value (case r of Inr p \<Rightarrow> Blob (enc_principal p) | Inl _ \<Rightarrow> Blob JNull) = Some r'"
    "\<forall>e. r = Inl e \<longrightarrow> errors_Is e ErrInvalidCredentials"
  shows "norm_result r' = norm_result r"
proof (cases r)
  case (Inl e)
  with assms pg_outcome_invalid [of sha rows key e] show ?thesis by (auto simp: cached_value_def)
next
  case (Inr p)
  with assms(1) have "principal_ok p" by (auto simp: pg_outcome_def row_principal_ok split: list.splits)
  moreover have "enc_principal p \<noteq> JNull" by (simp add: enc_principal_def)
  ultimately show ?thesis using assms Inr by (auto simp: cached_value_def dec_principal_enc norm_result_def)
qed

lemma pg_outcome_same_key:
  "auth_cache_key sha k = auth_cache_key sha l \<Longrightarrow> pg_outcome sha rows k = pg_outcome sha rows l"
  by (drule auth_cache_key_inj) (simp add: pg_outcome_def)

lemma row_principal_touched [simp]: "row_principal (r\<lparr>ak_LastUsedAt := t\<rparr>) = row_principal r"
  by (simp add: row_principal_def split: option.split)

lemma touched_rows:
  "filter (active_row h) (map (\<lambda>r. if active_row g r then r\<lparr>ak_LastUsedAt := t\<rparr> else r) rows) =
   map (\<lambda>r. if active_row g r then r\<lparr>ak_LastUsedAt := t\<rparr> else r) (filter (active_row h) rows)"
  by (induction rows) (auto simp: active_row_def)

lemma pg_outcome_touched:
  "pg_outcome sha (map (\<lambda>r. if active_row g r then r\<lparr>ak_LastUsedAt := t\<rparr> else r) rows) key = pg_outcome sha rows key"
  by (auto simp: pg_outcome_def touched_rows split: list.splits)

lemma pg_Authenticate_outcome:
  assumes "pg_Authenticate sha now key s = (res, s')" "key \<noteq> []" "as_db_err s = None"
  shows "res = pg_outcome sha (as_rows s) key" "as_kv s' = as_kv s" "as_db_err s' = None"
    "pg_outcome sha (as_rows s') = pg_outcome sha (as_rows s)"
  using assms
  by (auto simp: pg_Authenticate_def pg_outcome_def hashKeyBytes_def Let_def touched_rows fun_eq_iff
      split: list.splits)

lemma coherent_write:
  assumes law: "kv_laws kv look" and coh: "auth_coherent sha (look k) rows"
    and res: "res = pg_outcome sha rows key"
  shows "auth_coherent sha (look (cached_write c kv (auth_cache_key sha key) res k)) rows"
proof -
  have upd: "auth_coherent sha ((look k)(auth_cache_key sha key \<mapsto> b)) rows"
    if "\<And>r'. cached_value b = Some r' \<Longrightarrow> norm_result r' = norm_result res" for b
    using that coh res pg_outcome_same_key unfolding auth_coherent_def by (metis fun_upd_apply option.inject)
  have set: "look (snd (kv_Set kv x b d k)) = (look k)(x \<mapsto> b) \<or> look (snd (kv_Set kv x b d k)) = look k" for x b d
    using law unfolding kv_laws_def by (metis prod.collapse)
  show ?thesis
  proof (cases res)
    case (Inl e)
    show ?thesis
    proof (cases "errors_Is e ErrInvalidCredentials")
      case True
      then have "auth_coherent sha ((look k)(auth_cache_key sha key \<mapsto> Blob JNull)) rows"
        using cached_value_outcome [OF res [symmetric]] Inl by (intro upd) simp
      then show ?thesis
        using coh True Inl set [of "auth_cache_key sha key" "Blob JNull" "ca_negTTL c"] by (auto simp: cached_write_def)
    next
      case False
      with Inl coh show ?thesis by (simp add: cached_write_def)
    qed
  next
    case (Inr p)
    then show ?thesis
      using coh set [of "auth_cache_key sha key" "Blob (enc_principal p)" "ca_posTTL c"] upd [of "Blob (enc_principal p)"]
        cached_value_outcome [OF res [symmetric]]
      by (auto simp: cached_write_def)
  qed
qed

lemma cached_read_value:
  assumes "kv_laws kv look" "cached_read kv key s = (r, s')"
  shows "look s' = look s" "r = Some (Some x) \<Longrightarrow> \<exists>b. look s key = Some b \<and> cached_value b = Some x"
proof -
  obtain g s1 where g: "kv_Get kv key s = (g, s1)" by (meson surj_pair)
  with assms(1) have "look s1 = look s" "\<And>v. g = Inr v \<Longrightarrow> look s key = Some v" unfolding kv_laws_def by blast+
  with assms(2) g show "look s' = look s" "r = Some (Some x) \<Longrightarrow> \<exists>b. look s key = Some b \<and> cached_value b = Some x"
    by (auto simp: cached_read_def cached_value_def split: sum.splits blob.splits if_splits option.splits)
qed

section \<open>Building the static table\<close>

lemma static_loop_errs: "prefix errs (fst (static_loop sha i es seen bh errs))"
proof (induction es arbitrary: i seen bh errs)
  case (Cons e es)
  have "prefix errs (fst (static_loop sha j es sn b (errs @ [x])))" for j sn b x
    using Cons.IH append_prefixD by blast
  with Cons.IH show ?case by (simp add: Let_def split: option.split)
qed simp

lemma static_loop_errD: "static_loop sha i es seen bh (errs @ [x]) = ([], bh') \<Longrightarrow> False"
  using static_loop_errs [of "errs @ [x]" sha i es seen bh] by simp

lemma static_loop_ok:
  assumes "static_loop sha i es seen bh errs = ([], bh')"
  shows "(\<forall>e \<in> set es. se_Secret e \<noteq> [] \<and> map_of bh' (hashKeyHex sha (se_Secret e)) = Some (static_principal e)) \<and>
    map_of bh \<subseteq>\<^sub>m map_of bh' \<and>
    dom (map_of bh') = dom (map_of bh) \<union> (\<lambda>e. hashKeyHex sha (se_Secret e)) ` set es"
  using assms
proof (induction sha i es seen bh errs rule: static_loop.induct)
  case (2 sha i e es seenID bh errs)
  have a: "se_ID e \<noteq> []" "se_Secret e \<noteq> []" "se_ID e \<notin> seenID" "map_of bh (hashKeyHex sha (se_Secret e)) = None"
    using "2.prems" by (auto simp: Let_def split: if_splits option.splits dest: static_loop_errD)
  let ?bh = "al_put (hashKeyHex sha (se_Secret e)) (static_principal e) bh"
  have rec: "static_loop sha (i + 1) es (insert (se_ID e) seenID) ?bh errs = ([], bh')"
    using "2.prems" a by (simp add: Let_def)
  note IH = "2.IH"(4) [OF a(1,2,3) refl refl a(4) rec]
  have "map_of bh' (hashKeyHex sha (se_Secret e)) = Some (static_principal e)"
    using IH by (auto simp: map_of_al_put map_le_def dom_def)
  moreover have "map_of bh \<subseteq>\<^sub>m map_of ?bh" using a(4) by (auto simp: map_le_def map_of_al_put dom_def)
  then have "map_of bh \<subseteq>\<^sub>m map_of bh'" using IH map_le_trans by blast
  ultimately show ?case using IH a(2) by (auto simp: map_of_al_put)
qed simp

text \<open>A static authenticator gives out the principals of its entries only.\<close>

lemma static_principals:
  assumes "NewStatic sha entries = Inr a" "static_Authenticate sha a key = Inr p"
  shows "\<exists>e \<in> set entries. p = static_principal e \<and> hashKeyHex sha key = hashKeyHex sha (se_Secret e)"
proof -
  have l: "static_loop sha 0 entries {} [] [] = ([], byHash a)"
    using assms(1) by (auto simp: NewStatic_def split: if_splits prod.splits)
  have p: "map_of (byHash a) (hashKeyHex sha key) = Some p"
    using assms(2) by (auto simp: static_Authenticate_def split: if_splits option.splits)
  then obtain e where "e \<in> set entries" "hashKeyHex sha key = hashKeyHex sha (se_Secret e)"
    using static_loop_ok [OF l] by (auto simp: dom_def)
  with static_loop_ok [OF l] p show ?thesis by auto
qed

section \<open>Properties\<close>

text \<open>
  Every entry the static authenticator was built from authenticates with its own secret
  as its own principal, and a key whose hash is none of theirs is refused.
\<close>

lemma static_authenticates:
  assumes "NewStatic sha entries = Inr a"
  shows "(\<forall>e \<in> set entries. static_Authenticate sha a (se_Secret e) = Inr (static_principal e)) \<and>
    (\<forall>key. key \<noteq> [] \<and> hashKeyHex sha key \<notin> (\<lambda>e. hashKeyHex sha (se_Secret e)) ` set entries \<longrightarrow>
       static_Authenticate sha a key = Inl ErrInvalidCredentials)"
proof -
  have l: "static_loop sha 0 entries {} [] [] = ([], byHash a)"
    using assms by (auto simp: NewStatic_def split: if_splits prod.splits)
  note ok = static_loop_ok [OF l]
  have "dom (map_of (byHash a)) = (\<lambda>e. hashKeyHex sha (se_Secret e)) ` set entries" using ok by simp
  then have "map_of (byHash a) (hashKeyHex sha key) = None"
    if "hashKeyHex sha key \<notin> (\<lambda>e. hashKeyHex sha (se_Secret e)) ` set entries" for key
    using that by blast
  with ok show ?thesis by (simp add: static_Authenticate_def)
qed

definition demo_entries :: "StaticEntry list" where
  "demo_entries = [\<lparr>se_ID = ''dev'', se_Name = ''Dev'', se_Secret = ''s1'', se_Scopes = None\<rparr>,
     \<lparr>se_ID = ''ops'', se_Name = ''Ops'', se_Secret = ''s2'', se_Scopes = Some [(''admin'', [''*''])]\<rparr>]"

lemma static_authenticates_witness:
  "\<exists>a. NewStatic id demo_entries = Inr a \<and> static_Authenticate id a ''s2'' = Inr (static_principal (demo_entries ! 1)) \<and>
    static_Authenticate id a ''s3'' = Inl ErrInvalidCredentials"
proof -
  have inj: "hashKeyHex id k = hashKeyHex id l \<longleftrightarrow> k = l" for k l
    by (auto simp: hashKeyHex_def dest: hex_encode_inj)
  obtain a where a: "NewStatic id demo_entries = Inr a"
    by (simp add: NewStatic_def demo_entries_def Let_def inj)
  have "hashKeyHex id ''s3'' \<notin> (\<lambda>e. hashKeyHex id (se_Secret e)) ` set demo_entries"
    by (simp add: demo_entries_def inj)
  with static_authenticates [OF a] have "static_Authenticate id a ''s3'' = Inl ErrInvalidCredentials" by blast
  moreover have e: "demo_entries ! 1 \<in> set demo_entries" "se_Secret (demo_entries ! 1) = ''s2''"
    by (simp_all add: demo_entries_def)
  have "static_Authenticate id a (se_Secret (demo_entries ! 1)) = Inr (static_principal (demo_entries ! 1))"
    using static_authenticates [OF a] e(1) by blast
  ultimately show ?thesis using a unfolding e(2) by blast
qed

text \<open>
  C10: the cache in front of the database is transparent.  While its entries agree with the
  table, authentication through it gives the table's answer for every key (scopes are
  compared as maps), and its entries still agree afterwards, whatever Redis does.
\<close>

theorem cached_auth_transparent:
  assumes "kv_laws kv look" "as_db_err s = None" "key \<noteq> []"
    and "auth_coherent sha (look (as_kv s)) (as_rows s)"
    and "cached_Authenticate sha c kv (Some (pg_Authenticate sha now)) key s = (res, s')"
  shows "norm_result res = norm_result (pg_outcome sha (as_rows s) key) \<and>
    auth_coherent sha (look (as_kv s')) (as_rows s') \<and> pg_outcome sha (as_rows s') = pg_outcome sha (as_rows s)"
proof -
  obtain r k1 where rd: "cached_read kv (auth_cache_key sha key) (as_kv s) = (r, k1)" by (meson surj_pair)
  note lk = cached_read_value [OF assms(1) rd]
  show ?thesis
  proof (cases "\<exists>hit. r = Some (Some hit)")
    case True
    then obtain hit where hit: "r = Some (Some hit)" by blast
    with assms(3,5) rd have "res = hit" "s' = s\<lparr>as_kv := k1\<rparr>" by (simp_all add: cached_Authenticate_def)
    moreover obtain b where "look (as_kv s) (auth_cache_key sha key) = Some b" "cached_value b = Some hit"
      using lk(2) [OF hit] by blast
    ultimately show ?thesis using assms(4) lk(1) unfolding auth_coherent_def by auto
  next
    case False
    obtain res1 s1 where pg: "pg_Authenticate sha now key (s\<lparr>as_kv := k1\<rparr>) = (res1, s1)" by (meson surj_pair)
    with assms(3,5) rd False have r: "res = res1"
      "s' = s1\<lparr>as_kv := cached_write c kv (auth_cache_key sha key) res1 (as_kv s1)\<rparr>"
      by (auto simp: cached_Authenticate_def split: option.splits)
    note o = pg_Authenticate_outcome [OF pg assms(3)]
    have "auth_coherent sha (look (as_kv s1)) (as_rows s1)"
      using assms(4) o assms(2) lk(1) by (simp add: auth_coherent_def)
    from coherent_write [OF assms(1) this, of res1 key c] r o assms(2) show ?thesis by simp
  qed
qed

definition demo_row :: api_key where
  "demo_row = \<lparr>ak_ID = ''key-1'', ak_Hash = ''s1'', ak_Name = ''n'', ak_Scopes = Blob (JObj [(''admin'', JArr [JStr ''webui''])]),
     ak_CreatedAt = 0, ak_LastUsedAt = None, ak_RevokedAt = None\<rparr>"

definition demo_auth_state :: "(string \<rightharpoonup> blob) auth_state" where
  "demo_auth_state = \<lparr>as_rows = [demo_row], as_db_err = None, as_kv = Map.empty\<rparr>"

definition demo_cached :: CachedAuthenticator where
  "demo_cached = \<lparr>ca_posTTL = Minute, ca_negTTL = Second\<rparr>"

theorem cached_auth_transparent_witness:
  "norm_result (fst (cached_Authenticate id demo_cached map_kv (Some (pg_Authenticate id 5)) ''s1'' demo_auth_state)) =
   Inr \<lparr>pr_ID = ''key-1'', pr_Name = ''n'', pr_Scopes = Some [(''admin'', [''webui''])]\<rparr>"
proof -
  obtain res s' where c: "cached_Authenticate id demo_cached map_kv (Some (pg_Authenticate id 5)) ''s1'' demo_auth_state = (res, s')"
    by (meson surj_pair)
  have "auth_coherent id (as_kv demo_auth_state) (as_rows demo_auth_state)"
    by (simp add: auth_coherent_def demo_auth_state_def)
  with cached_auth_transparent [OF map_kv_laws _ _ _ c]
  have "norm_result res = norm_result (pg_outcome id (as_rows demo_auth_state) ''s1'')" by (simp add: demo_auth_state_def)
  moreover have "norm_result (pg_outcome id (as_rows demo_auth_state) ''s1'') =
      Inr \<lparr>pr_ID = ''key-1'', pr_Name = ''n'', pr_Scopes = Some [(''admin'', [''webui''])]\<rparr>"
    by (simp add: pg_outcome_def demo_auth_state_def demo_row_def active_row_def row_principal_def decode_scopes_column_def
        dec_scopes_def to_map_def dec_list_def dec_string_elem_def norm_result_def norm_principal_def norm_scopes_def)
  ultimately show ?thesis using c by simp
qed

end
