(* ===== verification/RedisWindow.thy ===== *)
theory RedisWindow
  imports ProviderTypes "HOL-Library.AList"
begin

text \<open>
  \<open>internal/ratelimit/redis_window.go\<close>: the sliding-window limiter, a Lua script over one
  sorted set and one counter per key.  The commands of Redis are the fields of \<open>redis_ops\<close>,
  an argument of every definition; \<open>redis_laws\<close> states what the script relies on, the expiry
  of keys included.  Lua numbers are \<open>float64\<close>s, so the script's arithmetic is rounded.
  \<open>window_run\<close> is the life of one key: calls of \<open>Allow\<close> by instances with clocks of their
  own, calls whose reply is lost, and the passing of time on the Redis server, which expires keys.
\<close>

section \<open>Decisions\<close>

record Decision =
  d_Allowed :: bool
  d_Limit :: int
  d_Remaining :: int
  d_Reset :: instant
  d_RetryAfter :: duration
  d_Rule :: string

definition Decision0 :: Decision where
  "Decision0 = \<lparr>d_Allowed = False, d_Limit = 0, d_Remaining = 0, d_Reset = 0, d_RetryAfter = 0, d_Rule = []\<rparr>"

section \<open>The commands of Redis\<close>

text \<open>
  \<open>rd_ZRANGE0\<close> is \<open>ZRANGE key 0 0 WITHSCORES\<close>, and \<open>rd_ZADD\<close> takes the member as the
  number the script passes, whose decimal rendering is the member.  \<open>rd_Err\<close> is the
  failure of the round trip, if it fails.
\<close>

record 'r redis_ops =
  rd_Err :: "'r \<Rightarrow> goerr option"
  rd_ZREMRANGEBYSCORE :: "string \<Rightarrow> rat \<Rightarrow> 'r \<Rightarrow> 'r"
  rd_ZCARD :: "string \<Rightarrow> 'r \<Rightarrow> nat"
  rd_ZRANGE0 :: "string \<Rightarrow> 'r \<Rightarrow> (rat \<times> rat) option"
  rd_INCR :: "string \<Rightarrow> 'r \<Rightarrow> int \<times> 'r"
  rd_ZADD :: "string \<Rightarrow> rat \<Rightarrow> rat \<Rightarrow> 'r \<Rightarrow> 'r"
  rd_EXPIRE :: "string \<Rightarrow> int \<Rightarrow> 'r \<Rightarrow> 'r"

text \<open>
  What a database holds: the sorted sets, members to scores, the counters, the instant each key
  expires at, if it does, and the server's clock, in nanoseconds.
\<close>

record 'r redis_view =
  rv_zset :: "'r \<Rightarrow> string \<Rightarrow> rat \<rightharpoonup> rat"
  rv_ctr :: "'r \<Rightarrow> string \<Rightarrow> int"
  rv_expires :: "'r \<Rightarrow> string \<rightharpoonup> int"
  rv_clock :: "'r \<Rightarrow> int"

text \<open>
  The documented effect of the commands.  The clock stands still while a script runs.  A
  sorted set that loses its last member is deleted, and its expiry with it; adding to a set or a
  counter keeps its expiry; \<open>EXPIRE\<close> with a positive number of seconds sets it for a key that
  exists.
\<close>

definition redis_laws :: "'r redis_ops \<Rightarrow> 'r redis_view \<Rightarrow> bool" where
  "redis_laws rd v \<longleftrightarrow>
     (\<forall>r k. finite (dom (rv_zset v r k)) \<and> rd_ZCARD rd k r = card (dom (rv_zset v r k))) \<and>
     (\<forall>r k m. let r' = rd_ZREMRANGEBYSCORE rd k m r in
        rv_zset v r' = (rv_zset v r)(k := rv_zset v r k |` {x. m < the (rv_zset v r k x)}) \<and> rv_ctr v r' = rv_ctr v r \<and>
        rv_clock v r' = rv_clock v r \<and> (\<forall>k'. k' \<noteq> k \<or> rv_zset v r' k \<noteq> Map.empty \<longrightarrow> rv_expires v r' k' = rv_expires v r k')) \<and>
     (\<forall>r k. (rd_ZRANGE0 rd k r = None \<longrightarrow> dom (rv_zset v r k) = {}) \<and>
        (\<forall>x s. rd_ZRANGE0 rd k r = Some (x, s) \<longrightarrow> rv_zset v r k x = Some s \<and> (\<forall>y \<in> dom (rv_zset v r k). s \<le> the (rv_zset v r k y)))) \<and>
     (\<forall>r k. let r' = snd (rd_INCR rd k r) in fst (rd_INCR rd k r) = rv_ctr v r k + 1 \<and> rv_zset v r' = rv_zset v r \<and>
        rv_ctr v r' = (rv_ctr v r)(k := rv_ctr v r k + 1) \<and> rv_clock v r' = rv_clock v r \<and> rv_expires v r' = rv_expires v r) \<and>
     (\<forall>r k s x. let r' = rd_ZADD rd k s x r in rv_zset v r' = (rv_zset v r)(k := (rv_zset v r k)(x \<mapsto> s)) \<and>
        rv_ctr v r' = rv_ctr v r \<and> rv_clock v r' = rv_clock v r \<and> rv_expires v r' = rv_expires v r) \<and>
     (\<forall>r k n. 0 < n \<longrightarrow> (let r' = rd_EXPIRE rd k n r in rv_zset v r' = rv_zset v r \<and> rv_ctr v r' = rv_ctr v r \<and> rv_clock v r' = rv_clock v r \<and>
        rv_expires v r' = (if rv_zset v r k \<noteq> Map.empty \<or> rv_ctr v r k \<noteq> 0 then (rv_expires v r)(k \<mapsto> rv_clock v r + n * Second)
          else rv_expires v r)))"

section \<open>The script\<close>

definition seq_key :: "string \<Rightarrow> string" where
  "seq_key key = key @ '':_seq''"

text \<open>\<open>now - window\<close>, the score up to which entries are dropped.\<close>

definition window_start :: "rat \<Rightarrow> rat \<Rightarrow> rat" where
  "window_start now window = f_add now (- window)"

fun add_members :: "'r redis_ops \<Rightarrow> string \<Rightarrow> rat \<Rightarrow> nat \<Rightarrow> 'r \<Rightarrow> 'r" where
  "add_members rd key now 0 r = r"
| "add_members rd key now (Suc i) r = (case rd_INCR rd (seq_key key) r of
     (sq, r1) \<Rightarrow> add_members rd key now i (rd_ZADD rd key now (f_of_int sq) r1))"

definition slidingWindowScript ::
    "'r redis_ops \<Rightarrow> string \<Rightarrow> int \<Rightarrow> int \<Rightarrow> int \<Rightarrow> int \<Rightarrow> int \<Rightarrow> 'r \<Rightarrow> (int \<times> int \<times> int) \<times> 'r" where
  "slidingWindowScript rd key a_now a_window a_limit a_cost expire r =
     (let now = f_of_int a_now;
          window = f_of_int a_window;
          limit = f_of_int a_limit;
          cost = f_of_int a_cost;
          r1 = rd_ZREMRANGEBYSCORE rd key (window_start now window) r;
          current = f_of_int (int (rd_ZCARD rd key r1))
      in if f_add current cost > limit then
           let retry_ms = (case rd_ZRANGE0 rd key r1 of
                 None \<Rightarrow> 0
               | Some (_, oldest_score) \<Rightarrow>
                   max 0 \<lceil>f_div (f_add (f_add oldest_score window) (- now)) 1000000\<rceil>)
           in ((0, f_trunc (max 0 (f_add limit (- current))), retry_ms), r1)
         else
           let r2 = add_members rd key now (nat \<lfloor>cost\<rfloor>) r1;
               r3 = rd_EXPIRE rd (seq_key key) expire (rd_EXPIRE rd key expire r2);
               remaining = f_add limit (- f_add current cost)
           in ((1, f_trunc (max 0 remaining), 0), r3))"

section \<open>The limiter\<close>

record RedisWindow =
  rw_limit :: int
  rw_window :: duration

datatype redis_window_error = ClientRequired | LimitTooSmall | WindowTooSmall

definition NewRedisWindow :: "bool \<Rightarrow> int \<Rightarrow> duration \<Rightarrow> redis_window_error + RedisWindow" where
  "NewRedisWindow has_client limit window =
     (if \<not> has_client then Inl ClientRequired
      else if limit < 1 then Inl LimitTooSmall
      else if window \<le> 0 then Inl WindowTooSmall
      else Inr \<lparr>rw_limit = limit, rw_window = window\<rparr>)"

text \<open>
  \<open>Allow\<close>, at the instant \<open>now\<close> its clock read.  The script's reply is three integers, which
  \<open>toInt64\<close> returns as they are.
\<close>

definition RedisWindow_Allow ::
    "'r redis_ops \<Rightarrow> RedisWindow \<Rightarrow> string \<Rightarrow> int \<Rightarrow> instant \<Rightarrow> 'r \<Rightarrow> (goerr + Decision) \<times> 'r" where
  "RedisWindow_Allow rd w key cost0 now r =
     (let cost = (if cost0 < 1 then 1 else cost0);
          expireSeconds = go_div (rw_window w) Second + 5
      in case rd_Err rd r of
           Some e \<Rightarrow> (Inl (Wrapped ''ratelimit: redis script'' e), r)
         | None \<Rightarrow>
             (case slidingWindowScript rd key now (rw_window w) (rw_limit w) cost expireSeconds r of
                ((al, remaining, retryMs), r') \<Rightarrow>
                  (let allowed = (al = 1);
                       d = Decision0\<lparr>d_Allowed := allowed, d_Limit := rw_limit w,
                             d_Remaining := remaining, d_Reset := now + rw_window w\<rparr>
                   in if \<not> allowed then
                        let ra = wrap64 (retryMs * Millisecond)
                        in (Inr (d\<lparr>d_RetryAfter := ra, d_Reset := now + ra\<rparr>), r')
                      else (Inr d, r'))))"

section \<open>The effect of the script\<close>

definition live :: "(rat \<rightharpoonup> rat) \<Rightarrow> rat \<Rightarrow> rat set" where
  "live z x = {m \<in> dom z. x < the (z m)}"

lemma redis_lawsD:
  assumes "redis_laws rd v"
  shows "finite (dom (rv_zset v r k))" "rd_ZCARD rd k r = card (dom (rv_zset v r k))"
    "rv_zset v (rd_ZREMRANGEBYSCORE rd k m r) = (rv_zset v r)(k := rv_zset v r k |` {x. m < the (rv_zset v r k x)})"
    "rv_ctr v (rd_ZREMRANGEBYSCORE rd k m r) = rv_ctr v r"
    "fst (rd_INCR rd k r) = rv_ctr v r k + 1" "rv_zset v (snd (rd_INCR rd k r)) = rv_zset v r"
    "rv_ctr v (snd (rd_INCR rd k r)) = (rv_ctr v r)(k := rv_ctr v r k + 1)"
    "rv_zset v (rd_ZADD rd k s y r) = (rv_zset v r)(k := (rv_zset v r k)(y \<mapsto> s))" "rv_ctr v (rd_ZADD rd k s y r) = rv_ctr v r"
  and redis_lawsD_expiry: "rv_clock v (rd_ZREMRANGEBYSCORE rd k m r) = rv_clock v r" "rv_clock v (snd (rd_INCR rd k r)) = rv_clock v r"
    "rv_clock v (rd_ZADD rd k s y r) = rv_clock v r"
    "k' \<noteq> k \<or> rv_zset v (rd_ZREMRANGEBYSCORE rd k m r) k \<noteq> Map.empty \<Longrightarrow>
      rv_expires v (rd_ZREMRANGEBYSCORE rd k m r) k' = rv_expires v r k'"
  and redis_lawsD_EXPIRE: "0 < n \<Longrightarrow> rv_zset v (rd_EXPIRE rd k n r) = rv_zset v r" "0 < n \<Longrightarrow> rv_ctr v (rd_EXPIRE rd k n r) = rv_ctr v r"
    "0 < n \<Longrightarrow> rv_clock v (rd_EXPIRE rd k n r) = rv_clock v r"
    "0 < n \<Longrightarrow> rv_zset v r k \<noteq> Map.empty \<or> rv_ctr v r k \<noteq> 0 \<Longrightarrow>
      rv_expires v (rd_EXPIRE rd k n r) = (rv_expires v r)(k \<mapsto> rv_clock v r + n * Second)"
  using assms unfolding redis_laws_def Let_def by metis+

text \<open>
  The members of the set are numbers the counter has handed out, which a \<open>float64\<close> holds
  exactly.
\<close>

definition members_ok :: "(rat \<rightharpoonup> rat) \<Rightarrow> int \<Rightarrow> bool" where
  "members_ok z c \<longleftrightarrow> 0 \<le> c \<and> c \<le> 2 ^ 53 \<and> (\<forall>m \<in> dom z. \<exists>i. m = of_int i \<and> i \<le> c)"

lemma add_members_effect:
  assumes "redis_laws rd v"
  shows "members_ok (rv_zset v r key) (rv_ctr v r (seq_key key)) \<Longrightarrow> rv_ctr v r (seq_key key) + int n \<le> 2 ^ 53 \<Longrightarrow>
    (let r' = add_members rd key now n r in
     members_ok (rv_zset v r' key) (rv_ctr v r' (seq_key key)) \<and> rv_ctr v r' (seq_key key) = rv_ctr v r (seq_key key) + int n \<and> rv_clock v r' = rv_clock v r \<and>
     (\<exists>new. card new = n \<and> finite new \<and> new \<inter> dom (rv_zset v r key) = {} \<and>
       rv_zset v r' key = (\<lambda>m. if m \<in> new then Some now else rv_zset v r key m)))"
proof (induction n arbitrary: r)
  case 0
  then show ?case by (auto simp: Let_def intro: exI [of _ "{}"])
next
  case (Suc n)
  note law = redis_lawsD [OF assms]
  define c where "c = rv_ctr v r (seq_key key)"
  define m :: rat where "m = of_int (c + 1)"
  define r2 where "r2 = rd_ZADD rd key now m (snd (rd_INCR rd (seq_key key) r))"
  have c: "0 \<le> c" "c + int (Suc n) \<le> 2 ^ 53" using Suc.prems by (auto simp: members_ok_def c_def)
  then have "f_of_int (c + 1) = m" unfolding m_def by (intro f_of_int_exact) auto
  then have step: "add_members rd key now (Suc n) r = add_members rd key now n r2"
    using law(5) [of "seq_key key" r] by (simp add: r2_def c_def split: prod.split) (metis fst_conv snd_conv)
  have z2: "rv_zset v r2 key = (rv_zset v r key)(m \<mapsto> now)" by (simp add: r2_def law(6,8))
  have c2: "rv_ctr v r2 (seq_key key) = c + 1" by (simp add: r2_def c_def law(7,9))
  have fresh: "m \<notin> dom (rv_zset v r key)" using Suc.prems(1) by (force simp: members_ok_def m_def c_def)
  have ok2: "members_ok (rv_zset v r2 key) (rv_ctr v r2 (seq_key key))"
    using Suc.prems c unfolding z2 c2 by (force simp: members_ok_def m_def c_def)
  have "rv_ctr v r2 (seq_key key) + int n \<le> 2 ^ 53" using c c2 by simp
  from Suc.IH [OF ok2 this, unfolded Let_def] obtain new where new:
    "members_ok (rv_zset v (add_members rd key now n r2) key) (rv_ctr v (add_members rd key now n r2) (seq_key key))"
    "rv_ctr v (add_members rd key now n r2) (seq_key key) = rv_ctr v r2 (seq_key key) + int n" "card new = n" "finite new"
    "rv_clock v (add_members rd key now n r2) = rv_clock v r2"
    "new \<inter> dom (rv_zset v r2 key) = {}"
    "rv_zset v (add_members rd key now n r2) key = (\<lambda>x. if x \<in> new then Some now else rv_zset v r2 key x)"
    by blast
  have "card (insert m new) = Suc n" "finite (insert m new)" "insert m new \<inter> dom (rv_zset v r key) = {}"
    using new(3,4,6) fresh by (auto simp: z2)
  moreover have "rv_zset v (add_members rd key now n r2) key =
      (\<lambda>x. if x \<in> insert m new then Some now else rv_zset v r key x)"
    unfolding new(7) z2 by auto
  moreover have "rv_ctr v (add_members rd key now n r2) (seq_key key) = rv_ctr v r (seq_key key) + int (Suc n)"
    using new(2) c2 c_def by simp
  moreover have "rv_clock v (add_members rd key now n r2) = rv_clock v r" using new(5) by (simp add: r2_def redis_lawsD_expiry [OF assms])
  ultimately show ?case unfolding step Let_def using new(1) by blast
qed

lemma seq_key_other [simp]: "seq_key key \<noteq> key" "key \<noteq> seq_key key"
  by (simp_all add: seq_key_def)

text \<open>What one run of the script does to the key, its counter and their expiry.\<close>

lemma script_effect:
  assumes law: "redis_laws rd v" and ok: "members_ok (rv_zset v r key) (rv_ctr v r (seq_key key))"
    and small: "1 \<le> cost" "cost \<le> 2 ^ 52" "limit \<le> 2 ^ 52" "int (card (dom (rv_zset v r key))) \<le> limit"
      "rv_ctr v r (seq_key key) + cost \<le> 2 ^ 53" "0 < expire"
    and run: "slidingWindowScript rd key now window limit cost expire r = ((al, rem, ms), r')"
  defines "z \<equiv> rv_zset v r key |` live (rv_zset v r key) (window_start (f_of_int now) (f_of_int window))"
  shows "members_ok (rv_zset v r' key) (rv_ctr v r' (seq_key key)) \<and> rv_clock v r' = rv_clock v r \<and>
    (if int (card (dom z)) + cost \<le> limit then
       al = 1 \<and> rv_expires v r' key = Some (rv_clock v r + expire * Second) \<and> rv_expires v r' (seq_key key) = Some (rv_clock v r + expire * Second) \<and>
       (\<exists>new. card new = nat cost \<and> finite new \<and> new \<inter> dom z = {} \<and>
         rv_zset v r' key = (\<lambda>m. if m \<in> new then Some (f_of_int now) else z m))
     else al = 0 \<and> rv_zset v r' key = z \<and> (z \<noteq> Map.empty \<longrightarrow> rv_expires v r' key = rv_expires v r key) \<and>
       rv_expires v r' (seq_key key) = rv_expires v r (seq_key key))"
proof -
  note L = redis_lawsD [OF law] and E = redis_lawsD_expiry [OF law] and X = redis_lawsD_EXPIRE [OF law small(6)]
  define r1 where "r1 = rd_ZREMRANGEBYSCORE rd key (window_start (f_of_int now) (f_of_int window)) r"
  have z1: "rv_zset v r1 key = z"
    unfolding r1_def z_def live_def L(3) by (auto simp: restrict_map_def)
  have c1: "rv_ctr v r1 = rv_ctr v r" "rv_clock v r1 = rv_clock v r" by (simp_all add: r1_def L(4) E(1))
  have sub: "dom z \<subseteq> dom (rv_zset v r key)" by (auto simp: z_def)
  have ok1: "members_ok (rv_zset v r1 key) (rv_ctr v r1 (seq_key key))"
    using ok sub unfolding z1 c1 members_ok_def by blast
  define n where "n = int (card (dom z))"
  have n: "0 \<le> n" "n \<le> limit"
    using small(4) card_mono [OF L(1) [of r key] sub] by (auto simp: n_def)
  have card: "int (rd_ZCARD rd key r1) = n" by (simp add: L(2) z1 n_def)
  have fl: "f_of_int n = of_int n" "f_of_int cost = of_int cost" "f_of_int limit = of_int limit"
    using n small by (simp_all add: f_of_int_exact)
  have sum: "f_add (of_int n) (of_int cost) = of_int (n + cost)"
    using n small fl64_of_int [of "n + cost"] by (simp add: f_add_def)
  show ?thesis
  proof (cases "n + cost \<le> limit")
    case True
    define r2 where "r2 = add_members rd key (f_of_int now) (nat cost) r1"
    from True have "\<not> of_int (n + cost) > (of_int limit :: rat)" by (simp only: of_int_less_iff not_less)
    with run have r': "al = 1" "r' = rd_EXPIRE rd (seq_key key) expire (rd_EXPIRE rd key expire r2)"
      by (auto simp: slidingWindowScript_def Let_def card fl sum simp flip: r1_def r2_def)
    have "rv_ctr v r1 (seq_key key) + int (nat cost) \<le> 2 ^ 53" using small c1 by simp
    from add_members_effect [OF law ok1 this, of "f_of_int now", folded r2_def, unfolded Let_def z1] obtain new where
      r2: "members_ok (rv_zset v r2 key) (rv_ctr v r2 (seq_key key))" "rv_ctr v r2 (seq_key key) = rv_ctr v r1 (seq_key key) + int (nat cost)"
        "rv_clock v r2 = rv_clock v r1" "card new = nat cost" "finite new" "new \<inter> dom z = {}"
        "rv_zset v r2 key = (\<lambda>m. if m \<in> new then Some (f_of_int now) else z m)" by blast
    have "new \<noteq> {}" using r2(4) small(1) by auto
    then have "rv_zset v r2 key \<noteq> Map.empty" unfolding r2(7) by (auto simp: fun_eq_iff)
    moreover have "rv_ctr v r2 (seq_key key) \<noteq> 0" using r2(2) ok small(1) c1(1) by (auto simp: members_ok_def)
    ultimately have "rv_expires v r' key = Some (rv_clock v r + expire * Second)" "rv_expires v r' (seq_key key) = Some (rv_clock v r + expire * Second)"
      unfolding r'(2) by (simp_all add: X c1(2) r2(3))
    moreover have "rv_zset v r' = rv_zset v r2" "rv_ctr v r' = rv_ctr v r2" "rv_clock v r' = rv_clock v r" unfolding r'(2) by (simp_all add: X c1(2) r2(3))
    ultimately show ?thesis using r'(1) r2 True by (auto simp: n_def)
  next
    case False
    then have "of_int (n + cost) > (of_int limit :: rat)" by (simp only: of_int_less_iff not_le)
    with run have r1: "al = 0" "r' = r1"
      by (auto simp: slidingWindowScript_def Let_def card fl sum simp flip: r1_def)
    have "rv_expires v r1 (seq_key key) = rv_expires v r (seq_key key)" "z \<noteq> Map.empty \<Longrightarrow> rv_expires v r1 key = rv_expires v r key"
      unfolding r1_def by (rule E(4); simp add: z1 [unfolded r1_def])+
    with False r1 ok1 z1 c1 show ?thesis by (simp add: n_def)
  qed
qed

section \<open>The life of a key\<close>

text \<open>
  Time passes on the Redis server: a key whose expiry lies in the past is gone, with its expiry;
  every other key is as it was.  Commands on other keys fall under this too.
\<close>

definition time_passes :: "'r redis_view \<Rightarrow> string set \<Rightarrow> 'r \<Rightarrow> 'r \<Rightarrow> bool" where
  "time_passes v ks r r' \<longleftrightarrow> rv_clock v r \<le> rv_clock v r' \<and>
     (\<forall>k \<in> ks. if \<exists>d. rv_expires v r k = Some d \<and> d < rv_clock v r'
        then rv_zset v r' k = Map.empty \<and> rv_ctr v r' k = 0 \<and> rv_expires v r' k = None
        else rv_zset v r' k = rv_zset v r k \<and> rv_ctr v r' k = rv_ctr v r k \<and> rv_expires v r' k = rv_expires v r k)"

text \<open>
  The cost \<open>Allow\<close> charges, and the history of admitted calls after one more: the instant
  \<open>now\<close> the calling instance's clock showed, and the cost, latest first.
\<close>

definition charged :: "int \<Rightarrow> int" where
  "charged cost0 = (if cost0 < 1 then 1 else cost0)"

definition admit :: "instant \<Rightarrow> int \<Rightarrow> goerr + Decision \<Rightarrow> (int \<times> int) list \<Rightarrow> (int \<times> int) list" where
  "admit now cost0 res h = (case res of Inl _ \<Rightarrow> h | Inr d \<Rightarrow> if d_Allowed d then (now, charged cost0) # h else h)"

text \<open>
  A run starts with no key, at least a window after the epoch.  Any instance may call at any
  moment, with a clock that is at most \<open>skew\<close> off the server's (the time from reading it to
  running the script included).  The reply of a call may be lost: then the script may have
  run and the caller knows nothing.  Costs stay below \<open>2\<^sup>5\<^sup>2\<close>, the numbers handed out below
  \<open>2\<^sup>5\<^sup>3\<close>, where \<open>float64\<close> is exact, and the clocks within an \<open>int64\<close> of nanoseconds.
\<close>

inductive window_run :: "'r redis_ops \<Rightarrow> 'r redis_view \<Rightarrow> RedisWindow \<Rightarrow> string \<Rightarrow> int \<Rightarrow> 'r \<Rightarrow> (int \<times> int) list \<Rightarrow> bool"
  for rd v w key skew where
  fresh: "rv_zset v r key = Map.empty \<Longrightarrow> rv_ctr v r (seq_key key) = 0 \<Longrightarrow> rw_window w + skew \<le> rv_clock v r \<Longrightarrow>
    rv_clock v r + skew \<le> 2 ^ 63 \<Longrightarrow> window_run rd v w key skew r []"
| call: "window_run rd v w key skew r h \<Longrightarrow> \<bar>now - rv_clock v r\<bar> \<le> skew \<Longrightarrow> charged cost \<le> 2 ^ 52 \<Longrightarrow>
    rv_ctr v r (seq_key key) + charged cost \<le> 2 ^ 53 \<Longrightarrow> RedisWindow_Allow rd w key cost now r = (res, r') \<Longrightarrow>
    window_run rd v w key skew r' (admit now cost res h)"
| lost: "window_run rd v w key skew r h \<Longrightarrow> \<bar>now - rv_clock v r\<bar> \<le> skew \<Longrightarrow> charged cost \<le> 2 ^ 52 \<Longrightarrow>
    rv_ctr v r (seq_key key) + charged cost \<le> 2 ^ 53 \<Longrightarrow> RedisWindow_Allow rd w key cost now r = (res, r') \<Longrightarrow>
    window_run rd v w key skew r' h"
| passes: "window_run rd v w key skew r h \<Longrightarrow> time_passes v {key, seq_key key} r r' \<Longrightarrow> rv_clock v r' + skew \<le> 2 ^ 63 \<Longrightarrow>
    window_run rd v w key skew r' h"

definition admitted_after :: "rat \<Rightarrow> (int \<times> int) list \<Rightarrow> int" where
  "admitted_after x h = sum_list (map (\<lambda>(s, c). if x < f_of_int s then c else 0) h)"

lemma admitted_after_simps [simp]:
  "admitted_after x [] = 0"
  "admitted_after x ((s, c) # h) = (if x < f_of_int s then c else 0) + admitted_after x h"
  by (simp_all add: admitted_after_def)

lemma admitted_after_none:
  "\<forall>(s, c) \<in> set h. f_of_int s \<le> x \<Longrightarrow> admitted_after x h = 0"
  by (induction h) auto

lemma window_start_mono:
  assumes "0 < window" "window \<le> t" "t \<le> t'"
  shows "window_start (f_of_int t) (f_of_int window) \<le> window_start (f_of_int t') (f_of_int window)"
proof -
  have m: "f_of_int window \<le> f_of_int t" "f_of_int t \<le> f_of_int t'"
    unfolding f_of_int_def using assms by (auto intro!: fl64_mono)
  then show ?thesis unfolding window_start_def f_add_def by (intro fl64_mono) simp_all
qed

text \<open>
  Four seconds are more than the three roundings of the script can lose on instants that fit an
  \<open>int64\<close>: an entry that is a window and four seconds old is out of the window.
\<close>

lemma f_of_int_error:
  assumes "0 \<le> n" "n \<le> 2 ^ 63"
  shows "\<bar>f_of_int n - of_int n\<bar> \<le> 1024"
proof -
  have "(of_int n :: rat) \<le> of_int (2 ^ 63)" using assms(2) by (simp only: of_int_le_iff)
  then have "(of_int n :: rat) / 2 ^ 53 \<le> 1024" by simp
  with fl64_error [of "of_int n"] assms(1) show ?thesis unfolding f_of_int_def by linarith
qed

lemma out_of_window:
  assumes "0 \<le> n" "0 \<le> window" "n + window + 4 * Second \<le> t" "t \<le> 2 ^ 63"
  shows "f_of_int n \<le> window_start (f_of_int t) (f_of_int window)"
proof -
  define d where "d = f_of_int t - f_of_int window"
  have e: "\<bar>f_of_int n - of_int n\<bar> \<le> 1024" "\<bar>f_of_int t - of_int t\<bar> \<le> 1024" "\<bar>f_of_int window - of_int window\<bar> \<le> 1024"
    by (rule f_of_int_error; use assms in simp)+
  have r: "of_int n + of_int window + 4000000000 \<le> (of_int t :: rat)" "(0 :: rat) \<le> of_int n" "(0 :: rat) \<le> of_int window" "(of_int t :: rat) \<le> 2 ^ 63"
    using assms by simp_all
  then have d: "of_int n + 4000000000 - 2048 \<le> d" "d \<le> 2 ^ 63 + 2048" using e unfolding d_def by linarith+
  then have "0 \<le> d" "d \<le> 2048 * 2 ^ 53" using r by simp_all
  then have "0 \<le> d" "d / 2 ^ 53 \<le> 2048" by (simp_all add: divide_le_eq)
  with fl64_error [of d] have "d - 2048 \<le> fl64 d" by linarith
  with d(1) e(1) have "f_of_int n \<le> fl64 d" by linarith
  then show ?thesis by (simp add: window_start_def f_add_def d_def)
qed

text \<open>
  The invariant, with \<open>t\<close> the latest instant a clock may show: everything admitted that is still
  in the window at \<open>t\<close> is in the set, every admission found room, and a set that exists
  expires, together with its counter, only after everything admitted has left the window.
\<close>

definition window_inv :: "'r redis_view \<Rightarrow> RedisWindow \<Rightarrow> string \<Rightarrow> int \<Rightarrow> 'r \<Rightarrow> (int \<times> int) list \<Rightarrow> bool" where
  "window_inv v w key skew r h \<longleftrightarrow> (let z = rv_zset v r key; t = rv_clock v r + skew; window = rw_window w in
     members_ok z (rv_ctr v r (seq_key key)) \<and> finite (dom z) \<and> int (card (dom z)) \<le> rw_limit w \<and>
     window + skew \<le> rv_clock v r \<and> t \<le> 2 ^ 63 \<and>
     (\<forall>x \<ge> window_start (f_of_int t) (f_of_int window). admitted_after x h \<le> int (card (live z x))) \<and>
     (\<forall>h1 n c h2. h = h1 @ (n, c) # h2 \<longrightarrow>
        admitted_after (window_start (f_of_int (n + 2 * skew)) (f_of_int window)) ((n, c) # h2) \<le> rw_limit w) \<and>
     (\<forall>(n, c) \<in> set h. 0 \<le> n \<and> n \<le> t) \<and>
     (z \<noteq> Map.empty \<longrightarrow> (\<exists>d. rv_expires v r key = Some d \<and> rv_expires v r (seq_key key) = Some d \<and>
        (\<forall>(n, c) \<in> set h. n + window + 4 * Second \<le> d + skew))))"

text \<open>The seconds \<open>Allow\<close> gives a key exceed the window by more than four.\<close>

lemma expire_slack: "0 < window \<Longrightarrow> window + 4 * Second \<le> (go_div window Second + 5) * Second \<and> 0 < go_div window Second + 5"
proof -
  assume w: "0 < window"
  then have "go_div window Second = window div Second" by (simp add: go_div_def)
  moreover have "window = window div Second * Second + window mod Second" "window mod Second < Second" "0 \<le> window div Second"
    using w by simp_all
  ultimately show ?thesis by (simp add: algebra_simps)
qed

lemma RedisWindow_Allow_runs:
  assumes "RedisWindow_Allow rd w key cost now r = (res, r')"
  obtains (failed) "r' = r" "\<And>h. admit now cost res h = h"
  | (ran) al rem ms where
      "slidingWindowScript rd key now (rw_window w) (rw_limit w) (charged cost) (go_div (rw_window w) Second + 5) r = ((al, rem, ms), r')"
      "\<And>h. admit now cost res h = (if al = 1 then (now, charged cost) # h else h)"
proof (cases "rd_Err rd r")
  case (Some e)
  with assms have "r' = r" "res = Inl (Wrapped ''ratelimit: redis script'' e)" by (auto simp: RedisWindow_Allow_def Let_def)
  with that(1) show ?thesis by (simp add: admit_def)
next
  case None
  obtain al rem ms r1 where run: "slidingWindowScript rd key now (rw_window w) (rw_limit w) (charged cost) (go_div (rw_window w) Second + 5) r = ((al, rem, ms), r1)"
    by (metis prod_cases3 surj_pair)
  with None assms have "r' = r1" "\<And>h. admit now cost res h = (if al = 1 then (now, charged cost) # h else h)"
    by (auto simp: RedisWindow_Allow_def Let_def admit_def simp flip: charged_def split: if_splits)
  with run that(2) show ?thesis by blast
qed

lemma window_inv_call:
  assumes law: "redis_laws rd v" and inv: "window_inv v w key skew r h"
    and pos: "0 < rw_window w" "rw_limit w \<le> 2 ^ 52" "\<bar>now - rv_clock v r\<bar> \<le> skew" "1 \<le> cost" "cost \<le> 2 ^ 52"
      "rv_ctr v r (seq_key key) + cost \<le> 2 ^ 53"
    and run: "slidingWindowScript rd key now (rw_window w) (rw_limit w) cost (go_div (rw_window w) Second + 5) r = ((al, rem, ms), r')"
    and h': "h' = h \<or> al = 1 \<and> h' = (now, cost) # h"
  shows "window_inv v w key skew r' h'"
proof -
  define z where "z = rv_zset v r key"
  define t where "t = rv_clock v r + skew"
  define start where "start = (\<lambda>t. window_start (f_of_int t) (f_of_int (rw_window w)))"
  define z1 where "z1 = z |` live z (start now)"
  have I: "members_ok z (rv_ctr v r (seq_key key))" "finite (dom z)" "int (card (dom z)) \<le> rw_limit w"
    "rw_window w + skew \<le> rv_clock v r" "t \<le> 2 ^ 63" "\<And>x. start t \<le> x \<Longrightarrow> admitted_after x h \<le> int (card (live z x))"
    "\<And>h1 n c h2. h = h1 @ (n, c) # h2 \<Longrightarrow> admitted_after (start (n + 2 * skew)) ((n, c) # h2) \<le> rw_limit w"
    "\<forall>(n, c) \<in> set h. 0 \<le> n \<and> n \<le> t"
    "z \<noteq> Map.empty \<Longrightarrow> \<exists>d. rv_expires v r key = Some d \<and> rv_expires v r (seq_key key) = Some d \<and>
        (\<forall>(n, c) \<in> set h. n + rw_window w + 4 * Second \<le> d + skew)"
    using inv unfolding window_inv_def Let_def z_def t_def start_def by blast+
  have now: "rw_window w \<le> now" "now \<le> t" "t \<le> now + 2 * skew" using pos(3) I(4) by (auto simp: t_def)
  then have le: "start now \<le> start t" "start t \<le> start (now + 2 * skew)" unfolding start_def by (auto intro!: window_start_mono pos(1))
  have dom1: "dom z1 = live z (start now)" by (auto simp: z1_def live_def)
  have live1: "live z1 x = live z x" "live z1 x \<subseteq> dom z1" if "start t \<le> x" for x
    using that le(1) by (auto simp: z1_def live_def restrict_map_def split: if_splits)
  have fin1: "finite (dom z1)" "int (card (dom z1)) \<le> rw_limit w" "dom z1 \<subseteq> dom z"
    using I(2,3) card_mono [OF I(2), of "dom z1"] by (auto simp: dom1 live_def)
  have adm: "admitted_after x h \<le> int (card (live z1 x))" if "start t \<le> x" for x
    using I(6) [OF that] live1 [OF that] by simp
  note slack = expire_slack [OF pos(1)]
  have z1: "z |` live z (window_start (f_of_int now) (f_of_int (rw_window w))) = z1" by (simp add: z1_def start_def)
  note eff = script_effect [OF law I(1) [unfolded z_def] pos(4,5,2) I(3) [unfolded z_def] pos(6) conjunct2 [OF slack] run,
      folded z_def, unfolded z1]
  have clk: "rv_clock v r' = rv_clock v r" "members_ok (rv_zset v r' key) (rv_ctr v r' (seq_key key))" using eff by blast+
  show ?thesis
  proof (cases "int (card (dom z1)) + cost \<le> rw_limit w")
    case False
    with eff have d: "al = 0" "rv_zset v r' key = z1" "z1 \<noteq> Map.empty \<Longrightarrow> rv_expires v r' key = rv_expires v r key"
      "rv_expires v r' (seq_key key) = rv_expires v r (seq_key key)" by auto
    have "z \<noteq> Map.empty" if "z1 \<noteq> Map.empty" using that by (auto simp: z1_def)
    with d h' I fin1 adm clk show ?thesis unfolding window_inv_def Let_def start_def t_def by auto
  next
    case True
    with eff obtain new where new: "al = 1" "card new = nat cost" "finite new" "new \<inter> dom z1 = {}"
      "rv_zset v r' key = (\<lambda>m. if m \<in> new then Some (f_of_int now) else z1 m)"
      and ex: "rv_expires v r' key = Some (rv_clock v r + (go_div (rw_window w) Second + 5) * Second)"
        "rv_expires v r' (seq_key key) = Some (rv_clock v r + (go_div (rw_window w) Second + 5) * Second)" by auto
    have domr: "dom (rv_zset v r' key) = new \<union> dom z1" unfolding new(5) by auto
    have cardr: "int (card (dom (rv_zset v r' key))) = cost + int (card (dom z1))"
      using new(2-4) fin1 pos(4) by (simp add: domr card_Un_disjoint)
    have liver: "(if x < f_of_int now then cost else 0) + admitted_after x h \<le> int (card (live (rv_zset v r' key) x))"
      if "start t \<le> x" for x
    proof -
      have "live (rv_zset v r' key) x = (if x < f_of_int now then new else {}) \<union> live z1 x"
        using new(4) unfolding live_def new(5) by auto
      moreover have "finite (live z1 x)" "new \<inter> live z1 x = {}" using fin1 new(4) by (auto simp: live_def)
      ultimately show ?thesis using new(2,3) pos(4) adm [OF that] by (simp add: card_Un_disjoint)
    qed
    have "admitted_after (start (now + 2 * skew)) h \<le> int (card (dom z1))"
      using adm [OF le(2)] card_mono [OF fin1(1) live1(2) [OF le(2)]] by linarith
    with True pos(4) have room: "admitted_after (start (now + 2 * skew)) ((now, cost) # h) \<le> rw_limit w" by simp
    have split: "admitted_after (start (n + 2 * skew)) ((n, c) # h2) \<le> rw_limit w" if "h' = h1 @ (n, c) # h2" for h1 n c h2
      using h' that room I(7) by (cases h1) (auto simp del: admitted_after_simps)
    have times: "\<forall>(n, c) \<in> set h'. 0 \<le> n \<and> n \<le> t" using h' I(8) now pos(1) by auto
    then have "\<forall>(n, c) \<in> set h'. n + rw_window w + 4 * Second \<le> rv_clock v r + (go_div (rw_window w) Second + 5) * Second + skew"
      using conjunct1 [OF slack] by (fastforce simp: t_def)
    moreover have "admitted_after x h' \<le> int (card (live (rv_zset v r' key) x))" if "start t \<le> x" for x
      using h' liver [OF that] pos(4) by (auto split: if_splits)
    ultimately show ?thesis unfolding window_inv_def Let_def clk(1)
      using clk(2) new(3) fin1 cardr True I(4,5) split domr times ex unfolding start_def t_def by auto
  qed
qed

lemma window_inv_passes:
  assumes inv: "window_inv v w key skew r h" and pos: "0 < rw_window w" "0 \<le> skew"
    and time: "time_passes v {key, seq_key key} r r'" "rv_clock v r' + skew \<le> 2 ^ 63"
  shows "window_inv v w key skew r' h"
proof -
  define t t' where "t = rv_clock v r + skew" and "t' = rv_clock v r' + skew"
  define start where "start = (\<lambda>t. window_start (f_of_int t) (f_of_int (rw_window w)))"
  let ?z = "rv_zset v r key" and ?z' = "rv_zset v r' key"
  have I: "members_ok ?z (rv_ctr v r (seq_key key))" "finite (dom ?z)" "int (card (dom ?z)) \<le> rw_limit w" "rw_window w + skew \<le> rv_clock v r"
    "\<And>x. start t \<le> x \<Longrightarrow> admitted_after x h \<le> int (card (live ?z x))"
    "\<And>h1 n c h2. h = h1 @ (n, c) # h2 \<Longrightarrow> admitted_after (start (n + 2 * skew)) ((n, c) # h2) \<le> rw_limit w"
    "\<forall>(n, c) \<in> set h. 0 \<le> n \<and> n \<le> t"
    "?z \<noteq> Map.empty \<Longrightarrow> \<exists>d. rv_expires v r key = Some d \<and> rv_expires v r (seq_key key) = Some d \<and>
        (\<forall>(n, c) \<in> set h. n + rw_window w + 4 * Second \<le> d + skew)"
    using inv unfolding window_inv_def Let_def t_def start_def by blast+
  have clk: "rv_clock v r \<le> rv_clock v r'" "t \<le> t'" using time(1) by (simp_all add: time_passes_def t_def t'_def)
  have le: "start t \<le> start t'" unfolding start_def using I(4) pos clk(2) by (intro window_start_mono) (auto simp: t_def)
  have ctr: "rv_ctr v r' (seq_key key) = rv_ctr v r (seq_key key) \<or> rv_ctr v r' (seq_key key) = 0"
    using time(1) by (auto simp: time_passes_def split: if_splits)
  have "members_ok ?z' (rv_ctr v r' (seq_key key)) \<and> finite (dom ?z') \<and> int (card (dom ?z')) \<le> rw_limit w \<and>
     (\<forall>x \<ge> start t'. admitted_after x h \<le> int (card (live ?z' x))) \<and>
     (?z' \<noteq> Map.empty \<longrightarrow> (\<exists>d. rv_expires v r' key = Some d \<and> rv_expires v r' (seq_key key) = Some d \<and>
        (\<forall>(n, c) \<in> set h. n + rw_window w + 4 * Second \<le> d + skew)))"
  proof (cases "\<exists>d. rv_expires v r key = Some d \<and> d < rv_clock v r'")
    case True
    have z': "?z' = Map.empty" using time(1) True by (auto simp: time_passes_def)
    have "admitted_after x h \<le> 0" if x: "start t' \<le> x" for x
    proof (cases "?z = Map.empty")
      case True
      with I(5) [of x] le x show ?thesis by (simp add: live_def)
    next
      case False
      with I(8) True have old: "\<forall>(n, c) \<in> set h. n + rw_window w + 4 * Second \<le> t'" by (fastforce simp: t'_def)
      have "\<forall>(n, c) \<in> set h. f_of_int n \<le> x"
      proof clarify
        fix n c assume "(n, c) \<in> set h"
        with old I(7) have "f_of_int n \<le> start t'" unfolding start_def
          by (intro out_of_window) (use pos time(2) in \<open>auto simp: t'_def\<close>)
        with x show "f_of_int n \<le> x" by simp
      qed
      then show ?thesis by (simp add: admitted_after_none)
    qed
    moreover have "0 \<le> rw_limit w" using I(3) by linarith
    ultimately show ?thesis using I(1) ctr by (auto simp: z' live_def members_ok_def)
  next
    case False
    have z': "?z' = ?z" "rv_expires v r' key = rv_expires v r key" using time(1) False by (auto simp: time_passes_def)
    show ?thesis
    proof (cases "?z = Map.empty")
      case True
      with I le ctr show ?thesis by (auto simp: z' members_ok_def)
    next
      case False': False
      then obtain d where d: "rv_expires v r key = Some d" "rv_expires v r (seq_key key) = Some d"
        "\<forall>(n, c) \<in> set h. n + rw_window w + 4 * Second \<le> d + skew" using I(8) by blast
      with False have "rv_ctr v r' (seq_key key) = rv_ctr v r (seq_key key)" "rv_expires v r' (seq_key key) = Some d"
        using time(1) by (auto simp: time_passes_def)
      with I(1-3,5) le d show ?thesis by (auto simp: z')
    qed
  qed
  moreover have "\<forall>(n, c) \<in> set h. 0 \<le> n \<and> n \<le> t'" using I(7) clk(2) by fastforce
  ultimately show ?thesis unfolding window_inv_def Let_def
    using I(4,6) clk(1) time(2) unfolding start_def t'_def by auto
qed

lemma window_run_inv:
  assumes law: "redis_laws rd v" and w: "NewRedisWindow True limit window = Inr w" "limit \<le> 2 ^ 52" and skew: "0 \<le> skew"
  shows "window_run rd v w key skew r h \<Longrightarrow> window_inv v w key skew r h"
proof (induction rule: window_run.induct)
  have pos: "0 < rw_window w" "0 \<le> rw_limit w" "rw_limit w \<le> 2 ^ 52"
    using w by (auto simp: NewRedisWindow_def split: if_splits)
  {
    case (fresh r)
    with pos show ?case by (simp add: window_inv_def members_ok_def live_def)
  next
    case (call r h now cost res r')
    have c: "1 \<le> charged cost" by (simp add: charged_def)
    from call.hyps(5) show ?case
    proof (cases rule: RedisWindow_Allow_runs)
      case (ran al rem ms)
      show ?thesis by (rule window_inv_call [OF law call.IH pos(1,3) call.hyps(2) c call.hyps(3,4) ran(1)]) (simp add: ran(2))
    qed (use call.IH in simp)
  next
    case (lost r h now cost res r')
    have c: "1 \<le> charged cost" by (simp add: charged_def)
    from lost.hyps(5) show ?case
    proof (cases rule: RedisWindow_Allow_runs)
      case (ran al rem ms)
      show ?thesis by (rule window_inv_call [OF law lost.IH pos(1,3) lost.hyps(2) c lost.hyps(3,4) ran(1)]) simp
    qed (use lost.IH in simp)
  next
    case (passes r h r')
    show ?case by (rule window_inv_passes [OF passes.IH pos(1) skew passes.hyps(2,3)])
  }
qed

section \<open>Properties\<close>

text \<open>
  C7: the sliding window admits no more than its limit.  Let any number of instances call
  \<open>Allow\<close> on a key, with clocks that are at most \<open>skew\<close> off the Redis server's and in any
  order, let replies be lost, and let the server expire the key and its counter as it was told
  to, by the \<open>EXPIRE\<close> of the script with the seconds \<open>Allow\<close> computes.  At each admission, at
  the instant \<open>n\<close> of the admitting instance's clock, the costs admitted so far with an instant
  in the window that ends there, shortened by twice the skew, the new one included, sum to at
  most the limit; with clocks that agree (\<open>skew = 0\<close>) that is the whole window.  The window's
  start is the script's own, computed in \<open>float64\<close>.  Keys the server evicts for want of
  memory, or loses in a restart, are not considered.
\<close>

theorem sliding_window_limit:
  assumes "redis_laws rd v" "NewRedisWindow True limit window = Inr w" "limit \<le> 2 ^ 52" "0 \<le> skew"
    and "window_run rd v w key skew r (h1 @ (n, c) # h2)"
  shows "admitted_after (window_start (f_of_int (n + 2 * skew)) (f_of_int window)) ((n, c) # h2) \<le> limit"
proof -
  have "w = \<lparr>rw_limit = limit, rw_window = window\<rparr>" using assms(2) by (simp add: NewRedisWindow_def split: if_splits)
  with window_run_inv [OF assms] show ?thesis unfolding window_inv_def Let_def by (simp only: RedisWindow.simps)
qed

text \<open>A Redis kept in association lists, and how time passes on it.\<close>

record list_redis =
  lr_zset :: "(string \<times> (rat \<times> rat) list) list"
  lr_ctr :: "(string \<times> int) list"
  lr_expires :: "(string \<times> int) list"
  lr_clock :: int

definition value_at :: "string \<Rightarrow> (string \<times> 'a) list \<Rightarrow> 'a \<Rightarrow> 'a" where
  "value_at k xs y = (case map_of xs k of None \<Rightarrow> y | Some x \<Rightarrow> x)"

abbreviation members_at :: "string \<Rightarrow> list_redis \<Rightarrow> (rat \<times> rat) list" where
  "members_at k r \<equiv> value_at k (lr_zset r) []"

definition list_redis_ops :: "list_redis redis_ops" where
  "list_redis_ops = \<lparr>
     rd_Err = (\<lambda>r. None),
     rd_ZREMRANGEBYSCORE = (\<lambda>k m r. let z = filter (\<lambda>e. m < the (map_of (members_at k r) (fst e))) (members_at k r)
       in r\<lparr>lr_zset := AList.update k z (lr_zset r), lr_expires := (if z = [] then AList.delete k (lr_expires r) else lr_expires r)\<rparr>),
     rd_ZCARD = (\<lambda>k r. length (remdups (map fst (members_at k r)))),
     rd_ZRANGE0 = (\<lambda>k r. let z = members_at k r in if z = [] then None
       else let m = arg_min_list (\<lambda>x. the (map_of z x)) (map fst z) in Some (m, the (map_of z m))),
     rd_INCR = (\<lambda>k r. let n = value_at k (lr_ctr r) 0 + 1 in (n, r\<lparr>lr_ctr := AList.update k n (lr_ctr r)\<rparr>)),
     rd_ZADD = (\<lambda>k s x r. r\<lparr>lr_zset := AList.update k ((x, s) # members_at k r) (lr_zset r)\<rparr>),
     rd_EXPIRE = (\<lambda>k n r. if members_at k r \<noteq> [] \<or> value_at k (lr_ctr r) 0 \<noteq> 0
       then r\<lparr>lr_expires := AList.update k (lr_clock r + n * Second) (lr_expires r)\<rparr> else r)\<rparr>"

definition list_view :: "list_redis redis_view" where
  "list_view = \<lparr>rv_zset = (\<lambda>r k. map_of (members_at k r)), rv_ctr = (\<lambda>r k. value_at k (lr_ctr r) 0),
     rv_expires = (\<lambda>r. map_of (lr_expires r)), rv_clock = lr_clock\<rparr>"

definition lr_stays :: "int \<Rightarrow> list_redis \<Rightarrow> string \<Rightarrow> bool" where
  "lr_stays t r k = (case map_of (lr_expires r) k of None \<Rightarrow> True | Some d \<Rightarrow> t \<le> d)"

definition lr_advance :: "int \<Rightarrow> list_redis \<Rightarrow> list_redis" where
  "lr_advance t r = \<lparr>lr_zset = filter (\<lambda>e. lr_stays t r (fst e)) (lr_zset r), lr_ctr = filter (\<lambda>e. lr_stays t r (fst e)) (lr_ctr r),
     lr_expires = filter (\<lambda>e. lr_stays t r (fst e)) (lr_expires r), lr_clock = t\<rparr>"

lemma map_of_filter_key: "map_of (filter (\<lambda>e. P (fst e)) xs) = map_of xs |` {x. P x}"
  by (induction xs) (auto simp: restrict_map_def fun_eq_iff)

lemma value_at_simps [simp]:
  "value_at k' (AList.update k x xs) y = (if k' = k then x else value_at k' xs y)"
  "value_at k (filter (\<lambda>e. P (fst e)) xs) y = (if P k then value_at k xs y else y)"
  by (simp_all add: value_at_def update_conv' map_of_filter_key restrict_map_def)

lemma lr_advance_passes: "lr_clock r \<le> t \<Longrightarrow> time_passes list_view ks r (lr_advance t r)"
proof -
  have "(\<exists>d. map_of (lr_expires r) k = Some d \<and> d < t) \<longleftrightarrow> \<not> lr_stays t r k" for k by (auto simp: lr_stays_def split: option.splits)
  then show "lr_clock r \<le> t \<Longrightarrow> ?thesis"
    by (simp add: time_passes_def list_view_def lr_advance_def map_of_filter_key restrict_map_def)
qed

lemma list_redis_min:
  assumes "xs \<noteq> []"
  defines "m \<equiv> arg_min_list (\<lambda>x. the (map_of xs x)) (map fst xs)"
  shows "map_of xs m = Some (the (map_of xs m)) \<and> (\<forall>y \<in> dom (map_of xs). the (map_of xs m) \<le> the (map_of xs y))"
proof -
  have "map fst xs \<noteq> []" using assms by simp
  from arg_min_list_in [OF this, of "\<lambda>x. the (map_of xs x)"] f_arg_min_list_f [OF this, of "\<lambda>x. the (map_of xs x)"]
  have "m \<in> fst ` set xs" "the (map_of xs m) = Min ((\<lambda>x. the (map_of xs x)) ` fst ` set xs)"
    by (simp_all add: m_def)
  moreover from this(1) obtain s where "map_of xs m = Some s"
    by (metis map_of_eq_None_iff not_Some_eq surj_pair)
  ultimately show ?thesis by (auto simp: dom_map_of_conv_image_fst)
qed

lemma list_redis_laws: "redis_laws list_redis_ops list_view"
  unfolding redis_laws_def
proof (intro conjI allI impI)
  show "rd_ZCARD list_redis_ops k r = card (dom (rv_zset list_view r k))" for r k
    by (simp add: list_redis_ops_def list_view_def dom_map_of_conv_image_fst length_remdups_card_conv)
  show "let r' = rd_ZREMRANGEBYSCORE list_redis_ops k m r in
        rv_zset list_view r' = (rv_zset list_view r)(k := rv_zset list_view r k |` {x. m < the (rv_zset list_view r k x)}) \<and>
        rv_ctr list_view r' = rv_ctr list_view r \<and> rv_clock list_view r' = rv_clock list_view r \<and>
        (\<forall>k'. k' \<noteq> k \<or> rv_zset list_view r' k \<noteq> Map.empty \<longrightarrow> rv_expires list_view r' k' = rv_expires list_view r k')" for r k m
    using map_of_filter_key [of "\<lambda>x. m < the (map_of (members_at k r) x)"]
    by (simp add: list_redis_ops_def list_view_def fun_eq_iff Let_def delete_conv')
  show "let r' = rd_EXPIRE list_redis_ops k n r in rv_zset list_view r' = rv_zset list_view r \<and> rv_ctr list_view r' = rv_ctr list_view r \<and>
        rv_clock list_view r' = rv_clock list_view r \<and>
        rv_expires list_view r' = (if rv_zset list_view r k \<noteq> Map.empty \<or> rv_ctr list_view r k \<noteq> 0
          then (rv_expires list_view r)(k \<mapsto> rv_clock list_view r + n * Second) else rv_expires list_view r)" for r k n
    by (simp add: list_redis_ops_def list_view_def Let_def update_conv')
  fix r k x s assume "rd_ZRANGE0 list_redis_ops k r = Some (x, s)"
  then show "rv_zset list_view r k x = Some s" "\<forall>y \<in> dom (rv_zset list_view r k). s \<le> the (rv_zset list_view r k y)"
    using list_redis_min [of "members_at k r"]
    by (auto simp: list_redis_ops_def list_view_def Let_def split: if_splits)
qed (auto simp: list_redis_ops_def list_view_def Let_def fun_eq_iff finite_dom_map_of update_conv' split: if_splits)

definition demo_redis :: list_redis where
  "demo_redis = \<lparr>lr_zset = [], lr_ctr = [], lr_expires = [], lr_clock = 100\<rparr>"

definition demo_window :: RedisWindow where
  "demo_window = \<lparr>rw_limit = 2, rw_window = 10\<rparr>"

theorem sliding_window_limit_witness:
  "\<exists>r. window_run list_redis_ops list_view demo_window ''k'' 0 r [(105, 1), (100, 1)] \<and>
    admitted_after (window_start (f_of_int 105) (f_of_int 10)) [(105, 1), (100, 1)] \<le> 2"
proof -
  let ?allow = "RedisWindow_Allow list_redis_ops demo_window ''k'' 1"
  define r1 r2 r3 where "r1 = snd (?allow 100 demo_redis)" and "r2 = lr_advance 105 r1" and "r3 = snd (?allow 105 r2)"
  have d: "admit 100 1 (fst (?allow 100 demo_redis)) [] = [(100, 1)]" "admit 105 1 (fst (?allow 105 r2)) [(100, 1)] = [(105, 1), (100, 1)]"
    and c: "lr_clock r1 = 100" "value_at (seq_key ''k'') (lr_ctr r2) 0 = 1" unfolding r2_def r1_def by code_simp+
  have a: "?allow 100 demo_redis = (fst (?allow 100 demo_redis), r1)" "?allow 105 r2 = (fst (?allow 105 r2), r3)" by (simp_all add: r1_def r3_def)
  have run0: "window_run list_redis_ops list_view demo_window ''k'' 0 demo_redis []"
    by (rule window_run.fresh) (simp_all add: demo_redis_def list_view_def demo_window_def value_at_def)
  have view: "rv_clock list_view r = lr_clock r" "rv_ctr list_view r k = value_at k (lr_ctr r) 0" for r k by (simp_all add: list_view_def)
  have clk: "lr_clock demo_redis = 100" "value_at k (lr_ctr demo_redis) 0 = 0" "lr_clock r2 = 105" for k by (simp_all add: value_at_def demo_redis_def r2_def lr_advance_def)
  from window_run.call [OF run0 _ _ _ a(1)] have run1: "window_run list_redis_ops list_view demo_window ''k'' 0 r1 [(100, 1)]"
    by (simp add: d view clk charged_def)
  have "time_passes list_view {''k'', seq_key ''k''} r1 r2" unfolding r2_def by (rule lr_advance_passes) (simp add: c)
  from window_run.passes [OF run1 this] have run2: "window_run list_redis_ops list_view demo_window ''k'' 0 r2 [(100, 1)]"
    by (simp add: view clk)
  from window_run.call [OF run2 _ _ _ a(2)] have run: "window_run list_redis_ops list_view demo_window ''k'' 0 r3 ([] @ (105, 1) # [(100, 1)])"
    by (simp add: d c view clk charged_def)
  have "NewRedisWindow True 2 10 = Inr demo_window" by (simp add: NewRedisWindow_def demo_window_def)
  from sliding_window_limit [OF list_redis_laws this _ _ run] run show ?thesis by (intro exI [of _ r3]) simp
qed

text \<open>
  Clocks that differ do let more through.  With a limit of 2 in 10 nanoseconds, a call of cost 2
  at 100, one of cost 1 from an instance whose clock shows 200, and one of cost 1 at 105 are all
  admitted: 3 in the window that ends at 105.
\<close>

fun admissions :: "RedisWindow \<Rightarrow> (instant \<times> int) list \<Rightarrow> list_redis \<Rightarrow> (int \<times> int) list \<Rightarrow> (int \<times> int) list" where
  "admissions w [] r h = h"
| "admissions w ((now, cost) # ts) r h = (case RedisWindow_Allow list_redis_ops w ''k'' cost now r of
     (res, r') \<Rightarrow> admissions w ts r' (admit now cost res h))"

lemma skewed_clocks_exceed:
  "admissions demo_window [(100, 2), (200, 1), (105, 1)] demo_redis [] = [(105, 1), (200, 1), (100, 2)]"
proof -
  let ?allow = "RedisWindow_Allow list_redis_ops demo_window ''k''"
  let ?r1 = "\<lparr>lr_zset = [(''k'', [(2, 100), (1, 100)])], lr_ctr = [(''k:_seq'', 2)], lr_expires = [(''k'', 5000000100), (''k:_seq'', 5000000100)], lr_clock = 100\<rparr>"
  let ?r2 = "\<lparr>lr_zset = [(''k'', [(3, 200)])], lr_ctr = [(''k:_seq'', 3)], lr_expires = [(''k:_seq'', 5000000100), (''k'', 5000000100)], lr_clock = 100\<rparr>"
  let ?ok = "\<lambda>left reset. Inr \<lparr>d_Allowed = True, d_Limit = 2, d_Remaining = left, d_Reset = reset, d_RetryAfter = 0, d_Rule = []\<rparr>"
  have "?allow 2 100 demo_redis = (?ok 0 110, ?r1)" by code_simp
  moreover have "?allow 1 200 ?r1 = (?ok 1 210, ?r2)" by code_simp
  moreover have "fst (?allow 1 105 ?r2) = ?ok 0 115" by code_simp
  ultimately show ?thesis by (auto simp: admit_def charged_def split: prod.splits)
qed

end
