(* ===== verification/Ratelimit.thy ===== *)
theory Ratelimit
  imports RedisWindow
begin

text \<open>
  \<open>internal/ratelimit\<close>: the in-memory token bucket (\<open>memory.go\<close>), rules and their
  aggregate (\<open>ratelimit.go\<close>), and the construction of rules from the configuration
  (\<open>loader.go\<close>).  The token bucket and the LRU that holds one per key are libraries
  (\<open>golang.org/x/time/rate\<close>, \<open>hashicorp/golang-lru\<close>), given by the record \<open>bucket_ops\<close>.
  The interface \<open>Limiter\<close> is the locale \<open>limiter\<close>; both implementations interpret it.
\<close>

section \<open>The memory bucket\<close>

text \<open>
  The LRU holds pointers: \<open>mb_heap\<close> is the store they point into, \<open>lru_Get\<close> and
  \<open>lru_Add\<close> handle addresses.
\<close>

record ('c, 'l, 'v) bucket_ops =
  lru_Get :: "string \<Rightarrow> 'c \<Rightarrow> nat option \<times> 'c"
  lru_Add :: "string \<Rightarrow> nat \<Rightarrow> 'c \<Rightarrow> 'c"
  rl_New :: "rat \<Rightarrow> int \<Rightarrow> 'l"
  rl_AllowN :: "instant \<Rightarrow> int \<Rightarrow> 'l \<Rightarrow> bool \<times> 'l"
  rl_TokensAt :: "instant \<Rightarrow> 'l \<Rightarrow> rat"
  rl_ReserveN :: "instant \<Rightarrow> int \<Rightarrow> 'l \<Rightarrow> 'v \<times> 'l"
  rl_DelayFrom :: "instant \<Rightarrow> 'v \<Rightarrow> duration"
  rl_CancelAt :: "instant \<Rightarrow> 'v \<Rightarrow> 'l \<Rightarrow> 'l"

record MemoryBucket =
  mb_rate :: rat
  mb_burst :: int
  mb_maxKeys :: int
  mb_idleTTL :: duration

record ('c, 'l) bucket_state =
  mb_cache :: 'c
  mb_heap :: "'l list"

datatype memory_bucket_error = RateTooSmall | BurstTooSmall

definition NewMemoryBucket :: "rat \<Rightarrow> int \<Rightarrow> int \<Rightarrow> duration \<Rightarrow> memory_bucket_error + MemoryBucket" where
  "NewMemoryBucket rate burst maxKeys idleTTL =
     (if rate \<le> 0 then Inl RateTooSmall
      else if burst < 1 then Inl BurstTooSmall
      else Inr \<lparr>mb_rate = rate, mb_burst = burst,
                mb_maxKeys = (if maxKeys = 0 then 100000 else maxKeys),
                mb_idleTTL = (if idleTTL = 0 then Hour else idleTTL)\<rparr>)"

text \<open>The limiter of a key, created full when the LRU has none.\<close>

definition bucket_of ::
    "('c, 'l, 'v) bucket_ops \<Rightarrow> MemoryBucket \<Rightarrow> string \<Rightarrow> ('c, 'l) bucket_state \<Rightarrow> nat \<times> ('c, 'l) bucket_state" where
  "bucket_of ops m key s = (case lru_Get ops key (mb_cache s) of
     (Some a, c) \<Rightarrow> (a, s\<lparr>mb_cache := c\<rparr>)
   | (None, c) \<Rightarrow>
       (let a = length (mb_heap s)
        in (a, \<lparr>mb_cache = lru_Add ops key a c, mb_heap = mb_heap s @ [rl_New ops (mb_rate m) (mb_burst m)]\<rparr>)))"

definition MemoryBucket_Allow ::
    "('c, 'l, 'v) bucket_ops \<Rightarrow> MemoryBucket \<Rightarrow> string \<Rightarrow> int \<Rightarrow> instant \<Rightarrow> ('c, 'l) bucket_state \<Rightarrow>
     Decision \<times> ('c, 'l) bucket_state" where
  "MemoryBucket_Allow ops m key cost0 now s0 =
     (let cost = (if cost0 < 1 then 1 else cost0) in
      case bucket_of ops m key s0 of (a, s) \<Rightarrow>
      (case rl_AllowN ops now cost (mb_heap s ! a) of
         (True, lm) \<Rightarrow>
           (let tokensLeft = f_trunc (rl_TokensAt ops now lm);
                deficit = mb_burst m - tokensLeft;
                reset = (if deficit > 0 \<and> mb_rate m > 0
                         then now + wrap64 (f_trunc (f_div (f_of_int deficit) (mb_rate m)) * Second)
                         else now)
            in (Decision0\<lparr>d_Allowed := True, d_Limit := mb_burst m, d_Remaining := tokensLeft, d_Reset := reset\<rparr>,
                s\<lparr>mb_heap := (mb_heap s)[a := lm]\<rparr>))
       | (False, lm) \<Rightarrow>
           (case rl_ReserveN ops now cost lm of (rv, lim1) \<Rightarrow>
             (let delay = rl_DelayFrom ops now rv;
                  lim2 = rl_CancelAt ops now rv lim1
              in (Decision0\<lparr>d_Limit := mb_burst m, d_Remaining := f_trunc (rl_TokensAt ops now lim2),
                            d_Reset := now + delay, d_RetryAfter := delay\<rparr>,
                  s\<lparr>mb_heap := (mb_heap s)[a := lim2]\<rparr>)))))"

section \<open>Rules\<close>

datatype KeyBy = KeyByAPIKey | KeyByModel

record KeyContext =
  kc_APIKeyID :: string
  kc_Model :: string

fun key_value :: "KeyContext \<Rightarrow> KeyBy \<Rightarrow> string" where
  "key_value k KeyByAPIKey = kc_APIKeyID k"
| "key_value k KeyByModel = kc_Model k"

datatype Unit = UnitRequests | UnitTokens

text \<open>
  The interface value a rule holds.  A memory bucket is an object with its own LRU: \<open>id\<close>
  names it, and the state has one bucket state per object.
\<close>

datatype Limiter = Memory nat MemoryBucket | Redis RedisWindow

record Rule =
  rule_Name :: string
  rule_KeyBy :: "KeyBy list"
  rule_Limiter :: Limiter
  rule_Unit :: "Unit option"

record ('c, 'l, 'v, 'r) limit_env =
  le_bucket :: "('c, 'l, 'v) bucket_ops"
  le_redis :: "'r redis_ops"
  le_now :: "'r \<Rightarrow> instant \<times> 'r"

record ('c, 'l, 'r) limit_state =
  ls_buckets :: "nat \<Rightarrow> ('c, 'l) bucket_state"
  ls_world :: 'r

fun Limiter_Allow ::
    "('c, 'l, 'v, 'r) limit_env \<Rightarrow> Limiter \<Rightarrow> string \<Rightarrow> int \<Rightarrow> ('c, 'l, 'r) limit_state \<Rightarrow>
     (goerr + Decision) \<times> ('c, 'l, 'r) limit_state" where
  "Limiter_Allow env (Memory i m) key cost s = (case le_now env (ls_world s) of (now, w) \<Rightarrow>
     (case MemoryBucket_Allow (le_bucket env) m key cost now (ls_buckets s i) of (d, b) \<Rightarrow>
        (Inr d, \<lparr>ls_buckets = (ls_buckets s)(i := b), ls_world = w\<rparr>)))"
| "Limiter_Allow env (Redis rw) key cost s = (case le_now env (ls_world s) of (now, w) \<Rightarrow>
     (case RedisWindow_Allow (le_redis env) rw key cost now w of (res, w') \<Rightarrow> (res, s\<lparr>ls_world := w'\<rparr>)))"

definition composeKey :: "Rule \<Rightarrow> KeyContext \<Rightarrow> string" where
  "composeKey r kctx = ''ratelimit:'' @ rule_Name r @ concat (map (\<lambda>dim. CHR '':'' # key_value kctx dim) (rule_KeyBy r))"

definition Rule_Allow ::
    "(Limiter \<Rightarrow> string \<Rightarrow> int \<Rightarrow> 's \<Rightarrow> (goerr + Decision) \<times> 's) \<Rightarrow> Rule \<Rightarrow> KeyContext \<Rightarrow> int \<Rightarrow> 's \<Rightarrow>
     (goerr + Decision) \<times> 's" where
  "Rule_Allow allow r kctx cost s = (case allow (rule_Limiter r) (composeKey r kctx) cost s of
     (Inl e, s') \<Rightarrow> (Inl e, s')
   | (Inr d, s') \<Rightarrow> (Inr (d\<lparr>d_Rule := rule_Name r\<rparr>), s'))"

section \<open>The aggregate\<close>

definition effective_unit :: "Rule \<Rightarrow> Unit" where
  "effective_unit r = (case rule_Unit r of None \<Rightarrow> UnitRequests | Some u \<Rightarrow> u)"

text \<open>The loop of \<open>check\<close>, carrying the tightest decision so far.\<close>

fun check_loop ::
    "(Limiter \<Rightarrow> string \<Rightarrow> int \<Rightarrow> 's \<Rightarrow> (goerr + Decision) \<times> 's) \<Rightarrow> KeyContext \<Rightarrow> int \<Rightarrow> Unit \<Rightarrow>
     Rule list \<Rightarrow> Decision \<Rightarrow> 's \<Rightarrow> (goerr + Decision) \<times> 's" where
  "check_loop allow kctx cost unit [] tightest s = (Inr tightest, s)"
| "check_loop allow kctx cost unit (r # rs) tightest s =
     (if effective_unit r \<noteq> unit then check_loop allow kctx cost unit rs tightest s
      else (case Rule_Allow allow r kctx cost s of
        (Inl e, s') \<Rightarrow> (Inl e, s')
      | (Inr d, s') \<Rightarrow>
          (if \<not> d_Allowed d then (Inr d, s')
           else check_loop allow kctx cost unit rs
                  (if d_Remaining tightest < 0 \<or> d_Remaining d < d_Remaining tightest then d else tightest) s')))"

definition check_rules ::
    "(Limiter \<Rightarrow> string \<Rightarrow> int \<Rightarrow> 's \<Rightarrow> (goerr + Decision) \<times> 's) \<Rightarrow> Rule list \<Rightarrow> KeyContext \<Rightarrow> int \<Rightarrow> Unit \<Rightarrow>
     's \<Rightarrow> (goerr + Decision) \<times> 's" where
  "check_rules allow rules kctx cost unit s =
     (if rules = [] then (Inr (Decision0\<lparr>d_Allowed := True\<rparr>), s)
      else check_loop allow kctx cost unit rules (Decision0\<lparr>d_Allowed := True, d_Remaining := -1\<rparr>) s)"

definition Check where
  "Check allow rules kctx cost s = check_rules allow rules kctx cost UnitRequests s"

definition CheckTokens where
  "CheckTokens allow rules kctx n s = check_rules allow rules kctx n UnitTokens s"

section \<open>Building rules from the configuration\<close>

record RuleConfig =
  rc_Name :: string
  rc_Algorithm :: string
  rc_Rate :: string
  rc_Burst :: int
  rc_Window :: duration
  rc_Limit :: int
  rc_KeyBy :: "string list"
  rc_Unit :: string

datatype rule_error =
    NameMissing | DuplicateName | UnknownKeyBy string | UnknownUnit string | UnknownAlgorithm string
  | RateForm | RateNumerator | RateUnit | RedisMissing | BadLimit | BadWindow
  | MemoryErr memory_bucket_error | RedisErr redis_window_error

definition parseUnit :: "string \<Rightarrow> rule_error + Unit" where
  "parseUnit s = (if s = [] \<or> s = ''requests'' then Inr UnitRequests
     else if s = ''tokens'' then Inr UnitTokens else Inl (UnknownUnit s))"

fun parseKeyBys :: "string list \<Rightarrow> rule_error + KeyBy list" where
  "parseKeyBys [] = Inr []"
| "parseKeyBys (s # ss) =
     (if s = ''api_key'' then map_sum id (Cons KeyByAPIKey) (parseKeyBys ss)
      else if s = ''model'' then map_sum id (Cons KeyByModel) (parseKeyBys ss)
      else Inl (UnknownKeyBy s))"

text \<open>\<open>per.Seconds()\<close> is 1, 60 or 3600, exactly.\<close>

definition parseRate :: "string \<Rightarrow> rule_error + rat" where
  "parseRate s = (case split_on (CHR ''/'') s of
     [num, unit] \<Rightarrow>
       (case atoi (trim_space num) of
          None \<Rightarrow> Inl RateNumerator
        | Some n \<Rightarrow>
            if n \<le> 0 then Inl RateNumerator
            else if trim_space unit = ''s'' then Inr (f_div (f_of_int n) 1)
            else if trim_space unit = ''m'' then Inr (f_div (f_of_int n) 60)
            else if trim_space unit = ''h'' then Inr (f_div (f_of_int n) 3600)
            else Inl RateUnit)
   | _ \<Rightarrow> Inl RateForm)"

definition buildMemoryBucket :: "RuleConfig \<Rightarrow> rule_error + MemoryBucket" where
  "buildMemoryBucket rc = (case parseRate (rc_Rate rc) of
     Inl e \<Rightarrow> Inl e
   | Inr r \<Rightarrow>
       (let burst = (if rc_Burst rc = 0 then (if f_trunc r < 1 then 1 else f_trunc r) else rc_Burst rc)
        in map_sum MemoryErr id (NewMemoryBucket r burst 0 0)))"

definition buildRedisWindow :: "RuleConfig \<Rightarrow> bool \<Rightarrow> rule_error + RedisWindow" where
  "buildRedisWindow rc has_redis =
     (if \<not> has_redis then Inl RedisMissing
      else if rc_Limit rc < 1 then Inl BadLimit
      else if rc_Window rc \<le> 0 then Inl BadWindow
      else map_sum RedisErr id (NewRedisWindow has_redis (rc_Limit rc) (rc_Window rc)))"

definition build_rule :: "bool \<Rightarrow> string set \<Rightarrow> nat \<Rightarrow> RuleConfig \<Rightarrow> rule_error + Rule" where
  "build_rule has_redis seen i rc =
     (if rc_Name rc = [] then Inl NameMissing
      else if rc_Name rc \<in> seen then Inl DuplicateName
      else case parseKeyBys (rc_KeyBy rc) of Inl e \<Rightarrow> Inl e
      | Inr kbs \<Rightarrow>
        (case parseUnit (rc_Unit rc) of Inl e \<Rightarrow> Inl e
         | Inr unit \<Rightarrow>
           (case (if rc_Algorithm rc = ''memory_bucket'' then map_sum id (Memory i) (buildMemoryBucket rc)
                  else if rc_Algorithm rc = ''redis_window'' then map_sum id Redis (buildRedisWindow rc has_redis)
                  else Inl (UnknownAlgorithm (rc_Algorithm rc))) of
              Inl e \<Rightarrow> Inl e
            | Inr l \<Rightarrow> Inr \<lparr>rule_Name = rc_Name rc, rule_KeyBy = kbs, rule_Limiter = l, rule_Unit = Some unit\<rparr>)))"

text \<open>The loop of \<open>Build\<close>: the names seen, the errors and the rules so far.  A name that passed
  the duplicate check is seen even if the entry is rejected afterwards.\<close>

fun build_rules_loop ::
    "bool \<Rightarrow> nat \<Rightarrow> RuleConfig list \<Rightarrow> string set \<Rightarrow> (nat \<times> rule_error) list \<Rightarrow> Rule list \<Rightarrow>
     (nat \<times> rule_error) list \<times> Rule list" where
  "build_rules_loop has_redis i [] seen errs out = (errs, out)"
| "build_rules_loop has_redis i (rc # rcs) seen errs out =
     (let seen' = (if rc_Name rc = [] then seen else insert (rc_Name rc) seen)
      in case build_rule has_redis seen i rc of
           Inl e \<Rightarrow> build_rules_loop has_redis (i + 1) rcs seen' (errs @ [(i, e)]) out
         | Inr r \<Rightarrow> build_rules_loop has_redis (i + 1) rcs seen' errs (out @ [r]))"

definition Build :: "RuleConfig list \<Rightarrow> bool \<Rightarrow> (nat \<times> rule_error) list + Rule list" where
  "Build configs has_redis = (case build_rules_loop has_redis 0 configs {} [] [] of
     (errs, out) \<Rightarrow> if errs \<noteq> [] then Inl errs else Inr out)"

section \<open>The interface\<close>

fun capacity :: "Limiter \<Rightarrow> int" where
  "capacity (Memory i m) = mb_burst m"
| "capacity (Redis w) = rw_limit w"

text \<open>
  What the middleware relies on: a decision carries the capacity of its limiter, and no
  \<open>RetryAfter\<close> when it allows.
\<close>

locale limiter =
  fixes allow :: "Limiter \<Rightarrow> string \<Rightarrow> int \<Rightarrow> 's \<Rightarrow> (goerr + Decision) \<times> 's"
  assumes limit_reported: "allow l key cost s = (Inr d, s') \<Longrightarrow> d_Limit d = capacity l"
    and no_retry_when_allowed: "allow l key cost s = (Inr d, s') \<Longrightarrow> d_Allowed d \<Longrightarrow> d_RetryAfter d = 0"
begin

lemma rule_decision:
  assumes "Rule_Allow allow r kctx cost s = (Inr d, s')"
  shows "d_Rule d = rule_Name r" "d_Limit d = capacity (rule_Limiter r)" "d_Allowed d \<Longrightarrow> d_RetryAfter d = 0"
  using assms
  by (auto simp: Rule_Allow_def split: prod.splits sum.splits dest: limit_reported no_retry_when_allowed)

lemma check_loop_headers:
  assumes "check_loop allow kctx cost unit rules t s = (Inr d, s')" "d_RetryAfter t = 0" "d_Allowed t"
  shows "(d_Allowed d \<longrightarrow> d_RetryAfter d = 0) \<and>
    (d = t \<or> (\<exists>r \<in> set rules. effective_unit r = unit \<and> d_Rule d = rule_Name r \<and> d_Limit d = capacity (rule_Limiter r)))"
  using assms
proof (induction rules arbitrary: t s)
  case (Cons r rs)
  show ?case
  proof (cases "effective_unit r = unit")
    case False
    with Cons show ?thesis by auto
  next
    case True
    obtain x s1 where ra: "Rule_Allow allow r kctx cost s = (x, s1)" by (meson surj_pair)
    show ?thesis
    proof (cases x)
      case (Inl e)
      with Cons.prems ra True show ?thesis by simp
    next
      case (Inr d1)
      note rd = rule_decision [OF ra [unfolded Inr]]
      show ?thesis
      proof (cases "d_Allowed d1")
        case False
        with Cons.prems ra True Inr rd show ?thesis by auto
      next
        case al: True
        let ?t = "if d_Remaining t < 0 \<or> d_Remaining d1 < d_Remaining t then d1 else t"
        have "check_loop allow kctx cost unit rs ?t s1 = (Inr d, s')" using Cons.prems(1) ra True Inr al by simp
        from Cons.IH [OF this] Cons.prems(2,3) rd al True show ?thesis by (auto split: if_splits)
      qed
    qed
  qed
qed simp

end

lemma Decision0_simps [simp]: "d_RetryAfter Decision0 = 0" "\<not> d_Allowed Decision0" "d_Rule Decision0 = []"
  by (simp_all add: Decision0_def)

lemma MemoryBucket_Allow_decision:
  assumes "MemoryBucket_Allow ops m key cost now s = (d, s')"
  shows "d_Limit d = mb_burst m" "d_Allowed d \<Longrightarrow> d_RetryAfter d = 0"
  using assms by (auto simp: MemoryBucket_Allow_def Let_def split: prod.splits bool.splits)

lemma RedisWindow_Allow_decision:
  assumes "RedisWindow_Allow rd w key cost now r = (Inr d, r')"
  shows "d_Limit d = rw_limit w" "d_Allowed d \<Longrightarrow> d_RetryAfter d = 0"
  using assms by (auto simp: RedisWindow_Allow_def Let_def split: prod.splits option.splits if_splits)

interpretation gateway_limiter: limiter "Limiter_Allow env" for env
proof unfold_locales
  fix l key cost s d s'
  assume a: "Limiter_Allow env l key cost s = (Inr d, s')"
  then show "d_Limit d = capacity l" "d_Allowed d \<Longrightarrow> d_RetryAfter d = 0"
    by (cases l; auto split: prod.splits dest: MemoryBucket_Allow_decision RedisWindow_Allow_decision)+
qed

section \<open>What a check consults\<close>

text \<open>The reference: the rules are asked in order until one fails or denies.\<close>

fun consult ::
    "(Limiter \<Rightarrow> string \<Rightarrow> int \<Rightarrow> 's \<Rightarrow> (goerr + Decision) \<times> 's) \<Rightarrow> KeyContext \<Rightarrow> int \<Rightarrow> Rule list \<Rightarrow> 's \<Rightarrow>
     (goerr + Decision) list \<times> 's" where
  "consult allow kctx cost [] s = ([], s)"
| "consult allow kctx cost (r # rs) s = (case Rule_Allow allow r kctx cost s of
     (Inl e, s') \<Rightarrow> ([Inl e], s')
   | (Inr d, s') \<Rightarrow>
       (if d_Allowed d then map_prod (Cons (Inr d)) id (consult allow kctx cost rs s') else ([Inr d], s')))"

definition tighter :: "Decision \<Rightarrow> Decision \<Rightarrow> Decision" where
  "tighter t d = (if d_Remaining t < 0 \<or> d_Remaining d < d_Remaining t then d else t)"

lemma check_loop_consult:
  assumes "check_loop allow kctx cost unit rules t s = (Inr d, s')" "d_Allowed t"
  defines "rs \<equiv> filter (\<lambda>r. effective_unit r = unit) rules"
  shows "(d_Allowed d \<longrightarrow> (\<exists>ds. consult allow kctx cost rs s = (map Inr ds, s') \<and> length ds = length rs \<and>
            list_all d_Allowed ds \<and> d = foldl tighter t ds)) \<and>
    (\<not> d_Allowed d \<longrightarrow> (\<exists>ds. consult allow kctx cost rs s = (map Inr (ds @ [d]), s') \<and> list_all d_Allowed ds))"
  using assms(1,2) unfolding rs_def
proof (induction rules arbitrary: t s)
  case Nil
  then show ?case by auto
next
  case (Cons r rules)
  show ?case
  proof (cases "effective_unit r = unit")
    case False
    with Cons show ?thesis by auto
  next
    case True
    obtain x s1 where ra: "Rule_Allow allow r kctx cost s = (x, s1)" by (meson surj_pair)
    show ?thesis
    proof (cases "\<exists>d1. x = Inr d1 \<and> d_Allowed d1")
      case False
      with Cons.prems ra True show ?thesis
        by (auto split: sum.splits intro!: exI [of _ "[]"])
    next
      case al: True
      then obtain d1 where d1: "x = Inr d1" "d_Allowed d1" by blast
      have rec: "check_loop allow kctx cost unit rules (tighter t d1) s1 = (Inr d, s')"
        using Cons.prems(1) ra True d1 by (simp add: tighter_def)
      have "d_Allowed (tighter t d1)" using Cons.prems(2) d1 by (simp add: tighter_def)
      note IH = Cons.IH [OF rec this]
      show ?thesis
      proof (cases "d_Allowed d")
        case True
        with IH obtain ds where "consult allow kctx cost (filter (\<lambda>r. effective_unit r = unit) rules) s1 = (map Inr ds, s')"
          "length ds = length (filter (\<lambda>r. effective_unit r = unit) rules)" "list_all d_Allowed ds"
          "d = foldl tighter (tighter t d1) ds" by blast
        with True ra d1 \<open>effective_unit r = unit\<close> show ?thesis by (auto intro!: exI [of _ "d1 # ds"])
      next
        case False
        with IH obtain ds where "consult allow kctx cost (filter (\<lambda>r. effective_unit r = unit) rules) s1 =
            (map Inr (ds @ [d]), s')" "list_all d_Allowed ds" by blast
        with False ra d1 \<open>effective_unit r = unit\<close> show ?thesis by (auto intro!: exI [of _ "d1 # ds"])
      qed
    qed
  qed
qed

lemma foldl_tighter:
  assumes "list_all (\<lambda>d. 0 \<le> d_Remaining d) ds" "0 \<le> d_Remaining t"
  shows "foldl tighter t ds \<in> insert t (set ds) \<and> (\<forall>x \<in> insert t (set ds). d_Remaining (foldl tighter t ds) \<le> d_Remaining x)"
  using assms
proof (induction ds arbitrary: t)
  case (Cons a ds)
  have "0 \<le> d_Remaining (tighter t a)" using Cons.prems by (simp add: tighter_def)
  with Cons have IH: "foldl tighter (tighter t a) ds \<in> insert (tighter t a) (set ds) \<and>
      (\<forall>x \<in> insert (tighter t a) (set ds). d_Remaining (foldl tighter (tighter t a) ds) \<le> d_Remaining x)" by simp
  moreover have "tighter t a \<in> {t, a}" "d_Remaining (tighter t a) \<le> d_Remaining t" "d_Remaining (tighter t a) \<le> d_Remaining a"
    using Cons.prems by (auto simp: tighter_def)
  ultimately show ?case by (auto intro: order_trans)
qed simp

lemma foldl_tighter_start:
  assumes "list_all (\<lambda>d. 0 \<le> d_Remaining d) ds" "d_Remaining t < 0" "ds \<noteq> []"
  shows "foldl tighter t ds \<in> set ds \<and> (\<forall>x \<in> set ds. d_Remaining (foldl tighter t ds) \<le> d_Remaining x)"
proof -
  obtain a ds' where ds: "ds = a # ds'" using assms(3) by (cases ds) auto
  have "tighter t a = a" using assms(2) by (simp add: tighter_def)
  with foldl_tighter [of ds' a] assms(1) show ?thesis by (simp add: ds)
qed

section \<open>Valid rules\<close>

fun limiter_ok :: "Limiter \<Rightarrow> bool" where
  "limiter_ok (Memory i m) \<longleftrightarrow> 0 < mb_rate m \<and> 1 \<le> mb_burst m \<and> mb_maxKeys m = 100000 \<and> mb_idleTTL m = Hour"
| "limiter_ok (Redis w) \<longleftrightarrow> 1 \<le> rw_limit w \<and> 0 < rw_window w"

lemma build_rule_ok:
  assumes "build_rule has_redis seen i rc = Inr r"
  shows "rule_Name r = rc_Name rc" "rc_Name rc \<noteq> []" "rc_Name rc \<notin> seen" "limiter_ok (rule_Limiter r)"
    "\<forall>w. rule_Limiter r = Redis w \<longrightarrow> has_redis" "rule_Unit r \<noteq> None"
  using assms
  by (auto simp: build_rule_def buildMemoryBucket_def buildRedisWindow_def NewMemoryBucket_def NewRedisWindow_def Let_def
      split: if_splits sum.splits)

lemma build_rules_loop_errs: "\<exists>more. fst (build_rules_loop has_redis i rcs seen errs out) = errs @ more"
proof (induction has_redis i rcs seen errs out rule: build_rules_loop.induct)
  case (2 has_redis i rc rcs seen errs out)
  then show ?case by (cases "build_rule has_redis seen i rc") (fastforce simp: Let_def)+
qed simp

lemma build_rules_loop_ok:
  assumes "build_rules_loop has_redis i rcs seen errs out = (errs', out')" "errs' = []"
    "list_all (limiter_ok \<circ> rule_Limiter) out" "list_all (\<lambda>r. \<forall>w. rule_Limiter r = Redis w \<longrightarrow> has_redis) out"
    "distinct (map rule_Name out)" "set (map rule_Name out) \<subseteq> seen"
  shows "list_all (limiter_ok \<circ> rule_Limiter) out' \<and> list_all (\<lambda>r. \<forall>w. rule_Limiter r = Redis w \<longrightarrow> has_redis) out' \<and>
    distinct (map rule_Name out') \<and> map rule_Name out' = map rule_Name out @ map rc_Name rcs \<and> errs = [] \<and>
    list_all (\<lambda>rc. rc_Name rc \<noteq> []) rcs"
  using assms
proof (induction has_redis i rcs seen errs out rule: build_rules_loop.induct)
  case (2 has_redis i rc rcs seen errs out)
  show ?case
  proof (cases "build_rule has_redis seen i rc")
    case (Inl e)
    let ?seen = "if rc_Name rc = [] then seen else insert (rc_Name rc) seen"
    from build_rules_loop_errs [of has_redis "i + 1" rcs ?seen "errs @ [(i, e)]" out] Inl "2.prems"(1,2)
    have False by (auto simp: Let_def)
    then show ?thesis ..
  next
    case (Inr r)
    note ok = build_rule_ok [OF Inr]
    have "rule_Name r \<notin> set (map rule_Name out)" using ok "2.prems"(6) by auto
    with "2.IH"(2) [OF refl Inr] "2.prems" Inr ok show ?thesis by (auto simp: Let_def)
  qed
qed simp

section \<open>Properties\<close>

text \<open>
  C8: the aggregate asks the rules of the unit it enforces, in order, and stops at the first
  refusal.  A request it allows was allowed by every one of them, and the decision it
  reports is one of theirs with the least remaining quota; a request it denies carries the
  decision of the first rule that denied, and no later rule was charged.
\<close>

theorem check_verdict:
  assumes "check_rules allow rules kctx cost unit s = (Inr d, s')" "rules \<noteq> []"
  shows "\<exists>ds. consult allow kctx cost (filter (\<lambda>r. effective_unit r = unit) rules) s =
        (map Inr (ds @ (if d_Allowed d then [] else [d])), s') \<and> list_all d_Allowed ds \<and>
      (d_Allowed d \<longrightarrow> length ds = length (filter (\<lambda>r. effective_unit r = unit) rules) \<and>
        (ds \<noteq> [] \<and> list_all (\<lambda>x. 0 \<le> d_Remaining x) ds \<longrightarrow>
           d \<in> set ds \<and> (\<forall>x \<in> set ds. d_Remaining d \<le> d_Remaining x)))"
proof -
  let ?t = "Decision0\<lparr>d_Allowed := True, d_Remaining := -1\<rparr>"
  have "check_loop allow kctx cost unit rules ?t s = (Inr d, s')" "d_Allowed ?t"
    using assms by (simp_all add: check_rules_def)
  note c = check_loop_consult [OF this]
  show ?thesis
  proof (cases "d_Allowed d")
    case True
    with c obtain ds where ds: "consult allow kctx cost (filter (\<lambda>r. effective_unit r = unit) rules) s = (map Inr ds, s')"
      "length ds = length (filter (\<lambda>r. effective_unit r = unit) rules)" "list_all d_Allowed ds" "d = foldl tighter ?t ds"
      by blast
    with foldl_tighter_start [of ds ?t] True show ?thesis by (intro exI [of _ ds]) simp
  next
    case False
    with c show ?thesis by auto
  qed
qed

text \<open>
  The rules \<open>Build\<close> returns have distinct, non-empty names in the order of the
  configuration, memory buckets with a positive rate and a burst of at least one, windows
  with a positive width and limit, and none of them needs a Redis that is not there.
\<close>

lemma build_rules_valid:
  assumes "Build configs has_redis = Inr rules"
  shows "map rule_Name rules = map rc_Name configs \<and> distinct (map rule_Name rules) \<and> [] \<notin> set (map rule_Name rules) \<and>
    list_all (limiter_ok \<circ> rule_Limiter) rules \<and>
    (has_redis \<or> list_all (\<lambda>r. \<exists>i m. rule_Limiter r = Memory i m) rules)"
proof -
  have l: "build_rules_loop has_redis 0 configs {} [] [] = ([], rules)"
    using assms by (auto simp: Build_def split: prod.splits if_splits)
  from build_rules_loop_ok [OF l] have r: "map rule_Name rules = map rc_Name configs"
    "list_all (\<lambda>rc. rc_Name rc \<noteq> []) configs" "list_all (limiter_ok \<circ> rule_Limiter) rules"
    "list_all (\<lambda>r. \<forall>w. rule_Limiter r = Redis w \<longrightarrow> has_redis) rules" by simp_all
  have d: "distinct (map rule_Name rules)" using build_rules_loop_ok [OF l, simplified] by blast
  have "has_redis \<or> list_all (\<lambda>r. \<exists>i m. rule_Limiter r = Memory i m) rules"
    using r(4) unfolding list_all_iff by (metis Limiter.exhaust)
  moreover have "[] \<notin> set (map rule_Name rules)" using r(2) unfolding r(1) by (auto simp: list_all_iff)
  ultimately show ?thesis using r d by blast
qed

definition demo_rule_configs :: "RuleConfig list" where
  "demo_rule_configs =
    [\<lparr>rc_Name = ''rpm'', rc_Algorithm = ''memory_bucket'', rc_Rate = ''90/m'', rc_Burst = 0, rc_Window = 0, rc_Limit = 0,
      rc_KeyBy = [''api_key'', ''model''], rc_Unit = []\<rparr>,
     \<lparr>rc_Name = ''tpm'', rc_Algorithm = ''redis_window'', rc_Rate = [], rc_Burst = 0, rc_Window = Minute, rc_Limit = 1000,
      rc_KeyBy = [''api_key''], rc_Unit = ''tokens''\<rparr>]"

lemma build_rules_valid_witness:
  "\<exists>rules. Build demo_rule_configs True = Inr rules \<and> map rule_Name rules = [''rpm'', ''tpm''] \<and>
    list_all (limiter_ok \<circ> rule_Limiter) rules"
proof -
  have "\<not> isl (Build demo_rule_configs True)" by code_simp
  then obtain rules where b: "Build demo_rule_configs True = Inr rules" by (cases "Build demo_rule_configs True") auto
  from build_rules_valid [OF b] b show ?thesis by (simp add: demo_rule_configs_def)
qed

text \<open>A token bucket that never refills, and a one-entry cache.\<close>

definition demo_bucket_ops :: "(nat option, int, unit) bucket_ops" where
  "demo_bucket_ops = \<lparr>lru_Get = (\<lambda>k c. (c, c)), lru_Add = (\<lambda>k a c. Some a), rl_New = (\<lambda>r b. b),
     rl_AllowN = (\<lambda>t n l. if n \<le> l then (True, l - n) else (False, l)), rl_TokensAt = (\<lambda>t l. of_int l),
     rl_ReserveN = (\<lambda>t n l. ((), l)), rl_DelayFrom = (\<lambda>t v. Second), rl_CancelAt = (\<lambda>t v l. l)\<rparr>"

definition demo_limit_env :: "(nat option, int, unit, list_redis) limit_env" where
  "demo_limit_env = \<lparr>le_bucket = demo_bucket_ops, le_redis = list_redis_ops, le_now = (\<lambda>w. (100, w))\<rparr>"

definition demo_limit_state :: "(nat option, int, list_redis) limit_state" where
  "demo_limit_state = \<lparr>ls_buckets = (\<lambda>i. \<lparr>mb_cache = None, mb_heap = []\<rparr>), ls_world = demo_redis\<rparr>"

definition demo_rules :: "Rule list" where
  "demo_rules = [
     \<lparr>rule_Name = ''a'', rule_KeyBy = [], rule_Limiter = Memory 0 \<lparr>mb_rate = 1, mb_burst = 5, mb_maxKeys = 1, mb_idleTTL = 1\<rparr>, rule_Unit = None\<rparr>,
     \<lparr>rule_Name = ''b'', rule_KeyBy = [], rule_Limiter = Memory 1 \<lparr>mb_rate = 1, mb_burst = 3, mb_maxKeys = 1, mb_idleTTL = 1\<rparr>, rule_Unit = None\<rparr>]"

theorem check_verdict_witness:
  "\<exists>d s'. check_rules (Limiter_Allow demo_limit_env) demo_rules \<lparr>kc_APIKeyID = ''k'', kc_Model = []\<rparr> 1 UnitRequests demo_limit_state
      = (Inr d, s') \<and> d_Rule d = ''b'' \<and>
    (\<exists>ds. fst (consult (Limiter_Allow demo_limit_env) \<lparr>kc_APIKeyID = ''k'', kc_Model = []\<rparr> 1
       (filter (\<lambda>r. effective_unit r = UnitRequests) demo_rules) demo_limit_state) = map Inr ds \<and> length ds = 2)"
proof -
  let ?c = "check_rules (Limiter_Allow demo_limit_env) demo_rules \<lparr>kc_APIKeyID = ''k'', kc_Model = []\<rparr> 1 UnitRequests demo_limit_state"
  have "map_sum id d_Rule (fst ?c) = Inr ''b''" "map_sum id d_Allowed (fst ?c) = Inr True" by code_simp+
  then obtain d s' where d: "?c = (Inr d, s')" "d_Rule d = ''b''" "d_Allowed d"
    by (cases ?c; cases "fst ?c") auto
  from check_verdict [OF d(1)] d show ?thesis by (auto simp: demo_rules_def effective_unit_def)
qed

end
