(* ===== verification/Middleware.thy ===== *)
theory Middleware
  imports Http Auth Ratelimit
begin

text \<open>
  \<open>internal/server/middleware\<close>: the functions every request passes on its way to a handler.
  A handler maps a request, a response writer and the state of the gateway to the writer and
  state it leaves, and to how it ended; a middleware maps a handler to a handler.  Spans and
  log lines other than the access log leave no trace in the model.
\<close>

section \<open>Handlers\<close>

text \<open>\<open>rq_ReqID\<close> and \<open>rq_Principal\<close> are the values the middlewares put in the request context.\<close>

record request =
  rq_Method :: string
  rq_Path :: string
  rq_Header :: header
  rq_ReqID :: string
  rq_Principal :: "Principal option"

text \<open>A handler returns, panics, or aborts with \<open>http.ErrAbortHandler\<close>.\<close>

datatype ending = Returned | Panicked | Aborted

type_synonym 's handler = "request \<Rightarrow> resp_writer \<Rightarrow> 's \<Rightarrow> ending \<times> resp_writer \<times> 's"

definition auth_envelope :: "string \<Rightarrow> string \<Rightarrow> string \<Rightarrow> json" where
  "auth_envelope typ code msg = JObj [(''error'', JObj [(''code'', JStr code), (''message'', JStr msg), (''type'', JStr typ)])]"

definition write_status_json :: "int \<Rightarrow> json \<Rightarrow> resp_writer \<Rightarrow> resp_writer" where
  "write_status_json status body w = jsonEncode body (WriteHeader status (set_header ''Content-Type'' ''application/json'' w))"

section \<open>Authentication\<close>

definition bearerToken :: "string \<Rightarrow> string option" where
  "bearerToken h = (if h = [] then None
     else if length h \<le> length ''bearer '' then None
     else if \<not> equal_fold (take (length ''bearer '') h) ''bearer '' then None
     else let token = trim_space (drop (length ''bearer '') h) in if token = [] then None else Some token)"

definition credentialFrom :: "request \<Rightarrow> string option" where
  "credentialFrom r = (case bearerToken (header_get (rq_Header r) ''Authorization'') of
     Some key \<Rightarrow> Some key
   | None \<Rightarrow> let key = trim_space (header_get (rq_Header r) ''X-Api-Key'') in if key \<noteq> [] then Some key else None)"

definition writeAuthError :: "int \<Rightarrow> string \<Rightarrow> string \<Rightarrow> resp_writer \<Rightarrow> resp_writer" where
  "writeAuthError status code msg w = write_status_json status (auth_envelope ''authentication_error'' code msg) w"

definition Auth_mw :: "(string \<Rightarrow> 's \<Rightarrow> (goerr + Principal) \<times> 's) \<Rightarrow> 's handler \<Rightarrow> 's handler" where
  "Auth_mw authenticate next r w s = (case credentialFrom r of
     None \<Rightarrow> (Returned, writeAuthError 401 ''missing_credentials''
       ''Missing credentials (expected: Authorization: Bearer <key>, or x-api-key header)'' w, s)
   | Some key \<Rightarrow> (case authenticate key s of
       (Inr prin, s') \<Rightarrow> next (r\<lparr>rq_Principal := Some prin\<rparr>) w s'
     | (Inl err, s') \<Rightarrow>
         (Returned,
          (if errors_Is err ErrMissingCredentials then
             writeAuthError 401 ''missing_credentials'' ''Missing Authorization header (expected: Bearer <key>)'' w
           else if errors_Is err ErrInvalidCredentials then writeAuthError 401 ''invalid_credentials'' ''Invalid API key'' w
           else writeAuthError 500 ''internal_error'' ''Authentication backend error'' w), s')))"

definition RequireScope :: "string \<Rightarrow> string \<Rightarrow> 's handler \<Rightarrow> 's handler" where
  "RequireScope category value next r w s =
     (if \<not> HasScope (rq_Principal r) category value
      then (Returned, write_status_json 403 (auth_envelope ''permission_error'' ''insufficient_scope''
              (''API key lacks required scope '' @ category @ '':'' @ value)) w, s)
      else next r w s)"

section \<open>Rate limits\<close>

definition buildKeyContext :: "request \<Rightarrow> KeyContext" where
  "buildKeyContext r = \<lparr>kc_APIKeyID = (case rq_Principal r of None \<Rightarrow> [] | Some p \<Rightarrow> pr_ID p), kc_Model = []\<rparr>"

text \<open>\<open>retryAfterSeconds\<close>: whole seconds, rounded up.\<close>

definition retryAfterSeconds :: "duration \<Rightarrow> int" where
  "retryAfterSeconds d = (if d \<le> 0 then 0
     else let s = go_div d Second; s1 = (if go_mod d Second > 0 then s + 1 else s) in if s1 < 1 then 1 else s1)"

text \<open>The zero \<open>time.Time\<close> of a decision is 0 here; \<open>Unix\<close> rounds down to seconds.\<close>

definition writeRateLimitHeaders :: "Decision \<Rightarrow> resp_writer \<Rightarrow> resp_writer" where
  "writeRateLimitHeaders d w =
     (let w1 = (if d_Limit d > 0 then set_header ''X-RateLimit-Remaining'' (itoa (d_Remaining d))
                  (set_header ''X-RateLimit-Limit'' (itoa (d_Limit d)) w) else w)
      in if d_Reset d \<noteq> 0 then set_header ''X-RateLimit-Reset'' (itoa (d_Reset d div Second)) w1 else w1)"

text \<open>\<open>text_of\<close> renders the rule name and the rounded duration into the message.\<close>

definition writeRateLimitDenied :: "(string \<Rightarrow> duration \<Rightarrow> string) \<Rightarrow> Decision \<Rightarrow> string \<Rightarrow> resp_writer \<Rightarrow> resp_writer" where
  "writeRateLimitDenied text_of d reqID w =
     (let w1 = (if d_RetryAfter d > 0 then set_header ''Retry-After'' (itoa (retryAfterSeconds (d_RetryAfter d))) w else w)
      in write_status_json 429 (JObj [(''error'', JObj [(''code'', JStr ''rate_limit_exceeded''),
           (''message'', JStr (text_of (d_Rule d) (d_RetryAfter d))), (''req_id'', JStr reqID), (''type'', JStr ''rate_limit_error'')])]) w1)"

definition RateLimit_mw ::
  "(string \<Rightarrow> duration \<Rightarrow> string) \<Rightarrow> (Limiter \<Rightarrow> string \<Rightarrow> int \<Rightarrow> 's \<Rightarrow> (goerr + Decision) \<times> 's) \<Rightarrow> Rule list \<Rightarrow>
   's handler \<Rightarrow> 's handler" where
  "RateLimit_mw text_of allow rules next r w s =
     (if rules = [] then next r w s
      else case Check allow rules (buildKeyContext r) 1 s of
        (Inl err, s') \<Rightarrow> next r w s'
      | (Inr d, s') \<Rightarrow>
          let w1 = writeRateLimitHeaders d w
          in if \<not> d_Allowed d then (Returned, writeRateLimitDenied text_of d (rq_ReqID r) w1, s')
             else next r w1 s')"

section \<open>The outer chain\<close>

definition corsMaxAgeSeconds :: int where
  "corsMaxAgeSeconds = 600"

definition CORS :: "string list \<Rightarrow> 's handler \<Rightarrow> 's handler" where
  "CORS allowedOrigins next r w s =
     (let origin = header_get (rq_Header r) ''Origin'';
          w1 = (if origin \<noteq> [] then set_header ''Vary'' ''Origin'' w else w);
          w2 = (if origin \<in> set (filter (\<lambda>x. x \<noteq> []) allowedOrigins) \<and> origin \<noteq> []
                then set_header ''Access-Control-Max-Age'' (itoa corsMaxAgeSeconds)
                  (set_header ''Access-Control-Allow-Headers'' ''Authorization, Content-Type''
                  (set_header ''Access-Control-Allow-Methods'' ''GET, POST, PUT, DELETE, OPTIONS''
                  (set_header ''Access-Control-Allow-Credentials'' ''true''
                  (set_header ''Access-Control-Allow-Origin'' origin w1))))
                else w1)
      in if rq_Method r = ''OPTIONS'' then (Returned, WriteHeader 204 w2, s) else next r w2 s)"

text \<open>\<open>fresh\<close> is the UUID drawn when the client sent no usable id.\<close>

definition RequestID :: "('s \<Rightarrow> string \<times> 's) \<Rightarrow> 's handler \<Rightarrow> 's handler" where
  "RequestID fresh next r w s =
     (let id0 = header_get (rq_Header r) ''X-Request-Id'';
          (rid, s') = (if id0 = [] \<or> length id0 > 128 then fresh s else (id0, s))
      in next (r\<lparr>rq_ReqID := rid\<rparr>) (set_header ''X-Request-Id'' rid w) s')"

text \<open>An abort is passed on; a panic becomes a 500 unless the response has started.\<close>

definition Recovery :: "'s handler \<Rightarrow> 's handler" where
  "Recovery next r w s = (case next r w s of
     (Panicked, w', s') \<Rightarrow>
       (Returned, snd (write_part (BJson (JObj [(''error'', JObj [(''message'', JStr ''internal server error''), (''type'', JStr ''internal_error'')])]))
          (WriteHeader 500 (set_header ''Content-Type'' ''application/json'' w'))), s')
   | res \<Rightarrow> res)"

datatype level = Info | Warn | Error

record access_log =
  al_method :: string
  al_path :: string
  al_status :: int
  al_req_id :: string
  al_level :: level

text \<open>
  The wrapper of the logging middleware always offers \<open>Flush\<close>; it records the first status,
  200 when there is none.  The line is written after the handler returns, so not when it
  panics.
\<close>

definition Logging_mw :: "string list \<Rightarrow> (access_log \<Rightarrow> 's \<Rightarrow> 's) \<Rightarrow> 's handler \<Rightarrow> 's handler" where
  "Logging_mw skip log_line next r w s =
     (if rq_Path r \<in> set skip then next r w s
      else case next r (w\<lparr>rw_flusher := True\<rparr>) s of
        (Returned, w', s') \<Rightarrow>
          let status = (case rw_status w' of None \<Rightarrow> 200 | Some st \<Rightarrow> st)
          in (Returned, w'\<lparr>rw_flusher := rw_flusher w\<rparr>,
              log_line \<lparr>al_method = rq_Method r, al_path = rq_Path r, al_status = status, al_req_id = rq_ReqID r,
                al_level = (if status \<ge> 500 then Error else if status \<ge> 400 then Warn else Info)\<rparr> s')
      | (e, w', s') \<Rightarrow> (e, w'\<lparr>rw_flusher := rw_flusher w\<rparr>, s'))"

end
