(* ===== verification/Server.thy ===== *)
theory Server
  imports Middleware
begin

text \<open>
  \<open>internal/server/server.go\<close>, \<open>readyz.go\<close> and the liveness probe of \<open>handlers.go\<close>: which
  middlewares stand in front of which endpoint.  The endpoints and the router library's
  matching are arguments; a subrouter runs its middlewares before it looks for a route, so
  that an unknown path below \<open>/v1\<close> or \<open>/admin\<close> passes the guards of its subtree as well.
\<close>

section \<open>Dependencies\<close>

datatype endpoint =
    EModels | EChat | EMessages
  | EPricing | EKeys | EAudit | ELogs | EStatsSummary | EStatsTimeseries | EStatsCache | EMe | ERoutingRules
  | EProviders | EProvidersReload | ERateLimitRules
  | EMetrics

text \<open>
  The router library: whether a path belongs to the subtree mounted at a prefix, whether it
  matches a pattern (the pattern of a subtree's root ends in a slash), and its answers when
  no pattern or no method fits.
\<close>

record 's chi =
  chi_Mounted :: "string \<Rightarrow> string \<Rightarrow> bool"
  chi_Match :: "string \<Rightarrow> string \<Rightarrow> bool"
  chi_NotFound :: "'s handler"
  chi_MethodNotAllowed :: "'s handler"

text \<open>A dependency that is only tested for presence is a flag.\<close>

record 's Deps =
  de_Authn :: "(string \<Rightarrow> 's \<Rightarrow> (goerr + Principal) \<times> 's) option"
  de_Rules :: "Rule list"
  de_Allow :: "Limiter \<Rightarrow> string \<Rightarrow> int \<Rightarrow> 's \<Rightarrow> (goerr + Decision) \<times> 's"
  de_Text :: "string \<Rightarrow> duration \<Rightarrow> string"
  de_Fresh :: "'s \<Rightarrow> string \<times> 's"
  de_Log :: "access_log \<Rightarrow> 's \<Rightarrow> 's"
  de_Logger :: bool
  de_Registry :: bool
  de_Router :: bool
  de_MetricsReg :: bool
  de_Pricing :: bool
  de_Keystore :: bool
  de_StoragePool :: bool
  de_Stats :: bool
  de_Metrics :: bool
  de_CacheStats :: bool
  de_MetricsEnabled :: bool
  de_MetricsPath :: string
  de_AdminCORSOrigins :: "string list"
  de_Checkers :: "(string \<times> ('s \<Rightarrow> goerr option \<times> 's)) list"
  de_ErrText :: "goerr \<Rightarrow> string"
  de_draining :: bool
  de_Chi :: "'s chi"

datatype missingDepError = MissingDep string

definition missing_dep :: "'s Deps \<Rightarrow> missingDepError option" where
  "missing_dep deps =
     (if \<not> de_Logger deps then Some (MissingDep ''Logger'')
      else if \<not> de_Registry deps then Some (MissingDep ''Registry'')
      else if \<not> de_Router deps then Some (MissingDep ''Router'')
      else if de_MetricsEnabled deps \<and> \<not> de_MetricsReg deps then Some (MissingDep ''MetricsReg (required when MetricsEnabled)'')
      else None)"

section \<open>Probes\<close>

definition healthzHandler :: "'s handler" where
  "healthzHandler r w s = (Returned, snd (write_part (BText ''ok\<newline>'') (WriteHeader 200 w)), s)"

text \<open>The checks run in order; a repeated name keeps the last result.\<close>

fun run_checks :: "(string \<times> ('s \<Rightarrow> goerr option \<times> 's)) list \<Rightarrow> 's \<Rightarrow> (string \<times> goerr option) list \<times> 's" where
  "run_checks [] s = ([], s)"
| "run_checks ((name, check) # cs) s = (case check s of (err, s') \<Rightarrow>
     (case run_checks cs s' of (rest, s'') \<Rightarrow> ((name, err) # rest, s'')))"

definition readyz_body :: "(goerr \<Rightarrow> string) \<Rightarrow> (string \<times> goerr option) list \<Rightarrow> bool \<Rightarrow> json" where
  "readyz_body text results allOK = JObj [(''ready'', JBool allOK),
     (''checks'', JObj (sort_key fst (to_map (map (\<lambda>(n, e). (n, JObj (members [(''ok'', True, JBool (e = None)),
        (''error'', e \<noteq> None \<and> text (the e) \<noteq> [], JStr (text (the e)))]))) results))))]"

text \<open>\<open>StartDraining\<close> sets the flag for good; \<open>IsDraining\<close> reads it.\<close>

definition start_draining :: "'s Deps \<Rightarrow> 's Deps" where
  "start_draining deps = deps\<lparr>de_draining := True\<rparr>"

definition readyzHandler :: "'s Deps \<Rightarrow> 's handler" where
  "readyzHandler deps r w s =
     (if de_draining deps then
        (Returned, write_status_json 503 (JObj [(''ready'', JBool False),
           (''checks'', JObj [(''draining'', JObj [(''ok'', JBool False), (''error'', JStr ''server is shutting down'')])])]) w, s)
      else case run_checks (de_Checkers deps) s of (results, s') \<Rightarrow>
        let allOK = list_all (\<lambda>(_, e). e = None) results
        in (Returned, write_status_json (if allOK then 200 else 503) (readyz_body (de_ErrText deps) results allOK) w, s'))"

section \<open>Routing\<close>

definition on_method :: "'s Deps \<Rightarrow> string \<Rightarrow> 's handler \<Rightarrow> 's handler" where
  "on_method deps m h r w s = (if rq_Method r = m then h r w s else chi_MethodNotAllowed (de_Chi deps) r w s)"

definition with_auth :: "'s Deps \<Rightarrow> 's handler \<Rightarrow> 's handler" where
  "with_auth deps h = (case de_Authn deps of None \<Rightarrow> h | Some authn \<Rightarrow> Auth_mw authn h)"

definition v1_routes :: "'s Deps \<Rightarrow> (endpoint \<Rightarrow> 's handler) \<Rightarrow> 's handler" where
  "v1_routes deps ep r =
     (if chi_Match (de_Chi deps) ''/v1/models'' (rq_Path r) then on_method deps ''GET'' (ep EModels) r
      else if chi_Match (de_Chi deps) ''/v1/chat/completions'' (rq_Path r) then on_method deps ''POST'' (ep EChat) r
      else if chi_Match (de_Chi deps) ''/v1/messages'' (rq_Path r) then on_method deps ''POST'' (ep EMessages) r
      else chi_NotFound (de_Chi deps) r)"

definition v1_handler :: "'s Deps \<Rightarrow> (endpoint \<Rightarrow> 's handler) \<Rightarrow> 's handler" where
  "v1_handler deps ep = with_auth deps (RateLimit_mw (de_Text deps) (de_Allow deps) (de_Rules deps) (v1_routes deps ep))"

text \<open>A subtree below \<open>/admin\<close>: authentication, the scope it needs, its routes.\<close>

definition guarded :: "'s Deps \<Rightarrow> (string \<times> string) option \<Rightarrow> 's handler \<Rightarrow> 's handler" where
  "guarded deps scope h = with_auth deps (case scope of None \<Rightarrow> h | Some (c, v) \<Rightarrow> RequireScope c v h)"

definition stats_routes :: "'s Deps \<Rightarrow> (endpoint \<Rightarrow> 's handler) \<Rightarrow> 's handler" where
  "stats_routes deps ep r =
     (if chi_Match (de_Chi deps) ''/admin/stats/summary'' (rq_Path r) then on_method deps ''GET'' (ep EStatsSummary) r
      else if chi_Match (de_Chi deps) ''/admin/stats/timeseries'' (rq_Path r) then on_method deps ''GET'' (ep EStatsTimeseries) r
      else if chi_Match (de_Chi deps) ''/admin/stats/cache'' (rq_Path r) \<and> de_CacheStats deps then on_method deps ''GET'' (ep EStatsCache) r
      else chi_NotFound (de_Chi deps) r)"

definition only_at :: "'s Deps \<Rightarrow> string \<Rightarrow> 's handler \<Rightarrow> 's handler" where
  "only_at deps p h r = (if chi_Match (de_Chi deps) (p @ ''/'') (rq_Path r) then h r else chi_NotFound (de_Chi deps) r)"

abbreviation webui :: "(string \<times> string) option" where
  "webui \<equiv> Some (''admin'', ''webui'')"

definition admin_routes :: "'s Deps \<Rightarrow> (endpoint \<Rightarrow> 's handler) \<Rightarrow> 's handler" where
  "admin_routes deps ep r =
     (let path = rq_Path r
      in if chi_Mounted (de_Chi deps) ''/admin/pricing'' path \<and> de_Pricing deps then guarded deps (Some (''admin'', ''pricing'')) (ep EPricing) r
         else if chi_Mounted (de_Chi deps) ''/admin/keys'' path \<and> de_Keystore deps then guarded deps webui (ep EKeys) r
         else if chi_Mounted (de_Chi deps) ''/admin/audit'' path then guarded deps webui (only_at deps ''/admin/audit'' (on_method deps ''GET'' (ep EAudit))) r
         else if chi_Mounted (de_Chi deps) ''/admin/logs'' path \<and> de_StoragePool deps then guarded deps webui (only_at deps ''/admin/logs'' (on_method deps ''GET'' (ep ELogs))) r
         else if chi_Mounted (de_Chi deps) ''/admin/stats'' path \<and> de_Stats deps \<and> de_Metrics deps then guarded deps webui (stats_routes deps ep) r
         else if chi_Mounted (de_Chi deps) ''/admin/me'' path then guarded deps None (only_at deps ''/admin/me'' (on_method deps ''GET'' (ep EMe))) r
         else if chi_Mounted (de_Chi deps) ''/admin/routing'' path then guarded deps webui
           (\<lambda>r. if chi_Match (de_Chi deps) ''/admin/routing/rules'' (rq_Path r) then on_method deps ''GET'' (ep ERoutingRules) r else chi_NotFound (de_Chi deps) r) r
         else if chi_Mounted (de_Chi deps) ''/admin/providers'' path then guarded deps webui
           (\<lambda>r. if chi_Match (de_Chi deps) ''/admin/providers/'' (rq_Path r) then on_method deps ''GET'' (ep EProviders) r
                else if chi_Match (de_Chi deps) ''/admin/providers/reload'' (rq_Path r) then on_method deps ''POST'' (ep EProvidersReload) r else chi_NotFound (de_Chi deps) r) r
         else if chi_Mounted (de_Chi deps) ''/admin/ratelimit'' path then guarded deps webui
           (\<lambda>r. if chi_Match (de_Chi deps) ''/admin/ratelimit/rules'' (rq_Path r) then on_method deps ''GET'' (ep ERateLimitRules) r else chi_NotFound (de_Chi deps) r) r
         else chi_NotFound (de_Chi deps) r)"

text \<open>
  The root router.  The metrics path is registered last: of two routes with the same path the
  later one replaces the earlier, and a path without wildcards wins over a mounted subtree, so
  the metrics route is tried first, wherever the configuration puts it.  (A metrics path with
  chi's wildcards in it is not considered.)
\<close>

definition dispatch :: "'s Deps \<Rightarrow> (endpoint \<Rightarrow> 's handler) \<Rightarrow> 's handler" where
  "dispatch deps ep r =
     (if de_MetricsEnabled deps \<and> chi_Match (de_Chi deps) (de_MetricsPath deps) (rq_Path r) then ep EMetrics r
      else if chi_Match (de_Chi deps) ''/healthz'' (rq_Path r) then on_method deps ''GET'' healthzHandler r
      else if chi_Match (de_Chi deps) ''/readyz'' (rq_Path r) then on_method deps ''GET'' (readyzHandler deps) r
      else if chi_Mounted (de_Chi deps) ''/v1'' (rq_Path r) then v1_handler deps ep r
      else if chi_Mounted (de_Chi deps) ''/admin'' (rq_Path r) \<and> de_Authn deps \<noteq> None then CORS (de_AdminCORSOrigins deps) (admin_routes deps ep) r
      else chi_NotFound (de_Chi deps) r)"

text \<open>The handler \<open>New\<close> assembles; the tracing middleware only opens a span.\<close>

definition Server_New :: "'s Deps \<Rightarrow> (endpoint \<Rightarrow> 's handler) \<Rightarrow> missingDepError + 's handler" where
  "Server_New deps ep = (case missing_dep deps of
     Some e \<Rightarrow> Inl e
   | None \<Rightarrow> Inr (Recovery (RequestID (de_Fresh deps)
       (Logging_mw (''/healthz'' # (if de_MetricsEnabled deps then [de_MetricsPath deps] else [])) (de_Log deps) (dispatch deps ep)))))"

section \<open>Guards\<close>

text \<open>
  Two handlers behind the same guard behave alike as soon as they agree on the requests the
  guard lets through.
\<close>

definition genuine :: "(string \<Rightarrow> 's \<Rightarrow> (goerr + Principal) \<times> 's) \<Rightarrow> Principal option \<Rightarrow> bool" where
  "genuine authn p \<longleftrightarrow> (\<exists>q key s s'. p = Some q \<and> authn key s = (Inr q, s'))"

definition scope_ok :: "(string \<times> string) option \<Rightarrow> Principal option \<Rightarrow> bool" where
  "scope_ok scope p = (case scope of None \<Rightarrow> True | Some (c, v) \<Rightarrow> HasScope p c v)"

lemma Auth_mw_cong:
  assumes "\<And>r w s. genuine authn (rq_Principal r) \<Longrightarrow> f r w s = g r w s"
  shows "Auth_mw authn f = Auth_mw authn g"
proof (intro ext)
  fix r w s
  have "f (r\<lparr>rq_Principal := Some q\<rparr>) w s' = g (r\<lparr>rq_Principal := Some q\<rparr>) w s'" if "authn key s = (Inr q, s')" for key q s'
    using that by (intro assms) (auto simp: genuine_def)
  then show "Auth_mw authn f r w s = Auth_mw authn g r w s"
    by (auto simp: Auth_mw_def split: option.splits sum.splits prod.splits)
qed

lemma RateLimit_mw_cong:
  "(\<And>w s. f r w s = g r w s) \<Longrightarrow> RateLimit_mw t allow rules f r w s = RateLimit_mw t allow rules g r w s"
  by (auto simp: RateLimit_mw_def Let_def split: sum.splits prod.splits)

text \<open>
  The probe answers 200 exactly when the server is not draining and every check passes; once it
  drains, no check is run.
\<close>

lemma readiness:
  assumes "rw_status w = None" "run_checks (de_Checkers deps) s = (results, s1)" "readyzHandler deps r w s = (e, w', s')"
  shows "rw_status w' = Some (if \<not> de_draining deps \<and> list_all (\<lambda>(_, e). e = None) results then 200 else 503) \<and>
    s' = (if de_draining deps then s else s1)"
  using assms by (auto simp: readyzHandler_def write_status_json_def jsonEncode_status Let_def)

lemma draining_not_ready: "rw_status w = None \<Longrightarrow> readyzHandler (start_draining deps) r w s = (e, w', s') \<Longrightarrow> rw_status w' = Some 503 \<and> s' = s"
  by (cases "run_checks (de_Checkers deps) s") (auto simp: start_draining_def dest: readiness [of w "start_draining deps" s, unfolded start_draining_def, simplified])

lemma guarded_cong:
  assumes "de_Authn deps = Some authn"
    and "\<And>r w s. genuine authn (rq_Principal r) \<Longrightarrow> scope_ok scope (rq_Principal r) \<Longrightarrow> f r w s = g r w s"
  shows "guarded deps scope f = guarded deps scope g"
  unfolding guarded_def with_auth_def assms(1) option.case
  using assms(2) by (intro Auth_mw_cong) (auto simp: RequireScope_def scope_ok_def split: option.splits)

text \<open>The scope an endpoint needs; the endpoints of \<open>/v1\<close> and \<open>/admin/me\<close> need a principal only.\<close>

fun endpoint_scope :: "endpoint \<Rightarrow> (string \<times> string) option" where
  "endpoint_scope EPricing = Some (''admin'', ''pricing'')"
| "endpoint_scope EModels = None"
| "endpoint_scope EChat = None"
| "endpoint_scope EMessages = None"
| "endpoint_scope EMe = None"
| "endpoint_scope EMetrics = None"
| "endpoint_scope _ = webui"

definition authorised :: "(string \<Rightarrow> 's \<Rightarrow> (goerr + Principal) \<times> 's) \<Rightarrow> endpoint \<Rightarrow> Principal option \<Rightarrow> bool" where
  "authorised authn e p \<longleftrightarrow> e = EMetrics \<or> (genuine authn p \<and> scope_ok (endpoint_scope e) p)"

text \<open>Two sets of endpoints that agree on authorised requests give the same server.\<close>

lemma server_guarded:
  assumes "de_Authn deps = Some authn"
    and "\<And>e r w s. authorised authn e (rq_Principal r) \<Longrightarrow> ep1 e r w s = ep2 e r w s"
  shows "Server_New deps ep1 = Server_New deps ep2"
proof -
  have pass: "ep1 e r w s = ep2 e r w s" if "genuine authn (rq_Principal r)" "scope_ok (endpoint_scope e) (rq_Principal r)" for e r w s
    using assms(2) that by (simp add: authorised_def)
  have v1: "v1_handler deps ep1 = v1_handler deps ep2"
    unfolding v1_handler_def with_auth_def assms(1) option.case
    by (intro Auth_mw_cong RateLimit_mw_cong) (simp add: v1_routes_def on_method_def pass scope_ok_def)
  have one: "guarded deps (endpoint_scope e) (\<lambda>r. if P r then on_method deps m (ep1 e) r else chi_NotFound (de_Chi deps) r) =
      guarded deps (endpoint_scope e) (\<lambda>r. if P r then on_method deps m (ep2 e) r else chi_NotFound (de_Chi deps) r)" for e m P
    by (rule guarded_cong [OF assms(1)]) (simp add: on_method_def pass)
  have tree: "guarded deps (endpoint_scope e) (ep1 e) = guarded deps (endpoint_scope e) (ep2 e)" for e
    by (rule guarded_cong [OF assms(1)]) (simp add: pass)
  have stats: "guarded deps webui (stats_routes deps ep1) = guarded deps webui (stats_routes deps ep2)"
    by (rule guarded_cong [OF assms(1)]) (simp add: stats_routes_def on_method_def pass)
  have providers: "guarded deps webui (\<lambda>r. if P r then on_method deps m (ep1 EProviders) r else if Q r then on_method deps n (ep1 EProvidersReload) r else chi_NotFound (de_Chi deps) r) =
      guarded deps webui (\<lambda>r. if P r then on_method deps m (ep2 EProviders) r else if Q r then on_method deps n (ep2 EProvidersReload) r else chi_NotFound (de_Chi deps) r)" for P Q m n
    by (rule guarded_cong [OF assms(1)]) (simp add: on_method_def pass)
  have admin: "admin_routes deps ep1 = admin_routes deps ep2"
    unfolding admin_routes_def [abs_def] only_at_def [abs_def]
    by (simp only: tree [of EPricing, unfolded endpoint_scope.simps] tree [of EKeys, unfolded endpoint_scope.simps]
        one [of EAudit, unfolded endpoint_scope.simps] one [of ELogs, unfolded endpoint_scope.simps]
        one [of EMe, unfolded endpoint_scope.simps] one [of ERoutingRules, unfolded endpoint_scope.simps]
        one [of ERateLimitRules, unfolded endpoint_scope.simps] stats providers)
  have metrics: "ep1 EMetrics = ep2 EMetrics" by (intro ext assms(2)) (simp add: authorised_def)
  have "dispatch deps ep1 = dispatch deps ep2" unfolding dispatch_def [abs_def] by (simp only: v1 admin metrics)
  then show ?thesis by (simp only: Server_New_def)
qed

text \<open>No panic escapes the server; one before the response has started becomes a 500.\<close>

lemma Recovery_no_panic: "fst (Recovery h r w s) \<noteq> Panicked"
  by (auto simp: Recovery_def split: ending.splits prod.splits)

lemma Recovery_500:
  "h r w s = (Panicked, w', s') \<Longrightarrow> rw_status w' = None \<Longrightarrow> rw_status (fst (snd (Recovery h r w s))) = Some 500"
  by (simp add: Recovery_def)

text \<open>A request that returns is logged with the status the client gets.\<close>

lemma Logging_status:
  assumes "rq_Path r \<notin> set skip" "Logging_mw skip (\<lambda>l ls. ls @ [l]) h r w s = (Returned, w', s')"
  shows "al_status (last s') = (case rw_status w' of None \<Rightarrow> 200 | Some st \<Rightarrow> st)"
  using assms by (auto simp: Logging_mw_def Let_def split: prod.splits ending.splits)

section \<open>Properties\<close>

text \<open>
  C22: With an authenticator configured, no endpoint but \<open>/metrics\<close> ever sees a request without
  a principal the authenticator vouched for, nor an admin endpoint one whose principal lacks
  the scope of that endpoint: two sets of endpoints that agree on the requests they are
  authorised for give the same server.
\<close>

theorem endpoints_behind_guards:
  assumes "de_Authn deps = Some authn"
    and "\<And>e r w s. authorised authn e (rq_Principal r) \<Longrightarrow> ep1 e r w s = ep2 e r w s"
  shows "Server_New deps ep1 = Server_New deps ep2"
  by (rule server_guarded [OF assms])

text \<open>Two servers whose endpoints differ for the principal \<open>guest\<close>, whom nobody vouches for.\<close>

definition demo_authn :: "string \<Rightarrow> unit \<Rightarrow> (goerr + Principal) \<times> unit" where
  "demo_authn key s = (if key = ''s1'' then Inr \<lparr>pr_ID = ''key-1'', pr_Name = ''n'', pr_Scopes = None\<rparr> else Inl ErrInvalidCredentials, s)"

definition demo_chi :: "unit chi" where
  "demo_chi = \<lparr>chi_Mounted = (\<lambda>p path. path = p \<or> has_prefix path (p @ ''/'')), chi_Match = (\<lambda>p path. path = p \<or> path @ ''/'' = p),
     chi_NotFound = (\<lambda>r w s. (Returned, WriteHeader 404 w, s)), chi_MethodNotAllowed = (\<lambda>r w s. (Returned, WriteHeader 405 w, s))\<rparr>"

definition demo_deps :: "unit Deps" where
  "demo_deps = \<lparr>de_Authn = Some demo_authn, de_Rules = [], de_Allow = (\<lambda>_ _ _ s. (Inr Decision0, s)), de_Text = (\<lambda>_ _. []),
     de_Fresh = (\<lambda>s. (''uuid'', s)), de_Log = (\<lambda>_ s. s), de_Logger = True, de_Registry = True, de_Router = True, de_MetricsReg = True,
     de_Pricing = True, de_Keystore = True, de_StoragePool = False, de_Stats = False, de_Metrics = True, de_CacheStats = False,
     de_MetricsEnabled = False, de_MetricsPath = [], de_AdminCORSOrigins = [], de_Checkers = [], de_ErrText = (\<lambda>_. []), de_draining = False, de_Chi = demo_chi\<rparr>"

definition demo_endpoint :: "bool \<Rightarrow> endpoint \<Rightarrow> unit handler" where
  "demo_endpoint open_keys e r w s = (if e = EKeys \<and> open_keys \<and> rq_Principal r = Some \<lparr>pr_ID = ''key-1'', pr_Name = ''n'', pr_Scopes = None\<rparr>
     then (Returned, WriteHeader 201 w, s) else (Returned, WriteHeader 200 w, s))"

theorem endpoints_behind_guards_witness:
  "Server_New demo_deps (demo_endpoint True) = Server_New demo_deps (demo_endpoint False) \<and>
   (\<exists>r. demo_endpoint True EKeys r \<noteq> demo_endpoint False EKeys r)"
proof
  have "demo_endpoint True e r w s = demo_endpoint False e r w s" if "authorised demo_authn e (rq_Principal r)" for e r w s
    using that by (auto simp: demo_endpoint_def authorised_def scope_ok_def HasScope_def scope_values_def)
  then show "Server_New demo_deps (demo_endpoint True) = Server_New demo_deps (demo_endpoint False)"
    by (intro endpoints_behind_guards [where authn = demo_authn]) (simp_all add: demo_deps_def)
  let ?r = "\<lparr>rq_Method = ''GET'', rq_Path = [], rq_Header = [], rq_ReqID = [],
    rq_Principal = Some \<lparr>pr_ID = ''key-1'', pr_Name = ''n'', pr_Scopes = None\<rparr>\<rparr>"
  have "demo_endpoint True EKeys ?r (new_writer (\<lambda>_. True) True) () \<noteq> demo_endpoint False EKeys ?r (new_writer (\<lambda>_. True) True) ()"
    by (simp add: demo_endpoint_def new_writer_def WriteHeader_def)
  then show "\<exists>r. demo_endpoint True EKeys r \<noteq> demo_endpoint False EKeys r" by metis
qed

end
