(* ===== verification/Pricing.thy ===== *)
theory Pricing
  imports ProviderTypes
begin

text \<open>
  \<open>internal/billing/pricing.go\<close> and \<open>internal/provider/catalog/pricing.go\<close>: the rate table
  with its in-memory snapshot, the cost of a request in \<open>int64\<close> micro-units, and the
  decimal strings the model listing shows.  The table \<open>model_pricing\<close> is a map from model
  ids to rows; \<open>pc_db_err\<close> is the error a query meets while the database is unreachable.
\<close>

section \<open>Rates and costs\<close>

record Rate =
  rt_Model :: string
  rt_Currency :: string
  rt_InputPer1kMicro :: int
  rt_OutputPer1kMicro :: int
  rt_UpdatedAt :: instant

definition charge :: "int \<Rightarrow> int \<Rightarrow> int" where
  "charge tokens per1k = go_div (wrap64 (tokens * per1k)) 1000"

definition Cost :: "Rate \<Rightarrow> int \<Rightarrow> int \<Rightarrow> int" where
  "Cost rate promptTokens completionTokens =
     (if rt_Model rate = [] then 0
      else wrap64 (charge promptTokens (rt_InputPer1kMicro rate) + charge completionTokens (rt_OutputPer1kMicro rate)))"

section \<open>The cache\<close>

record PricingCache =
  pc_snapshot :: "(string \<times> Rate) list"
  pc_size_gauge :: int

record pricing_state =
  pc_cache :: PricingCache
  pc_table :: "(string \<times> Rate) list"
  pc_db_err :: "goerr option"

definition NewPricingCache :: PricingCache where
  "NewPricingCache = \<lparr>pc_snapshot = [], pc_size_gauge = 0\<rparr>"

definition Lookup :: "PricingCache \<Rightarrow> string \<Rightarrow> Rate option" where
  "Lookup c model = map_of (pc_snapshot c) model"

definition All :: "PricingCache \<Rightarrow> Rate list" where
  "All c = map snd (pc_snapshot c)"

definition store_snapshot :: "(string \<times> Rate) list \<Rightarrow> PricingCache \<Rightarrow> PricingCache" where
  "store_snapshot next c = c\<lparr>pc_snapshot := next, pc_size_gauge := int (length next)\<rparr>"

definition Reload :: "pricing_state \<Rightarrow> goerr option \<times> pricing_state" where
  "Reload s = (case pc_db_err s of
     Some e \<Rightarrow> (Some (Wrapped ''billing: query model_pricing'' e), s)
   | None \<Rightarrow>
       (let next = foldl (\<lambda>m r. al_put (rt_Model r) r m) [] (map snd (pc_table s))
        in (None, s\<lparr>pc_cache := store_snapshot next (pc_cache s)\<rparr>)))"

definition replaceOne :: "Rate \<Rightarrow> PricingCache \<Rightarrow> PricingCache" where
  "replaceOne r c = store_snapshot (al_put (rt_Model r) r (pc_snapshot c)) c"

definition removeOne :: "string \<Rightarrow> PricingCache \<Rightarrow> PricingCache" where
  "removeOne model c = (case map_of (pc_snapshot c) model of
     None \<Rightarrow> c | Some _ \<Rightarrow> store_snapshot (al_del model (pc_snapshot c)) c)"

text \<open>
  \<open>Set\<close> and \<open>Delete\<close>: a statement that fails has no effect.  One the database executes although its
  reply is lost (the table changes and the snapshot does not, until the next reload) is not
  modelled.
\<close>

definition Set :: "instant \<Rightarrow> Rate \<Rightarrow> pricing_state \<Rightarrow> goerr option \<times> pricing_state" where
  "Set now r0 s =
     (if rt_Model r0 = [] then (Some (OtherErr ''billing: model is required''), s)
      else let r = (if rt_Currency r0 = [] then r0\<lparr>rt_Currency := ''USD''\<rparr> else r0) in
        if rt_InputPer1kMicro r < 0 \<or> rt_OutputPer1kMicro r < 0
        then (Some (OtherErr ''billing: rates must be >= 0''), s)
        else case pc_db_err s of
          Some e \<Rightarrow> (Some (Wrapped ''billing: upsert model_pricing'' e), s)
        | None \<Rightarrow>
            (let r' = r\<lparr>rt_UpdatedAt := now\<rparr>
             in (None, s\<lparr>pc_table := al_put (rt_Model r') r' (pc_table s), pc_cache := replaceOne r' (pc_cache s)\<rparr>)))"

definition Delete :: "string \<Rightarrow> pricing_state \<Rightarrow> (goerr + bool) \<times> pricing_state" where
  "Delete model s = (case pc_db_err s of
     Some e \<Rightarrow> (Inl (Wrapped ''billing: delete model_pricing'' e), s)
   | None \<Rightarrow>
       (case map_of (pc_table s) model of
          None \<Rightarrow> (Inr False, s)
        | Some _ \<Rightarrow> (Inr True, s\<lparr>pc_table := al_del model (pc_table s), pc_cache := removeOne model (pc_cache s)\<rparr>)))"

text \<open>The loop of \<open>PeriodicReload\<close>: one reload at once, one per tick; \<open>others\<close> is what happens before each tick.\<close>

definition PeriodicReload :: "duration \<Rightarrow> (pricing_state \<Rightarrow> pricing_state) list \<Rightarrow> pricing_state \<Rightarrow> pricing_state" where
  "PeriodicReload interval others s = (if interval \<le> 0 then s
     else foldl (\<lambda>s f. snd (Reload (f s))) (snd (Reload s)) others)"

definition SetMetrics :: "PricingCache \<Rightarrow> PricingCache" where
  "SetMetrics c = c\<lparr>pc_size_gauge := int (length (pc_snapshot c))\<rparr>"

section \<open>Prices as strings\<close>

text \<open>\<open>%06d\<close> of a number below a million.\<close>

definition pad6 :: "nat \<Rightarrow> string" where
  "pad6 n = replicate (6 - length (nat_str n)) (CHR ''0'') @ nat_str n"

definition trim_zeros :: "string \<Rightarrow> string" where
  "trim_zeros s = rev (dropWhile (\<lambda>c. c = CHR ''0'') (rev s))"

definition nonneg_micro_string :: "int \<Rightarrow> string" where
  "nonneg_micro_string micro =
     (let whole = go_div micro 1000000; frac = go_mod micro 1000000 in
      if frac = 0 then itoa whole @ ''.0''
      else let fs = trim_zeros (pad6 (nat frac)); fs' = (if fs = [] then ''0'' else fs)
           in itoa whole @ ''.'' @ fs')"

text \<open>Go negates with wrap-around, so the least \<open>int64\<close> would recurse for ever; the only caller
  passes positive prices.\<close>

definition microToUSDString :: "int \<Rightarrow> string" where
  "microToUSDString micro = (if micro < 0 then ''-'' @ nonneg_micro_string (- micro) else nonneg_micro_string micro)"

definition FormatPricing :: "int \<Rightarrow> int \<Rightarrow> string \<Rightarrow> ModelPricing option" where
  "FormatPricing prompt completion currency =
     (if prompt \<le> 0 \<or> completion \<le> 0 then None
      else Some \<lparr>mp_Prompt = microToUSDString prompt, mp_Completion = microToUSDString completion,
                 mp_Currency = (if currency = [] then ''USD'' else currency), mp_Unit = ''1K_tokens''\<rparr>)"

section \<open>Lemmas\<close>

text \<open>The table's key is the model column.\<close>

definition pricing_table_ok :: "(string \<times> Rate) list \<Rightarrow> bool" where
  "pricing_table_ok t \<longleftrightarrow> distinct (map fst t) \<and> (\<forall>(k, r) \<in> set t. rt_Model r = k)"

definition snapshot_current :: "pricing_state \<Rightarrow> bool" where
  "snapshot_current s \<longleftrightarrow> map_of (pc_snapshot (pc_cache s)) = map_of (pc_table s) \<and>
     pc_size_gauge (pc_cache s) = int (length (pc_snapshot (pc_cache s)))"

lemma foldl_al_put_map:
  "map_of (foldl (\<lambda>m r. al_put (rt_Model r) r m) m0 rs) =
     map_of m0 ++ map_of (rev (map (\<lambda>r. (rt_Model r, r)) rs))"
  by (induction rs arbitrary: m0) (auto simp: map_of_al_put map_add_def fun_eq_iff split: option.splits)

lemma reload_map:
  assumes "pricing_table_ok t"
  shows "map_of (foldl (\<lambda>m r. al_put (rt_Model r) r m) [] (map snd t)) = map_of t"
proof -
  have "map (\<lambda>r. (rt_Model r, r)) (map snd t) = t"
    using assms by (induction t) (auto simp: pricing_table_ok_def)
  moreover have "map_of (rev t) = map_of t"
    using assms by (intro map_of_inject_set [THEN iffD2]) (auto simp: pricing_table_ok_def rev_map [symmetric])
  ultimately show ?thesis by (simp add: foldl_al_put_map)
qed

lemma pricing_table_ok_put: "pricing_table_ok t \<Longrightarrow> pricing_table_ok (al_put (rt_Model r) r t)"
proof -
  assume t: "pricing_table_ok t"
  have "set (al_put k r t) \<subseteq> insert (k, r) (set t)" for k by (induction t) auto
  then show ?thesis using t distinct_al_put [of t "rt_Model r" r] by (fastforce simp: pricing_table_ok_def al_keys_def)
qed

lemma pricing_table_ok_del: "pricing_table_ok t \<Longrightarrow> pricing_table_ok (al_del k t)"
  using distinct_al_del [of t k] by (auto simp: pricing_table_ok_def al_keys_def al_del_def)

text \<open>
  The life of the cache beside its table: operations of the gateway, which \<open>reloadMu\<close> puts in a
  row, database outages, and edits of the table by others, such as \<open>xbctl\<close>.  The set holds the
  models edited by others since the last successful reload.
\<close>

inductive pricing_run :: "pricing_state \<Rightarrow> string set \<Rightarrow> bool" where
  start: "pricing_table_ok t \<Longrightarrow> pricing_run \<lparr>pc_cache = NewPricingCache, pc_table = t, pc_db_err = e\<rparr> (fst ` set t)"
| set: "pricing_run s D \<Longrightarrow> Set now r s = (res, s') \<Longrightarrow> pricing_run s' (if res = None then D - {rt_Model r} else D)"
| delete: "pricing_run s D \<Longrightarrow> Delete m s = (res, s') \<Longrightarrow> pricing_run s' (if res = Inr True then D - {m} else D)"
| reload: "pricing_run s D \<Longrightarrow> Reload s = (res, s') \<Longrightarrow> pricing_run s' (if res = None then {} else D)"
| outage: "pricing_run s D \<Longrightarrow> pricing_run (s\<lparr>pc_db_err := e\<rparr>) D"
| outside_set: "pricing_run s D \<Longrightarrow> pricing_run (s\<lparr>pc_table := al_put (rt_Model r) r (pc_table s)\<rparr>) (insert (rt_Model r) D)"
| outside_delete: "pricing_run s D \<Longrightarrow> pricing_run (s\<lparr>pc_table := al_del m (pc_table s)\<rparr>) (insert m D)"

definition fresh_outside :: "string set \<Rightarrow> pricing_state \<Rightarrow> bool" where
  "fresh_outside D s \<longleftrightarrow> (\<forall>m. m \<notin> D \<longrightarrow> Lookup (pc_cache s) m = map_of (pc_table s) m)"

lemma Set_step: "Set now r s = (res, s') \<Longrightarrow> pricing_table_ok (pc_table s) \<Longrightarrow> fresh_outside D s \<Longrightarrow>
    pricing_table_ok (pc_table s') \<and> fresh_outside (if res = None then D - {rt_Model r} else D) s'"
  by (auto simp: Set_def fresh_outside_def Lookup_def replaceOne_def store_snapshot_def map_of_al_put Let_def split: if_splits option.splits
      intro: pricing_table_ok_put [of _ "r\<lparr>rt_UpdatedAt := now\<rparr>", simplified]
        pricing_table_ok_put [of _ "r\<lparr>rt_Currency := ''USD'', rt_UpdatedAt := now\<rparr>", simplified])

lemma Delete_step: "Delete m s = (res, s') \<Longrightarrow> pricing_table_ok (pc_table s) \<Longrightarrow> fresh_outside D s \<Longrightarrow>
    pricing_table_ok (pc_table s') \<and> fresh_outside (if res = Inr True then D - {m} else D) s'"
  by (auto simp: Delete_def fresh_outside_def Lookup_def removeOne_def store_snapshot_def map_of_al_del pricing_table_ok_del split: option.splits)

lemma Reload_step: "Reload s = (res, s') \<Longrightarrow> pricing_table_ok (pc_table s) \<Longrightarrow> fresh_outside D s \<Longrightarrow>
    pricing_table_ok (pc_table s') \<and> fresh_outside (if res = None then {} else D) s'"
  by (auto simp: Reload_def fresh_outside_def Lookup_def store_snapshot_def reload_map Let_def split: option.splits)

text \<open>With the database back at a tick, the snapshot is current after it, whatever happened before.\<close>

lemma periodic_reload_converges:
  assumes "0 < interval" "pc_db_err (f (PeriodicReload interval others s)) = None"
    and "pricing_table_ok (pc_table (f (PeriodicReload interval others s)))"
  shows "snapshot_current (PeriodicReload interval (others @ [f]) s)"
  using assms by (simp add: PeriodicReload_def Reload_def snapshot_current_def store_snapshot_def reload_map Let_def)

text \<open>An operation that fails changes nothing.\<close>

lemma Set_fails: "Set now r p = (Some err, p') \<Longrightarrow> p' = p"
  by (auto simp: Set_def Let_def split: if_splits option.splits)

lemma Delete_fails: "Delete m p = (Inl err, p') \<Longrightarrow> p' = p" "Delete m p = (Inr False, p') \<Longrightarrow> p' = p"
  by (auto simp: Delete_def split: option.splits)

lemma Reload_keeps_table: "Reload s = (r, s') \<Longrightarrow> pc_table s' = pc_table s"
  by (auto simp: Reload_def Let_def split: option.splits)

lemma charge_exact:
  assumes "0 \<le> t" "0 \<le> r" "t * r < 2 ^ 63"
  shows "charge t r = t * r div 1000"
proof -
  have n: "0 \<le> t * r" using assms by simp
  then have "in_int64 (t * r)" unfolding in_int64_bounds using assms(3) by linarith
  with n show ?thesis by (simp add: charge_def wrap64_id go_div_nonneg)
qed

subsection \<open>Decimal fractions\<close>

lemma digits_val_append: "digits_val (s @ t) = digits_val s * 10 ^ length t + digits_val t"
proof (induction t rule: rev_induct)
  case (snoc c t)
  then show ?case by (simp add: digits_val_snoc flip: append_assoc)
qed (simp add: digits_val_def)

lemma digits_val_zeros: "digits_val (replicate n (CHR ''0'')) = 0"
proof (induction n)
  case (Suc n)
  have "digits_val (CHR ''0'' # replicate n (CHR ''0'')) = digits_val (replicate n (CHR ''0'') @ ''0'')"
    by (simp add: replicate_append_same)
  then show ?case using Suc by (simp add: digits_val_snoc digit_val_def)
qed (simp add: digits_val_def)

lemma trim_zeros_split: "\<exists>k. s = trim_zeros s @ replicate k (CHR ''0'')"
proof -
  let ?z = "takeWhile (\<lambda>c. c = CHR ''0'') (rev s)"
  have "\<forall>c \<in> set ?z. c = CHR ''0''" by (auto dest: set_takeWhileD)
  then have z: "rev ?z = replicate (length ?z) (CHR ''0'')" by (metis replicate_length_same rev_replicate)
  have "rev (rev s) = rev (dropWhile (\<lambda>c. c = CHR ''0'') (rev s)) @ rev ?z"
    by (simp only: takeWhile_dropWhile_id flip: rev_append)
  then have "s = trim_zeros s @ replicate (length ?z) (CHR ''0'')" by (simp only: rev_rev_ident trim_zeros_def z)
  then show ?thesis by (rule exI)
qed

lemma nat_str_length: "n < 10 ^ Suc k \<Longrightarrow> length (nat_str n) \<le> Suc k"
proof (induction k arbitrary: n)
  case 0
  then show ?case by (simp add: nat_str.simps)
next
  case (Suc k)
  then have "n div 10 < 10 ^ Suc k" by (simp add: less_mult_imp_div_less)
  with Suc.IH [of "n div 10"] show ?case by (subst nat_str.simps) auto
qed

lemma pad6_digits:
  assumes "n < 1000000"
  shows "length (pad6 n) = 6" "digits_val (pad6 n) = n" "list_all is_digit (pad6 n)"
proof -
  have "length (nat_str n) \<le> 6" using nat_str_length [of n 5] assms by simp
  then show "length (pad6 n) = 6" by (simp add: pad6_def)
  show "digits_val (pad6 n) = n" using nat_str_digits [of n] by (simp add: pad6_def digits_val_append digits_val_zeros)
  show "list_all is_digit (pad6 n)" using nat_str_digits [of n] by (auto simp: pad6_def list_all_iff is_digit_def)
qed

text \<open>Reading a price back: the digits before the point, and up to six after it.\<close>

definition read_micro :: "string \<Rightarrow> nat option" where
  "read_micro s = (case split_on (CHR ''.'') s of
     [w, f] \<Rightarrow> if w \<noteq> [] \<and> f \<noteq> [] \<and> length f \<le> 6 \<and> list_all is_digit (w @ f)
               then Some (digits_val w * 1000000 + digits_val f * 10 ^ (6 - length f)) else None
   | _ \<Rightarrow> None)"

lemma split_on_none: "c \<notin> set s \<Longrightarrow> split_on c s = [s]"
  by (induction s) auto

lemma split_on_one: "c \<notin> set s \<Longrightarrow> c \<notin> set t \<Longrightarrow> split_on c (s @ c # t) = [s, t]"
  by (induction s) (auto simp: split_on_none)

lemma digits_no_dot: "list_all is_digit s \<Longrightarrow> CHR ''.'' \<notin> set s"
  by (auto simp: list_all_iff is_digit_def)

lemma trimmed_fraction:
  assumes "0 < n" "n < 1000000"
  shows "trim_zeros (pad6 n) \<noteq> []" "length (trim_zeros (pad6 n)) \<le> 6" "list_all is_digit (trim_zeros (pad6 n))"
    "digits_val (trim_zeros (pad6 n)) * 10 ^ (6 - length (trim_zeros (pad6 n))) = n"
proof -
  note p6 = pad6_digits [OF assms(2)]
  obtain k where k: "pad6 n = trim_zeros (pad6 n) @ replicate k (CHR ''0'')" using trim_zeros_split by blast
  then have len: "length (trim_zeros (pad6 n)) + k = 6" using p6(1) by (metis length_append length_replicate)
  have val: "digits_val (trim_zeros (pad6 n)) * 10 ^ k = n"
    using p6(2) k digits_val_append [of "trim_zeros (pad6 n)" "replicate k (CHR ''0'')"] by (simp add: digits_val_zeros)
  then show "trim_zeros (pad6 n) \<noteq> []" using assms(1) by (auto simp: digits_val_def)
  show "length (trim_zeros (pad6 n)) \<le> 6" using len by simp
  show "list_all is_digit (trim_zeros (pad6 n))" using p6(3) k by (metis list_all_append)
  show "digits_val (trim_zeros (pad6 n)) * 10 ^ (6 - length (trim_zeros (pad6 n))) = n"
    using val len by (metis add_diff_cancel_left')
qed

section \<open>Properties\<close>

text \<open>
  C17: while the products fit 64 bits, the cost of a request is its exact price in
  micro-units rounded down for each half, so it undercharges by less than two micro-units.
\<close>

theorem cost_exact:
  assumes "rt_Model r \<noteq> []" "0 \<le> p" "0 \<le> c" "0 \<le> rt_InputPer1kMicro r" "0 \<le> rt_OutputPer1kMicro r"
    and "p * rt_InputPer1kMicro r < 2 ^ 63" "c * rt_OutputPer1kMicro r < 2 ^ 63"
  shows "Cost r p c = p * rt_InputPer1kMicro r div 1000 + c * rt_OutputPer1kMicro r div 1000 \<and>
    1000 * Cost r p c \<le> p * rt_InputPer1kMicro r + c * rt_OutputPer1kMicro r \<and>
    p * rt_InputPer1kMicro r + c * rt_OutputPer1kMicro r < 1000 * Cost r p c + 2000"
proof -
  define a b where "a = p * rt_InputPer1kMicro r" and "b = c * rt_OutputPer1kMicro r"
  have ab: "0 \<le> a" "0 \<le> b" "a < 2 ^ 63" "b < 2 ^ 63" using assms by (simp_all add: a_def b_def)
  moreover have "1000 * (a div 1000) \<le> a" "1000 * (b div 1000) \<le> b" "0 \<le> a div 1000" "0 \<le> b div 1000"
    using ab by (simp_all add: pos_imp_zdiv_nonneg_iff)
  ultimately have "in_int64 (a div 1000 + b div 1000)" unfolding in_int64_bounds by linarith
  then have "Cost r p c = a div 1000 + b div 1000"
    using assms charge_exact [of p "rt_InputPer1kMicro r"] charge_exact [of c "rt_OutputPer1kMicro r"]
    by (simp add: Cost_def wrap64_id a_def b_def)
  then show ?thesis unfolding a_def [symmetric] b_def [symmetric] by linarith
qed

definition demo_rate :: Rate where
  "demo_rate = \<lparr>rt_Model = ''gpt-4o'', rt_Currency = ''USD'', rt_InputPer1kMicro = 5000, rt_OutputPer1kMicro = 15000, rt_UpdatedAt = 0\<rparr>"

theorem cost_exact_witness: "Cost demo_rate 1234 56 = 6170 + 840"
  by (subst cost_exact [THEN conjunct1]) (simp_all add: demo_rate_def)

text \<open>
  The in-memory snapshot follows the table.  A reload makes it equal to the table;
  while it is equal, upserting or deleting a rate keeps it so, also when the database
  fails, and an accepted upsert is what the next lookup returns.
\<close>

lemma pricing_snapshot_current:
  assumes "pricing_table_ok (pc_table s)"
  shows "(pc_db_err s = None \<longrightarrow> snapshot_current (snd (Reload s))) \<and>
    (snapshot_current s \<longrightarrow> snapshot_current (snd (Set now r s)) \<and> snapshot_current (snd (Delete m s)) \<and> snapshot_current (snd (Reload s))) \<and>
    pricing_table_ok (pc_table (snd (Set now r s))) \<and> pricing_table_ok (pc_table (snd (Delete m s))) \<and>
    (fst (Set now r s) = None \<longrightarrow> (\<exists>q. Lookup (pc_cache (snd (Set now r s))) (rt_Model r) = Some q \<and>
       rt_InputPer1kMicro q = rt_InputPer1kMicro r \<and> rt_OutputPer1kMicro q = rt_OutputPer1kMicro r \<and> rt_UpdatedAt q = now)) \<and>
    (\<forall>x. fst (Delete m s) = Inr x \<longrightarrow> snapshot_current s \<longrightarrow> Lookup (pc_cache (snd (Delete m s))) m = None)"
  using assms
  by (auto simp: Reload_def Set_def Delete_def snapshot_current_def store_snapshot_def replaceOne_def removeOne_def Lookup_def
      reload_map map_of_al_put map_of_al_del pricing_table_ok_put pricing_table_ok_del Let_def
      split: option.splits if_splits intro: pricing_table_ok_put [of _ "r\<lparr>rt_UpdatedAt := now\<rparr>", simplified]
        pricing_table_ok_put [of _ "r\<lparr>rt_Currency := ''USD'', rt_UpdatedAt := now\<rparr>", simplified])

definition demo_pricing :: pricing_state where
  "demo_pricing = \<lparr>pc_cache = NewPricingCache, pc_table = [(''gpt-4o'', demo_rate)], pc_db_err = None\<rparr>"

lemma pricing_snapshot_current_witness:
  "snapshot_current (snd (Reload demo_pricing)) \<and> pricing_table_ok (pc_table demo_pricing)"
proof -
  have "pricing_table_ok (pc_table demo_pricing)" by (simp add: demo_pricing_def pricing_table_ok_def demo_rate_def)
  with pricing_snapshot_current [OF this] show ?thesis by (simp add: demo_pricing_def)
qed

text \<open>
  C18: Prices are never stale without cause.  Over any sequence of admin edits, reloads, database
  outages and edits of the table by others, a lookup returns the row of the table, for every
  model that nobody outside the gateway has edited since the last successful reload.
\<close>

theorem price_staleness_bounded:
  assumes "pricing_run s D"
  shows "pricing_table_ok (pc_table s) \<and> (\<forall>m. m \<notin> D \<longrightarrow> Lookup (pc_cache s) m = map_of (pc_table s) m)"
proof -
  from assms have "pricing_table_ok (pc_table s) \<and> fresh_outside D s"
  proof induction
    case (start t e)
    then show ?case by (auto simp: fresh_outside_def Lookup_def NewPricingCache_def) (metis map_of_eq_None_iff)
  qed (use Set_step Delete_step Reload_step in \<open>auto simp: fresh_outside_def pricing_table_ok_put pricing_table_ok_del map_of_al_put map_of_al_del\<close>)
  then show ?thesis by (simp add: fresh_outside_def)
qed

theorem price_staleness_bounded_witness:
  "\<exists>s. pricing_run s {} \<and> Lookup (pc_cache s) (rt_Model demo_rate) = Some demo_rate"
proof -
  let ?s0 = "\<lparr>pc_cache = NewPricingCache, pc_table = [], pc_db_err = None\<rparr>"
  let ?s1 = "?s0\<lparr>pc_table := al_put (rt_Model demo_rate) demo_rate (pc_table ?s0)\<rparr>"
  have "pricing_run ?s0 {}" using pricing_run.start [of "[]" None] by (simp add: pricing_table_ok_def)
  then have "pricing_run ?s1 {rt_Model demo_rate}" by (rule pricing_run.outside_set)
  then have run: "pricing_run (snd (Reload ?s1)) {}"
    using pricing_run.reload [of ?s1 "{rt_Model demo_rate}" None "snd (Reload ?s1)"] by (simp add: Reload_def)
  from price_staleness_bounded [OF this] have "Lookup (pc_cache (snd (Reload ?s1))) (rt_Model demo_rate) = Some demo_rate"
    by (simp add: Reload_def)
  with run show ?thesis by blast
qed

text \<open>
  The price strings of the model listing are exact: read as a decimal number, a price of
  at least zero gives back the number of micro-units it was printed from.
\<close>

lemma price_string_exact:
  assumes "0 \<le> m"
  shows "read_micro (microToUSDString m) = Some (nat m)"
proof -
  define w f where "w = m div 1000000" and "f = m mod 1000000"
  have wf: "0 \<le> w" "0 \<le> f" "f < 1000000" "m = w * 1000000 + f" using assms by (simp_all add: w_def f_def)
  then have nm: "nat m = nat w * 1000000 + nat f" by (simp add: nat_add_distrib nat_mult_distrib)
  have d: "itoa w \<noteq> []" "list_all is_digit (itoa w)" "digits_val (itoa w) = nat w"
    using nat_str_digits [of "nat w"] wf(1) by (simp_all add: itoa_def)
  note nodot = digits_no_dot [OF d(2)]
  have str: "microToUSDString m =
      (if f = 0 then itoa w @ ''.0'' else let fs = trim_zeros (pad6 (nat f)); fs' = (if fs = [] then ''0'' else fs) in itoa w @ ''.'' @ fs')"
    using assms by (simp add: microToUSDString_def nonneg_micro_string_def go_div_nonneg go_mod_nonneg w_def f_def)
  show ?thesis
  proof (cases "f = 0")
    case True
    have "split_on (CHR ''.'') (itoa w @ ''.0'') = [itoa w, ''0'']" using split_on_one [OF nodot, of "''0''"] by simp
    with True d nm str show ?thesis by (simp add: read_micro_def is_digit_def) (simp add: digits_val_def digit_val_def)
  next
    case False
    then have n: "0 < nat f" "nat f < 1000000" using wf by simp_all
    note t = trimmed_fraction [OF n]
    have "split_on (CHR ''.'') (itoa w @ ''.'' @ trim_zeros (pad6 (nat f))) = [itoa w, trim_zeros (pad6 (nat f))]"
      using split_on_one [OF nodot digits_no_dot [OF t(3)]] by simp
    with False d nm str t show ?thesis by (simp add: read_micro_def)
  qed
qed

lemma price_string_exact_witness: "read_micro (microToUSDString 140) = Some 140"
  using price_string_exact [of 140] by simp

end
