(* ===== verification/BillingWorker.thy ===== *)
theory BillingWorker
  imports Pricing "HOL-Library.Multiset"
begin

text \<open>
  \<open>internal/billing/worker.go\<close>: the queue between the chat handlers and \<open>request_logs\<close>.
  The channel is a bounded queue, each consumer holds at most one event, and the system is
  the step relation \<open>worker_step\<close>: handlers enqueue, consumers receive an event, check the
  context, persist the event or return, the context ends, the channel is closed.  A month's
  partition is a half-open interval of instants, computed on the proleptic Gregorian calendar
  from the Unix epoch on.  The time limit of \<open>Stop\<close> bounds only how long its caller waits.
\<close>

section \<open>Events and configuration\<close>

record Event =
  ev_StartedAt :: instant
  ev_RequestID :: string
  ev_APIKeyID :: string
  ev_Provider :: string
  ev_Model :: string
  ev_PromptTokens :: int
  ev_CompletionTokens :: int
  ev_LatencyMs :: int
  ev_Status :: int
  ev_Streamed :: bool
  ev_ErrorCode :: string

record WorkerConfig =
  wc_BufferSize :: int
  wc_Workers :: int
  wc_FlushTimeout :: duration

definition DefaultWorkerConfig :: WorkerConfig where
  "DefaultWorkerConfig = \<lparr>wc_BufferSize = 10000, wc_Workers = 2, wc_FlushTimeout = 5 * Second\<rparr>"

definition worker_defaults :: "WorkerConfig \<Rightarrow> WorkerConfig" where
  "worker_defaults cfg =
     (let c1 = (if wc_BufferSize cfg \<le> 0 then cfg\<lparr>wc_BufferSize := wc_BufferSize DefaultWorkerConfig\<rparr> else cfg);
          c2 = (if wc_Workers c1 \<le> 0 then c1\<lparr>wc_Workers := wc_Workers DefaultWorkerConfig\<rparr> else c1)
      in if wc_FlushTimeout c2 \<le> 0 then c2\<lparr>wc_FlushTimeout := wc_FlushTimeout DefaultWorkerConfig\<rparr> else c2)"

section \<open>The calendar\<close>

definition is_leap :: "nat \<Rightarrow> bool" where
  "is_leap y \<longleftrightarrow> (4 dvd y \<and> \<not> 100 dvd y) \<or> 400 dvd y"

definition year_days :: "nat \<Rightarrow> nat" where
  "year_days y = (if is_leap y then 366 else 365)"

definition month_days :: "nat \<Rightarrow> nat \<Rightarrow> nat" where
  "month_days y m = (if m = 2 then (if is_leap y then 29 else 28) else if m \<in> {4, 6, 9, 11} then 30 else 31)"

text \<open>The month that contains day \<open>d\<close>, counted from the first of month \<open>m\<close> of year \<open>y\<close>, and the
  day its first is, when that first of month \<open>m\<close> is day \<open>b\<close>.\<close>

function find_month :: "nat \<Rightarrow> nat \<Rightarrow> nat \<Rightarrow> nat \<Rightarrow> nat \<times> nat \<times> nat" where
  "find_month y m b d =
     (if d < b + month_days y m then (y, m, b)
      else if m = 12 then find_month (y + 1) 1 (b + month_days y m) d
      else find_month y (m + 1) (b + month_days y m) d)"
  by pat_completeness auto
termination
  by (relation "measure (\<lambda>(y, m, b, d). d + 1 - b)") (auto simp: month_days_def split: if_splits)

declare find_month.simps [simp del]

abbreviation day_ns :: int where
  "day_ns \<equiv> 86400000000000"

text \<open>\<open>ts.UTC().Date()\<close> up to the month: year, month and the day number of its first.\<close>

definition month_of :: "instant \<Rightarrow> nat \<times> nat \<times> nat" where
  "month_of ts = find_month 1970 1 0 (nat (ts div day_ns))"

text \<open>\<open>start\<close> and \<open>start.AddDate(0, 1, 0)\<close>.\<close>

definition partition_range :: "instant \<Rightarrow> instant \<times> instant" where
  "partition_range ts = (case month_of ts of (y, m, b) \<Rightarrow> (int b * day_ns, int (b + month_days y m) * day_ns))"

section \<open>Persisting one event\<close>

text \<open>A row of \<open>request_logs\<close>; \<open>NULL\<close> is \<open>None\<close>.\<close>

record log_row =
  lr_event :: Event
  lr_api_key_id :: "string option"
  lr_total_tokens :: int
  lr_input_micro :: int
  lr_output_micro :: int
  lr_total_micro :: int
  lr_currency :: string
  lr_error_code :: "string option"

definition nullableString :: "string \<Rightarrow> string option" where
  "nullableString s = (if s = [] then None else Some s)"

definition make_row :: "PricingCache option \<Rightarrow> Event \<Rightarrow> log_row" where
  "make_row pricing ev =
     (let rate = Option.bind pricing (\<lambda>c. Lookup c (ev_Model ev));
          inputMicro = (case rate of None \<Rightarrow> 0 | Some r \<Rightarrow> charge (ev_PromptTokens ev) (rt_InputPer1kMicro r));
          outputMicro = (case rate of None \<Rightarrow> 0 | Some r \<Rightarrow> charge (ev_CompletionTokens ev) (rt_OutputPer1kMicro r));
          currency = (case rate of None \<Rightarrow> ''USD'' | Some r \<Rightarrow> if rt_Currency r \<noteq> [] then rt_Currency r else ''USD'')
      in \<lparr>lr_event = ev, lr_api_key_id = nullableString (ev_APIKeyID ev),
          lr_total_tokens = wrap64 (ev_PromptTokens ev + ev_CompletionTokens ev),
          lr_input_micro = inputMicro, lr_output_micro = outputMicro, lr_total_micro = wrap64 (inputMicro + outputMicro),
          lr_currency = currency, lr_error_code = nullableString (ev_ErrorCode ev)\<rparr>)"

text \<open>The database: the partitions that exist, by their range, and the rows.\<close>

record log_db =
  db_parts :: "(instant \<times> instant) list"
  db_rows :: "log_row list"

definition has_partition :: "log_db \<Rightarrow> instant \<Rightarrow> bool" where
  "has_partition db ts \<longleftrightarrow> list_ex (\<lambda>(a, b). a \<le> ts \<and> ts < b) (db_parts db)"

record Worker =
  wk_cfg :: WorkerConfig
  wk_ch :: "Event list"
  wk_closed :: bool
  wk_started :: bool
  wk_ctx_done :: bool
  wk_live :: nat
  wk_recv :: "Event list"
  wk_busy :: "Event list"
  wk_dropped :: int
  wk_written :: int
  wk_partOK :: "(nat \<times> nat) list"
  wk_db :: log_db
  wk_failed :: "Event list"
  wk_lost :: "Event list"

text \<open>\<open>ensurePartition\<close>; \<open>ok\<close> says whether the DDL statement succeeds.\<close>

definition ensurePartition :: "bool \<Rightarrow> instant \<Rightarrow> Worker \<Rightarrow> bool \<times> Worker" where
  "ensurePartition ok ts w = (case month_of ts of (y, m, b) \<Rightarrow>
     (if (y, m) \<in> set (wk_partOK w) then (True, w)
      else if \<not> ok then (False, w)
      else (True, w\<lparr>wk_partOK := (y, m) # wk_partOK w, wk_db := (wk_db w)\<lparr>db_parts := partition_range ts # db_parts (wk_db w)\<rparr>\<rparr>)))"

text \<open>
  \<open>ins_ok\<close> says whether the database executes the \<open>INSERT\<close>; it rejects a row no partition
  covers.  An \<open>INSERT\<close> that is executed although its reply is lost, which the worker would log as
  failed, is not modelled: for the worker and for the table an event is either written or failed.
\<close>

definition persist :: "PricingCache option \<Rightarrow> bool \<Rightarrow> bool \<Rightarrow> Event \<Rightarrow> Worker \<Rightarrow> Worker" where
  "persist pricing ddl_ok ins_ok ev w =
     (let w1 = snd (ensurePartition ddl_ok (ev_StartedAt ev) w)
      in if ins_ok \<and> has_partition (wk_db w1) (ev_StartedAt ev)
         then w1\<lparr>wk_db := (wk_db w1)\<lparr>db_rows := db_rows (wk_db w1) @ [make_row pricing ev]\<rparr>, wk_written := wk_written w1 + 1\<rparr>
         else w1\<lparr>wk_failed := wk_failed w1 @ [ev]\<rparr>)"

section \<open>The queue\<close>

definition NewWorker :: "WorkerConfig \<Rightarrow> Worker" where
  "NewWorker cfg = \<lparr>wk_cfg = worker_defaults cfg, wk_ch = [], wk_closed = False, wk_started = False,
     wk_ctx_done = False, wk_live = 0, wk_recv = [], wk_busy = [], wk_dropped = 0,
     wk_written = 0, wk_partOK = [], wk_db = \<lparr>db_parts = [], db_rows = []\<rparr>, wk_failed = [], wk_lost = []\<rparr>"

datatype enqueue_result = Accepted | Dropped | Panic

text \<open>Go's zero \<open>time.Time\<close>, the first of January of year 1, as nanoseconds from the epoch.\<close>

definition zero_time :: instant where
  "zero_time = - 62135596800 * Second"

text \<open>A send on a closed channel panics.\<close>

definition Enqueue :: "instant \<Rightarrow> Event \<Rightarrow> Worker \<Rightarrow> enqueue_result \<times> Worker" where
  "Enqueue now e0 w =
     (let e = (if ev_StartedAt e0 = zero_time then e0\<lparr>ev_StartedAt := now\<rparr> else e0)
      in if wk_closed w then (Panic, w)
         else if int (length (wk_ch w)) < wc_BufferSize (wk_cfg w) then (Accepted, w\<lparr>wk_ch := wk_ch w @ [e]\<rparr>)
         else (Dropped, w\<lparr>wk_dropped := wk_dropped w + 1\<rparr>))"

text \<open>\<open>Start\<close> runs its body once; \<open>wk_live\<close> counts the consumers that have not returned.\<close>

definition Start :: "Worker \<Rightarrow> Worker" where
  "Start w = (if wk_started w then w else w\<lparr>wk_started := True, wk_live := nat (wc_Workers (wk_cfg w))\<rparr>)"

definition Stop :: "Worker \<Rightarrow> Worker" where
  "Stop w = w\<lparr>wk_closed := True\<rparr>"

text \<open>
  The consumer loop \<open>run\<close>.  A free consumer receives the next event (\<open>wk_recv\<close>) and looks at
  the context: when it has ended the consumer returns with the event in hand, else the event
  is persisted (\<open>wk_busy\<close>).  On a closed and empty channel the loop ends.
\<close>

definition run_recv :: "Worker \<Rightarrow> Worker option" where
  "run_recv w = (case wk_ch w of [] \<Rightarrow> None
     | e # q \<Rightarrow> if length (wk_recv w) + length (wk_busy w) < wk_live w then Some (w\<lparr>wk_ch := q, wk_recv := e # wk_recv w\<rparr>) else None)"

definition run_check :: "Event \<Rightarrow> Worker \<Rightarrow> Worker option" where
  "run_check e w = (if e \<notin> set (wk_recv w) then None
     else if wk_ctx_done w then Some (w\<lparr>wk_recv := remove1 e (wk_recv w), wk_lost := wk_lost w @ [e], wk_live := wk_live w - 1\<rparr>)
     else Some (w\<lparr>wk_recv := remove1 e (wk_recv w), wk_busy := e # wk_busy w\<rparr>))"

definition run_exit :: "Worker \<Rightarrow> Worker option" where
  "run_exit w = (if wk_closed w \<and> wk_ch w = [] \<and> length (wk_recv w) + length (wk_busy w) < wk_live w
     then Some (w\<lparr>wk_live := wk_live w - 1\<rparr>) else None)"

text \<open>
  The steps of the system.  \<open>acc\<close> is the list of accepted events, as queued, and \<open>rej\<close> the
  number of rejected ones; \<open>cancel\<close> is the end of the context \<open>Start\<close> was given.
\<close>

inductive worker_step :: "Worker \<times> Event list \<times> nat \<Rightarrow> Worker \<times> Event list \<times> nat \<Rightarrow> bool" where
  accept: "Enqueue now e w = (Accepted, w') \<Longrightarrow> worker_step (w, acc, rej) (w', acc @ [last (wk_ch w')], rej)"
| drop: "Enqueue now e w = (Dropped, w') \<Longrightarrow> worker_step (w, acc, rej) (w', acc, Suc rej)"
| recv: "run_recv w = Some w' \<Longrightarrow> worker_step (w, acc, rej) (w', acc, rej)"
| check: "run_check e w = Some w' \<Longrightarrow> worker_step (w, acc, rej) (w', acc, rej)"
| finish: "e \<in> set (wk_busy w) \<Longrightarrow>
    worker_step (w, acc, rej) (persist pricing ddl_ok ins_ok e (w\<lparr>wk_busy := remove1 e (wk_busy w)\<rparr>), acc, rej)"
| exit: "run_exit w = Some w' \<Longrightarrow> worker_step (w, acc, rej) (w', acc, rej)"
| cancel: "worker_step (w, acc, rej) (w\<lparr>wk_ctx_done := True\<rparr>, acc, rej)"
| close: "worker_step (w, acc, rej) (Stop w, acc, rej)"

inductive worker_reach :: "WorkerConfig \<Rightarrow> Worker \<times> Event list \<times> nat \<Rightarrow> bool" for cfg where
  start: "worker_reach cfg (Start (NewWorker cfg), [], 0)"
| step: "worker_reach cfg c \<Longrightarrow> worker_step c c' \<Longrightarrow> worker_reach cfg c'"

inductive_cases worker_stepE: "worker_step (w, acc, rej) c"

section \<open>Months\<close>

definition month_index :: "nat \<Rightarrow> nat \<times> nat" where
  "month_index k = (1970 + k div 12, k mod 12 + 1)"

definition first_day :: "nat \<Rightarrow> nat" where
  "first_day k = (\<Sum>i<k. month_days (fst (month_index i)) (snd (month_index i)))"

lemma month_days_pos: "0 < month_days y m"
  by (simp add: month_days_def)

lemma month_index_inj: "month_index j = month_index k \<Longrightarrow> j = k"
  unfolding month_index_def by (metis add_right_cancel add_left_cancel div_mult_mod_eq prod.inject)

lemma month_index_Suc:
  "month_index (Suc k) = (if snd (month_index k) = 12 then (fst (month_index k) + 1, 1) else (fst (month_index k), snd (month_index k) + 1))"
  by (simp add: month_index_def mod_Suc div_Suc)

lemma find_month_index:
  assumes "first_day k \<le> d"
  shows "\<exists>j. find_month (fst (month_index k)) (snd (month_index k)) (first_day k) d =
      (fst (month_index j), snd (month_index j), first_day j) \<and>
    first_day j \<le> d \<and> d < first_day j + month_days (fst (month_index j)) (snd (month_index j))"
  using assms
proof (induction "d - first_day k" arbitrary: k rule: less_induct)
  case less
  let ?y = "fst (month_index k)" and ?m = "snd (month_index k)"
  have nx: "first_day (Suc k) = first_day k + month_days ?y ?m" by (simp add: first_day_def)
  show ?case
  proof (cases "d < first_day k + month_days ?y ?m")
    case True
    with less.prems show ?thesis by (intro exI [of _ k]) (subst find_month.simps, simp)
  next
    case False
    have "find_month ?y ?m (first_day k) d =
        find_month (fst (month_index (Suc k))) (snd (month_index (Suc k))) (first_day (Suc k)) d"
      using False by (subst find_month.simps) (simp add: month_index_Suc nx)
    moreover have "first_day (Suc k) \<le> d" "d - first_day (Suc k) < d - first_day k"
      using False month_days_pos [of ?y ?m] less.prems by (simp_all add: nx)
    ultimately show ?thesis using less.hyps [of "Suc k"] by simp
  qed
qed

lemma month_of_index:
  "\<exists>j. month_of ts = (fst (month_index j), snd (month_index j), first_day j) \<and>
    first_day j \<le> nat (ts div day_ns) \<and>
    nat (ts div day_ns) < first_day j + month_days (fst (month_index j)) (snd (month_index j))"
  using find_month_index [of 0 "nat (ts div day_ns)"] by (simp add: month_of_def month_index_def first_day_def)

lemma month_determines_range:
  assumes "month_of ts = (y, m, b)" "month_of ts' = (y, m, b')"
  shows "partition_range ts = partition_range ts'"
proof -
  obtain j where j: "month_of ts = (fst (month_index j), snd (month_index j), first_day j)" using month_of_index by blast
  obtain k where k: "month_of ts' = (fst (month_index k), snd (month_index k), first_day k)" using month_of_index by blast
  have "month_index j = month_index k" using assms j k by (simp add: prod_eq_iff)
  then have "j = k" by (rule month_index_inj)
  with j k show ?thesis by (simp add: partition_range_def)
qed

lemma partition_range_covers:
  assumes "0 \<le> ts"
  shows "fst (partition_range ts) \<le> ts \<and> ts < snd (partition_range ts)"
proof -
  obtain j where j: "month_of ts = (fst (month_index j), snd (month_index j), first_day j)"
    "first_day j \<le> nat (ts div day_ns)"
    "nat (ts div day_ns) < first_day j + month_days (fst (month_index j)) (snd (month_index j))"
    using month_of_index by blast
  define q z n where "q = ts div day_ns" and "z = ts mod day_ns"
    and "n = int (first_day j + month_days (fst (month_index j)) (snd (month_index j)))"
  have "int (first_day j) \<le> q" "q < n"
    using j(2,3) assms unfolding q_def n_def by (simp_all add: pos_imp_zdiv_nonneg_iff zless_nat_conj le_nat_iff nat_less_iff)
  moreover have "q * day_ns + z = ts" unfolding q_def z_def by (rule div_mult_mod_eq)
  moreover have "0 \<le> z" "z < day_ns" by (simp_all add: z_def)
  ultimately have "int (first_day j) * day_ns \<le> ts" "ts < n * day_ns" by linarith+
  then show ?thesis by (simp add: partition_range_def j(1) n_def)
qed

section \<open>The invariant of the queue\<close>

definition partitions_ok :: "Worker \<Rightarrow> bool" where
  "partitions_ok w \<longleftrightarrow> (\<forall>ts y m b. month_of ts = (y, m, b) \<and> (y, m) \<in> set (wk_partOK w) \<longrightarrow>
     partition_range ts \<in> set (db_parts (wk_db w)))"

definition consumers_ok :: "Worker \<Rightarrow> bool" where
  "consumers_ok w \<longleftrightarrow> wk_started w \<and> length (wk_recv w) + length (wk_busy w) \<le> wk_live w \<and> int (wk_live w) \<le> wc_Workers (wk_cfg w) \<and>
     (wk_ctx_done w \<or> wk_lost w = [] \<and> (wk_live w = nat (wc_Workers (wk_cfg w)) \<or> wk_closed w \<and> wk_ch w = []))"

definition worker_inv :: "WorkerConfig \<Rightarrow> Worker \<times> Event list \<times> nat \<Rightarrow> bool" where
  "worker_inv cfg = (\<lambda>(w, acc, rej).
     wk_cfg w = worker_defaults cfg \<and>
     mset acc = mset (wk_ch w) + mset (wk_recv w) + mset (wk_busy w) + mset (map lr_event (db_rows (wk_db w))) +
       mset (wk_failed w) + mset (wk_lost w) \<and>
     wk_written w = int (length (db_rows (wk_db w))) \<and> wk_dropped w = int rej \<and>
     int (length (wk_ch w)) \<le> wc_BufferSize (wk_cfg w) \<and> consumers_ok w \<and>
     list_all (\<lambda>r. has_partition (wk_db w) (ev_StartedAt (lr_event r))) (db_rows (wk_db w)) \<and>
     partitions_ok w)"

lemma worker_defaults_pos:
  "0 < wc_BufferSize (worker_defaults cfg)" "0 < wc_Workers (worker_defaults cfg)" "0 < wc_FlushTimeout (worker_defaults cfg)"
  by (simp_all add: worker_defaults_def DefaultWorkerConfig_def Let_def)

lemma ensurePartition_frame:
  assumes "ensurePartition ok ts w = (r, w')"
  shows "wk_cfg w' = wk_cfg w" "wk_ch w' = wk_ch w" "wk_busy w' = wk_busy w" "db_rows (wk_db w') = db_rows (wk_db w)"
    "wk_failed w' = wk_failed w" "wk_lost w' = wk_lost w" "wk_written w' = wk_written w" "wk_dropped w' = wk_dropped w"
    "set (db_parts (wk_db w)) \<subseteq> set (db_parts (wk_db w'))" "wk_closed w' = wk_closed w" "wk_recv w' = wk_recv w"
    "wk_live w' = wk_live w" "wk_started w' = wk_started w" "wk_ctx_done w' = wk_ctx_done w"
  using assms by (auto simp: ensurePartition_def split: prod.splits if_splits)

lemma has_partition_mono:
  "set (db_parts db) \<subseteq> set (db_parts db') \<Longrightarrow> has_partition db ts \<Longrightarrow> has_partition db' ts"
  by (auto simp: has_partition_def list_ex_iff)

lemma ensurePartition_ok:
  assumes "ensurePartition ok ts w = (r, w')" "partitions_ok w"
  shows "partitions_ok w'"
proof (cases "w' = w")
  case False
  obtain y m b where mo: "month_of ts = (y, m, b)" by (metis prod_cases3)
  with assms(1) False have "wk_partOK w' = (y, m) # wk_partOK w" "db_parts (wk_db w') = partition_range ts # db_parts (wk_db w)"
    by (auto simp: ensurePartition_def split: if_splits)
  then show ?thesis using assms(2) month_determines_range [OF _ mo] unfolding partitions_ok_def by fastforce
qed (use assms in simp)

lemma ensurePartition_covers:
  assumes "ensurePartition ok ts w = (True, w')" "partitions_ok w" "0 \<le> ts"
  shows "has_partition (wk_db w') ts"
proof -
  obtain y m b where mo: "month_of ts = (y, m, b)" by (metis prod_cases3)
  have "partition_range ts \<in> set (db_parts (wk_db w'))"
    using assms(1,2) mo unfolding partitions_ok_def by (auto simp: ensurePartition_def split: if_splits)
  with partition_range_covers [OF assms(3)] show ?thesis
    unfolding has_partition_def list_ex_iff by (metis case_prod_beta)
qed

text \<open>What \<open>persist\<close> leaves alone, and where the event goes.\<close>

lemma persist_frame:
  fixes w pricing ddl_ok ins_ok e
  defines "w' \<equiv> persist pricing ddl_ok ins_ok e w"
  shows "wk_cfg w' = wk_cfg w" "wk_ch w' = wk_ch w" "wk_recv w' = wk_recv w" "wk_busy w' = wk_busy w" "wk_live w' = wk_live w"
    "wk_started w' = wk_started w" "wk_ctx_done w' = wk_ctx_done w" "wk_closed w' = wk_closed w" "wk_lost w' = wk_lost w"
    "wk_dropped w' = wk_dropped w" "wk_written w' - wk_written w = int (length (db_rows (wk_db w'))) - int (length (db_rows (wk_db w)))"
    "mset (map lr_event (db_rows (wk_db w'))) + mset (wk_failed w') = add_mset e (mset (map lr_event (db_rows (wk_db w))) + mset (wk_failed w))"
proof -
  obtain r w1 where ep: "ensurePartition ddl_ok (ev_StartedAt e) w = (r, w1)" by (meson surj_pair)
  have row: "lr_event (make_row pricing e) = e" by (simp add: make_row_def Let_def)
  note fr = ensurePartition_frame [OF ep]
  show "wk_cfg w' = wk_cfg w" "wk_ch w' = wk_ch w" "wk_recv w' = wk_recv w" "wk_busy w' = wk_busy w" "wk_live w' = wk_live w"
    "wk_started w' = wk_started w" "wk_ctx_done w' = wk_ctx_done w" "wk_closed w' = wk_closed w" "wk_lost w' = wk_lost w"
    "wk_dropped w' = wk_dropped w" "wk_written w' - wk_written w = int (length (db_rows (wk_db w'))) - int (length (db_rows (wk_db w)))"
    "mset (map lr_event (db_rows (wk_db w'))) + mset (wk_failed w') = add_mset e (mset (map lr_event (db_rows (wk_db w))) + mset (wk_failed w))"
    unfolding w'_def by (simp_all add: persist_def ep fr row)
qed

lemma persist_rows:
  "db_rows (wk_db (persist pricing ddl_ok ins_ok e w)) \<in> {db_rows (wk_db w), db_rows (wk_db w) @ [make_row pricing e]}"
proof -
  obtain r w1 where ep: "ensurePartition ddl_ok (ev_StartedAt e) w = (r, w1)" by (meson surj_pair)
  from ensurePartition_frame(4) [OF this] show ?thesis by (simp add: persist_def ep)
qed

lemma persist_partitions:
  fixes w pricing ddl_ok ins_ok e
  assumes "partitions_ok w" "list_all (\<lambda>r. has_partition (wk_db w) (ev_StartedAt (lr_event r))) (db_rows (wk_db w))"
  defines "w' \<equiv> persist pricing ddl_ok ins_ok e w"
  shows "partitions_ok w'" "list_all (\<lambda>r. has_partition (wk_db w') (ev_StartedAt (lr_event r))) (db_rows (wk_db w'))"
proof -
  obtain r w1 where ep: "ensurePartition ddl_ok (ev_StartedAt e) w = (r, w1)" by (meson surj_pair)
  have hp: "has_partition (d\<lparr>db_rows := x\<rparr>) t = has_partition d t" for d x t by (simp add: has_partition_def)
  have row: "lr_event (make_row pricing e) = e" by (simp add: make_row_def Let_def)
  note fr = ensurePartition_frame [OF ep]
  have rows: "list_all (\<lambda>r. has_partition (wk_db w1) (ev_StartedAt (lr_event r))) (db_rows (wk_db w))"
    using assms(2) fr(9) by (auto simp: list_all_iff intro: has_partition_mono)
  show "partitions_ok w'" unfolding w'_def using ensurePartition_ok [OF ep assms(1)] by (simp add: persist_def ep partitions_ok_def)
  show "list_all (\<lambda>r. has_partition (wk_db w') (ev_StartedAt (lr_event r))) (db_rows (wk_db w'))"
    unfolding w'_def using rows fr(4) by (simp add: persist_def ep hp row)
qed

lemma persist_inv:
  assumes "worker_inv cfg (w, acc, rej)" "e \<in> set (wk_busy w)"
  shows "worker_inv cfg (persist pricing ddl_ok ins_ok e (w\<lparr>wk_busy := remove1 e (wk_busy w)\<rparr>), acc, rej)"
proof -
  let ?w = "w\<lparr>wk_busy := remove1 e (wk_busy w)\<rparr>" and ?w' = "persist pricing ddl_ok ins_ok e (w\<lparr>wk_busy := remove1 e (wk_busy w)\<rparr>)"
  note fr = persist_frame [where w = ?w and pricing = pricing and ddl_ok = ddl_ok and ins_ok = ins_ok and e = e]
  have I0: "wk_cfg w = worker_defaults cfg" "wk_written w = int (length (db_rows (wk_db w)))" "wk_dropped w = int rej"
    "int (length (wk_ch w)) \<le> wc_BufferSize (wk_cfg w)" using assms(1) by (auto simp: worker_inv_def)
  have I: "partitions_ok ?w" "list_all (\<lambda>r. has_partition (wk_db ?w) (ev_StartedAt (lr_event r))) (db_rows (wk_db ?w))"
    using assms(1) by (simp_all add: worker_inv_def partitions_ok_def)
  have "mset (wk_busy w) = add_mset e (mset (wk_busy ?w))" using assms(2) by simp
  then have ms: "mset acc = mset (wk_ch ?w') + mset (wk_recv ?w') + mset (wk_busy ?w') + mset (map lr_event (db_rows (wk_db ?w'))) +
      mset (wk_failed ?w') + mset (wk_lost ?w')"
    using assms(1) fr(2,3,4,9,12) by (simp add: worker_inv_def add.assoc)
  have "length (remove1 e (wk_busy w)) \<le> length (wk_busy w)" by (simp add: length_remove1)
  then have "consumers_ok ?w'" using assms(1) fr(1-9) by (auto simp: worker_inv_def consumers_ok_def)
  moreover have "wk_cfg ?w' = worker_defaults cfg" "wk_written ?w' = int (length (db_rows (wk_db ?w')))" "wk_dropped ?w' = int rej"
    "int (length (wk_ch ?w')) \<le> wc_BufferSize (wk_cfg ?w')"
    using I0 fr(1,2,10,11) by simp_all
  ultimately show ?thesis unfolding worker_inv_def case_prod_conv using ms persist_partitions [OF I] by blast
qed

lemma run_inv:
  assumes "worker_inv cfg (w, acc, rej)"
  shows "run_recv w = Some w' \<Longrightarrow> worker_inv cfg (w', acc, rej)" "run_check e w = Some w' \<Longrightarrow> worker_inv cfg (w', acc, rej)"
    "run_exit w = Some w' \<Longrightarrow> worker_inv cfg (w', acc, rej)"
proof -
  show "run_recv w = Some w' \<Longrightarrow> worker_inv cfg (w', acc, rej)"
    using assms by (auto simp: run_recv_def worker_inv_def consumers_ok_def partitions_ok_def split: list.splits if_splits)
  show "run_exit w = Some w' \<Longrightarrow> worker_inv cfg (w', acc, rej)"
    using assms by (auto simp: run_exit_def worker_inv_def consumers_ok_def partitions_ok_def split: if_splits)
  show "run_check e w = Some w' \<Longrightarrow> worker_inv cfg (w', acc, rej)"
  proof -
    assume c: "run_check e w = Some w'"
    then have e: "e \<in> set (wk_recv w)" by (simp add: run_check_def split: if_splits)
    then have "length (remove1 e (wk_recv w)) + 1 = length (wk_recv w)" by (simp add: length_remove1) (metis Suc_pred length_pos_if_in_set)
    moreover have "mset (wk_recv w) = add_mset e (mset (remove1 e (wk_recv w)))" using e by simp
    ultimately show ?thesis
      using assms c e by (auto simp: run_check_def worker_inv_def consumers_ok_def partitions_ok_def split: if_splits)
  qed
qed

lemma worker_step_inv:
  assumes "worker_step c c'" "worker_inv cfg c"
  shows "worker_inv cfg c'"
  using assms
proof (cases rule: worker_step.cases)
  case (finish e w acc rej pricing ddl_ok ins_ok)
  with assms(2) persist_inv show ?thesis by simp
next
  case (recv w w')
  with assms(2) run_inv(1) show ?thesis by simp
next
  case (check e w w')
  with assms(2) run_inv(2) show ?thesis by simp
next
  case (exit w w')
  with assms(2) run_inv(3) show ?thesis by simp
qed (use assms(2) in \<open>auto simp: worker_inv_def consumers_ok_def Enqueue_def Stop_def Let_def partitions_ok_def split: if_splits\<close>)

lemma worker_reach_inv: "worker_reach cfg c \<Longrightarrow> worker_inv cfg c"
proof (induction rule: worker_reach.induct)
  case start
  show ?case using worker_defaults_pos [of cfg] by (simp add: worker_inv_def consumers_ok_def Start_def NewWorker_def partitions_ok_def)
qed (rule worker_step_inv)

section \<open>Properties\<close>

text \<open>
  C13: no billing event is lost silently.  In every reachable state of the queue the accepted
  events are, as a multiset, those still queued, in a consumer's hands, written to
  \<open>request_logs\<close>, refused by the database, or abandoned when the context ended; the two
  counters count the written and the rejected ones; and the buffer and the consumers stay
  within their configured sizes.
\<close>

theorem billing_queue_conserves:
  assumes "worker_reach cfg (w, acc, rej)"
  shows "mset acc = mset (wk_ch w) + mset (wk_recv w) + mset (wk_busy w) + mset (map lr_event (db_rows (wk_db w))) +
      mset (wk_failed w) + mset (wk_lost w) \<and>
    wk_written w = int (length (db_rows (wk_db w))) \<and> wk_dropped w = int rej \<and>
    int (length (wk_ch w)) \<le> wc_BufferSize (worker_defaults cfg) \<and>
    int (length (wk_recv w) + length (wk_busy w)) \<le> wc_Workers (worker_defaults cfg) \<and> (wk_lost w \<noteq> [] \<longrightarrow> wk_ctx_done w)"
proof -
  have "worker_inv cfg (w, acc, rej)" by (rule worker_reach_inv [OF assms])
  moreover from this have "length (wk_recv w) + length (wk_busy w) \<le> wk_live w" "int (wk_live w) \<le> wc_Workers (worker_defaults cfg)"
    unfolding worker_inv_def case_prod_conv consumers_ok_def by metis+
  then have "int (length (wk_recv w) + length (wk_busy w)) \<le> wc_Workers (worker_defaults cfg)" by linarith
  ultimately show ?thesis by (auto simp: worker_inv_def consumers_ok_def)
qed

lemma length_remove1_less: "e \<in> set xs \<Longrightarrow> length (remove1 e xs) < length xs"
  by (metis length_remove1 diff_less length_pos_if_in_set zero_less_one)

text \<open>What is left to do for the consumers of a closed channel.\<close>

definition drain_measure :: "Worker \<Rightarrow> nat" where
  "drain_measure w = 3 * length (wk_ch w) + 2 * length (wk_recv w) + length (wk_busy w) + wk_live w"

lemma closed_step:
  assumes "worker_step (w, acc, rej) (w', acc', rej')" "wk_closed w" "length (wk_recv w) \<le> wk_live w"
  shows "acc' = acc \<and> rej' = rej \<and> wk_closed w' \<and>
    (drain_measure w' < drain_measure w \<and> wk_ctx_done w' = wk_ctx_done w \<or> w' = w \<or> w' = w\<lparr>wk_ctx_done := True\<rparr>)"
  using assms(1)
proof (cases rule: worker_step.cases)
  case (check e)
  then have e: "e \<in> set (wk_recv w)" by (simp add: run_check_def split: if_splits)
  then obtain n where n: "length (wk_recv w) = Suc n" by (metis Suc_pred length_pos_if_in_set)
  with check e assms(2,3) show ?thesis by (auto simp: run_check_def drain_measure_def length_remove1 split: if_splits)
next
  case (finish e pricing ddl_ok ins_ok)
  then have "0 < length (wk_busy w)" by (auto simp: length_pos_if_in_set)
  with finish assms(2) show ?thesis
    by (simp add: drain_measure_def persist_frame length_remove1)
qed (use assms(2) in \<open>auto simp: run_recv_def run_exit_def drain_measure_def Enqueue_def Stop_def Let_def split: if_splits list.splits\<close>)

lemma closed_progress:
  assumes "worker_inv cfg (w, acc, rej)" "wk_closed w" "0 < wk_live w"
  shows "\<exists>w'. worker_step (w, acc, rej) (w', acc, rej) \<and> drain_measure w' < drain_measure w \<and> wk_ctx_done w' = wk_ctx_done w"
proof -
  have held: "length (wk_recv w) + length (wk_busy w) \<le> wk_live w" using assms(1) by (simp add: worker_inv_def consumers_ok_def)
  have smaller: "drain_measure w' < drain_measure w \<and> wk_ctx_done w' = wk_ctx_done w"
    if "worker_step (w, acc, rej) (w', acc, rej)" "w' \<noteq> w" "w' \<noteq> w\<lparr>wk_ctx_done := True\<rparr>" for w'
    using closed_step [OF that(1) assms(2)] held that(2,3) by simp
  consider e where "e \<in> set (wk_recv w)" | e where "e \<in> set (wk_busy w)" | "wk_recv w = []" "wk_busy w = []"
    by (metis last_in_set)
  then show ?thesis
  proof cases
    case 1
    then obtain w' where "run_check e w = Some w'" by (cases "wk_ctx_done w") (auto simp: run_check_def)
    moreover from this 1 have "wk_recv w' = remove1 e (wk_recv w)" by (auto simp: run_check_def split: if_splits)
    with 1 have "length (wk_recv w') < length (wk_recv w)" by (simp only: length_remove1_less)
    then have "w' \<noteq> w" "w' \<noteq> w\<lparr>wk_ctx_done := True\<rparr>" by auto
    ultimately show ?thesis using smaller worker_step.check by blast
  next
    case 2
    let ?w' = "persist None True True e (w\<lparr>wk_busy := remove1 e (wk_busy w)\<rparr>)"
    have "length (wk_busy ?w') < length (wk_busy w)" using length_remove1_less [OF 2] by (simp add: persist_frame)
    then have "?w' \<noteq> w" "?w' \<noteq> w\<lparr>wk_ctx_done := True\<rparr>" by auto
    with smaller worker_step.finish [OF 2] show ?thesis by blast
  next
    case 3
    show ?thesis
    proof (cases "wk_ch w")
      case Nil
      with 3 assms(2,3) have "run_exit w = Some (w\<lparr>wk_live := wk_live w - 1\<rparr>)" by (simp add: run_exit_def)
      from worker_step.exit [OF this] show ?thesis using assms(3) by (auto simp: drain_measure_def intro!: exI [of _ "w\<lparr>wk_live := wk_live w - 1\<rparr>"])
    next
      case (Cons e q)
      with 3 assms(3) have "run_recv w = Some (w\<lparr>wk_ch := q, wk_recv := [e]\<rparr>)" by (simp add: run_recv_def)
      from worker_step.recv [OF this] show ?thesis using Cons 3
        by (auto simp: drain_measure_def intro!: exI [of _ "w\<lparr>wk_ch := q, wk_recv := [e]\<rparr>"])
    qed
  qed
qed

lemma closed_drains:
  assumes "worker_inv cfg (w, acc, rej)" "wk_closed w"
  shows "\<exists>w'. worker_step\<^sup>*\<^sup>* (w, acc, rej) (w', acc, rej) \<and> wk_live w' = 0 \<and> wk_ctx_done w' = wk_ctx_done w \<and> worker_inv cfg (w', acc, rej)"
  using assms
proof (induction "drain_measure w" arbitrary: w rule: less_induct)
  case less
  show ?case
  proof (cases "wk_live w = 0")
    case False
    from closed_progress [OF less.prems] False obtain w1 where
      w1: "worker_step (w, acc, rej) (w1, acc, rej)" "drain_measure w1 < drain_measure w" "wk_ctx_done w1 = wk_ctx_done w" by auto
    have "length (wk_recv w) \<le> wk_live w" using less.prems(1) by (simp add: worker_inv_def consumers_ok_def)
    with closed_step [OF w1(1) less.prems(2)] have "wk_closed w1" by simp
    from less.hyps [OF w1(2) worker_step_inv [OF w1(1) less.prems(1)] this] w1(1,3) show ?thesis
      by (metis converse_rtranclp_into_rtranclp)
  qed (use less.prems in auto)
qed

text \<open>
  C14: \<open>Stop\<close> comes to an end.  Once the channel is closed every step but a repeated \<open>Stop\<close> or
  the end of the context makes the remaining work smaller and accepts nothing, so the
  consumers take at most \<open>drain_measure\<close> steps; a run in which all of them return exists; and
  if the context has not ended by then, every accepted event has been handed to the database.
\<close>

theorem stopped_worker_terminates:
  assumes "worker_reach cfg (w, acc, rej)" "wk_closed w"
  shows "(\<forall>w' acc' rej'. worker_step (w, acc, rej) (w', acc', rej') \<longrightarrow> acc' = acc \<and> rej' = rej \<and> wk_closed w' \<and>
      (drain_measure w' < drain_measure w \<or> w' = w \<or> w' = w\<lparr>wk_ctx_done := True\<rparr>)) \<and>
    (\<exists>w'. worker_step\<^sup>*\<^sup>* (w, acc, rej) (w', acc, rej) \<and> wk_live w' = 0 \<and>
      (\<not> wk_ctx_done w \<longrightarrow> mset acc = mset (map lr_event (db_rows (wk_db w'))) + mset (wk_failed w')))"
proof -
  note inv = worker_reach_inv [OF assms(1)]
  have "length (wk_recv w) \<le> wk_live w" using inv by (simp add: worker_inv_def consumers_ok_def)
  moreover obtain w' where w': "worker_step\<^sup>*\<^sup>* (w, acc, rej) (w', acc, rej)" "wk_live w' = 0" "wk_ctx_done w' = wk_ctx_done w"
    "worker_inv cfg (w', acc, rej)" using closed_drains [OF inv assms(2)] by blast
  moreover have "mset acc = mset (map lr_event (db_rows (wk_db w'))) + mset (wk_failed w')" if "\<not> wk_ctx_done w"
    using that w'(2-4) worker_defaults_pos(2) [of cfg] by (auto simp: worker_inv_def consumers_ok_def)
  ultimately show ?thesis using closed_step [OF _ assms(2)] by blast
qed

lemma cancelled_step:
  assumes "worker_step (w, acc, rej) (w', acc', rej')" "wk_ctx_done w"
  shows "wk_ctx_done w' \<and> length (db_rows (wk_db w')) + length (wk_busy w') \<le> length (db_rows (wk_db w)) + length (wk_busy w) \<and>
    (wk_busy w = [] \<longrightarrow> wk_busy w' = [] \<and> db_rows (wk_db w') = db_rows (wk_db w))"
  using assms(1)
proof (cases rule: worker_step.cases)
  case (finish e pricing ddl_ok ins_ok)
  let ?w = "w\<lparr>wk_busy := remove1 e (wk_busy w)\<rparr>"
  have "length (db_rows (wk_db w')) \<le> Suc (length (db_rows (wk_db w)))"
    using finish persist_rows [of pricing ddl_ok ins_ok e ?w] by auto
  moreover obtain n where "length (wk_busy w) = Suc n" using finish by (metis Suc_pred length_pos_if_in_set)
  ultimately show ?thesis using finish assms(2) by (auto simp: persist_frame length_remove1)
qed (use assms(2) in \<open>auto simp: run_recv_def run_check_def run_exit_def Enqueue_def Stop_def Let_def split: if_splits list.splits\<close>)


text \<open>
  C16: once \<open>ensurePartition\<close> succeeds for an event of this epoch, a partition covers the
  event, so its row is written whenever the database executes the insert; and every row of
  the ledger adds up, its total being the cost of the request at the rate of its model.
\<close>

theorem billing_row_written:
  assumes "worker_reach cfg (w, acc, rej)" "0 \<le> ev_StartedAt ev" "fst (ensurePartition True (ev_StartedAt ev) w)"
  shows "db_rows (wk_db (persist pricing True True ev w)) = db_rows (wk_db w) @ [make_row pricing ev] \<and>
    (\<forall>c r. pricing = Some c \<and> Lookup c (ev_Model ev) = Some r \<and> rt_Model r \<noteq> [] \<longrightarrow>
       lr_total_micro (make_row pricing ev) = Cost r (ev_PromptTokens ev) (ev_CompletionTokens ev))"
proof -
  obtain w' where ep: "ensurePartition True (ev_StartedAt ev) w = (True, w')" using assms(3) by (metis prod.collapse)
  have "partitions_ok w" using worker_reach_inv [OF assms(1)] by (simp add: worker_inv_def)
  note cov = ensurePartition_covers [OF ep this assms(2)]
  have "db_rows (wk_db (persist pricing True True ev w)) = db_rows (wk_db w) @ [make_row pricing ev]"
    using cov ensurePartition_frame(4) [OF ep] by (simp add: persist_def ep Let_def)
  then show ?thesis by (auto simp: make_row_def Let_def Cost_def)
qed

definition demo_event :: Event where
  "demo_event = \<lparr>ev_StartedAt = 1776384000 * Second, ev_RequestID = ''r'', ev_APIKeyID = ''k'', ev_Provider = ''openai'',
     ev_Model = ''gpt-4o'', ev_PromptTokens = 1234, ev_CompletionTokens = 56, ev_LatencyMs = 9, ev_Status = 200,
     ev_Streamed = False, ev_ErrorCode = []\<rparr>"

lemma demo_ensure: "fst (ensurePartition True ts (NewWorker DefaultWorkerConfig))"
  by (simp add: ensurePartition_def NewWorker_def split: prod.splits)

lemma demo_ensure_started: "fst (ensurePartition True ts (Start (NewWorker DefaultWorkerConfig)))"
  by (simp add: ensurePartition_def Start_def NewWorker_def split: prod.splits)

theorem billing_row_written_witness:
  "db_rows (wk_db (persist None True True demo_event (Start (NewWorker DefaultWorkerConfig)))) = [make_row None demo_event]"
  using billing_row_written [OF worker_reach.start, of demo_event DefaultWorkerConfig None] demo_ensure_started
  by (simp add: demo_event_def NewWorker_def Start_def)

definition queued_worker :: Worker where
  "queued_worker = (Start (NewWorker DefaultWorkerConfig))\<lparr>wk_ch := [demo_event]\<rparr>"

lemma queued_reach: "worker_reach DefaultWorkerConfig (queued_worker, [demo_event], 0)"
proof -
  have "Enqueue 0 demo_event (Start (NewWorker DefaultWorkerConfig)) = (Accepted, queued_worker)"
    by (simp add: Enqueue_def NewWorker_def Start_def worker_defaults_def DefaultWorkerConfig_def demo_event_def zero_time_def Let_def queued_worker_def)
  from worker_reach.step [OF worker_reach.start worker_step.accept [OF this]] show ?thesis by (simp add: queued_worker_def)
qed

theorem billing_queue_conserves_witness:
  "mset [demo_event] = mset (wk_ch queued_worker) + mset (wk_recv queued_worker) + mset (wk_busy queued_worker) +
     mset (map lr_event (db_rows (wk_db queued_worker))) + mset (wk_failed queued_worker) + mset (wk_lost queued_worker) \<and>
   wk_ch queued_worker = [demo_event]"
  using billing_queue_conserves [OF queued_reach] by (simp add: queued_worker_def)

theorem stopped_worker_terminates_witness:
  "\<exists>w'. worker_step\<^sup>*\<^sup>* (Stop queued_worker, [demo_event], 0) (w', [demo_event], 0) \<and> wk_live w' = 0 \<and>
     {#demo_event#} = mset (map lr_event (db_rows (wk_db w'))) + mset (wk_failed w')"
proof -
  have "worker_reach DefaultWorkerConfig (Stop queued_worker, [demo_event], 0)"
    by (rule worker_reach.step [OF queued_reach worker_step.close])
  moreover have "\<not> wk_ctx_done (Stop queued_worker)" by (simp add: queued_worker_def Stop_def Start_def NewWorker_def)
  ultimately show ?thesis using stopped_worker_terminates [of DefaultWorkerConfig "Stop queued_worker" "[demo_event]" 0]
    by (auto simp: Stop_def)
qed


end
