(* ===== verification/AuditLog.thy ===== *)
theory AuditLog
  imports BillingWorker
begin

text \<open>
  \<open>internal/audit/audit.go\<close>: the forensic log of admin actions.  The state is the table, the
  instant the database stamps next, and whether a recorder with a pool is wired; Postgres'
  \<open>WHERE\<close>, \<open>ORDER BY\<close>, \<open>LIMIT\<close> and \<open>OFFSET\<close> are list operations.  Rows of the same instant
  come in an unspecified order; here they keep the order of the table.
\<close>

section \<open>Data\<close>

datatype Action = ActionKeyCreate | ActionKeyRevoke | ActionPricingUpsert | ActionPricingDelete | ActionProvidersReload | OtherAction string

fun action_string :: "Action \<Rightarrow> string" where
  "action_string ActionKeyCreate = ''key.create''"
| "action_string ActionKeyRevoke = ''key.revoke''"
| "action_string ActionPricingUpsert = ''pricing.upsert''"
| "action_string ActionPricingDelete = ''pricing.delete''"
| "action_string ActionProvidersReload = ''providers.reload''"
| "action_string (OtherAction s) = s"

record audit_Entry =
  ae_ActorID :: string
  ae_ActorLabel :: string
  ae_Action :: Action
  ae_TargetType :: string
  ae_TargetID :: string
  ae_Metadata :: "json option"
  ae_RequestID :: string

record audit_Row =
  ar_ID :: int
  ar_OccurredAt :: instant
  ar_ActorID :: string
  ar_ActorLabel :: string
  ar_Action :: string
  ar_TargetType :: string
  ar_TargetID :: string
  ar_Metadata :: json
  ar_RequestID :: string

record QueryOpts =
  qo_Start :: instant
  qo_End :: instant
  qo_ActorID :: string
  qo_Action :: string
  qo_TargetType :: string
  qo_Limit :: int
  qo_Offset :: int

datatype audit_error =
    ErrNotConfigured | ErrWindowInvalid | ErrWindowTooWide | ErrInvalidAction | ErrMissingActorOrTgt
  | InsertErr goerr | QueryErr goerr

datatype Recorder = Nop | NilPool | Postgres

record audit_log =
  al_rows :: "audit_Row list"
  al_next :: int
  al_now :: instant
  al_db_err :: "goerr option"

definition maxAuditWindow :: duration where
  "maxAuditWindow = 31 * 24 * Hour"

section \<open>Operations\<close>

text \<open>The loop over the bytes of the action: a dot that is neither first nor last.\<close>

definition has_inner_dot :: "string \<Rightarrow> bool" where
  "has_inner_dot a = list_ex (\<lambda>i. a ! i = CHR ''.'' \<and> 0 < i \<and> i < length a - 1) [0..<length a]"

definition Record :: "Recorder \<Rightarrow> audit_Entry \<Rightarrow> audit_log \<Rightarrow> audit_error option \<times> audit_log" where
  "Record rec e l = (if rec = Nop then (None, l)
     else if ae_ActorID e = [] \<or> ae_TargetID e = [] \<or> ae_TargetType e = [] then (Some ErrMissingActorOrTgt, l)
     else if \<not> has_inner_dot (action_string (ae_Action e)) then (Some ErrInvalidAction, l)
     else if rec = NilPool then (Some ErrNotConfigured, l)
     else case al_db_err l of
       Some err \<Rightarrow> (Some (InsertErr err), l)
     | None \<Rightarrow> (None, l\<lparr>al_next := al_next l + 1,
         al_rows := al_rows l @ [\<lparr>ar_ID = al_next l, ar_OccurredAt = al_now l, ar_ActorID = ae_ActorID e, ar_ActorLabel = ae_ActorLabel e,
           ar_Action = action_string (ae_Action e), ar_TargetType = ae_TargetType e, ar_TargetID = ae_TargetID e,
           ar_Metadata = (case ae_Metadata e of None \<Rightarrow> JNull | Some j \<Rightarrow> j), ar_RequestID = ae_RequestID e\<rparr>]\<rparr>))"

definition audit_matches :: "QueryOpts \<Rightarrow> audit_Row \<Rightarrow> bool" where
  "audit_matches q r \<longleftrightarrow> qo_Start q \<le> ar_OccurredAt r \<and> ar_OccurredAt r < qo_End q \<and>
     (qo_ActorID q = [] \<or> ar_ActorID r = qo_ActorID q) \<and> (qo_Action q = [] \<or> ar_Action r = qo_Action q) \<and>
     (qo_TargetType q = [] \<or> ar_TargetType r = qo_TargetType q)"

text \<open>The total is a column of the rows of the page, so an empty page leaves it at zero.\<close>

definition audit_Query :: "Recorder \<Rightarrow> QueryOpts \<Rightarrow> audit_log \<Rightarrow> audit_error + audit_Row list \<times> int" where
  "audit_Query rec q l = (if rec = Nop then Inl ErrNotConfigured
     else if qo_Start q = zero_time \<or> qo_End q = zero_time \<or> \<not> qo_Start q < qo_End q then Inl ErrWindowInvalid
     else if time_sub (qo_End q) (qo_Start q) > maxAuditWindow then Inl ErrWindowTooWide
     else if rec = NilPool then Inl ErrNotConfigured
     else case al_db_err l of
       Some err \<Rightarrow> Inl (QueryErr err)
     | None \<Rightarrow>
         (let limit = (if qo_Limit q \<le> 0 \<or> qo_Limit q > 200 then 50 else qo_Limit q);
              offset = (if qo_Offset q < 0 then 0 else qo_Offset q);
              matching = filter (audit_matches q) (al_rows l);
              page = take (nat limit) (drop (nat offset) (sort_key (\<lambda>r. - ar_OccurredAt r) matching))
          in Inr (page, if page = [] then 0 else int (length matching))))"

section \<open>Lemmas\<close>

lemma actions_have_dot [simp]:
  "has_inner_dot ''key.create''" "has_inner_dot ''key.revoke''" "has_inner_dot ''pricing.upsert''" "has_inner_dot ''pricing.delete''"
  "has_inner_dot ''providers.reload''"
  by code_simp+

text \<open>A page never exceeds 200 rows, all of them match, newest first.\<close>

lemma audit_page:
  assumes "audit_Query rec q l = Inr (page, n)"
  shows "length page \<le> 200" "\<forall>r \<in> set page. r \<in> set (al_rows l) \<and> audit_matches q r"
    "sorted (map (\<lambda>r. - ar_OccurredAt r) page)" "qo_Start q < qo_End q"
proof -
  define limit where "limit = nat (if qo_Limit q \<le> 0 \<or> qo_Limit q > 200 then 50 else qo_Limit q)"
  define offset where "offset = nat (if qo_Offset q < 0 then 0 else qo_Offset q)"
  have page: "page = take limit (drop offset (sort_key (\<lambda>r. - ar_OccurredAt r) (filter (audit_matches q) (al_rows l))))"
    and win: "qo_Start q < qo_End q"
    using assms unfolding audit_Query_def Let_def limit_def offset_def by (auto split: if_splits option.splits)
  have lim: "limit \<le> 200" by (auto simp: limit_def nat_le_iff)
  show "length page \<le> 200" using page lim by simp
  show "\<forall>r \<in> set page. r \<in> set (al_rows l) \<and> audit_matches q r"
    unfolding page by (auto dest!: in_set_takeD in_set_dropD)
  show "sorted (map (\<lambda>r. - ar_OccurredAt r) page)"
    unfolding page by (simp add: take_map [symmetric] drop_map [symmetric] sorted_wrt_take sorted_wrt_drop)
  show "qo_Start q < qo_End q" by (fact win)
qed

end
