(* ===== verification/Keystore.thy ===== *)
theory Keystore
  imports Auth
begin

text \<open>
  \<open>internal/auth/keystore.go\<close>: listing, creating and revoking API keys.  The SQL statements
  act on the rows of \<open>auth_state\<close>; the UUID, the random bytes and the clock are arguments.
  A revocation also deletes the key's entry of the authentication cache, which
  \<open>cached_Authenticate\<close> reads.
\<close>

section \<open>Records\<close>

record KeyRecord =
  kr_ID :: string
  kr_IDPreview :: string
  kr_Name :: string
  kr_HashHexShort :: string
  kr_Scopes :: "(string \<times> string list) list option"
  kr_CreatedAt :: instant
  kr_LastUsedAt :: "instant option"
  kr_RevokedAt :: "instant option"

definition idPreview :: "string \<Rightarrow> string" where
  "idPreview i = (if length i \<le> 8 then i else take 8 i)"

definition shortHashHex :: "string \<Rightarrow> string" where
  "shortHashHex raw = (let full = hex_encode raw in if length full \<le> 12 then full else take 12 full)"

definition decodeScopes :: "blob \<Rightarrow> (string \<times> string list) list option" where
  "decodeScopes raw = (case decode_scopes_column raw of None \<Rightarrow> None | Some sc \<Rightarrow> sc)"

definition project_row :: "api_key \<Rightarrow> KeyRecord" where
  "project_row r = \<lparr>kr_ID = ak_ID r, kr_IDPreview = idPreview (ak_ID r), kr_Name = ak_Name r,
     kr_HashHexShort = shortHashHex (ak_Hash r), kr_Scopes = decodeScopes (ak_Scopes r),
     kr_CreatedAt = ak_CreatedAt r, kr_LastUsedAt = ak_LastUsedAt r, kr_RevokedAt = ak_RevokedAt r\<rparr>"

section \<open>List\<close>

record ListOpts =
  lo_NamePrefix :: string
  lo_IncludeRevoked :: bool
  lo_Limit :: int
  lo_Offset :: int

text \<open>SQL's \<open>LIKE\<close>: \<open>%\<close>, \<open>_\<close> and the escape \<open>\\<close>.\<close>

fun sql_like :: "string \<Rightarrow> string \<Rightarrow> bool" where
  "sql_like [] s = (s = [])"
| "sql_like (p # ps) s =
     (if p = CHR ''%'' then sql_like ps s \<or> (case s of [] \<Rightarrow> False | c # cs \<Rightarrow> sql_like (p # ps) cs)
      else if p = CHR ''_'' then (case s of [] \<Rightarrow> False | c # cs \<Rightarrow> sql_like ps cs)
      else if p = CHR 0x5C \<and> ps \<noteq> [] then (case s of [] \<Rightarrow> False | c # cs \<Rightarrow> c = hd ps \<and> sql_like (tl ps) cs)
      else (case s of [] \<Rightarrow> False | c # cs \<Rightarrow> c = p \<and> sql_like ps cs))"

definition list_matches :: "ListOpts \<Rightarrow> api_key \<Rightarrow> bool" where
  "list_matches opts r \<longleftrightarrow>
     (lo_IncludeRevoked opts \<or> ak_RevokedAt r = None) \<and>
     (lo_NamePrefix opts = [] \<or> sql_like (lo_NamePrefix opts @ ''%'') (ak_Name r))"

text \<open>
  \<open>COUNT(*) OVER ()\<close> is a column of the returned rows, so a page without rows leaves the
  total at zero.  Rows created at the same instant come in an unspecified order; here they
  keep the order of the table.
\<close>

definition List :: "ListOpts \<Rightarrow> 'k auth_state \<Rightarrow> goerr + KeyRecord list \<times> int" where
  "List opts s = (case as_db_err s of
     Some e \<Rightarrow> Inl (Wrapped ''auth: list api_keys'' e)
   | None \<Rightarrow>
       (let limit = (if lo_Limit opts \<le> 0 \<or> lo_Limit opts > 200 then 50 else lo_Limit opts);
            offset = (if lo_Offset opts < 0 then 0 else lo_Offset opts);
            matching = filter (list_matches opts) (as_rows s);
            page = take (nat limit) (drop (nat offset) (sort_key (\<lambda>r. - ak_CreatedAt r) matching))
        in Inr (map project_row page, if page = [] then 0 else int (length matching))))"

section \<open>Create\<close>

definition b64_char :: "nat \<Rightarrow> char" where
  "b64_char n = ''ABCDEFGHIJKLMNOPQRSTUVWXYZabcdefghijklmnopqrstuvwxyz0123456789-_'' ! n"

text \<open>\<open>base64.RawURLEncoding\<close>: six bits per character, no padding.\<close>

fun b64url :: "nat list \<Rightarrow> string" where
  "b64url (a # b # c # bs) =
     [b64_char (a div 4), b64_char (a mod 4 * 16 + b div 16), b64_char (b mod 16 * 4 + c div 64), b64_char (c mod 64)] @ b64url bs"
| "b64url [a, b] = [b64_char (a div 4), b64_char (a mod 4 * 16 + b div 16), b64_char (b mod 16 * 4)]"
| "b64url [a] = [b64_char (a div 4), b64_char (a mod 4 * 16)]"
| "b64url [] = []"

text \<open>\<open>buf\<close> is what \<open>rand.Read\<close> filled the 32-byte buffer with, or its error.\<close>

definition generateSecret :: "goerr + nat list \<Rightarrow> goerr + string" where
  "generateSecret buf = map_sum id (\<lambda>bs. ''sk-'' @ b64url bs) buf"

definition ident_char :: "char \<Rightarrow> bool" where
  "ident_char c \<longleftrightarrow> (CHR ''a'' \<le> c \<and> c \<le> CHR ''z'') \<or> c = CHR ''_''"

definition scope_ident :: "string \<Rightarrow> bool" where
  "scope_ident s = (case s of [] \<Rightarrow> False | c # cs \<Rightarrow> CHR ''a'' \<le> c \<and> c \<le> CHR ''z'' \<and> list_all ident_char cs)"

text \<open>\<open>^[a-z][a-z_]*:[a-z][a-z_]*$\<close>\<close>

definition scopePattern :: "string \<Rightarrow> bool" where
  "scopePattern t = (case split_on (CHR '':'') t of [c, v] \<Rightarrow> scope_ident c \<and> scope_ident v | _ \<Rightarrow> False)"

definition validateScopes :: "(string \<times> string list) list option \<Rightarrow> bool" where
  "validateScopes scopes = (case scopes of None \<Rightarrow> True
     | Some m \<Rightarrow> list_all (\<lambda>(c, vals). vals \<noteq> [] \<and> list_all (\<lambda>v. scopePattern (c @ '':'' @ v)) vals) m)"

definition Create ::
    "(string \<Rightarrow> string) \<Rightarrow> string \<Rightarrow> goerr + nat list \<Rightarrow> instant \<Rightarrow> string \<Rightarrow> (string \<times> string list) list option \<Rightarrow>
     'k auth_state \<Rightarrow> (goerr + KeyRecord \<times> string) \<times> 'k auth_state" where
  "Create sha uid buf now name scopes s =
     (if name = [] then (Inl (OtherErr ''auth: name is required''), s)
      else if length name > 64 then (Inl (OtherErr ''auth: name must be <= 64 chars''), s)
      else if \<not> validateScopes scopes then (Inl (OtherErr ''auth: scope invalid''), s)
      else case generateSecret buf of
        Inl e \<Rightarrow> (Inl (Wrapped ''auth: generate secret'' e), s)
      | Inr secret \<Rightarrow>
          (let row = \<lparr>ak_ID = uid, ak_Hash = sha secret, ak_Name = name,
                 ak_Scopes = Blob (if scopes = None then JObj [] else enc_scopes scopes),
                 ak_CreatedAt = now, ak_LastUsedAt = None, ak_RevokedAt = None\<rparr>
           in case as_db_err s of
                Some e \<Rightarrow> (Inl (Wrapped ''auth: insert api_key'' e), s)
              | None \<Rightarrow>
                  if list_ex (\<lambda>r. ak_ID r = uid \<or> ak_Hash r = sha secret) (as_rows s)
                  then (Inl (Wrapped ''auth: insert api_key'' (OtherErr ''unique violation'')), s)
                  else (Inr (project_row row, secret), s\<lparr>as_rows := as_rows s @ [row]\<rparr>)))"

section \<open>Revoke\<close>

definition revoke_row :: "instant \<Rightarrow> api_key \<Rightarrow> api_key" where
  "revoke_row now r = r\<lparr>ak_RevokedAt := Some (case ak_RevokedAt r of None \<Rightarrow> now | Some t \<Rightarrow> t)\<rparr>"

text \<open>\<open>cache\<close> is \<open>None\<close> for a nil client.\<close>

definition Revoke ::
    "'k kv_ops option \<Rightarrow> instant \<Rightarrow> string \<Rightarrow> 'k auth_state \<Rightarrow> (goerr + KeyRecord) \<times> 'k auth_state" where
  "Revoke cache now i s =
     (if i = [] then (Inl (OtherErr ''auth: id is required''), s)
      else case as_db_err s of
        Some e \<Rightarrow> (Inl (Wrapped ''auth: revoke api_key'' e), s)
      | None \<Rightarrow>
          (case filter (\<lambda>r. ak_ID r = i) (as_rows s) of
             [] \<Rightarrow> (Inl ErrKeyNotFound, s)
           | r # _ \<Rightarrow>
               (let s1 = s\<lparr>as_rows := map (\<lambda>r. if ak_ID r = i then revoke_row now r else r) (as_rows s)\<rparr>
                in (Inr (project_row (revoke_row now r)),
                    case cache of None \<Rightarrow> s1
                    | Some kv \<Rightarrow> s1\<lparr>as_kv := snd (kv_Del kv (''auth:k:'' @ hex_encode (ak_Hash r)) (as_kv s1))\<rparr>))))"

section \<open>Lemmas\<close>

text \<open>The table's constraints: ids and hashes are unique.\<close>

definition table_ok :: "api_key list \<Rightarrow> bool" where
  "table_ok rows \<longleftrightarrow> distinct (map ak_ID rows) \<and> distinct (map ak_Hash rows)"

lemma table_ok_same: "table_ok rows \<Longrightarrow> r \<in> set rows \<Longrightarrow> q \<in> set rows \<Longrightarrow> ak_Hash r = ak_Hash q \<Longrightarrow> r = q"
  unfolding table_ok_def by (metis distinct_map inj_onD)

lemma sql_like_percent: "sql_like ''%'' s"
  by (induction s) simp_all

lemma sql_like_literal:
  assumes "set pre \<inter> {CHR ''%'', CHR ''_'', CHR 0x5C} = {}"
  shows "sql_like (pre @ ''%'') s \<longleftrightarrow> prefix pre s"
  using assms
proof (induction pre arbitrary: s)
  case Nil
  then show ?case using sql_like_percent by simp
next
  case (Cons p pre)
  then show ?case by (cases s) auto
qed

lemma length_b64url: "length (b64url bs) = (4 * length bs + 2) div 3"
  by (induction bs rule: b64url.induct) auto

lemma revoked_not_active: "\<not> active_row h (revoke_row now r)"
  by (simp add: active_row_def revoke_row_def)

lemma scope_values_norm:
  assumes "opt_all (\<lambda>m. distinct (map fst m)) sc"
  shows "scope_values (norm_scopes sc) c = scope_values sc c"
proof (cases sc)
  case (Some m)
  have "distinct (map fst (sort_key fst m))" using assms Some
    by (metis mset_eq_imp_distinct_iff mset_map mset_sort opt_all.simps(2))
  then have "map_of (sort_key fst m) = map_of m"
    using assms Some by (intro map_of_inject_set [THEN iffD2]) simp_all
  then show ?thesis by (simp add: Some scope_values_def norm_scopes_def)
qed (simp add: scope_values_def norm_scopes_def)

lemma created_scopes:
  assumes "opt_all (\<lambda>m. distinct (map fst m)) sc"
  shows "\<exists>sc'. decode_scopes_column (Blob (if sc = None then JObj [] else enc_scopes sc)) = Some sc' \<and>
    (\<forall>c. scope_values sc' c = scope_values sc c)"
proof (cases "enc_scopes sc = JObj [] \<or> sc = None")
  case True
  moreover have "sort_key fst m = [] \<longleftrightarrow> m = []" for m :: "(string \<times> string list) list"
    by (metis length_0_conv length_sort)
  ultimately show ?thesis by (auto simp: decode_scopes_column_def enc_scopes_def scope_values_def split: option.splits)
next
  case False
  then have "decode_scopes_column (Blob (if sc = None then JObj [] else enc_scopes sc)) = Some (norm_scopes sc)"
    using dec_scopes_enc [OF assms] by (auto simp: decode_scopes_column_def enc_scopes_def)
  with scope_values_norm [OF assms] show ?thesis by blast
qed

lemma secret_given: "generateSecret buf = Inr secret \<Longrightarrow> secret \<noteq> []"
  by (cases buf) (auto simp: generateSecret_def)

section \<open>Properties\<close>

text \<open>
  C11: the secret \<open>Create\<close> returns authenticates at once, as the new key, with the name and
  exactly the scopes it was created with; from 32 random bytes it has 46 characters.
\<close>

theorem create_then_authenticate:
  assumes "Create sha uid (Inr buf) now name scopes s = (Inr (rec, secret), s')" "length buf = 32"
    and "opt_all (\<lambda>m. distinct (map fst m)) scopes"
  shows "length secret = 46 \<and> kr_ID rec = uid \<and>
    (\<exists>p. fst (pg_Authenticate sha t secret s') = Inr p \<and> pr_ID p = uid \<and> pr_Name p = name \<and>
      (\<forall>c v. HasScope (Some p) c v \<longleftrightarrow> list_ex (\<lambda>x. x = ''*'' \<or> x = v) (scope_values scopes c)))"
proof -
  define row where "row = \<lparr>ak_ID = uid, ak_Hash = sha secret, ak_Name = name,
     ak_Scopes = Blob (if scopes = None then JObj [] else enc_scopes scopes),
     ak_CreatedAt = now, ak_LastUsedAt = None, ak_RevokedAt = None\<rparr>"
  have c: "generateSecret (Inr buf) = Inr secret" "as_db_err s = None" "s' = s\<lparr>as_rows := as_rows s @ [row]\<rparr>"
    "rec = project_row row" "\<not> list_ex (\<lambda>r. ak_ID r = uid \<or> ak_Hash r = sha secret) (as_rows s)"
    using assms(1) by (auto simp: Create_def Let_def row_def split: if_splits sum.splits option.splits)
  have "filter (active_row (sha secret)) (as_rows s) = []"
    using c(5) by (auto simp: filter_empty_conv active_row_def list_ex_iff)
  then have rows: "filter (active_row (sha secret)) (as_rows s') = [row]"
    by (simp add: c(3) active_row_def row_def)
  obtain sc where sc: "decode_scopes_column (ak_Scopes row) = Some sc" "\<forall>c. scope_values sc c = scope_values scopes c"
    using created_scopes [OF assms(3)] by (auto simp: row_def)
  have "fst (pg_Authenticate sha t secret s') = Inr \<lparr>pr_ID = uid, pr_Name = name, pr_Scopes = sc\<rparr>"
    using rows c(2,3) secret_given [OF c(1)] sc(1)
    by (simp add: pg_Authenticate_def Let_def hashKeyBytes_def row_principal_def) (simp add: row_def)
  moreover have "length secret = 46" using c(1) assms(2) by (auto simp: generateSecret_def length_b64url)
  ultimately show ?thesis using sc(2) c(4) by (simp add: HasScope_def project_row_def row_def)
qed

definition demo_key_name :: string where
  "demo_key_name = ''ci''"

theorem create_then_authenticate_witness:
  "\<exists>rec secret s' p. Create id ''u1'' (Inr (replicate 32 7)) 9 demo_key_name (Some [(''admin'', [''keys''])]) demo_auth_state
      = (Inr (rec, secret), s') \<and> length secret = 46 \<and> fst (pg_Authenticate id 10 secret s') = Inr p \<and>
    HasScope (Some p) ''admin'' ''keys''"
proof -
  have v: "validateScopes (Some [(''admin'', [''keys''])])" by code_simp
  have "\<exists>rec secret s'. Create id ''u1'' (Inr (replicate 32 7)) 9 demo_key_name (Some [(''admin'', [''keys''])]) demo_auth_state
      = (Inr (rec, secret), s')"
    using v by (simp add: Create_def demo_key_name_def generateSecret_def demo_auth_state_def demo_row_def Let_def)
  then obtain rec secret s' where c:
    "Create id ''u1'' (Inr (replicate 32 7)) 9 demo_key_name (Some [(''admin'', [''keys''])]) demo_auth_state
      = (Inr (rec, secret), s')" by blast
  from create_then_authenticate [OF c, of 10] obtain p where "fst (pg_Authenticate id 10 secret s') = Inr p"
    "length secret = 46" "HasScope (Some p) ''admin'' ''keys''" by (auto simp: scope_values_def)
  with c show ?thesis by blast
qed

text \<open>
  once a key is revoked and its cache entry deleted, it does not authenticate any more,
  neither from the cache nor from the table.
\<close>

lemma revoke_stops_key:
  assumes "kv_laws kv look" "table_ok (as_rows s)" "Revoke (Some kv) now i s = (Inr rec, s')"
    and "r \<in> set (as_rows s)" "ak_ID r = i" "sha key = ak_Hash r" "key \<noteq> []"
    and "fst (kv_Del kv (auth_cache_key sha key) (as_kv s)) = None"
  shows "fst (cached_Authenticate sha c kv (Some (pg_Authenticate sha t)) key s') = Inl ErrInvalidCredentials"
proof -
  let ?ck = "auth_cache_key sha key"
  obtain q qs where f: "filter (\<lambda>r. ak_ID r = i) (as_rows s) = q # qs" and db: "as_db_err s = None" and i: "i \<noteq> []"
    using assms(3) by (auto simp: Revoke_def split: if_splits option.splits list.splits)
  then have "q \<in> set (as_rows s)" "ak_ID q = i" by (auto simp: filter_eq_Cons_iff)
  then have q: "q = r" using assms(2,4,5) unfolding table_ok_def by (metis distinct_map inj_onD)
  have ck: "''auth:k:'' @ hex_encode (ak_Hash q) = ?ck" by (simp add: auth_cache_key_def hashKeyHex_def q assms(6))
  have s': "as_rows s' = map (\<lambda>r. if ak_ID r = i then revoke_row now r else r) (as_rows s)"
    "as_kv s' = snd (kv_Del kv ?ck (as_kv s))" "as_db_err s' = None"
    using assms(3) f db i ck by (auto simp: Revoke_def Let_def)
  have "look (as_kv s') = (look (as_kv s))(?ck := None)"
    using assms(1,8) unfolding s'(2) kv_laws_def by (metis prod.collapse)
  moreover obtain rd k1 where rd: "cached_read kv ?ck (as_kv s') = (rd, k1)" by (meson surj_pair)
  ultimately have miss: "rd \<noteq> Some (Some x)" for x using cached_read_value(2) [OF assms(1) rd, of x] by auto
  have "filter (active_row (sha key)) (as_rows s') = []"
  proof -
    have "\<not> active_row (sha key) (if ak_ID x = i then revoke_row now x else x)" if "x \<in> set (as_rows s)" for x
      using revoked_not_active table_ok_same [OF assms(2) that assms(4)] assms(5,6) by (auto simp: active_row_def)
    then show ?thesis unfolding s'(1) filter_empty_conv set_map by blast
  qed
  then have "pg_outcome sha (as_rows s') key = Inl ErrInvalidCredentials" by (simp add: pg_outcome_def)
  moreover obtain res s1 where pg: "pg_Authenticate sha t key (s'\<lparr>as_kv := k1\<rparr>) = (res, s1)" by (meson surj_pair)
  ultimately have "res = Inl ErrInvalidCredentials" using pg_Authenticate_outcome(1) [OF pg assms(7)] s'(3) by simp
  then show ?thesis using assms(7) rd miss pg by (auto simp: cached_Authenticate_def split: option.splits)
qed

lemma revoke_stops_key_witness:
  "fst (cached_Authenticate id demo_cached map_kv (Some (pg_Authenticate id 8)) ''s1''
     (snd (Revoke (Some map_kv) 7 ''key-1'' demo_auth_state))) = Inl ErrInvalidCredentials"
proof -
  have "\<exists>rec s'. Revoke (Some map_kv) 7 ''key-1'' demo_auth_state = (Inr rec, s')"
    by (simp add: Revoke_def demo_auth_state_def demo_row_def Let_def)
  then obtain rec s' where r: "Revoke (Some map_kv) 7 ''key-1'' demo_auth_state = (Inr rec, s')" by blast
  have "fst (cached_Authenticate id demo_cached map_kv (Some (pg_Authenticate id 8)) ''s1'' s') = Inl ErrInvalidCredentials"
    by (rule revoke_stops_key [OF map_kv_laws _ r, of demo_row])
       (simp_all add: table_ok_def demo_auth_state_def demo_row_def map_kv_def)
  with r show ?thesis by simp
qed

text \<open>
  An authentication that is in flight while its key is revoked undoes the revocation for
  the cache's lifetime.  When the table answered before the revocation and the answer is
  written to the cache after it, the revoked key goes on authenticating from the cache.
\<close>

lemma revoke_races_with_cache_write:
  assumes "pg_Authenticate sha t key s = (Inr p, s1)" "Revoke (Some map_kv) t' (pr_ID p) s1 = (Inr rec, s2)"
    and "0 < ca_posTTL c"
  shows "kr_RevokedAt rec \<noteq> None \<and>
    fst (cached_Authenticate sha c map_kv (Some (pg_Authenticate sha t'')) key
      (s2\<lparr>as_kv := cached_write c map_kv (auth_cache_key sha key) (Inr p) (as_kv s2)\<rparr>)) = Inr (norm_principal p)"
proof -
  have key: "key \<noteq> []" using assms(1) by (rule pg_auth.key_given)
  have db: "as_db_err s = None" using assms(1) key by (auto simp: pg_Authenticate_def split: option.splits)
  have "principal_ok p"
    using pg_Authenticate_outcome(1) [OF assms(1) key db]
    by (auto simp: pg_outcome_def row_principal_ok split: list.splits)
  then have dec: "dec_principal (enc_principal p) = Some (norm_principal p)" by (rule dec_principal_enc)
  have "kr_RevokedAt rec \<noteq> None"
    using assms(2) by (auto simp: Revoke_def Let_def project_row_def revoke_row_def split: if_splits option.splits list.splits)
  moreover have "enc_principal p \<noteq> JNull" by (simp add: enc_principal_def)
  ultimately show ?thesis using key assms(3) dec
    by (simp add: cached_Authenticate_def cached_write_def cached_read_def map_kv_def)
qed

lemma revoke_races_with_cache_write_witness:
  "\<exists>p s1 rec s2. pg_Authenticate id 1 ''s1'' demo_auth_state = (Inr p, s1) \<and>
    Revoke (Some map_kv) 2 (pr_ID p) s1 = (Inr rec, s2) \<and>
    fst (cached_Authenticate id demo_cached map_kv (Some (pg_Authenticate id 3)) ''s1''
      (s2\<lparr>as_kv := cached_write demo_cached map_kv (auth_cache_key id ''s1'') (Inr p) (as_kv s2)\<rparr>)) = Inr (norm_principal p)"
proof -
  have "\<exists>p s1. pg_Authenticate id 1 ''s1'' demo_auth_state = (Inr p, s1) \<and> pr_ID p = ''key-1'' \<and>
      as_rows s1 = [demo_row\<lparr>ak_LastUsedAt := Some 1\<rparr>] \<and> as_db_err s1 = None"
    by (simp add: pg_Authenticate_def demo_auth_state_def demo_row_def active_row_def hashKeyBytes_def Let_def
        row_principal_def decode_scopes_column_def dec_scopes_def to_map_def dec_list_def dec_string_elem_def)
  then obtain p s1 where p: "pg_Authenticate id 1 ''s1'' demo_auth_state = (Inr p, s1)" "pr_ID p = ''key-1''"
    "as_rows s1 = [demo_row\<lparr>ak_LastUsedAt := Some 1\<rparr>]" "as_db_err s1 = None" by blast
  have "\<exists>rec s2. Revoke (Some map_kv) 2 (pr_ID p) s1 = (Inr rec, s2)"
    using p by (simp add: Revoke_def Let_def demo_row_def)
  then obtain rec s2 where r: "Revoke (Some map_kv) 2 (pr_ID p) s1 = (Inr rec, s2)" by blast
  from revoke_races_with_cache_write [OF p(1) r, of demo_cached 3] p(1) r show ?thesis
    by (auto simp: demo_cached_def)
qed

end
