(* ===== verification/Admin.thy ===== *)
theory Admin
  imports AuditLog Keystore Pricing Middleware
begin

text \<open>
  The admin endpoints that change state or read it back: \<open>admin_keys.go\<close>, \<open>admin_pricing.go\<close>,
  \<open>admin_audit.go\<close>, \<open>admin_me.go\<close> and \<open>audit_helper.go\<close> of \<open>internal/server\<close>.  One record holds
  the key table, the price table and the audit log.  What a handler finds besides the request
  (path parameter, query, body, clock, randomness) is a second argument; the parsers of JSON
  and RFC 3339 texts, the encoder of instants and the text of an error are parameters.
\<close>

section \<open>State and arguments\<close>

record 'k admin_state =
  ad_auth :: "'k auth_state"
  ad_pricing :: pricing_state
  ad_audit :: audit_log

record 'k admin_deps =
  ax_sha :: "string \<Rightarrow> string"
  ax_cache :: "'k kv_ops option"
  ax_recorder :: Recorder
  ax_parse :: "string \<Rightarrow> string + json"
  ax_decode :: "string \<Rightarrow> string + json"
  ax_time :: "string \<Rightarrow> instant option"
  ax_time_json :: "instant \<Rightarrow> json"
  ax_text :: "goerr \<Rightarrow> string"

record admin_call =
  cl_param :: string
  cl_query :: "(string \<times> string list) list"
  cl_body :: "string option"
  cl_uuid :: string
  cl_random :: "goerr + nat list"
  cl_now :: instant

definition query_get :: "(string \<times> string list) list \<Rightarrow> string \<Rightarrow> string" where
  "query_get q k = (case map_of q k of Some (v # _) \<Rightarrow> v | _ \<Rightarrow> [])"

definition invalid :: "string \<Rightarrow> string \<Rightarrow> mappedError" where
  "invalid code msg = mapped 400 ''invalid_request_error'' code msg"

definition internal :: "string \<Rightarrow> mappedError" where
  "internal msg = mapped 500 ''internal_error'' [] msg"

definition reply_json :: "json \<Rightarrow> resp_writer \<Rightarrow> resp_writer" where
  "reply_json j w = jsonEncode j (set_header ''Content-Type'' ''application/json'' w)"

section \<open>Audit\<close>

definition recordAudit :: "'k admin_deps \<Rightarrow> request \<Rightarrow> Action \<Rightarrow> string \<Rightarrow> string \<Rightarrow> json option \<Rightarrow> 'k admin_state \<Rightarrow> 'k admin_state" where
  "recordAudit deps r action targetType targetID metadata s =
     (let (actorID, actorLabel) = (case rq_Principal r of None \<Rightarrow> ([], []) | Some p \<Rightarrow> (pr_ID p, pr_Name p));
          entry = \<lparr>ae_ActorID = (if actorID = [] then ''unknown'' else actorID), ae_ActorLabel = actorLabel, ae_Action = action,
            ae_TargetType = targetType, ae_TargetID = targetID, ae_Metadata = metadata, ae_RequestID = rq_ReqID r\<rparr>
      in s\<lparr>ad_audit := snd (Record (ax_recorder deps) entry (ad_audit s))\<rparr>)"

section \<open>Scopes\<close>

text \<open>The Go map is an association list; the flat list is sorted, so its order does not matter.\<close>

definition flattenScopes :: "(string \<times> string list) list \<Rightarrow> string list" where
  "flattenScopes m = sort (concat (map (\<lambda>(cat, vals). map (\<lambda>v. cat @ '':'' @ v) vals) m))"

text \<open>The index of the first colon, or the length of the string.\<close>

definition index_colon :: "string \<Rightarrow> nat" where
  "index_colon s = length (takeWhile (\<lambda>c. c \<noteq> CHR '':'') s)"

fun expand_loop :: "string list \<Rightarrow> string set \<Rightarrow> (string \<times> string list) list \<Rightarrow> string + (string \<times> string list) list" where
  "expand_loop [] seen out = Inr out"
| "expand_loop (tuple # flat) seen out =
     (let idx = index_colon tuple
      in if idx = length tuple \<or> idx = 0 \<or> idx = length tuple - 1 then Inl (''scope '' @ tuple @ '' must be in `category:value` form'')
         else if tuple \<in> seen then expand_loop flat seen out
         else let cat = take idx tuple; val = drop (idx + 1) tuple;
                  old = (case map_of out cat of None \<Rightarrow> [] | Some vs \<Rightarrow> vs)
              in expand_loop flat (insert tuple seen) (al_put cat (old @ [val]) out))"

definition expandScopes :: "string list \<Rightarrow> string + (string \<times> string list) list" where
  "expandScopes flat = expand_loop flat {} []"

section \<open>Keys\<close>

definition scopes_list :: "(string \<times> string list) list option \<Rightarrow> (string \<times> string list) list" where
  "scopes_list m = (case m of None \<Rightarrow> [] | Some xs \<Rightarrow> xs)"

definition key_members :: "'k admin_deps \<Rightarrow> KeyRecord \<Rightarrow> (string \<times> json) list" where
  "key_members deps r = members [
     (''id'', True, JStr (kr_ID r)),
     (''id_preview'', True, JStr (kr_IDPreview r)),
     (''label'', True, JStr (kr_Name r)),
     (''hash_hex_short'', True, JStr (kr_HashHexShort r)),
     (''scopes'', True, JArr (map JStr (flattenScopes (scopes_list (kr_Scopes r))))),
     (''created_at'', True, ax_time_json deps (kr_CreatedAt r)),
     (''last_used_at'', kr_LastUsedAt r \<noteq> None, ax_time_json deps (the (kr_LastUsedAt r))),
     (''revoked_at'', kr_RevokedAt r \<noteq> None, ax_time_json deps (the (kr_RevokedAt r)))]"

text \<open>\<open>strconv.Atoi\<close> of an optional query value, with its lower bound.\<close>

definition query_int :: "string \<Rightarrow> int \<Rightarrow> mappedError \<Rightarrow> mappedError + int" where
  "query_int v least err = (if v = [] then Inr 0 else case atoi v of
     None \<Rightarrow> Inl err | Some n \<Rightarrow> if n < least then Inl err else Inr n)"

definition limit_err :: mappedError where
  "limit_err = invalid ''invalid_limit'' ''Field 'limit' must be a positive integer (max 200)''"

definition offset_err :: mappedError where
  "offset_err = invalid ''invalid_offset'' ''Field 'offset' must be a non-negative integer''"

definition listKeysHandler :: "'k admin_deps \<Rightarrow> admin_call \<Rightarrow> 'k admin_state handler" where
  "listKeysHandler deps c r w s =
     (let fail = (\<lambda>m. (Returned, writeError m (rq_ReqID r) w, s));
          q = query_get (cl_query c)
      in case query_int (q ''limit'') 1 limit_err of
           Inl m \<Rightarrow> fail m
         | Inr limit \<Rightarrow> (case query_int (q ''offset'') 0 offset_err of
             Inl m \<Rightarrow> fail m
           | Inr offset \<Rightarrow>
               (case List \<lparr>lo_NamePrefix = q ''q'', lo_IncludeRevoked = (q ''include_revoked'' = ''true''), lo_Limit = limit, lo_Offset = offset\<rparr> (ad_auth s) of
                  Inl _ \<Rightarrow> fail (internal ''Failed to list keys'')
                | Inr (records, n) \<Rightarrow> (Returned, reply_json (JObj [(''items'', JArr (map (\<lambda>k. JObj (key_members deps k)) records)),
                    (''object'', JStr ''list''), (''total'', JInt n)]) w, s))))"

record createKeyRequest =
  ck_Label :: string
  ck_Scopes :: "string list"

definition createKeyRequest_field :: "string \<Rightarrow> json \<Rightarrow> createKeyRequest \<Rightarrow> createKeyRequest option" where
  "createKeyRequest_field key v b = (let k = to_lower key in
     if k = ''label'' then map_option (\<lambda>s. b\<lparr>ck_Label := s\<rparr>) (dec_str v (ck_Label b))
     else if k = ''scopes'' then map_option (\<lambda>xs. b\<lparr>ck_Scopes := xs\<rparr>) (dec_list dec_string_elem v)
     else Some b)"

text \<open>\<open>json.Unmarshal\<close> takes the whole text, a \<open>Decoder\<close> its first value: the parser is an argument.\<close>

definition decode_body :: "(string \<Rightarrow> string + json) \<Rightarrow> (json \<Rightarrow> 'a option) \<Rightarrow> string \<Rightarrow> mappedError + 'a" where
  "decode_body parse dec raw = (case parse raw of
     Inl err \<Rightarrow> Inl (invalid [] (''Malformed JSON: '' @ err))
   | Inr j \<Rightarrow> (case dec j of None \<Rightarrow> Inl (invalid [] ''Malformed JSON: json: type mismatch'') | Some x \<Rightarrow> Inr x))"

text \<open>\<open>contains\<close> and \<open>isValidationError\<close>, on the text of the error.\<close>

definition admin_contains :: "string \<Rightarrow> string \<Rightarrow> bool" where
  "admin_contains s sub = list_ex (\<lambda>i. take (length sub) (drop i s) = sub) [0..<Suc (length s) - length sub]"

definition isValidationError :: "string \<Rightarrow> bool" where
  "isValidationError msg = (if \<not> has_prefix msg ''auth: '' then False
     else list_ex (admin_contains msg) [''must'', ''required'', ''invalid'', ''has no values''])"

definition createKeyHandler :: "'k admin_deps \<Rightarrow> admin_call \<Rightarrow> 'k admin_state handler" where
  "createKeyHandler deps c r w s =
     (let fail = (\<lambda>m. (Returned, writeError m (rq_ReqID r) w, s))
      in case cl_body c of
           None \<Rightarrow> fail (invalid [] ''Malformed JSON: unexpected EOF'')
         | Some raw \<Rightarrow> (case decode_body (ax_decode deps) (dec_struct createKeyRequest_field \<lparr>ck_Label = [], ck_Scopes = []\<rparr>) raw of
             Inl m \<Rightarrow> fail m
           | Inr body \<Rightarrow>
               if ck_Label body = [] then fail (invalid ''missing_label'' ''Field 'label' is required'')
               else if ck_Scopes body = [] then fail (invalid ''missing_scopes'' ''Field 'scopes' must contain at least one entry'')
               else (case expandScopes (ck_Scopes body) of
                   Inl msg \<Rightarrow> fail (invalid ''invalid_scopes'' msg)
                 | Inr scopes \<Rightarrow>
                     (case Create (ax_sha deps) (cl_uuid c) (cl_random c) (cl_now c) (ck_Label body) (Some scopes) (ad_auth s) of
                        (Inl err, a) \<Rightarrow> (Returned, writeError (if isValidationError (ax_text deps err)
                            then invalid ''invalid_request'' (ax_text deps err) else internal ''Failed to create key'') (rq_ReqID r) w, s\<lparr>ad_auth := a\<rparr>)
                      | (Inr (rec, secret), a) \<Rightarrow>
                          (Returned,
                           jsonEncode (JObj (key_members deps rec @ [(''key'', JStr secret),
                               (''warning'', JStr ''Store this key now. It is shown only once and cannot be recovered later.'')]))
                             (WriteHeader 201 (set_header ''Content-Type'' ''application/json'' w)),
                           recordAudit deps r ActionKeyCreate ''api_key'' (kr_ID rec)
                             (Some (JObj [(''label'', JStr (kr_Name rec)), (''scopes'', JArr (map JStr (flattenScopes (scopes_list (kr_Scopes rec)))))]))
                             (s\<lparr>ad_auth := a\<rparr>))))))"

definition revokeKeyHandler :: "'k admin_deps \<Rightarrow> admin_call \<Rightarrow> 'k admin_state handler" where
  "revokeKeyHandler deps c r w s =
     (if cl_param c = [] then (Returned, writeError (invalid ''missing_id'' ''Path param 'id' is required'') (rq_ReqID r) w, s)
      else case Revoke (ax_cache deps) (cl_now c) (cl_param c) (ad_auth s) of
        (Inl err, a) \<Rightarrow> (Returned, writeError (if errors_Is err ErrKeyNotFound
            then mapped 404 ''invalid_request_error'' ''key_not_found'' (''No key with id '' @ cl_param c)
            else internal ''Failed to revoke key'') (rq_ReqID r) w, s\<lparr>ad_auth := a\<rparr>)
      | (Inr rec, a) \<Rightarrow> (Returned, reply_json (JObj (key_members deps rec)) w,
          recordAudit deps r ActionKeyRevoke ''api_key'' (kr_ID rec) (Some (JObj [(''label'', JStr (kr_Name rec))])) (s\<lparr>ad_auth := a\<rparr>)))"

definition adminMeHandler :: "'k admin_state handler" where
  "adminMeHandler r w s = (case rq_Principal r of
     None \<Rightarrow> (Returned, writeError (mapped 401 ''invalid_request_error'' ''no_principal'' ''No authenticated principal on request'') (rq_ReqID r) w, s)
   | Some p \<Rightarrow> (Returned, reply_json (JObj [(''id'', JStr (pr_ID p)), (''id_preview'', JStr (idPreview (pr_ID p))), (''label'', JStr (pr_Name p)),
       (''scopes'', JArr (map JStr (flattenScopes (scopes_list (pr_Scopes p)))))]) w, s))"

section \<open>Prices\<close>

record pricingDTO =
  pd_Model :: string
  pd_Currency :: string
  pd_InputPer1k :: rat
  pd_OutputPer1k :: rat
  pd_InputPer1kMicro :: int
  pd_OutputPer1kMicro :: int
  pd_UpdatedAt :: instant

definition dtoFromRate :: "Rate \<Rightarrow> pricingDTO" where
  "dtoFromRate r = \<lparr>pd_Model = rt_Model r, pd_Currency = rt_Currency r,
     pd_InputPer1k = f_div (f_of_int (rt_InputPer1kMicro r)) 1000000, pd_OutputPer1k = f_div (f_of_int (rt_OutputPer1kMicro r)) 1000000,
     pd_InputPer1kMicro = rt_InputPer1kMicro r, pd_OutputPer1kMicro = rt_OutputPer1kMicro r, pd_UpdatedAt = rt_UpdatedAt r\<rparr>"

definition pricingDTO_Marshal :: "'k admin_deps \<Rightarrow> pricingDTO \<Rightarrow> json" where
  "pricingDTO_Marshal deps d = JObj [
     (''model'', JStr (pd_Model d)), (''currency'', JStr (pd_Currency d)),
     (''input_per_1k'', enc_float (pd_InputPer1k d)), (''output_per_1k'', enc_float (pd_OutputPer1k d)),
     (''input_per_1k_micro'', JInt (pd_InputPer1kMicro d)), (''output_per_1k_micro'', JInt (pd_OutputPer1kMicro d)),
     (''updated_at'', ax_time_json deps (pd_UpdatedAt d))]"

definition listPricing :: "'k admin_deps \<Rightarrow> 'k admin_state handler" where
  "listPricing deps r w s = (Returned, reply_json (JObj [
     (''data'', JArr (map (\<lambda>x. pricingDTO_Marshal deps (dtoFromRate x)) (sort_key rt_Model (All (pc_cache (ad_pricing s)))))),
     (''object'', JStr ''list'')]) w, s)"

definition not_priced :: "string \<Rightarrow> mappedError" where
  "not_priced model = mapped 404 ''invalid_request_error'' ''model_not_priced'' (''No pricing entry for model '' @ model)"

definition getPricing :: "'k admin_deps \<Rightarrow> admin_call \<Rightarrow> 'k admin_state handler" where
  "getPricing deps c r w s = (case Lookup (pc_cache (ad_pricing s)) (cl_param c) of
     None \<Rightarrow> (Returned, writeError (not_priced (cl_param c)) (rq_ReqID r) w, s)
   | Some rate \<Rightarrow> (Returned, reply_json (pricingDTO_Marshal deps (dtoFromRate rate)) w, s))"

record pricingWriteRequest =
  pw_Currency :: string
  pw_InputPer1k :: rat
  pw_OutputPer1k :: rat
  pw_InputPer1kMicro :: "int option"
  pw_OutputPer1kMicro :: "int option"

definition dec_float :: "json \<Rightarrow> rat \<Rightarrow> rat option" where
  "dec_float v old = (case dec_float_ptr v of None \<Rightarrow> None | Some None \<Rightarrow> Some old | Some (Some x) \<Rightarrow> Some x)"

definition dec_int_ptr :: "json \<Rightarrow> int option option" where
  "dec_int_ptr v = (if v = JNull then Some None else map_option Some (dec_int v 0))"

definition pricingWriteRequest_field :: "string \<Rightarrow> json \<Rightarrow> pricingWriteRequest \<Rightarrow> pricingWriteRequest option" where
  "pricingWriteRequest_field key v b = (let k = to_lower key in
     if k = ''currency'' then map_option (\<lambda>s. b\<lparr>pw_Currency := s\<rparr>) (dec_str v (pw_Currency b))
     else if k = ''input_per_1k'' then map_option (\<lambda>x. b\<lparr>pw_InputPer1k := x\<rparr>) (dec_float v (pw_InputPer1k b))
     else if k = ''output_per_1k'' then map_option (\<lambda>x. b\<lparr>pw_OutputPer1k := x\<rparr>) (dec_float v (pw_OutputPer1k b))
     else if k = ''input_per_1k_micro'' then map_option (\<lambda>n. b\<lparr>pw_InputPer1kMicro := n\<rparr>) (dec_int_ptr v)
     else if k = ''output_per_1k_micro'' then map_option (\<lambda>n. b\<lparr>pw_OutputPer1kMicro := n\<rparr>) (dec_int_ptr v)
     else Some b)"

text \<open>
  \<open>int64(x * 1_000_000)\<close> truncates; out of range the result depends on the implementation,
  on amd64 it is the least integer.
\<close>

definition micro_of_float :: "rat \<Rightarrow> int" where
  "micro_of_float x = (let n = f_trunc (f_mul x 1000000) in if in_int64 n then n else min_int64)"

definition write_rate :: "string \<Rightarrow> pricingWriteRequest \<Rightarrow> Rate" where
  "write_rate model req = \<lparr>rt_Model = model, rt_Currency = pw_Currency req,
     rt_InputPer1kMicro = (case pw_InputPer1kMicro req of Some n \<Rightarrow> n | None \<Rightarrow> micro_of_float (pw_InputPer1k req)),
     rt_OutputPer1kMicro = (case pw_OutputPer1kMicro req of Some n \<Rightarrow> n | None \<Rightarrow> micro_of_float (pw_OutputPer1k req)),
     rt_UpdatedAt = zero_time\<rparr>"

definition empty_rate :: Rate where
  "empty_rate = \<lparr>rt_Model = [], rt_Currency = [], rt_InputPer1kMicro = 0, rt_OutputPer1kMicro = 0, rt_UpdatedAt = zero_time\<rparr>"

definition upsertPricing :: "'k admin_deps \<Rightarrow> admin_call \<Rightarrow> 'k admin_state handler" where
  "upsertPricing deps c r w s =
     (let fail = (\<lambda>m. (Returned, writeError m (rq_ReqID r) w, s)); model = cl_param c
      in if model = [] then fail (invalid ''missing_model'' ''Field 'model' is required in path'')
         else case cl_body c of
           None \<Rightarrow> fail (invalid [] ''Failed to read request body'')
         | Some raw \<Rightarrow>
             (case decode_body (ax_parse deps) (dec_struct pricingWriteRequest_field
                 \<lparr>pw_Currency = [], pw_InputPer1k = 0, pw_OutputPer1k = 0, pw_InputPer1kMicro = None, pw_OutputPer1kMicro = None\<rparr>) raw of
                Inl m \<Rightarrow> fail m
              | Inr req \<Rightarrow>
                  (case Set (cl_now c) (write_rate model req) (ad_pricing s) of
                     (Some err, p) \<Rightarrow> (Returned, writeError (invalid [] (ax_text deps err)) (rq_ReqID r) w, s\<lparr>ad_pricing := p\<rparr>)
                   | (None, p) \<Rightarrow>
                       let stored = (case Lookup (pc_cache p) model of Some x \<Rightarrow> x | None \<Rightarrow> empty_rate)
                       in (Returned,
                           jsonEncode (pricingDTO_Marshal deps (dtoFromRate stored)) (WriteHeader 200 (set_header ''Content-Type'' ''application/json'' w)),
                           recordAudit deps r ActionPricingUpsert ''pricing_rule'' model
                             (Some (JObj [(''currency'', JStr (rt_Currency stored)), (''input_per_1k_micro'', JInt (rt_InputPer1kMicro stored)),
                               (''output_per_1k_micro'', JInt (rt_OutputPer1kMicro stored))])) (s\<lparr>ad_pricing := p\<rparr>)))))"

definition deletePricing :: "'k admin_deps \<Rightarrow> admin_call \<Rightarrow> 'k admin_state handler" where
  "deletePricing deps c r w s = (case Delete (cl_param c) (ad_pricing s) of
     (Inl _, p) \<Rightarrow> (Returned, writeError (internal ''Failed to delete pricing'') (rq_ReqID r) w, s\<lparr>ad_pricing := p\<rparr>)
   | (Inr False, p) \<Rightarrow> (Returned, writeError (not_priced (cl_param c)) (rq_ReqID r) w, s\<lparr>ad_pricing := p\<rparr>)
   | (Inr True, p) \<Rightarrow> (Returned, WriteHeader 204 w,
       recordAudit deps r ActionPricingDelete ''pricing_rule'' (cl_param c) None (s\<lparr>ad_pricing := p\<rparr>)))"

section \<open>Reading the audit log\<close>

definition parseAuditQuery :: "'k admin_deps \<Rightarrow> (string \<times> string list) list \<Rightarrow> mappedError + QueryOpts" where
  "parseAuditQuery deps query =
     (let q = query_get query
      in if q ''start'' = [] \<or> q ''end'' = [] then Inl (invalid ''missing_window'' ''Both 'start' and 'end' (RFC3339) are required'')
         else case ax_time deps (q ''start'') of
           None \<Rightarrow> Inl (invalid ''invalid_start'' ''Field 'start' must be RFC3339'')
         | Some start \<Rightarrow> (case ax_time deps (q ''end'') of
             None \<Rightarrow> Inl (invalid ''invalid_end'' ''Field 'end' must be RFC3339'')
           | Some stop \<Rightarrow> (case query_int (q ''limit'') 1 limit_err of
               Inl m \<Rightarrow> Inl m
             | Inr limit \<Rightarrow> (case query_int (q ''offset'') 0 offset_err of
                 Inl m \<Rightarrow> Inl m
               | Inr offset \<Rightarrow> Inr \<lparr>qo_Start = start, qo_End = stop, qo_ActorID = q ''actor_id'', qo_Action = q ''action'',
                   qo_TargetType = q ''target_type'', qo_Limit = limit, qo_Offset = offset\<rparr>))))"

definition auditDTO_Marshal :: "'k admin_deps \<Rightarrow> audit_Row \<Rightarrow> json" where
  "auditDTO_Marshal deps x = JObj (members [
     (''id'', True, JInt (ar_ID x)), (''occurred_at'', True, ax_time_json deps (ar_OccurredAt x)), (''actor_id'', True, JStr (ar_ActorID x)),
     (''actor_label'', True, JStr (ar_ActorLabel x)), (''action'', True, JStr (ar_Action x)), (''target_type'', True, JStr (ar_TargetType x)),
     (''target_id'', True, JStr (ar_TargetID x)), (''metadata'', True, ar_Metadata x),
     (''request_id'', ar_RequestID x \<noteq> [], JStr (ar_RequestID x))])"

definition audit_query_error :: "audit_error \<Rightarrow> mappedError" where
  "audit_query_error err = (case err of
     ErrWindowInvalid \<Rightarrow> invalid ''invalid_window'' ''audit: window invalid (start < end, both non-zero)''
   | ErrWindowTooWide \<Rightarrow> invalid ''window_too_wide'' ''Audit window must be <= 31d''
   | ErrNotConfigured \<Rightarrow> mapped 503 ''internal_error'' ''audit_disabled'' ''Audit log not configured (no DB)''
   | _ \<Rightarrow> internal ''Failed to query audit log'')"

definition adminAuditHandler :: "'k admin_deps \<Rightarrow> admin_call \<Rightarrow> 'k admin_state handler" where
  "adminAuditHandler deps c r w s = (case parseAuditQuery deps (cl_query c) of
     Inl m \<Rightarrow> (Returned, writeError m (rq_ReqID r) w, s)
   | Inr opts \<Rightarrow> (case audit_Query (ax_recorder deps) opts (ad_audit s) of
       Inl err \<Rightarrow> (Returned, writeError (audit_query_error err) (rq_ReqID r) w, s)
     | Inr (rows, n) \<Rightarrow>
         let nextOffset = qo_Offset opts + int (length rows)
         in (Returned, reply_json (JObj [(''items'', JArr (map (auditDTO_Marshal deps) rows)), (''next_offset'', JInt (if nextOffset \<ge> n then -1 else nextOffset)),
               (''object'', JStr ''list''), (''total'', JInt n)]) w, s)))"

section \<open>Lemmas: texts and prices\<close>

lemma contains_take_drop: "contains s sub = (\<exists>i \<le> length s. take (length sub) (drop i s) = sub)"
proof (induction s sub rule: contains.induct)
  case (1 sub)
  then show ?case by auto
next
  case (2 c s sub)
  have "(\<exists>i \<le> length (c # s). take (length sub) (drop i (c # s)) = sub) \<longleftrightarrow>
      take (length sub) (c # s) = sub \<or> (\<exists>i \<le> length s. take (length sub) (drop i s) = sub)"
    by (metis Suc_le_mono drop0 drop_Suc_Cons le0 length_Cons not0_implies_Suc)
  with 2 show ?case by (simp add: has_prefix_def)
qed

lemma admin_contains_eq: "admin_contains s sub = contains s sub"
proof
  assume "admin_contains s sub"
  then obtain i where "i < Suc (length s) - length sub" "take (length sub) (drop i s) = sub"
    by (auto simp: admin_contains_def list_ex_iff)
  then show "contains s sub" unfolding contains_take_drop by (intro exI [of _ i]) auto
next
  assume "contains s sub"
  then obtain i where i: "i \<le> length s" "take (length sub) (drop i s) = sub" by (auto simp: contains_take_drop)
  from arg_cong [OF i(2), where f = length] i(1) have "i < Suc (length s) - length sub" by auto
  with i(2) show "admin_contains s sub" by (auto simp: admin_contains_def list_ex_iff)
qed

text \<open>The text of a database error decides as well: one that mentions \<open>invalid\<close> passes for a validation error.\<close>

lemma validation_error_of_database:
  assumes "\<And>m e. text (Wrapped m e) = m @ '': '' @ text e" "contains (text e) ''invalid''"
  shows "isValidationError (text (Wrapped ''auth: insert api_key'' e))"
proof -
  have "contains (m @ t) sub" if "contains t sub" for m t sub :: string
    using that by (induction m) auto
  then show ?thesis using assms by (simp add: isValidationError_def admin_contains_eq has_prefix_def)
qed

text \<open>A price of 249 micro-units, sent back as the float the listing shows for it, is stored as 248.\<close>

lemma price_echo_drifts:
  "micro_of_float (pd_InputPer1k (dtoFromRate (empty_rate\<lparr>rt_InputPer1kMicro := 249\<rparr>))) = 248"
  by code_simp

lemma recordAudit_frame [simp]:
  "ad_auth (recordAudit deps r a t i m s) = ad_auth s" "ad_pricing (recordAudit deps r a t i m s) = ad_pricing s"
  by (simp_all add: recordAudit_def Let_def split: prod.splits)

text \<open>One more row, with the actor, the action and the request.\<close>

definition audited :: "request \<Rightarrow> Action \<Rightarrow> audit_log \<Rightarrow> audit_log \<Rightarrow> bool" where
  "audited r a l l' \<longleftrightarrow> (\<exists>row. al_rows l' = al_rows l @ [row] \<and> Some (ar_ActorID row) = map_option pr_ID (rq_Principal r) \<and>
     ar_Action row = action_string a \<and> ar_RequestID row = rq_ReqID r)"

lemma recordAudit_audited:
  assumes "rq_Principal r = Some p" "pr_ID p \<noteq> []" "ax_recorder deps = Postgres" "al_db_err (ad_audit s) = None"
    "t \<noteq> []" "i \<noteq> []" "has_inner_dot (action_string a)"
  shows "audited r a (ad_audit s) (ad_audit (recordAudit deps r a t i m s))"
  using assms by (simp add: recordAudit_def Record_def audited_def)

datatype admin_op = CreateKey | RevokeKey | UpsertPricing | DeletePricing

fun op_handler :: "admin_op \<Rightarrow> 'k admin_deps \<Rightarrow> admin_call \<Rightarrow> 'k admin_state handler" where
  "op_handler CreateKey = createKeyHandler"
| "op_handler RevokeKey = revokeKeyHandler"
| "op_handler UpsertPricing = upsertPricing"
| "op_handler DeletePricing = deletePricing"

fun op_action :: "admin_op \<Rightarrow> Action" where
  "op_action CreateKey = ActionKeyCreate"
| "op_action RevokeKey = ActionKeyRevoke"
| "op_action UpsertPricing = ActionPricingUpsert"
| "op_action DeletePricing = ActionPricingDelete"

text \<open>
  What each operation promises to the tables.  A created key is one more row, with the id and the
  hash of the secret generated for it, the label and the scopes of the request, and not
  revoked; a revoked key keeps its row, with the instant of its first revocation; a price is stored
  in the table and in the snapshot under its model, with the values of the request, or is gone
  from both.  Nothing else changes.
\<close>

definition key_created :: "'k admin_deps \<Rightarrow> admin_call \<Rightarrow> 'k auth_state \<Rightarrow> 'k auth_state \<Rightarrow> bool" where
  "key_created deps c a a' \<longleftrightarrow> (\<exists>raw body scopes secret row.
     cl_body c = Some raw \<and> decode_body (ax_decode deps) (dec_struct createKeyRequest_field \<lparr>ck_Label = [], ck_Scopes = []\<rparr>) raw = Inr body \<and>
     expandScopes (ck_Scopes body) = Inr scopes \<and> generateSecret (cl_random c) = Inr secret \<and>
     row = \<lparr>ak_ID = cl_uuid c, ak_Hash = ax_sha deps secret, ak_Name = ck_Label body, ak_Scopes = Blob (enc_scopes (Some scopes)),
       ak_CreatedAt = cl_now c, ak_LastUsedAt = None, ak_RevokedAt = None\<rparr> \<and>
     \<not> list_ex (\<lambda>r. ak_ID r = ak_ID row \<or> ak_Hash r = ak_Hash row) (as_rows a) \<and>
     a' = a\<lparr>as_rows := as_rows a @ [row]\<rparr>)"

definition key_revoked :: "admin_call \<Rightarrow> 'k auth_state \<Rightarrow> 'k auth_state \<Rightarrow> bool" where
  "key_revoked c a a' \<longleftrightarrow> (\<exists>r \<in> set (as_rows a). ak_ID r = cl_param c) \<and>
     list_all2 (\<lambda>r r'. r' = (if ak_ID r = cl_param c
         then r\<lparr>ak_RevokedAt := Some (case ak_RevokedAt r of None \<Rightarrow> cl_now c | Some t \<Rightarrow> t)\<rparr> else r)) (as_rows a) (as_rows a') \<and>
     as_db_err a' = as_db_err a"

definition price_stored :: "'k admin_deps \<Rightarrow> admin_call \<Rightarrow> pricing_state \<Rightarrow> pricing_state \<Rightarrow> bool" where
  "price_stored deps c p p' \<longleftrightarrow> (\<exists>raw req rate.
     cl_body c = Some raw \<and> decode_body (ax_parse deps) (dec_struct pricingWriteRequest_field
       \<lparr>pw_Currency = [], pw_InputPer1k = 0, pw_OutputPer1k = 0, pw_InputPer1kMicro = None, pw_OutputPer1kMicro = None\<rparr>) raw = Inr req \<and>
     rate = (write_rate (cl_param c) req)\<lparr>rt_Currency := (if pw_Currency req = [] then ''USD'' else pw_Currency req), rt_UpdatedAt := cl_now c\<rparr> \<and>
     rt_InputPer1kMicro rate \<ge> 0 \<and> rt_OutputPer1kMicro rate \<ge> 0 \<and>
     map_of (pc_table p') = (map_of (pc_table p))(cl_param c \<mapsto> rate) \<and>
     Lookup (pc_cache p') = (Lookup (pc_cache p))(cl_param c \<mapsto> rate) \<and> pc_db_err p' = pc_db_err p)"

definition price_deleted :: "admin_call \<Rightarrow> pricing_state \<Rightarrow> pricing_state \<Rightarrow> bool" where
  "price_deleted c p p' \<longleftrightarrow> map_of (pc_table p) (cl_param c) \<noteq> None \<and>
     map_of (pc_table p') = (map_of (pc_table p))(cl_param c := None) \<and>
     Lookup (pc_cache p') = (Lookup (pc_cache p))(cl_param c := None) \<and> pc_db_err p' = pc_db_err p"

fun op_effect :: "admin_op \<Rightarrow> 'k admin_deps \<Rightarrow> admin_call \<Rightarrow> 'k admin_state \<Rightarrow> 'k admin_state \<Rightarrow> bool" where
  "op_effect CreateKey deps c s s' \<longleftrightarrow> key_created deps c (ad_auth s) (ad_auth s') \<and> ad_pricing s' = ad_pricing s"
| "op_effect RevokeKey deps c s s' \<longleftrightarrow> key_revoked c (ad_auth s) (ad_auth s') \<and> ad_pricing s' = ad_pricing s"
| "op_effect UpsertPricing deps c s s' \<longleftrightarrow> price_stored deps c (ad_pricing s) (ad_pricing s') \<and> ad_auth s' = ad_auth s"
| "op_effect DeletePricing deps c s s' \<longleftrightarrow> price_deleted c (ad_pricing s) (ad_pricing s') \<and> ad_auth s' = ad_auth s"

text \<open>A refused request leaves the state as it was; one that is done has its effect and its row.\<close>

definition admin_refused :: "resp_writer \<Rightarrow> 'k admin_state \<Rightarrow> 'k admin_state \<Rightarrow> bool" where
  "admin_refused w' s s' \<longleftrightarrow> (\<exists>st. rw_status w' = Some st \<and> 400 \<le> st) \<and> s' = s"

definition admin_done ::
  "admin_op \<Rightarrow> 'k admin_deps \<Rightarrow> admin_call \<Rightarrow> request \<Rightarrow> resp_writer \<Rightarrow> 'k admin_state \<Rightarrow> 'k admin_state \<Rightarrow> bool" where
  "admin_done op deps c r w' s s' \<longleftrightarrow> (\<exists>st. rw_status w' = Some st \<and> st < 300) \<and>
     audited r (op_action op) (ad_audit s) (ad_audit s') \<and> op_effect op deps c s s'"

definition admin_ready :: "'k admin_deps \<Rightarrow> request \<Rightarrow> resp_writer \<Rightarrow> 'k admin_state \<Rightarrow> bool" where
  "admin_ready deps r w s \<longleftrightarrow> rw_status w = None \<and> (\<exists>p. rq_Principal r = Some p \<and> pr_ID p \<noteq> []) \<and>
     ax_recorder deps = Postgres \<and> al_db_err (ad_audit s) = None"

definition admin_outcome ::
  "admin_op \<Rightarrow> 'k admin_deps \<Rightarrow> admin_call \<Rightarrow> request \<Rightarrow> resp_writer \<Rightarrow> 'k admin_state \<Rightarrow> 'k admin_state \<Rightarrow> bool" where
  "admin_outcome op deps c r w' s s' \<longleftrightarrow> admin_refused w' s s' \<or> admin_done op deps c r w' s s'"

lemma refusedI:
  "admin_ready deps r w s \<Longrightarrow> 400 \<le> me_Status m \<Longrightarrow> s' = s \<Longrightarrow> admin_outcome op deps c r (writeError m i w) s s'"
  by (simp add: admin_outcome_def admin_refused_def writeError_status admin_ready_def)

lemma op_effect_audit [simp]: "op_effect op deps c s (recordAudit deps r a t i m s1) = op_effect op deps c s s1"
  by (cases op) simp_all

lemma has_inner_dot_actions: "has_inner_dot (action_string ActionKeyCreate)" "has_inner_dot (action_string ActionKeyRevoke)"
  "has_inner_dot (action_string ActionPricingUpsert)" "has_inner_dot (action_string ActionPricingDelete)"
  "has_inner_dot (action_string ActionProvidersReload)"
  by code_simp+

lemma has_inner_dot_action: "has_inner_dot (action_string (op_action op))"
  by (cases op) (simp_all add: has_inner_dot_actions)

lemma doneI:
  assumes "admin_ready deps r w s" "rw_status w' = Some st" "st < 300" "ad_audit s1 = ad_audit s" "t \<noteq> []" "i \<noteq> []" "op_effect op deps c s s1"
    "a = op_action op"
  shows "admin_outcome op deps c r w' s (recordAudit deps r a t i m s1)"
  using assms recordAudit_audited [of r _ deps s1 t i a m] has_inner_dot_action [of op] by (auto simp: admin_outcome_def admin_done_def admin_ready_def)

lemma error_status [simp]: "me_Status (invalid c m) = 400" "me_Status (internal m) = 500" "me_Status (not_priced m) = 404"
  "me_Status limit_err = 400" "me_Status offset_err = 400" "me_Status (mapped st t c m) = st"
  by (simp_all add: invalid_def internal_def not_priced_def limit_err_def offset_err_def mapped_def)

lemma Create_fails: "Create sha uid buf now name scopes a = (Inl err, a') \<Longrightarrow> a' = a"
  by (auto simp: Create_def Let_def split: if_splits sum.splits option.splits)

lemma Create_ID: "Create sha uid buf now name scopes a = (Inr (rec, secret), a') \<Longrightarrow> kr_ID rec = uid"
  by (auto simp: Create_def Let_def project_row_def split: if_splits sum.splits option.splits)

lemma Revoke_fails: "Revoke cache now i a = (Inl err, a') \<Longrightarrow> a' = a"
  by (auto simp: Revoke_def Let_def split: if_splits option.splits list.splits)

lemma Revoke_ID: "Revoke cache now i a = (Inr rec, a') \<Longrightarrow> kr_ID rec = i"
  by (auto simp: Revoke_def Let_def project_row_def revoke_row_def filter_eq_Cons_iff split: if_splits option.splits list.splits)

lemma decode_body_status: "decode_body parse dec raw = Inl m \<Longrightarrow> me_Status m = 400"
  by (auto simp: decode_body_def split: sum.splits option.splits)

text \<open>The effects of the operations on their tables.\<close>

lemma Create_effect:
  assumes "Create sha uid buf now name (Some scopes) a = (Inr (rec, secret), a')"
  shows "generateSecret buf = Inr secret"
    "a' = a\<lparr>as_rows := as_rows a @ [\<lparr>ak_ID = uid, ak_Hash = sha secret, ak_Name = name, ak_Scopes = Blob (enc_scopes (Some scopes)),
       ak_CreatedAt = now, ak_LastUsedAt = None, ak_RevokedAt = None\<rparr>]\<rparr>"
    "\<not> list_ex (\<lambda>r. ak_ID r = uid \<or> ak_Hash r = sha secret) (as_rows a)"
  using assms by (auto simp: Create_def Let_def split: if_splits sum.splits option.splits)

lemma Revoke_effect:
  assumes "Revoke cache (cl_now c) (cl_param c) a = (Inr rec, a')"
  shows "key_revoked c a a'"
proof -
  from assms have f: "filter (\<lambda>r. ak_ID r = cl_param c) (as_rows a) \<noteq> []"
    and a': "as_rows a' = map (\<lambda>r. if ak_ID r = cl_param c then revoke_row (cl_now c) r else r) (as_rows a)" "as_db_err a' = as_db_err a"
    by (auto simp: Revoke_def Let_def split: if_splits option.splits list.splits)
  from f have "\<exists>r \<in> set (as_rows a). ak_ID r = cl_param c" by (auto simp: filter_empty_conv)
  then show ?thesis unfolding key_revoked_def a' by (auto simp: list_all2_map2 list.rel_refl_strong revoke_row_def)
qed

lemma Set_effect:
  assumes "Set now (write_rate model req) p = (None, p')"
  defines "rate \<equiv> (write_rate model req)\<lparr>rt_Currency := (if pw_Currency req = [] then ''USD'' else pw_Currency req), rt_UpdatedAt := now\<rparr>"
  shows "rt_InputPer1kMicro rate \<ge> 0 \<and> rt_OutputPer1kMicro rate \<ge> 0 \<and> map_of (pc_table p') = (map_of (pc_table p))(model \<mapsto> rate) \<and>
    Lookup (pc_cache p') = (Lookup (pc_cache p))(model \<mapsto> rate) \<and> pc_db_err p' = pc_db_err p"
  using assms(1) unfolding rate_def
  by (auto simp: Set_def Let_def write_rate_def map_of_al_put Lookup_def replaceOne_def store_snapshot_def fun_eq_iff split: if_splits option.splits)

lemma Delete_effect:
  assumes "Delete (cl_param c) p = (Inr True, p')"
  shows "price_deleted c p p'"
  using assms by (auto simp: Delete_def price_deleted_def map_of_al_del Lookup_def removeOne_def store_snapshot_def fun_eq_iff split: option.splits)

lemma createKey_outcome:
  assumes "admin_ready deps r w s" "cl_uuid c \<noteq> []" "createKeyHandler deps c r w s = (e, w', s')"
  shows "admin_outcome CreateKey deps c r w' s s'"
proof -
  have w: "rw_status w = None" using assms(1) by (simp add: admin_ready_def)
  have eff: "op_effect CreateKey deps c s (s\<lparr>ad_auth := a\<rparr>)"
    if "cl_body c = Some raw" "decode_body (ax_decode deps) (dec_struct createKeyRequest_field \<lparr>ck_Label = [], ck_Scopes = []\<rparr>) raw = Inr body"
      "expandScopes (ck_Scopes body) = Inr scopes"
      "Create (ax_sha deps) (cl_uuid c) (cl_random c) (cl_now c) (ck_Label body) (Some scopes) (ad_auth s) = (Inr (rec, secret), a)"
    for raw body scopes rec secret a
    using that(1-3) Create_effect [OF that(4)] by (simp add: key_created_def)
  show ?thesis using assms w
    by (auto simp: createKeyHandler_def Let_def Create_ID decode_body_status simp del: op_effect.simps intro!: refusedI doneI [where st = 201] eff
      dest!: Create_fails split: option.splits sum.splits if_splits prod.splits)
qed

lemma revokeKey_outcome:
  assumes "admin_ready deps r w s" "revokeKeyHandler deps c r w s = (e, w', s')"
  shows "admin_outcome RevokeKey deps c r w' s s'"
proof -
  have w: "rw_status w = None" using assms(1) by (simp add: admin_ready_def)
  show ?thesis using assms w
    by (auto simp: revokeKeyHandler_def Let_def Revoke_ID reply_json_def intro!: refusedI doneI [where st = 200] Revoke_effect
      dest!: Revoke_fails split: option.splits sum.splits if_splits prod.splits)
qed

lemma upsertPricing_outcome:
  assumes "admin_ready deps r w s" "upsertPricing deps c r w s = (e, w', s')"
  shows "admin_outcome UpsertPricing deps c r w' s s'"
proof -
  have w: "rw_status w = None" using assms(1) by (simp add: admin_ready_def)
  have eff: "op_effect UpsertPricing deps c s (s\<lparr>ad_pricing := p\<rparr>)"
    if "cl_body c = Some raw" "decode_body (ax_parse deps) (dec_struct pricingWriteRequest_field
       \<lparr>pw_Currency = [], pw_InputPer1k = 0, pw_OutputPer1k = 0, pw_InputPer1kMicro = None, pw_OutputPer1kMicro = None\<rparr>) raw = Inr req"
      "Set (cl_now c) (write_rate (cl_param c) req) (ad_pricing s) = (None, p)" for raw req p
    using that(1,2) Set_effect [OF that(3)] by (simp add: price_stored_def)
  show ?thesis using assms w
    by (auto simp: upsertPricing_def Let_def decode_body_status simp del: op_effect.simps intro!: refusedI doneI [where st = 200] eff
      dest!: Set_fails split: option.splits sum.splits if_splits prod.splits)
qed

lemma deletePricing_outcome:
  assumes "admin_ready deps r w s" "cl_param c \<noteq> []" "deletePricing deps c r w s = (e, w', s')"
  shows "admin_outcome DeletePricing deps c r w' s s'"
proof -
  have w: "rw_status w = None" using assms(1) by (simp add: admin_ready_def)
  show ?thesis using assms w
    by (auto simp: deletePricing_def intro!: refusedI doneI [where st = 204] Delete_effect
      dest!: Delete_fails split: option.splits sum.splits if_splits prod.splits bool.splits)
qed

section \<open>Lemmas: scopes\<close>

text \<open>A category without a colon; \<open>scopePattern\<close> asks for more.\<close>

definition scope_name_ok :: "string \<Rightarrow> bool" where
  "scope_name_ok c \<longleftrightarrow> c \<noteq> [] \<and> CHR '':'' \<notin> set c"

lemma index_colon_tuple: "CHR '':'' \<notin> set c \<Longrightarrow> index_colon (c @ CHR '':'' # v) = length c"
  unfolding index_colon_def by (subst takeWhile_append2) auto

lemma tuple_unique: "CHR '':'' \<notin> set c \<Longrightarrow> CHR '':'' \<notin> set d \<Longrightarrow> c @ CHR '':'' # v = d @ CHR '':'' # w \<longleftrightarrow> c = d \<and> v = w"
  using index_colon_tuple [of c v] index_colon_tuple [of d w] by (metis append_eq_append_conv list.inject)

lemma expand_loop_values:
  assumes "\<forall>t \<in> set flat. \<exists>c v. t = c @ CHR '':'' # v \<and> scope_name_ok c \<and> v \<noteq> []"
  shows "\<exists>out'. expand_loop flat seen out = Inr out' \<and> (\<forall>c v. scope_name_ok c \<longrightarrow> (v \<in> set (scope_values (Some out') c) \<longleftrightarrow>
    v \<in> set (scope_values (Some out) c) \<or> (c @ CHR '':'' # v \<in> set flat \<and> c @ CHR '':'' # v \<notin> seen)))"
  using assms
proof (induction flat arbitrary: seen out)
  case (Cons t flat)
  obtain c v where t: "t = c @ CHR '':'' # v" "scope_name_ok c" "v \<noteq> []" using Cons.prems by auto
  have idx: "index_colon t = length c" using t index_colon_tuple by (simp add: scope_name_ok_def)
  have go: "\<not> (index_colon t = length t \<or> index_colon t = 0 \<or> index_colon t = length t - 1)"
    using t unfolding idx by (simp add: scope_name_ok_def)
  have parts: "take (index_colon t) t = c" "drop (index_colon t + 1) t = v" unfolding idx using t by simp_all
  have rest: "\<forall>t \<in> set flat. \<exists>c v. t = c @ CHR '':'' # v \<and> scope_name_ok c \<and> v \<noteq> []" using Cons.prems by simp
  show ?case
  proof (cases "t \<in> seen")
    case True
    from Cons.IH [OF rest, of seen out] True go show ?thesis by (fastforce simp: Let_def)
  next
    case False
    let ?out = "al_put c (scope_values (Some out) c @ [v]) out"
    have vals: "scope_values (Some ?out) d = (if d = c then scope_values (Some out) c @ [v] else scope_values (Some out) d)" for d
      by (simp add: scope_values_def map_of_al_put)
    have eq: "expand_loop (t # flat) seen out = expand_loop flat (insert t seen) ?out"
      using go False parts by (simp add: Let_def scope_values_def)
    obtain out' where o: "expand_loop flat (insert t seen) ?out = Inr out'"
      and m: "scope_name_ok d \<Longrightarrow> u \<in> set (scope_values (Some out') d) \<longleftrightarrow>
        u \<in> set (scope_values (Some ?out) d) \<or> (d @ CHR '':'' # u \<in> set flat \<and> d @ CHR '':'' # u \<notin> insert t seen)" for d u
      using Cons.IH [OF rest, of "insert t seen" ?out] by blast
    have "u \<in> set (scope_values (Some out') d) \<longleftrightarrow>
        u \<in> set (scope_values (Some out) d) \<or> (d @ CHR '':'' # u \<in> set (t # flat) \<and> d @ CHR '':'' # u \<notin> seen)" if "scope_name_ok d" for d u
      using m [OF that, of u] False t(1) tuple_unique [of d c u v] that t(2) by (auto simp: vals scope_name_ok_def)
    with eq o show ?thesis by auto
  qed
qed simp

lemma mem_flattenScopes:
  "t \<in> set (flattenScopes m) \<longleftrightarrow> (\<exists>c vs v. (c, vs) \<in> set m \<and> v \<in> set vs \<and> t = c @ CHR '':'' # v)"
  by (auto simp: flattenScopes_def)

section \<open>Properties\<close>

text \<open>
  C33: No admin change goes unrecorded, and none is recorded that did not happen.  With the audit
  table writable, creating or revoking a key and setting or deleting a price ends in one of two
  ways: an error status and a state that is exactly what it was; or a success status, exactly the
  change asked for (one more key row with the requested label and scopes, the row marked as
  revoked, the price stored in table and snapshot, or removed from both) and exactly one new
  audit row, with the acting principal, the action and the request id.
\<close>

theorem admin_changes_audited:
  assumes "admin_ready deps r w s" "cl_uuid c \<noteq> []" "cl_param c \<noteq> []" "op_handler op deps c r w s = (e, w', s')"
  shows "admin_refused w' s s' \<or> admin_done op deps c r w' s s'"
  unfolding admin_outcome_def [symmetric] using assms createKey_outcome revokeKey_outcome upsertPricing_outcome deletePricing_outcome
  by (cases op) simp_all

definition demo_admin :: "(string \<rightharpoonup> blob) admin_deps" where
  "demo_admin = \<lparr>ax_sha = (\<lambda>s. s), ax_cache = None, ax_recorder = Postgres,
     ax_parse = (\<lambda>s. Inr (JObj [(''input_per_1k_micro'', JInt 249), (''output_per_1k_micro'', JInt 500)])), ax_decode = (\<lambda>s. Inl ''syntax''),
     ax_time = (\<lambda>s. None), ax_time_json = JInt, ax_text = (\<lambda>e. [])\<rparr>"

definition demo_admin_state :: "(string \<rightharpoonup> blob) admin_state" where
  "demo_admin_state = \<lparr>ad_auth = \<lparr>as_rows = [], as_db_err = None, as_kv = Map.empty\<rparr>,
     ad_pricing = \<lparr>pc_cache = NewPricingCache, pc_table = [], pc_db_err = None\<rparr>,
     ad_audit = \<lparr>al_rows = [], al_next = 1, al_now = 77, al_db_err = None\<rparr>\<rparr>"

definition demo_admin_call :: admin_call where
  "demo_admin_call = \<lparr>cl_param = ''gpt'', cl_query = [], cl_body = Some ''x'', cl_uuid = ''u'', cl_random = Inr [], cl_now = 77\<rparr>"

definition demo_admin_request :: request where
  "demo_admin_request = \<lparr>rq_Method = ''PUT'', rq_Path = ''/admin/pricing/gpt'', rq_Header = [], rq_ReqID = ''q7'',
     rq_Principal = Some \<lparr>pr_ID = ''root'', pr_Name = ''Root'', pr_Scopes = None\<rparr>\<rparr>"

theorem admin_changes_audited_witness:
  "let s' = snd (snd (op_handler UpsertPricing demo_admin demo_admin_call demo_admin_request (new_writer (\<lambda>_. True) True) demo_admin_state))
   in (\<exists>row. al_rows (ad_audit s') = [row] \<and> ar_ActorID row = ''root'' \<and> ar_Action row = ''pricing.upsert'') \<and>
      map_option rt_InputPer1kMicro (Lookup (pc_cache (ad_pricing s')) ''gpt'') = Some 249"
proof -
  let ?w = "new_writer (\<lambda>_. True) True" and ?h = "op_handler UpsertPricing demo_admin demo_admin_call demo_admin_request (new_writer (\<lambda>_. True) True) demo_admin_state"
  obtain e w' s' where h: "?h = (e, w', s')" by (metis prod_cases3)
  have ready: "admin_ready demo_admin demo_admin_request ?w demo_admin_state"
    by (simp add: admin_ready_def demo_admin_def demo_admin_request_def demo_admin_state_def new_writer_def)
  have c: "cl_uuid demo_admin_call \<noteq> []" "cl_param demo_admin_call \<noteq> []" by (simp_all add: demo_admin_call_def)
  have "rw_status (fst (snd ?h)) = Some 200" by code_simp
  then have "\<not> admin_refused w' demo_admin_state s'" unfolding h admin_refused_def by simp
  with admin_changes_audited [OF ready c h] have d: "admin_done UpsertPricing demo_admin demo_admin_call demo_admin_request w' demo_admin_state s'" by blast
  have body: "decode_body (ax_parse demo_admin) (dec_struct pricingWriteRequest_field
       \<lparr>pw_Currency = [], pw_InputPer1k = 0, pw_OutputPer1k = 0, pw_InputPer1kMicro = None, pw_OutputPer1kMicro = None\<rparr>) ''x'' =
      Inr \<lparr>pw_Currency = [], pw_InputPer1k = 0, pw_OutputPer1k = 0, pw_InputPer1kMicro = Some 249, pw_OutputPer1kMicro = Some 500\<rparr>" by code_simp
  from d have "price_stored demo_admin demo_admin_call (ad_pricing demo_admin_state) (ad_pricing s')" by (simp add: admin_done_def)
  then have "map_option rt_InputPer1kMicro (Lookup (pc_cache (ad_pricing s')) ''gpt'') = Some 249"
    using body by (auto simp: price_stored_def demo_admin_call_def write_rate_def)
  with d show ?thesis unfolding h Let_def snd_conv
    by (auto simp: admin_done_def audited_def demo_admin_request_def demo_admin_state_def)
qed

text \<open>
  The flat scopes the admin API shows for a key, sent back to create another key, are
  accepted and grant exactly what the original grants.
\<close>

lemma scopes_roundtrip:
  assumes "distinct (map fst m)" "\<forall>(c, vs) \<in> set m. scope_name_ok c \<and> [] \<notin> set vs"
  shows "\<exists>m'. expandScopes (flattenScopes m) = Inr m' \<and>
    (\<forall>c v p. scope_name_ok c \<longrightarrow> HasScope (Some (p\<lparr>pr_Scopes := Some m'\<rparr>)) c v = HasScope (Some (p\<lparr>pr_Scopes := Some m\<rparr>)) c v)"
proof -
  have "\<forall>t \<in> set (flattenScopes m). \<exists>c v. t = c @ CHR '':'' # v \<and> scope_name_ok c \<and> v \<noteq> []"
    using assms(2) by (fastforce simp: mem_flattenScopes)
  from expand_loop_values [OF this, of "{}" "[]"] obtain m' where m': "expandScopes (flattenScopes m) = Inr m'"
    and v: "\<And>c v. scope_name_ok c \<Longrightarrow> v \<in> set (scope_values (Some m') c) \<longleftrightarrow> c @ CHR '':'' # v \<in> set (flattenScopes m)"
    by (auto simp: expandScopes_def scope_values_def)
  have "c @ CHR '':'' # v \<in> set (flattenScopes m) \<longleftrightarrow> v \<in> set (scope_values (Some m) c)" if "scope_name_ok c" for c v
  proof
    assume "c @ CHR '':'' # v \<in> set (flattenScopes m)"
    then obtain d vs u where d: "(d, vs) \<in> set m" "u \<in> set vs" "c @ CHR '':'' # v = d @ CHR '':'' # u" by (auto simp: mem_flattenScopes)
    with assms(2) that tuple_unique [of c d v u] have "c = d \<and> v = u" by (auto simp: scope_name_ok_def)
    with d assms(1) show "v \<in> set (scope_values (Some m) c)" by (auto simp: scope_values_def)
  next
    assume "v \<in> set (scope_values (Some m) c)"
    then obtain vs where "map_of m c = Some vs" "v \<in> set vs" by (cases "map_of m c") (simp_all add: scope_values_def)
    then show "c @ CHR '':'' # v \<in> set (flattenScopes m)" unfolding mem_flattenScopes by (metis map_of_SomeD)
  qed
  with m' v show ?thesis by (auto simp: HasScope_def list_ex_iff)
qed

lemma scopes_roundtrip_witness:
  "\<exists>m'. expandScopes (flattenScopes [(''admin'', [''webui'', ''pricing''])]) = Inr m' \<and>
     HasScope (Some \<lparr>pr_ID = ''k'', pr_Name = [], pr_Scopes = Some m'\<rparr>) ''admin'' ''pricing''"
proof -
  let ?m = "[(''admin'', [''webui'', ''pricing''])]" and ?p = "\<lparr>pr_ID = ''k'', pr_Name = [], pr_Scopes = None\<rparr>"
  have m: "distinct (map fst ?m)" "\<forall>(c, vs) \<in> set ?m. scope_name_ok c \<and> [] \<notin> set vs" "scope_name_ok ''admin''" by (simp_all add: scope_name_ok_def)
  from scopes_roundtrip [OF m(1,2)] obtain m' where e: "expandScopes (flattenScopes ?m) = Inr m'"
    and h: "HasScope (Some (?p\<lparr>pr_Scopes := Some m'\<rparr>)) ''admin'' ''pricing'' = HasScope (Some (?p\<lparr>pr_Scopes := Some ?m\<rparr>)) ''admin'' ''pricing''"
    using m(3) by blast
  have "HasScope (Some (?p\<lparr>pr_Scopes := Some ?m\<rparr>)) ''admin'' ''pricing''" by code_simp
  with e h show ?thesis by auto
qed

end
