(* ===== verification/Registry.thy ===== *)
theory Registry
  imports Adapters "HOL-Library.Sublist"
begin

text \<open>
  \<open>internal/provider/registry\<close>: the provider table (\<open>registry.go\<close>), its lookups and the
  construction of a table from the parsed \<open>providers.yaml\<close> (\<open>loader.go\<close>).  Reading the
  file, expanding the environment and parsing YAML happen before \<open>build\<close>.  The atomic
  pointer to the table is the table itself: an operation reads it once, so it works on one
  value, and \<open>Swap\<close> replaces the value.
\<close>

section \<open>The provider table\<close>

record globRule =
  g_pattern :: string
  g_provider :: Provider

record registryState =
  names :: "string list"
  byName :: "string \<rightharpoonup> Provider"
  exactIndex :: "string \<rightharpoonup> Provider"
  globRules :: "globRule list"
  defaultProvider :: "Provider option"

definition NewEmpty :: registryState where
  "NewEmpty = \<lparr>names = [], byName = Map.empty, exactIndex = Map.empty, globRules = [],
     defaultProvider = None\<rparr>"

definition Swap :: "registryState \<Rightarrow> registryState \<Rightarrow> registryState" where
  "Swap r from = from"

definition GetByName :: "registryState \<Rightarrow> string \<Rightarrow> goerr + Provider" where
  "GetByName st name =
     (case byName st name of None \<Rightarrow> Inl (Wrapped name ErrUnknownProvider) | Some p \<Rightarrow> Inr p)"

text \<open>The closure \<open>add\<close> of \<open>ResolveChain\<close>, over the names seen and the chain so far.\<close>

definition chain_add ::
    "Provider option \<Rightarrow> string set \<times> Provider list \<Rightarrow> string set \<times> Provider list" where
  "chain_add po sc = (case po of
     None \<Rightarrow> sc
   | Some p \<Rightarrow>
       (if Name p \<in> fst sc then sc else (insert (Name p) (fst sc), snd sc @ [p])))"

definition glob_hit :: "string \<Rightarrow> globRule \<Rightarrow> Provider option" where
  "glob_hit model rule = (case path_match (g_pattern rule) model of
     None \<Rightarrow> None
   | Some matched \<Rightarrow> if matched then Some (g_provider rule) else None)"

definition ResolveChain :: "registryState \<Rightarrow> string \<Rightarrow> Provider list" where
  "ResolveChain st model =
     (let s0 = ({}, []);
          s1 = (case exactIndex st model of Some p \<Rightarrow> chain_add (Some p) s0 | None \<Rightarrow> s0);
          s2 = foldl (\<lambda>s rule. chain_add (glob_hit model rule) s) s1 (globRules st);
          s3 = chain_add (defaultProvider st) s2
      in snd s3)"

definition ResolveModel :: "registryState \<Rightarrow> string \<Rightarrow> goerr + Provider" where
  "ResolveModel st model = (case ResolveChain st model of
     [] \<Rightarrow> Inl (Wrapped model ErrNoProviderForModel)
   | p # _ \<Rightarrow> Inr p)"

definition Names :: "registryState \<Rightarrow> string list" where
  "Names st = names st"

text \<open>The two nested loops of \<open>AllModels\<close> over the ids seen and the output so far.\<close>

definition models_step ::
    "string set \<times> ModelInfo list \<Rightarrow> ModelInfo \<Rightarrow> string set \<times> ModelInfo list" where
  "models_step so m =
     (if mi_ID m \<in> fst so then so else (insert (mi_ID m) (fst so), snd so @ [m]))"

definition AllModels :: "registryState \<Rightarrow> ModelInfo list" where
  "AllModels st =
     (let so = foldl (\<lambda>so name. case byName st name of
                   Some p \<Rightarrow> foldl models_step so (SupportedModels p)
                 | None \<Rightarrow> so) ({}, []) (names st)
      in sort_key mi_ID (snd so))"

section \<open>Loading\<close>

record providerConfig =
  pc_Name :: string
  pc_Type :: string
  pc_Endpoint :: string
  pc_APIKey :: string
  pc_Organization :: string
  pc_Timeout :: duration
  pc_Priority :: int
  pc_Exact :: "string list"
  pc_Glob :: "string list"

record providersFile =
  pf_Providers :: "providerConfig list"
  pf_DefaultProvider :: string

datatype load_error =
    EmptyProviders
  | NameMissing nat | TypeMissing nat | ModelsMissing nat
  | DuplicateName nat string
  | ConstructFailed nat string new_error | UnknownType nat string string
  | ExactTaken nat string string string
  | InvalidGlob nat string string
  | DefaultNotRegistered string

definition validateProviderConfig :: "nat \<Rightarrow> providerConfig \<Rightarrow> load_error list" where
  "validateProviderConfig idx pc =
     (if pc_Name pc = [] then [NameMissing idx] else []) @
     (if pc_Type pc = [] then [TypeMissing idx] else []) @
     (if pc_Exact pc = [] \<and> pc_Glob pc = [] then [ModelsMissing idx] else [])"

definition constructProvider :: "nat \<Rightarrow> providerConfig \<Rightarrow> load_error + Provider" where
  "constructProvider i pc =
     (if pc_Type pc = ''openai'' then
        (case openai_New \<lparr>oc_Name = pc_Name pc, oc_Endpoint = pc_Endpoint pc, oc_APIKey = pc_APIKey pc,
             oc_Organization = pc_Organization pc, oc_Timeout = pc_Timeout pc,
             oc_Exact = pc_Exact pc, oc_Glob = pc_Glob pc, oc_OwnedBy = []\<rparr> of
           Inl e \<Rightarrow> Inl (ConstructFailed i (pc_Name pc) e) | Inr p \<Rightarrow> Inr (OpenAI p))
      else if pc_Type pc = ''deepseek'' then
        (case deepseek_New \<lparr>dc_Name = pc_Name pc, dc_Endpoint = pc_Endpoint pc, dc_APIKey = pc_APIKey pc,
             dc_Timeout = pc_Timeout pc, dc_Exact = pc_Exact pc, dc_Glob = pc_Glob pc\<rparr> of
           Inl e \<Rightarrow> Inl (ConstructFailed i (pc_Name pc) e) | Inr p \<Rightarrow> Inr (OpenAI p))
      else if pc_Type pc = ''anthropic'' then
        (case anthropic_New \<lparr>ac_Name = pc_Name pc, ac_Endpoint = pc_Endpoint pc, ac_APIKey = pc_APIKey pc,
             ac_APIVersion = [], ac_Timeout = pc_Timeout pc, ac_DefaultMaxTokens = 0,
             ac_Exact = pc_Exact pc, ac_Glob = pc_Glob pc\<rparr> of
           Inl e \<Rightarrow> Inl (ConstructFailed i (pc_Name pc) e) | Inr p \<Rightarrow> Inr (Anthropic p))
      else Inl (UnknownType i (pc_Name pc) (pc_Type pc)))"

text \<open>The loop state of \<open>build\<close>: the table, the owners of exact ids, the errors so far.\<close>

record build_state =
  bs_st :: registryState
  bs_exactOwner :: "string \<rightharpoonup> string"
  bs_errs :: "load_error list"

definition build_exact :: "nat \<Rightarrow> string \<Rightarrow> Provider \<Rightarrow> build_state \<Rightarrow> string \<Rightarrow> build_state" where
  "build_exact i pname p bs m = (case bs_exactOwner bs m of
     Some owner \<Rightarrow> bs\<lparr>bs_errs := bs_errs bs @ [ExactTaken i pname m owner]\<rparr>
   | None \<Rightarrow> bs\<lparr>bs_exactOwner := (bs_exactOwner bs)(m \<mapsto> pname),
                bs_st := (bs_st bs)\<lparr>exactIndex := (exactIndex (bs_st bs))(m \<mapsto> p)\<rparr>\<rparr>)"

definition build_glob :: "nat \<Rightarrow> string \<Rightarrow> Provider \<Rightarrow> build_state \<Rightarrow> string \<Rightarrow> build_state" where
  "build_glob i pname p bs g = (case path_match g [] of
     None \<Rightarrow> bs\<lparr>bs_errs := bs_errs bs @ [InvalidGlob i pname g]\<rparr>
   | Some _ \<Rightarrow> bs\<lparr>bs_st := (bs_st bs)\<lparr>globRules := globRules (bs_st bs) @
                 [\<lparr>g_pattern = g, g_provider = p\<rparr>]\<rparr>\<rparr>)"

definition build_provider :: "build_state \<Rightarrow> nat \<times> providerConfig \<Rightarrow> build_state" where
  "build_provider bs ipc = (case ipc of (i, pc) \<Rightarrow>
     (let errs = validateProviderConfig i pc in
      if errs \<noteq> [] then bs\<lparr>bs_errs := bs_errs bs @ errs\<rparr>
      else if byName (bs_st bs) (pc_Name pc) \<noteq> None
        then bs\<lparr>bs_errs := bs_errs bs @ [DuplicateName i (pc_Name pc)]\<rparr>
      else case constructProvider i pc of
        Inl e \<Rightarrow> bs\<lparr>bs_errs := bs_errs bs @ [e]\<rparr>
      | Inr p \<Rightarrow>
          (let st = bs_st bs;
               bs1 = bs\<lparr>bs_st := st\<lparr>names := names st @ [pc_Name pc],
                                    byName := (byName st)(pc_Name pc \<mapsto> p)\<rparr>\<rparr>;
               bs2 = foldl (build_exact i (pc_Name pc) p) bs1 (pc_Exact pc)
           in foldl (build_glob i (pc_Name pc) p) bs2 (pc_Glob pc))))"

definition build_default :: "string \<Rightarrow> build_state \<Rightarrow> build_state" where
  "build_default d bs =
     (if d = [] then bs
      else case byName (bs_st bs) d of
        None \<Rightarrow> bs\<lparr>bs_errs := bs_errs bs @ [DefaultNotRegistered d]\<rparr>
      | Some p \<Rightarrow> bs\<lparr>bs_st := (bs_st bs)\<lparr>defaultProvider := Some p\<rparr>\<rparr>)"

definition build_init :: build_state where
  "build_init = \<lparr>bs_st = NewEmpty, bs_exactOwner = Map.empty, bs_errs = []\<rparr>"

definition build :: "providersFile \<Rightarrow> load_error list + registryState" where
  "build pf =
     (if pf_Providers pf = [] then Inl [EmptyProviders]
      else let bs = build_default (pf_DefaultProvider pf)
                  (foldl build_provider build_init (enumerate 0 (pf_Providers pf)))
           in if bs_errs bs \<noteq> [] then Inl (bs_errs bs) else Inr (bs_st bs))"

section \<open>Resolution\<close>

text \<open>The candidates of a model, tier by tier, before duplicates are dropped.\<close>

definition candidates :: "registryState \<Rightarrow> string \<Rightarrow> Provider list" where
  "candidates st model =
     (case exactIndex st model of Some p \<Rightarrow> [p] | None \<Rightarrow> []) @
     List.map_filter (glob_hit model) (globRules st) @
     (case defaultProvider st of Some p \<Rightarrow> [p] | None \<Rightarrow> [])"

text \<open>Keep the first provider of every name.\<close>

fun first_by_name :: "string set \<Rightarrow> Provider list \<Rightarrow> Provider list" where
  "first_by_name seen [] = []"
| "first_by_name seen (p # ps) =
     (if Name p \<in> seen then first_by_name seen ps
      else p # first_by_name (insert (Name p) seen) ps)"

definition chain_push :: "string set \<times> Provider list \<Rightarrow> Provider \<Rightarrow> string set \<times> Provider list" where
  "chain_push sc p = chain_add (Some p) sc"

lemma foldl_chain_push:
  "foldl chain_push (seen, ch) ps =
     (seen \<union> Name ` set ps, ch @ first_by_name seen ps)"
  by (induction ps arbitrary: seen ch) (auto simp: chain_push_def chain_add_def)

lemma foldl_glob_hit:
  "foldl (\<lambda>s rule. chain_add (glob_hit model rule) s) sc rules =
   foldl chain_push sc (List.map_filter (glob_hit model) rules)"
  by (induction rules arbitrary: sc)
     (auto simp: chain_push_def chain_add_def List.map_filter_simps split: option.splits)

lemma ResolveChain_candidates: "ResolveChain st model = first_by_name {} (candidates st model)"
proof -
  have exact: "(case exactIndex st model of Some p \<Rightarrow> chain_add (Some p) ({}, []) | None \<Rightarrow> ({}, []))
      = foldl chain_push ({}, []) (case exactIndex st model of Some p \<Rightarrow> [p] | None \<Rightarrow> [])"
    by (auto simp: chain_push_def split: option.splits)
  have default: "chain_add (defaultProvider st) sc
      = foldl chain_push sc (case defaultProvider st of Some p \<Rightarrow> [p] | None \<Rightarrow> [])" for sc
    by (auto simp: chain_push_def chain_add_def split: option.splits)
  have "ResolveChain st model = snd (foldl chain_push ({}, []) (candidates st model))"
    unfolding ResolveChain_def Let_def foldl_glob_hit exact default
    by (simp add: candidates_def)
  then show ?thesis by (simp add: foldl_chain_push)
qed

lemma first_by_name_names:
  "Name ` set (first_by_name seen ps) = Name ` set ps - seen"
  by (induction ps arbitrary: seen) auto

lemma first_by_name_subset: "set (first_by_name seen ps) \<subseteq> set ps"
  by (induction ps arbitrary: seen) auto

lemma first_by_name_distinct:
  "distinct (map Name (first_by_name seen ps)) \<and> Name ` set (first_by_name seen ps) \<inter> seen = {}"
  by (induction ps arbitrary: seen) auto

lemma first_by_name_Nil: "first_by_name {} ps = [] \<longleftrightarrow> ps = []"
  by (cases ps) auto

lemma first_by_name_hd: "ps \<noteq> [] \<Longrightarrow> hd (first_by_name {} ps) = hd ps"
  by (cases ps) auto

section \<open>The resolver contract\<close>

text \<open>
  What the router relies on of a \<open>ModelResolver\<close> (\<open>router.go\<close>): resolution of a model is
  the head of its chain, and a chain names each provider once.
\<close>

locale model_resolver =
  fixes resolve_model :: "'r \<Rightarrow> string \<Rightarrow> goerr + Provider"
    and resolve_chain :: "'r \<Rightarrow> string \<Rightarrow> Provider list"
  assumes model_hd: "resolve_chain r m = p # ps \<Longrightarrow> resolve_model r m = Inr p"
    and model_none: "resolve_chain r m = [] \<Longrightarrow> resolve_model r m = Inl (Wrapped m ErrNoProviderForModel)"
    and chain_distinct: "distinct (map Name (resolve_chain r m))"
begin

lemma resolve_ok_iff: "(\<exists>p. resolve_model r m = Inr p) \<longleftrightarrow> resolve_chain r m \<noteq> []"
  by (cases "resolve_chain r m") (auto simp: model_hd model_none)

lemma resolve_model_in_chain: "resolve_model r m = Inr p \<Longrightarrow> p \<in> set (resolve_chain r m)"
  by (cases "resolve_chain r m") (auto simp: model_hd model_none)

lemma chain_length_le: "Name ` set (resolve_chain r m) \<subseteq> N \<Longrightarrow> finite N \<Longrightarrow> length (resolve_chain r m) \<le> card N"
  using chain_distinct [of r m] by (metis card_mono distinct_card length_map list.set_map)

end

interpretation reg: model_resolver ResolveModel ResolveChain
proof unfold_locales
  show "distinct (map Name (ResolveChain r m))" for r m
    by (simp add: ResolveChain_candidates first_by_name_distinct)
qed (simp_all add: ResolveModel_def)

section \<open>Well-formed tables\<close>

definition registered :: "registryState \<Rightarrow> Provider \<Rightarrow> bool" where
  "registered st p \<longleftrightarrow> byName st (Name p) = Some p"

definition wf_registry :: "registryState \<Rightarrow> bool" where
  "wf_registry st \<longleftrightarrow>
     distinct (names st) \<and>
     dom (byName st) = set (names st) \<and>
     (\<forall>p \<in> ran (byName st). registered st p) \<and>
     (\<forall>p \<in> ran (exactIndex st). registered st p) \<and>
     (\<forall>r \<in> set (globRules st). path_match (g_pattern r) [] \<noteq> None \<and> registered st (g_provider r)) \<and>
     (\<forall>p \<in> set_option (defaultProvider st). registered st p)"

lemma registered_frame [simp]:
  "registered (st\<lparr>names := ns\<rparr>) p = registered st p"
  "registered (st\<lparr>exactIndex := ei\<rparr>) p = registered st p"
  "registered (st\<lparr>globRules := gs\<rparr>) p = registered st p"
  "registered (st\<lparr>defaultProvider := d\<rparr>) p = registered st p"
  by (simp_all add: registered_def)

lemma wf_registry_empty [simp]: "wf_registry NewEmpty"
  by (simp add: wf_registry_def NewEmpty_def)

lemma wf_registry_add_name:
  assumes wf: "wf_registry st" and new: "byName st (Name p) = None"
  shows "wf_registry (st\<lparr>names := names st @ [Name p], byName := (byName st)(Name p \<mapsto> p)\<rparr>)"
    (is "wf_registry ?st'")
proof -
  have keep: "registered ?st' q" if "registered st q" for q
    using that new by (auto simp: registered_def)
  have "Name p \<notin> set (names st)" using wf new by (auto simp: wf_registry_def)
  moreover have "ran (byName ?st') = insert p (ran (byName st))" using new by simp
  moreover have "registered ?st' p" by (simp add: registered_def)
  ultimately show ?thesis using wf keep by (simp add: wf_registry_def)
qed

lemma wf_registry_exact:
  assumes "wf_registry st" "registered st p" "exactIndex st m = None"
  shows "wf_registry (st\<lparr>exactIndex := (exactIndex st)(m \<mapsto> p)\<rparr>)"
  using assms by (simp add: wf_registry_def)

lemma wf_registry_glob:
  assumes "wf_registry st" "registered st p" "path_match g [] \<noteq> None"
  shows "wf_registry (st\<lparr>globRules := globRules st @ [\<lparr>g_pattern = g, g_provider = p\<rparr>]\<rparr>)"
  using assms by (simp add: wf_registry_def)

lemma constructProvider_Name: "constructProvider i pc = Inr p \<Longrightarrow> Name p = pc_Name pc"
  by (auto simp: constructProvider_def dest!: New_Name split: if_splits sum.splits)

section \<open>The loader's loop\<close>

text \<open>Errors only accumulate, and nothing is taken out of the table.\<close>

definition extends :: "build_state \<Rightarrow> build_state \<Rightarrow> bool" where
  "extends a b \<longleftrightarrow> (bs_errs b = [] \<longrightarrow> bs_errs a = []) \<and>
     byName (bs_st a) \<subseteq>\<^sub>m byName (bs_st b) \<and> exactIndex (bs_st a) \<subseteq>\<^sub>m exactIndex (bs_st b) \<and>
     set (globRules (bs_st a)) \<subseteq> set (globRules (bs_st b))"

lemma extends_refl [simp]: "extends a a"
  by (simp add: extends_def)

lemma extends_trans: "extends a b \<Longrightarrow> extends b c \<Longrightarrow> extends a c"
  unfolding extends_def by (meson map_le_trans subset_trans)

text \<open>
  The loop invariant: the table is well-formed, and an exact id is indexed exactly when it
  has an owner, under the owner's name.
\<close>

definition build_inv :: "build_state \<Rightarrow> bool" where
  "build_inv bs \<longleftrightarrow> wf_registry (bs_st bs) \<and>
     (\<forall>m. bs_exactOwner bs m = map_option Name (exactIndex (bs_st bs) m))"

lemma build_inv_init [simp]: "build_inv build_init"
  by (simp add: build_inv_def build_init_def NewEmpty_def wf_registry_def)

lemma build_exact_step:
  assumes "build_inv bs" "registered (bs_st bs) p"
    and "b = build_exact i (Name p) p bs m"
  shows "build_inv b \<and> extends bs b \<and> names (bs_st b) = names (bs_st bs) \<and>
    byName (bs_st b) = byName (bs_st bs) \<and>
    (bs_errs b = [] \<longrightarrow> exactIndex (bs_st b) m = Some p)"
proof (cases "bs_exactOwner bs m")
  case None
  with assms(1) have new: "exactIndex (bs_st bs) m = None" by (simp add: build_inv_def)
  from None assms(3) have b: "b = bs\<lparr>bs_exactOwner := (bs_exactOwner bs)(m \<mapsto> Name p),
      bs_st := (bs_st bs)\<lparr>exactIndex := (exactIndex (bs_st bs))(m \<mapsto> p)\<rparr>\<rparr>"
    by (simp add: build_exact_def)
  have "wf_registry (bs_st b)"
    using assms(1,2) new by (simp add: b build_inv_def wf_registry_exact)
  with assms(1) new show ?thesis
    by (simp add: b build_inv_def extends_def map_le_def dom_def)
next
  case (Some owner)
  with assms(3) have "b = bs\<lparr>bs_errs := bs_errs bs @ [ExactTaken i (Name p) m owner]\<rparr>"
    by (simp add: build_exact_def)
  with assms(1) show ?thesis by (simp add: build_inv_def extends_def)
qed

lemma build_glob_step:
  assumes "build_inv bs" "registered (bs_st bs) p"
    and "b = build_glob i (Name p) p bs g"
  shows "build_inv b \<and> extends bs b \<and> names (bs_st b) = names (bs_st bs) \<and>
    byName (bs_st b) = byName (bs_st bs)"
proof (cases "path_match g []")
  case None
  with assms show ?thesis by (simp add: build_glob_def build_inv_def extends_def)
next
  case (Some ok)
  with assms show ?thesis
    by (auto simp: build_glob_def build_inv_def extends_def wf_registry_glob)
qed

lemma build_exact_fold:
  assumes "build_inv bs" "registered (bs_st bs) p"
    and "bs' = foldl (build_exact i (Name p) p) bs ms"
  shows "build_inv bs' \<and> extends bs bs' \<and> names (bs_st bs') = names (bs_st bs) \<and>
    byName (bs_st bs') = byName (bs_st bs) \<and>
    (bs_errs bs' = [] \<longrightarrow> (\<forall>m \<in> set ms. exactIndex (bs_st bs') m = Some p))"
  using assms
proof (induction ms arbitrary: bs)
  case Nil
  then show ?case by simp
next
  case (Cons m ms)
  let ?b = "build_exact i (Name p) p bs m"
  note step = build_exact_step [OF Cons.prems(1,2) refl, of i m]
  have ih: "build_inv bs' \<and> extends ?b bs' \<and> names (bs_st bs') = names (bs_st ?b) \<and>
      byName (bs_st bs') = byName (bs_st ?b) \<and>
      (bs_errs bs' = [] \<longrightarrow> (\<forall>m \<in> set ms. exactIndex (bs_st bs') m = Some p))"
    using step Cons.prems(2,3) by (intro Cons.IH) (simp_all add: registered_def)
  have "bs_errs bs' = [] \<Longrightarrow> exactIndex (bs_st bs') m = Some p"
    using step ih by (auto simp: extends_def intro: map_le_Some)
  with step ih extends_trans [of bs ?b bs'] show ?case by auto
qed

lemma build_glob_fold:
  assumes "build_inv bs" "registered (bs_st bs) p"
    and "bs' = foldl (build_glob i (Name p) p) bs gs"
  shows "build_inv bs' \<and> extends bs bs' \<and> names (bs_st bs') = names (bs_st bs) \<and>
    byName (bs_st bs') = byName (bs_st bs)"
  using assms
proof (induction gs arbitrary: bs)
  case (Cons g gs)
  let ?b = "build_glob i (Name p) p bs g"
  note step = build_glob_step [OF Cons.prems(1,2) refl, of i g]
  have "build_inv bs' \<and> extends ?b bs' \<and> names (bs_st bs') = names (bs_st ?b) \<and>
      byName (bs_st bs') = byName (bs_st ?b)"
    using step Cons.prems(2,3) by (intro Cons.IH) (simp_all add: registered_def)
  with step extends_trans [of bs ?b bs'] show ?case by auto
qed simp

text \<open>What one iteration without an error achieves.\<close>

definition loaded :: "registryState \<Rightarrow> providerConfig \<Rightarrow> bool" where
  "loaded st pc \<longleftrightarrow> (\<exists>p. byName st (pc_Name pc) = Some p \<and> Name p = pc_Name pc \<and>
     (\<forall>m \<in> set (pc_Exact pc). exactIndex st m = Some p))"

lemma loaded_extends: "loaded (bs_st a) pc \<Longrightarrow> extends a b \<Longrightarrow> loaded (bs_st b) pc"
  unfolding loaded_def extends_def by (meson map_le_Some)

lemma build_provider_step:
  assumes inv: "build_inv bs"
  shows "build_inv (build_provider bs (i, pc)) \<and> extends bs (build_provider bs (i, pc)) \<and>
    (bs_errs (build_provider bs (i, pc)) = [] \<longrightarrow>
       names (bs_st (build_provider bs (i, pc))) = names (bs_st bs) @ [pc_Name pc] \<and>
       loaded (bs_st (build_provider bs (i, pc))) pc)"
proof (cases "validateProviderConfig i pc = [] \<and> byName (bs_st bs) (pc_Name pc) = None \<and>
    (\<exists>p. constructProvider i pc = Inr p)")
  case False
  then show ?thesis using inv
    by (auto simp: build_provider_def Let_def build_inv_def extends_def split: sum.splits)
next
  case True
  then obtain p where p: "constructProvider i pc = Inr p" by blast
  note nm = constructProvider_Name [OF p]
  let ?st = "bs_st bs"
  define b1 where "b1 = bs\<lparr>bs_st := ?st\<lparr>names := names ?st @ [pc_Name pc],
      byName := (byName ?st)(pc_Name pc \<mapsto> p)\<rparr>\<rparr>"
  define b2 where "b2 = foldl (build_exact i (Name p) p) b1 (pc_Exact pc)"
  define b3 where "b3 = foldl (build_glob i (Name p) p) b2 (pc_Glob pc)"
  have eq: "build_provider bs (i, pc) = b3"
    using True p by (simp add: build_provider_def Let_def b1_def b2_def b3_def nm)
  have i1: "build_inv b1"
    using inv True wf_registry_add_name [of ?st p] by (simp add: build_inv_def b1_def nm)
  have n1: "registered (bs_st b1) p" by (simp add: b1_def nm registered_def)
  have e1: "extends bs b1" using True by (auto simp: extends_def b1_def map_le_def dom_def)
  note f2 = build_exact_fold [OF i1 n1 b2_def]
  have n2: "registered (bs_st b2) p" using f2 n1 by (simp add: registered_def)
  note f3 = build_glob_fold [OF conjunct1 [OF f2] n2 b3_def]
  have "extends bs b3" using e1 f2 f3 by (meson extends_trans)
  moreover have "loaded (bs_st b3) pc" if "bs_errs b3 = []"
  proof -
    have e2: "bs_errs b2 = []" using f3 that by (simp add: extends_def)
    then have "loaded (bs_st b2) pc" using f2 n2 nm by (auto simp: loaded_def registered_def)
    then show ?thesis using f3 loaded_extends by blast
  qed
  ultimately show ?thesis unfolding eq using f2 f3 by (simp add: b1_def)
qed

lemma build_fold:
  assumes "build_inv bs" "bs' = foldl build_provider bs (enumerate k pcs)"
  shows "build_inv bs' \<and> extends bs bs' \<and>
    (bs_errs bs' = [] \<longrightarrow> names (bs_st bs') = names (bs_st bs) @ map pc_Name pcs \<and>
       (\<forall>pc \<in> set pcs. loaded (bs_st bs') pc))"
  using assms
proof (induction pcs arbitrary: bs k)
  case Nil
  then show ?case by simp
next
  case (Cons pc pcs)
  let ?b = "build_provider bs (k, pc)"
  note step = build_provider_step [OF Cons.prems(1), of k pc]
  have ih: "build_inv bs' \<and> extends ?b bs' \<and>
      (bs_errs bs' = [] \<longrightarrow> names (bs_st bs') = names (bs_st ?b) @ map pc_Name pcs \<and>
         (\<forall>pc \<in> set pcs. loaded (bs_st bs') pc))"
    using step Cons.prems(2) by (intro Cons.IH [where k = "Suc k"]) simp_all
  have "bs_errs bs' = [] \<Longrightarrow> bs_errs ?b = []" using ih by (simp add: extends_def)
  with step ih loaded_extends [of ?b pc bs'] extends_trans [of bs ?b bs'] show ?case by auto
qed

lemma build_default_step:
  assumes "build_inv bs" "bs_errs (build_default d bs) = []"
  shows "wf_registry (bs_st (build_default d bs)) \<and> bs_errs bs = [] \<and>
    names (bs_st (build_default d bs)) = names (bs_st bs) \<and> extends bs (build_default d bs)"
proof (cases "d = [] \<or> byName (bs_st bs) d = None")
  case True
  with assms show ?thesis by (auto simp: build_default_def build_inv_def split: if_splits)
next
  case False
  then obtain p where p: "byName (bs_st bs) d = Some p" by blast
  then have "registered (bs_st bs) p"
    using assms(1) by (auto simp: build_inv_def wf_registry_def ran_def)
  with False p assms show ?thesis
    by (simp add: build_default_def build_inv_def wf_registry_def extends_def)
qed

lemma build_Inr:
  assumes "build pf = Inr st"
  shows "wf_registry st \<and> names st = map pc_Name (pf_Providers pf) \<and>
    (\<forall>pc \<in> set (pf_Providers pf). loaded st pc)"
proof -
  define b where "b = foldl build_provider build_init (enumerate 0 (pf_Providers pf))"
  define b' where "b' = build_default (pf_DefaultProvider pf) b"
  have st: "st = bs_st b'" and ok: "bs_errs b' = []"
    using assms by (auto simp: build_def b_def b'_def Let_def split: if_splits)
  note f = build_fold [OF build_inv_init b_def]
  note d = build_default_step [OF conjunct1 [OF f] ok [unfolded b'_def], folded b'_def]
  have "names (bs_st b) = map pc_Name (pf_Providers pf)"
    using f d by (simp add: build_init_def NewEmpty_def)
  moreover have "\<forall>pc \<in> set (pf_Providers pf). loaded (bs_st b') pc"
    using f d loaded_extends by blast
  ultimately show ?thesis using d by (simp add: st)
qed

section \<open>The list of models\<close>

definition models_of :: "registryState \<Rightarrow> ModelInfo list" where
  "models_of st = concat (map (\<lambda>n. case byName st n of Some p \<Rightarrow> SupportedModels p | None \<Rightarrow> []) (names st))"

lemma foldl_models_flat:
  "foldl (\<lambda>so name. case byName st name of Some p \<Rightarrow> foldl models_step so (SupportedModels p)
                                        | None \<Rightarrow> so) so ns =
   foldl models_step so (concat (map (\<lambda>n. case byName st n of Some p \<Rightarrow> SupportedModels p | None \<Rightarrow> []) ns))"
  by (induction ns arbitrary: so) (auto split: option.splits)

lemma models_step_simps:
  "mi_ID m \<in> seen \<Longrightarrow> models_step (seen, out) m = (seen, out)"
  "mi_ID m \<notin> seen \<Longrightarrow> models_step (seen, out) m = (insert (mi_ID m) seen, out @ [m])"
  by (simp_all add: models_step_def)

lemma foldl_models_step:
  assumes "foldl models_step (seen, out) ms = (seen', out')"
    and "seen = mi_ID ` set out" "distinct (map mi_ID out)"
  shows "seen' = mi_ID ` set out' \<and> distinct (map mi_ID out') \<and>
    mi_ID ` set out' = mi_ID ` set out \<union> mi_ID ` set ms \<and> set out' \<subseteq> set out \<union> set ms"
  using assms
proof (induction ms arbitrary: seen out)
  case (Cons m ms)
  show ?case
  proof (cases "mi_ID m \<in> seen")
    case True
    then have "foldl models_step (seen, out) ms = (seen', out')"
      using Cons.prems(1) by (simp add: models_step_simps)
    from Cons.IH [OF this Cons.prems(2,3)] show ?thesis using True Cons.prems(2) by auto
  next
    case False
    then have f: "foldl models_step (insert (mi_ID m) seen, out @ [m]) ms = (seen', out')"
      using Cons.prems(1) by (simp add: models_step_simps)
    have i: "insert (mi_ID m) seen = mi_ID ` set (out @ [m])" "distinct (map mi_ID (out @ [m]))"
      using False Cons.prems(2,3) by auto
    from Cons.IH [OF f i] show ?thesis by auto
  qed
qed auto

section \<open>Properties\<close>

text \<open>
  C6: for every table and model, the fail-over chain lists the candidates of the model in
  the order exact owner, matching globs in declaration order, default provider, keeps one
  provider of every candidate name and no other, and the model resolves to the first
  candidate, or to \<open>ErrNoProviderForModel\<close> when there is none.
\<close>

theorem resolve_chain_priority:
  "subseq (ResolveChain st m) (candidates st m) \<and>
   distinct (map Name (ResolveChain st m)) \<and>
   Name ` set (ResolveChain st m) = Name ` set (candidates st m) \<and>
   ResolveModel st m = (case candidates st m of
     [] \<Rightarrow> Inl (Wrapped m ErrNoProviderForModel) | p # _ \<Rightarrow> Inr p)"
proof -
  have sub: "subseq (first_by_name seen ps) ps" for seen ps
    by (induction ps arbitrary: seen) auto
  have "ResolveModel st m = (case candidates st m of
      [] \<Rightarrow> Inl (Wrapped m ErrNoProviderForModel) | p # _ \<Rightarrow> Inr p)"
    by (simp add: ResolveModel_def ResolveChain_candidates split: list.split)
  then show ?thesis
    by (simp add: ResolveChain_candidates sub first_by_name_distinct first_by_name_names)
qed

text \<open>
  C5: a table that \<open>build\<close> returns is well-formed (provider names are unique, every name
  maps to the provider of that name, every indexed, glob and default provider is registered
  and every glob pattern is valid), lists the providers in declaration order, and indexes
  every exact model id of every entry under that entry's provider.
\<close>

theorem build_well_formed:
  assumes "build pf = Inr st"
  shows "wf_registry st \<and> names st = map pc_Name (pf_Providers pf) \<and>
    (\<forall>pc \<in> set (pf_Providers pf). \<forall>m \<in> set (pc_Exact pc).
       \<exists>p. exactIndex st m = Some p \<and> Name p = pc_Name pc)"
  using build_Inr [OF assms] by (auto simp: loaded_def)

definition example_pf :: providersFile where
  "example_pf = \<lparr>pf_Providers =
     [\<lparr>pc_Name = ''a'', pc_Type = ''openai'', pc_Endpoint = [], pc_APIKey = ''k'', pc_Organization = [],
       pc_Timeout = 0, pc_Priority = 0, pc_Exact = [''gpt''], pc_Glob = []\<rparr>,
      \<lparr>pc_Name = ''b'', pc_Type = ''anthropic'', pc_Endpoint = [], pc_APIKey = ''k'', pc_Organization = [],
       pc_Timeout = 0, pc_Priority = 0, pc_Exact = [], pc_Glob = [''c*'']\<rparr>],
     pf_DefaultProvider = ''b''\<rparr>"

lemma example_pf_builds: "\<exists>st. build example_pf = Inr st"
  by (simp add: build_def example_pf_def Let_def build_default_def build_provider_def
      validateProviderConfig_def constructProvider_def openai_New_def anthropic_New_def
      build_exact_def build_glob_def build_init_def NewEmpty_def path_match_def parse_glob_def)

theorem build_well_formed_witness:
  "\<exists>st. build example_pf = Inr st \<and> wf_registry st \<and> names st = [''a'', ''b'']"
proof -
  obtain st where st: "build example_pf = Inr st" using example_pf_builds by blast
  with build_well_formed [OF st] show ?thesis by (auto simp: example_pf_def)
qed

text \<open>
  Two different entries of \<open>providers.yaml\<close> that claim the same exact model id make
  the load fail.
\<close>

lemma build_rejects_shared_model:
  assumes "i < j" "j < length (pf_Providers pf)"
    and "m \<in> set (pc_Exact (pf_Providers pf ! i))" "m \<in> set (pc_Exact (pf_Providers pf ! j))"
  shows "\<exists>errs. build pf = Inl errs"
proof (cases "build pf")
  case (Inr st)
  let ?ps = "pf_Providers pf"
  note b = build_Inr [OF Inr]
  have "loaded st (?ps ! i)" "loaded st (?ps ! j)" using b assms(1,2) by auto
  with assms(3,4) have "pc_Name (?ps ! i) = pc_Name (?ps ! j)" unfolding loaded_def by force
  then have "map pc_Name ?ps ! i = map pc_Name ?ps ! j" using assms(1,2) by simp
  moreover have "distinct (map pc_Name ?ps)" using b by (metis wf_registry_def)
  ultimately have "i = j" using assms(1,2) by (subst (asm) nth_eq_iff_index_eq) simp_all
  with assms(1) show ?thesis by simp
qed simp

lemma build_rejects_shared_model_witness:
  "\<exists>errs. build (example_pf\<lparr>pf_Providers := pf_Providers example_pf @ [(pf_Providers example_pf ! 0)\<lparr>pc_Name := ''z''\<rparr>]\<rparr>) = Inl errs"
  by (rule build_rejects_shared_model [of 0 2 _ "''gpt''"]) (simp_all add: example_pf_def nth_Cons)

text \<open>
  \<open>/v1/models\<close> lists every model id some registered provider supports, once, in
  ascending order of id, and every entry comes from a provider's own list.
\<close>

lemma all_models_sorted_unique:
  "sorted (map mi_ID (AllModels st)) \<and> distinct (map mi_ID (AllModels st)) \<and>
   mi_ID ` set (AllModels st) = mi_ID ` set (models_of st) \<and> set (AllModels st) \<subseteq> set (models_of st)"
proof -
  obtain seen out where so: "foldl models_step ({}, []) (models_of st) = (seen, out)"
    by (meson surj_pair)
  have am: "AllModels st = sort_key mi_ID out"
    using so by (simp add: AllModels_def Let_def foldl_models_flat models_of_def)
  from foldl_models_step [OF so] have f: "distinct (map mi_ID out)"
    "mi_ID ` set out = mi_ID ` set (models_of st)" "set out \<subseteq> set (models_of st)" by auto
  have "distinct (map mi_ID (sort_key mi_ID out))"
    using f(1) by (simp add: distinct_map)
  with f am show ?thesis by simp
qed

end
