(* ===== verification/Observability.thy ===== *)
theory Observability
  imports Http KeyValue "HOL-Library.Product_Lexorder"
begin

text \<open>
  \<open>internal/observability\<close>: the status labels of \<open>gateway_metrics.go\<close>, the dashboard
  projections of \<open>stats.go\<close> and \<open>cache_stats.go\<close> and the log previews of \<open>redact.go\<close>.  What the
  metrics registry's \<open>Gather\<close> returns is an argument.  Rows of the per-model table that tie on
  requests and cost come in an unspecified order; here they keep the order of first sight.
\<close>

section \<open>Gathered metrics\<close>

record histogram =
  hi_SampleCount :: int
  hi_SampleSum :: rat
  hi_Bucket :: "(rat \<times> int) list"

text \<open>A metric of a family: its labels and its value, zero where it has another kind.\<close>

record dto_Metric =
  dm_Label :: "(string \<times> string) list"
  dm_Gauge :: rat
  dm_Counter :: rat
  dm_Histogram :: "histogram option"

type_synonym metric_family = "string \<times> dto_Metric list"

definition labelValue :: "dto_Metric \<Rightarrow> string \<Rightarrow> string" where
  "labelValue m name = (case map_of (dm_Label m) name of None \<Rightarrow> [] | Some v \<Rightarrow> v)"

definition statusLabel :: "int \<Rightarrow> string" where
  "statusLabel status =
     (if 200 \<le> status \<and> status < 300 then ''2xx''
      else if 300 \<le> status \<and> status < 400 then ''3xx''
      else if 400 \<le> status \<and> status < 500 then
        (if status = 401 then ''401'' else if status = 403 then ''403'' else if status = 404 then ''404''
         else if status = 413 then ''413'' else if status = 429 then ''429'' else ''4xx'')
      else if 500 \<le> status \<and> status < 600 then
        (if status = 502 then ''502'' else if status = 503 then ''503'' else if status = 504 then ''504'' else ''5xx'')
      else ''unknown'')"

section \<open>Histograms\<close>

record mergedHistogram =
  mh_sampleCount :: int
  mh_sampleSum :: rat
  mh_buckets :: "(rat \<times> int) list"

definition u64 :: "int \<Rightarrow> int" where
  "u64 n = n mod 2 ^ 64"

text \<open>Adding the counts of one histogram; surplus buckets of either side are left alone.\<close>

fun add_buckets :: "(rat \<times> int) list \<Rightarrow> (rat \<times> int) list \<Rightarrow> (rat \<times> int) list" where
  "add_buckets ((u, c) # out) ((_, n) # bs) = (u, u64 (c + n)) # add_buckets out bs"
| "add_buckets out _ = out"

definition add_histogram :: "mergedHistogram \<Rightarrow> histogram option \<Rightarrow> mergedHistogram" where
  "add_histogram out h = (case h of
     None \<Rightarrow> out
   | Some h \<Rightarrow> \<lparr>mh_sampleCount = u64 (mh_sampleCount out + hi_SampleCount h), mh_sampleSum = f_add (mh_sampleSum out) (hi_SampleSum h),
       mh_buckets = add_buckets (mh_buckets out) (hi_Bucket h)\<rparr>)"

definition mergeHistograms :: "dto_Metric list \<Rightarrow> mergedHistogram" where
  "mergeHistograms ms = (case ms of
     [] \<Rightarrow> \<lparr>mh_sampleCount = 0, mh_sampleSum = 0, mh_buckets = []\<rparr>
   | m # _ \<Rightarrow> (case dm_Histogram m of
       None \<Rightarrow> \<lparr>mh_sampleCount = 0, mh_sampleSum = 0, mh_buckets = []\<rparr>
     | Some first \<Rightarrow> foldl add_histogram
         \<lparr>mh_sampleCount = 0, mh_sampleSum = 0, mh_buckets = map (\<lambda>(u, _). (u, 0)) (hi_Bucket first)\<rparr> (map dm_Histogram ms)))"

fun quantile_loop :: "rat \<Rightarrow> (rat \<times> int) list \<Rightarrow> rat \<Rightarrow> int \<Rightarrow> rat" where
  "quantile_loop target [] prevUpper prevCount = prevUpper"
| "quantile_loop target ((upper, n) # bs) prevUpper prevCount =
     (if f_of_int n \<ge> target
      then let width = f_add upper (- prevUpper); countInBucket = f_of_int (u64 (n - prevCount))
           in if countInBucket \<le> 0 \<or> width \<le> 0 then upper
              else f_add prevUpper (f_mul (f_div (f_add target (- f_of_int prevCount)) countInBucket) width)
      else quantile_loop target bs upper n)"

definition histogramQuantile :: "rat \<Rightarrow> mergedHistogram \<Rightarrow> rat" where
  "histogramQuantile q h = (if mh_sampleCount h = 0 \<or> mh_buckets h = [] then 0
     else quantile_loop (f_mul q (f_of_int (mh_sampleCount h))) (mh_buckets h) 0 0)"

section \<open>The summary\<close>

record ModelBreakdown =
  mb_Provider :: string
  mb_Model :: string
  mb_Requests :: int
  mb_PromptTokens :: int
  mb_CompletionTokens :: int
  mb_CostMicro :: int

record StatsSummary =
  su_Window :: string
  su_Since :: instant
  su_AsOf :: instant
  su_RequestsTotal :: int
  su_Errors4xx :: int
  su_Errors5xx :: int
  su_CostMicroTotal :: int
  su_P99LatencySeconds :: rat
  su_TopModels :: "ModelBreakdown list"

definition topModelsLimit :: nat where
  "topModelsLimit = 10"

type_synonym per_model = "((string \<times> string) \<times> ModelBreakdown) list"

definition topModels :: "per_model \<Rightarrow> ModelBreakdown list" where
  "topModels perModel = take topModelsLimit (sort_key (\<lambda>b. (- mb_Requests b, - mb_CostMicro b)) (map snd perModel))"

definition getOrInit :: "string \<Rightarrow> string \<Rightarrow> per_model \<Rightarrow> ModelBreakdown" where
  "getOrInit p m pm = (case map_of pm (p, m) of Some b \<Rightarrow> b
     | None \<Rightarrow> \<lparr>mb_Provider = p, mb_Model = m, mb_Requests = 0, mb_PromptTokens = 0, mb_CompletionTokens = 0, mb_CostMicro = 0\<rparr>)"

definition update_model :: "dto_Metric \<Rightarrow> (ModelBreakdown \<Rightarrow> ModelBreakdown) \<Rightarrow> per_model \<Rightarrow> per_model" where
  "update_model m f pm = (let p = labelValue m ''provider''; mname = labelValue m ''model''
     in if p = [] \<and> mname = [] then pm else al_put (p, mname) (f (getOrInit p mname pm)) pm)"

definition requests_metric :: "StatsSummary \<times> per_model \<Rightarrow> dto_Metric \<Rightarrow> StatsSummary \<times> per_model" where
  "requests_metric = (\<lambda>(s, pm) m.
     let v = f_trunc (dm_Counter m);
         s1 = s\<lparr>su_RequestsTotal := u64 (su_RequestsTotal s + v)\<rparr>;
         label = labelValue m ''status'';
         s2 = (if label \<in> {''401'', ''403'', ''404'', ''413'', ''429'', ''4xx''} then s1\<lparr>su_Errors4xx := u64 (su_Errors4xx s1 + v)\<rparr>
               else if label \<in> {''502'', ''503'', ''504'', ''5xx''} then s1\<lparr>su_Errors5xx := u64 (su_Errors5xx s1 + v)\<rparr> else s1)
     in (s2, update_model m (\<lambda>b. b\<lparr>mb_Requests := u64 (mb_Requests b + v)\<rparr>) pm))"

definition cost_metric :: "StatsSummary \<times> per_model \<Rightarrow> dto_Metric \<Rightarrow> StatsSummary \<times> per_model" where
  "cost_metric = (\<lambda>(s, pm) m. let cost = f_trunc (dm_Counter m)
     in (s\<lparr>su_CostMicroTotal := wrap64 (su_CostMicroTotal s + cost)\<rparr>, update_model m (\<lambda>b. b\<lparr>mb_CostMicro := wrap64 (mb_CostMicro b + cost)\<rparr>) pm))"

definition tokens_metric :: "StatsSummary \<times> per_model \<Rightarrow> dto_Metric \<Rightarrow> StatsSummary \<times> per_model" where
  "tokens_metric = (\<lambda>(s, pm) m. let v = f_trunc (dm_Counter m)
     in (s, update_model m (\<lambda>b. if labelValue m ''type'' = ''prompt'' then b\<lparr>mb_PromptTokens := u64 (mb_PromptTokens b + v)\<rparr>
              else if labelValue m ''type'' = ''completion'' then b\<lparr>mb_CompletionTokens := u64 (mb_CompletionTokens b + v)\<rparr> else b) pm))"

definition summary_family :: "StatsSummary \<times> per_model \<Rightarrow> metric_family \<Rightarrow> StatsSummary \<times> per_model" where
  "summary_family sp f = (case f of (name, ms) \<Rightarrow>
     if name = ''gateway_requests_total'' then foldl requests_metric sp ms
     else if name = ''gateway_cost_micro_total'' then foldl cost_metric sp ms
     else if name = ''gateway_tokens_total'' then foldl tokens_metric sp ms
     else if name = ''gateway_request_duration_seconds''
       then ((fst sp)\<lparr>su_P99LatencySeconds := histogramQuantile (fl64 (99 / 100)) (mergeHistograms ms)\<rparr>, snd sp)
     else sp)"

record StatsCollector =
  st_startedAt :: instant
  st_cacheTTL :: duration
  st_cached :: "(StatsSummary \<times> instant) option"

definition NewStatsCollector :: "instant \<Rightarrow> StatsCollector" where
  "NewStatsCollector startedAt = \<lparr>st_startedAt = startedAt, st_cacheTTL = 5 * Second, st_cached = None\<rparr>"

definition summary_of :: "instant \<Rightarrow> instant \<Rightarrow> metric_family list \<Rightarrow> StatsSummary" where
  "summary_of since now families =
     (case foldl summary_family (\<lparr>su_Window = ''process_uptime'', su_Since = since, su_AsOf = now, su_RequestsTotal = 0, su_Errors4xx = 0,
         su_Errors5xx = 0, su_CostMicroTotal = 0, su_P99LatencySeconds = 0, su_TopModels = []\<rparr>, []) families of
        (s, pm) \<Rightarrow> s\<lparr>su_TopModels := topModels pm\<rparr>)"

text \<open>\<open>None\<close> is a missing gatherer; the gathered families are an argument.\<close>

definition Summary :: "(goerr + metric_family list) option \<Rightarrow> instant \<Rightarrow> StatsCollector \<Rightarrow> (goerr + StatsSummary) \<times> StatsCollector" where
  "Summary gatherer now c = (case gatherer of
     None \<Rightarrow> (Inl (OtherErr ''observability: stats collector has no gatherer''), c)
   | Some g \<Rightarrow>
       (case st_cached c of
          Some (s, cachedAt) \<Rightarrow> if time_sub now cachedAt < st_cacheTTL c then (Inr s, c)
            else (case g of Inl err \<Rightarrow> (Inl err, c)
                  | Inr families \<Rightarrow> let s = summary_of (st_startedAt c) now families in (Inr s, c\<lparr>st_cached := Some (s, now)\<rparr>))
        | None \<Rightarrow> (case g of Inl err \<Rightarrow> (Inl err, c)
            | Inr families \<Rightarrow> let s = summary_of (st_startedAt c) now families in (Inr s, c\<lparr>st_cached := Some (s, now)\<rparr>))))"

section \<open>Cache statistics\<close>

record CacheLayerStats =
  cs_Hits :: int
  cs_Writes :: int
  cs_HitRate :: "rat option"

definition computeHitRate :: "int \<Rightarrow> int \<Rightarrow> rat option" where
  "computeHitRate hits writes = (let denom = u64 (hits + writes) in
     if denom = 0 then None else Some (f_div (f_of_int hits) (f_of_int denom)))"

definition sum_exact :: "dto_Metric list \<Rightarrow> int \<Rightarrow> int" where
  "sum_exact ms n = foldl (\<lambda>n m. if labelValue m ''type'' = ''exact'' then u64 (n + f_trunc (dm_Counter m)) else n) n ms"

definition exact_stats :: "metric_family list \<Rightarrow> CacheLayerStats" where
  "exact_stats families =
     (let (h, w) = foldl (\<lambda>(h, w) (name, ms).
            if name = ''gateway_cache_hits_total'' then (sum_exact ms h, w)
            else if name = ''gateway_cache_writes_total'' then (h, sum_exact ms w) else (h, w)) (0, 0) families
      in \<lparr>cs_Hits = h, cs_Writes = w, cs_HitRate = computeHitRate h w\<rparr>)"

record CacheStats =
  ca_Window :: string
  ca_Since :: instant
  ca_AsOf :: instant
  ca_Exact :: CacheLayerStats

record CacheStatsCollector =
  cc_startedAt :: instant
  cc_cacheTTL :: duration
  cc_cached :: "(CacheStats \<times> instant) option"

definition NewCacheStatsCollector :: "instant \<Rightarrow> CacheStatsCollector" where
  "NewCacheStatsCollector startedAt = \<lparr>cc_startedAt = startedAt, cc_cacheTTL = 5 * Second, cc_cached = None\<rparr>"

definition CacheStatsCollector_Stats ::
  "(goerr + metric_family list) option \<Rightarrow> instant \<Rightarrow> CacheStatsCollector \<Rightarrow> (goerr + CacheStats) \<times> CacheStatsCollector" where
  "CacheStatsCollector_Stats gatherer now c = (case gatherer of
     None \<Rightarrow> (Inl (OtherErr ''observability: cache stats collector has no gatherer''), c)
   | Some g \<Rightarrow>
       let fresh = (case g of Inl err \<Rightarrow> (Inl err, c)
             | Inr families \<Rightarrow> let out = \<lparr>ca_Window = ''process_uptime'', ca_Since = cc_startedAt c, ca_AsOf = now, ca_Exact = exact_stats families\<rparr>
                 in (Inr out, c\<lparr>cc_cached := Some (out, now)\<rparr>))
       in case cc_cached c of
            Some (out, cachedAt) \<Rightarrow> if time_sub now cachedAt < cc_cacheTTL c then (Inr out, c) else fresh
          | None \<Rightarrow> fresh)"

section \<open>Previews for logs\<close>

definition HashPreview :: "(string \<Rightarrow> string) \<Rightarrow> string \<Rightarrow> string" where
  "HashPreview sha s = (if s = [] then [] else ''sha256:'' @ hex_encode (take 4 (sha s)))"

definition KeyPreview :: "string \<Rightarrow> string" where
  "KeyPreview key = (if length key < 12 then ''<short>'' else take 6 key @ ''...'')"

section \<open>Lemmas\<close>

lemma status_label_classes:
  assumes "200 \<le> status" "status < 600"
  shows "statusLabel status \<in> {''401'', ''403'', ''404'', ''413'', ''429'', ''4xx''} \<longleftrightarrow> 400 \<le> status \<and> status < 500"
    and "statusLabel status \<in> {''502'', ''503'', ''504'', ''5xx''} \<longleftrightarrow> 500 \<le> status"
  using assms by (auto simp: statusLabel_def)

lemma count_by_key:
  assumes "distinct ks"
  shows "(\<Sum>k \<leftarrow> ks. if P k then length (filter (\<lambda>c. key c = k) cs) else 0) = length (filter (\<lambda>c. key c \<in> set ks \<and> P (key c)) cs)"
  using assms
proof (induction ks)
  case (Cons k ks)
  have "length (filter (\<lambda>c. key c \<in> set (k # ks) \<and> P (key c)) cs) =
      (if P k then length (filter (\<lambda>c. key c = k) cs) else 0) + length (filter (\<lambda>c. key c \<in> set ks \<and> P (key c)) cs)"
    using Cons.prems by (induction cs) auto
  with Cons show ?case by simp
qed simp

text \<open>
  What the registry documents of a counter with labels: one metric per combination of label
  values that was ever counted, with the number of the calls.
\<close>

definition request_key :: "string \<times> string \<times> int \<Rightarrow> string \<times> string \<times> string" where
  "request_key = (\<lambda>(p, m, st). (p, m, statusLabel st))"

definition request_metric :: "(string \<times> string \<times> int) list \<Rightarrow> string \<times> string \<times> string \<Rightarrow> dto_Metric" where
  "request_metric calls = (\<lambda>(p, m, l). \<lparr>dm_Label = [(''model'', m), (''provider'', p), (''status'', l)], dm_Gauge = 0,
     dm_Counter = of_nat (length (filter (\<lambda>c. request_key c = (p, m, l)) calls)), dm_Histogram = None\<rparr>)"

definition counts_requests :: "(string \<times> string \<times> int) list \<Rightarrow> dto_Metric list \<Rightarrow> bool" where
  "counts_requests calls ms \<longleftrightarrow> (\<exists>ks. distinct ks \<and> set ks = request_key ` set calls \<and> ms = map (request_metric calls) ks)"

text \<open>The sums a pass over the request counters adds up, before they wrap.\<close>

definition metric_sum :: "(string \<Rightarrow> bool) \<Rightarrow> dto_Metric list \<Rightarrow> int" where
  "metric_sum P ms = (\<Sum>m \<leftarrow> ms. if P (labelValue m ''status'') then f_trunc (dm_Counter m) else 0)"

abbreviation is_4xx :: "string \<Rightarrow> bool" where
  "is_4xx l \<equiv> l \<in> {''401'', ''403'', ''404'', ''413'', ''429'', ''4xx''}"

abbreviation is_5xx :: "string \<Rightarrow> bool" where
  "is_5xx l \<equiv> l \<in> {''502'', ''503'', ''504'', ''5xx''}"

lemma u64_add [simp]: "u64 (u64 x + y) = u64 (x + y)" "u64 (u64 x) = u64 x"
  by (simp_all add: u64_def mod_simps)

lemma u64_cong_add: "u64 x = u64 y \<Longrightarrow> u64 (x + z) = u64 (y + z)"
  by (metis u64_add(1))

lemma foldl_requests:
  assumes "foldl requests_metric (s, pm) ms = (s', pm')"
  shows "u64 (su_RequestsTotal s') = u64 (su_RequestsTotal s + metric_sum (\<lambda>_. True) ms) \<and>
    u64 (su_Errors4xx s') = u64 (su_Errors4xx s + metric_sum is_4xx ms) \<and> u64 (su_Errors5xx s') = u64 (su_Errors5xx s + metric_sum is_5xx ms)"
  using assms
proof (induction ms arbitrary: s pm)
  case (Cons m ms)
  let ?v = "f_trunc (dm_Counter m)" and ?l = "labelValue m ''status''"
  obtain s1 pm1 where r: "requests_metric (s, pm) m = (s1, pm1)" by force
  have "u64 (su_RequestsTotal s1) = u64 (su_RequestsTotal s + ?v)" "u64 (su_Errors4xx s1) = u64 (su_Errors4xx s + (if is_4xx ?l then ?v else 0))"
    "u64 (su_Errors5xx s1) = u64 (su_Errors5xx s + (if is_5xx ?l then ?v else 0))"
    using r by (auto simp: requests_metric_def Let_def split: if_splits)
  note step = this [THEN u64_cong_add]
  have "foldl requests_metric (s1, pm1) ms = (s', pm')" using Cons.prems r by simp
  from Cons.IH [OF this] step show ?case by (simp add: metric_sum_def add.assoc)
qed (simp add: metric_sum_def)

text \<open>The counters of a summary stay in the range of \<open>uint64\<close>.\<close>

definition counters_ok :: "StatsSummary \<Rightarrow> bool" where
  "counters_ok s \<longleftrightarrow> 0 \<le> su_RequestsTotal s \<and> su_RequestsTotal s < 2 ^ 64 \<and> 0 \<le> su_Errors4xx s \<and> su_Errors4xx s < 2 ^ 64 \<and>
     0 \<le> su_Errors5xx s \<and> su_Errors5xx s < 2 ^ 64"

lemma foldl_requests_ok:
  assumes "foldl requests_metric (s0, pm0) ms = (s, pm)" "counters_ok s0"
  shows "counters_ok s"
  using assms
proof (induction ms arbitrary: s0 pm0)
  case (Cons m ms)
  obtain s1 pm1 where r: "requests_metric (s0, pm0) m = (s1, pm1)" by force
  have "counters_ok s1" using r Cons.prems(2) by (auto simp: requests_metric_def counters_ok_def Let_def u64_def split: if_splits)
  with Cons r show ?case by simp
qed simp

lemma u64_determined: "u64 x = u64 y \<Longrightarrow> u64 y = y \<Longrightarrow> 0 \<le> x \<Longrightarrow> x < 2 ^ 64 \<Longrightarrow> x = y"
  by (simp add: u64_def)

lemma metric_sum_counts:
  assumes "counts_requests calls ms"
  shows "metric_sum P ms = int (length (filter (\<lambda>(p, m, st). P (statusLabel st)) calls))"
proof -
  obtain ks where ks: "distinct ks" "set ks = request_key ` set calls" "ms = map (request_metric calls) ks"
    using assms by (auto simp: counts_requests_def)
  have t: "f_trunc (of_nat n) = int n" for n by (simp add: f_trunc_def)
  have "metric_sum P ms = (\<Sum>k \<leftarrow> ks. int (if P (snd (snd k)) then length (filter (\<lambda>c. request_key c = k) calls) else 0))"
    unfolding metric_sum_def ks(3) map_map
    by (intro arg_cong [where f = sum_list] map_cong) (auto simp: request_metric_def labelValue_def t)
  also have "\<dots> = int (\<Sum>k \<leftarrow> ks. if P (snd (snd k)) then length (filter (\<lambda>c. request_key c = k) calls) else 0)"
    by (induction ks) auto
  also have "\<dots> = int (length (filter (\<lambda>c. request_key c \<in> set ks \<and> P (snd (snd (request_key c)))) calls))"
    by (simp only: count_by_key [OF ks(1)])
  also have "filter (\<lambda>c. request_key c \<in> set ks \<and> P (snd (snd (request_key c)))) calls = filter (\<lambda>(p, m, st). P (statusLabel st)) calls"
    using ks(2) by (intro filter_cong) (auto simp: request_key_def)
  finally show ?thesis .
qed

section \<open>Properties\<close>

text \<open>
  The dashboard counts every request.  When the registry's request counter holds one metric
  per combination of labels, the summary computed from it reports as total the number of the
  calls of \<open>ObserveRequest\<close> and as errors those with a status of 4xx and 5xx: no status is lost
  between the label and the summary.
\<close>

lemma summary_counts_requests:
  assumes "counts_requests calls ms" "\<forall>(p, m, st) \<in> set calls. 200 \<le> st \<and> st < 600" "int (length calls) < 2 ^ 64"
  shows "let s = summary_of since now [(''gateway_requests_total'', ms)] in
    su_RequestsTotal s = int (length calls) \<and>
    su_Errors4xx s = int (length (filter (\<lambda>(p, m, st). 400 \<le> st \<and> st < 500) calls)) \<and>
    su_Errors5xx s = int (length (filter (\<lambda>(p, m, st). 500 \<le> st) calls))"
proof -
  let ?s0 = "\<lparr>su_Window = ''process_uptime'', su_Since = since, su_AsOf = now, su_RequestsTotal = 0, su_Errors4xx = 0,
    su_Errors5xx = 0, su_CostMicroTotal = 0, su_P99LatencySeconds = 0, su_TopModels = []\<rparr>"
  obtain s pm where f: "foldl requests_metric (?s0, []) ms = (s, pm)" by force
  have small: "u64 (int (length (filter P calls))) = int (length (filter P calls))" for P
  proof -
    have "int (length (filter P calls)) < 2 ^ 64" using assms(3) length_filter_le [of P calls] by linarith
    then show ?thesis by (simp add: u64_def)
  qed
  have range: "counters_ok s" using foldl_requests_ok [OF f] by (simp add: counters_ok_def)
  have st: "200 \<le> st \<and> st < 600" if "(p, m, st) \<in> set calls" for p m st using assms(2) that by auto
  have c4: "filter (\<lambda>(p, m, st). is_4xx (statusLabel st)) calls = filter (\<lambda>(p, m, st). 400 \<le> st \<and> st < 500) calls"
  proof (rule filter_cong [OF refl], clarify)
    fix p m x
    assume "(p, m, x) \<in> set calls"
    with st show "is_4xx (statusLabel x) = (400 \<le> x \<and> x < 500)" by (intro status_label_classes(1)) auto
  qed
  have c5: "filter (\<lambda>(p, m, st). is_5xx (statusLabel st)) calls = filter (\<lambda>(p, m, st). 500 \<le> st) calls"
  proof (rule filter_cong [OF refl], clarify)
    fix p m x
    assume "(p, m, x) \<in> set calls"
    with st show "is_5xx (statusLabel x) = (500 \<le> x)" by (intro status_label_classes(2)) auto
  qed
  have zero: "su_RequestsTotal ?s0 = 0" "su_Errors4xx ?s0 = 0" "su_Errors5xx ?s0 = 0" by simp_all
  note sums = foldl_requests [OF f, unfolded zero add_0 metric_sum_counts [OF assms(1)] c4 c5]
  have all: "filter (\<lambda>(p, m, st). True) calls = calls" by (simp add: filter_True case_prod_beta)
  note rng = range [unfolded counters_ok_def]
  have "su_RequestsTotal s = int (length calls)"
  proof (rule u64_determined)
    show "u64 (su_RequestsTotal s) = u64 (int (length calls))" using sums unfolding all by blast
    show "u64 (int (length calls)) = int (length calls)" using small [of "\<lambda>(p, m, st). True"] unfolding all .
  qed (use rng in blast)+
  moreover have "su_Errors4xx s = int (length (filter (\<lambda>(p, m, st). 400 \<le> st \<and> st < 500) calls))"
    by (rule u64_determined [OF _ small]) (use sums rng in blast)+
  moreover have "su_Errors5xx s = int (length (filter (\<lambda>(p, m, st). 500 \<le> st) calls))"
    by (rule u64_determined [OF _ small]) (use sums rng in blast)+
  ultimately show ?thesis using f by (simp add: summary_of_def summary_family_def Let_def)
qed

lemma summary_counts_requests_witness:
  "let calls = [(''a'', ''m'', 200), (''a'', ''m'', 404), (''b'', ''m'', 503)];
       s = summary_of 0 7 [(''gateway_requests_total'', map (request_metric calls) (map request_key calls))] in
    su_RequestsTotal s = 3 \<and> su_Errors4xx s = 1 \<and> su_Errors5xx s = 1"
proof -
  let ?calls = "[(''a'', ''m'', 200), (''a'', ''m'', 404), (''b'', ''m'', 503)] :: (string \<times> string \<times> int) list"
  have "counts_requests ?calls (map (request_metric ?calls) (map request_key ?calls))"
    unfolding counts_requests_def by (intro exI [of _ "map request_key ?calls"]) (auto simp: request_key_def statusLabel_def)
  from summary_counts_requests [OF this, of 0 7] show ?thesis by (simp add: Let_def)
qed

end
