(* ===== verification/Models.thy ===== *)
theory Models
  imports Registry Pricing Middleware Observability
begin

text \<open>
  \<open>/v1/models\<close>: \<open>internal/provider/catalog/catalog.go\<close>, the built-in knowledge about models,
  and \<open>modelsHandler\<close> of \<open>internal/server/handlers.go\<close>, which joins the registry's models
  with the catalog, the price table and the breaker gauges.  The metrics registry is an
  argument: what \<open>Gather\<close> returns, or nothing when there is none.
\<close>

section \<open>The catalog\<close>

record Entry =
  ce_ContextLength :: int
  ce_Capabilities :: "string list"
  ce_DataPolicy :: "DataPolicy option"
  ce_PromptPer1kMicro :: int
  ce_CompletionPer1kMicro :: int
  ce_Currency :: string

definition opt_out :: "DataPolicy option" where
  "opt_out = Some \<lparr>dp_Training = ''opt_out'', dp_RetentionDays = 30\<rparr>"

definition unknown_policy :: "DataPolicy option" where
  "unknown_policy = Some \<lparr>dp_Training = ''unknown'', dp_RetentionDays = 0\<rparr>"

definition builtin :: "(string \<times> Entry) list" where
  "builtin = [
     (''gpt-4o'', \<lparr>ce_ContextLength = 128000, ce_Capabilities = [''chat'', ''tools'', ''vision'', ''stream'', ''json_mode'', ''logprobs''],
        ce_DataPolicy = opt_out, ce_PromptPer1kMicro = 2500, ce_CompletionPer1kMicro = 10000, ce_Currency = ''USD''\<rparr>),
     (''gpt-4o-mini'', \<lparr>ce_ContextLength = 128000, ce_Capabilities = [''chat'', ''tools'', ''vision'', ''stream'', ''json_mode'', ''logprobs''],
        ce_DataPolicy = opt_out, ce_PromptPer1kMicro = 150, ce_CompletionPer1kMicro = 600, ce_Currency = ''USD''\<rparr>),
     (''gpt-4-turbo'', \<lparr>ce_ContextLength = 128000, ce_Capabilities = [''chat'', ''tools'', ''vision'', ''stream'', ''json_mode''],
        ce_DataPolicy = opt_out, ce_PromptPer1kMicro = 10000, ce_CompletionPer1kMicro = 30000, ce_Currency = ''USD''\<rparr>),
     (''gpt-3.5-turbo'', \<lparr>ce_ContextLength = 16385, ce_Capabilities = [''chat'', ''tools'', ''stream'', ''json_mode''],
        ce_DataPolicy = opt_out, ce_PromptPer1kMicro = 500, ce_CompletionPer1kMicro = 1500, ce_Currency = ''USD''\<rparr>),
     (''claude-3-5-sonnet-20241022'', \<lparr>ce_ContextLength = 200000, ce_Capabilities = [''chat'', ''tools'', ''vision'', ''stream''],
        ce_DataPolicy = opt_out, ce_PromptPer1kMicro = 3000, ce_CompletionPer1kMicro = 15000, ce_Currency = ''USD''\<rparr>),
     (''claude-3-5-haiku-20241022'', \<lparr>ce_ContextLength = 200000, ce_Capabilities = [''chat'', ''tools'', ''stream''],
        ce_DataPolicy = opt_out, ce_PromptPer1kMicro = 800, ce_CompletionPer1kMicro = 4000, ce_Currency = ''USD''\<rparr>),
     (''claude-3-opus-20240229'', \<lparr>ce_ContextLength = 200000, ce_Capabilities = [''chat'', ''tools'', ''vision'', ''stream''],
        ce_DataPolicy = opt_out, ce_PromptPer1kMicro = 15000, ce_CompletionPer1kMicro = 75000, ce_Currency = ''USD''\<rparr>),
     (''deepseek-chat'', \<lparr>ce_ContextLength = 65536, ce_Capabilities = [''chat'', ''tools'', ''stream'', ''json_mode''],
        ce_DataPolicy = unknown_policy, ce_PromptPer1kMicro = 140, ce_CompletionPer1kMicro = 280, ce_Currency = ''USD''\<rparr>),
     (''deepseek-reasoner'', \<lparr>ce_ContextLength = 65536, ce_Capabilities = [''chat'', ''stream''],
        ce_DataPolicy = unknown_policy, ce_PromptPer1kMicro = 550, ce_CompletionPer1kMicro = 2190, ce_Currency = ''USD''\<rparr>)]"

definition catalog_Lookup :: "string \<Rightarrow> Entry option" where
  "catalog_Lookup modelID = map_of builtin modelID"

section \<open>Breaker gauges\<close>

definition labelValueOnGauge :: "(string \<times> string) list \<Rightarrow> string \<Rightarrow> string" where
  "labelValueOnGauge labels name = (case map_of labels name of None \<Rightarrow> [] | Some v \<Rightarrow> v)"

definition gatherBreakerStates :: "(goerr + metric_family list) option \<Rightarrow> string \<rightharpoonup> int" where
  "gatherBreakerStates g = (case g of
     Some (Inr families) \<Rightarrow>
       foldl (\<lambda>out m. let p = labelValueOnGauge (dm_Label m) ''provider'' in if p = [] then out else out(p \<mapsto> f_trunc (dm_Gauge m))) Map.empty
         (concat (map snd (filter (\<lambda>(name, _). name = ''gateway_breaker_state'') families)))
   | _ \<Rightarrow> Map.empty)"

definition statusLabelForBreakerState :: "int \<Rightarrow> string" where
  "statusLabelForBreakerState state = (if state = 0 then ''available'' else if state = 1 then ''degraded'' else ''unavailable'')"

section \<open>The listing\<close>

definition enrichModel :: "ModelInfo \<Rightarrow> PricingCache option \<Rightarrow> (string \<rightharpoonup> int) \<Rightarrow> bool \<Rightarrow> ModelInfo" where
  "enrichModel base pricing breakers showStatus =
     (let out1 = (case catalog_Lookup (mi_ID base) of
            None \<Rightarrow> base
          | Some e \<Rightarrow> base\<lparr>mi_ContextLength := ce_ContextLength e, mi_Capabilities := ce_Capabilities e, mi_DataPolicy := ce_DataPolicy e,
              mi_Pricing := FormatPricing (ce_PromptPer1kMicro e) (ce_CompletionPer1kMicro e) (ce_Currency e)\<rparr>);
          out2 = (case pricing of
            None \<Rightarrow> out1
          | Some cache \<Rightarrow> (case Lookup cache (mi_ID base) of
              None \<Rightarrow> out1
            | Some rate \<Rightarrow> (case FormatPricing (rt_InputPer1kMicro rate) (rt_OutputPer1kMicro rate) (rt_Currency rate) of
                None \<Rightarrow> out1 | Some p \<Rightarrow> out1\<lparr>mi_Pricing := Some p\<rparr>)))
      in if showStatus then (case breakers (mi_Provider base) of None \<Rightarrow> out2 | Some state \<Rightarrow> out2\<lparr>mi_Status := statusLabelForBreakerState state\<rparr>)
         else out2)"

definition ModelPricing_Marshal :: "ModelPricing \<Rightarrow> json" where
  "ModelPricing_Marshal p = JObj [(''prompt'', JStr (mp_Prompt p)), (''completion'', JStr (mp_Completion p)),
     (''currency'', JStr (mp_Currency p)), (''unit'', JStr (mp_Unit p))]"

definition DataPolicy_Marshal :: "DataPolicy \<Rightarrow> json" where
  "DataPolicy_Marshal p = JObj (members [(''training'', True, JStr (dp_Training p)),
     (''retention_days'', dp_RetentionDays p \<noteq> 0, JInt (dp_RetentionDays p))])"

definition ModelInfo_Marshal :: "ModelInfo \<Rightarrow> json" where
  "ModelInfo_Marshal m = JObj (members [
     (''id'', True, JStr (mi_ID m)),
     (''object'', True, JStr (mi_Object m)),
     (''created'', mi_Created m \<noteq> 0, JInt (mi_Created m)),
     (''owned_by'', mi_OwnedBy m \<noteq> [], JStr (mi_OwnedBy m)),
     (''pricing'', mi_Pricing m \<noteq> None, ModelPricing_Marshal (the (mi_Pricing m))),
     (''context_length'', mi_ContextLength m \<noteq> 0, JInt (mi_ContextLength m)),
     (''capabilities'', mi_Capabilities m \<noteq> [], enc_list JStr (mi_Capabilities m)),
     (''data_policy'', mi_DataPolicy m \<noteq> None, DataPolicy_Marshal (the (mi_DataPolicy m))),
     (''status'', mi_Status m \<noteq> [], JStr (mi_Status m))])"

definition modelsHandler ::
  "registryState \<Rightarrow> PricingCache option \<Rightarrow> (goerr + metric_family list) option \<Rightarrow> 's handler" where
  "modelsHandler reg pricing gatherer r w s =
     (let breakers = gatherBreakerStates gatherer;
          showStatus = HasScope (rq_Principal r) ''admin'' ''webui'';
          enriched = map (\<lambda>m. enrichModel m pricing breakers showStatus) (AllModels reg)
      in (Returned,
          jsonEncode (JObj [(''object'', JStr ''list''), (''data'', JArr (map ModelInfo_Marshal enriched))])
            (set_header ''Content-Type'' ''application/json'' w), s))"

section \<open>Lemmas\<close>

lemma enrichModel_ID [simp]: "mi_ID (enrichModel m pricing breakers b) = mi_ID m"
  by (simp add: enrichModel_def Let_def split: option.splits)

lemma enrichModel_hidden: "enrichModel m pricing breakers False = enrichModel m pricing breakers' False"
  by (simp add: enrichModel_def Let_def)

text \<open>A row of the price table whose prices are both positive wins over the catalog.\<close>

lemma enrichModel_price:
  assumes "Lookup cache (mi_ID m) = Some rate" "0 < rt_InputPer1kMicro rate" "0 < rt_OutputPer1kMicro rate"
  shows "mi_Pricing (enrichModel m (Some cache) breakers b) =
    FormatPricing (rt_InputPer1kMicro rate) (rt_OutputPer1kMicro rate) (rt_Currency rate)"
  using assms by (simp add: enrichModel_def Let_def FormatPricing_def split: option.splits)

text \<open>A row with a price of zero does not: the listing goes on showing the catalog's price.\<close>

lemma free_model_keeps_catalog_price:
  assumes "Lookup cache (mi_ID m) = Some rate" "rt_InputPer1kMicro rate = 0" "catalog_Lookup (mi_ID m) = Some e"
  shows "mi_Pricing (enrichModel m (Some cache) breakers b) =
    FormatPricing (ce_PromptPer1kMicro e) (ce_CompletionPer1kMicro e) (ce_Currency e)"
  using assms by (simp add: enrichModel_def Let_def FormatPricing_def split: option.splits)

section \<open>Properties\<close>

text \<open>
  \<open>/v1/models\<close> answers with one entry per model id of the registry, in ascending order of
  id, priced by the price table where it has positive prices; and to a caller without the
  \<open>admin:webui\<close> scope the response is the same whatever the breakers report.
\<close>

lemma models_listing:
  assumes "modelsHandler reg (Some cache) gatherer r w s = (e, w', s')" "rw_status w = None" "rw_writes w (length (rw_body w))"
  shows "\<exists>ms. rw_body w' = rw_body w @ [BJson (JObj [(''object'', JStr ''list''), (''data'', JArr (map ModelInfo_Marshal ms))])] \<and> rw_status w' = Some 200 \<and>
      sorted (map mi_ID ms) \<and> distinct (map mi_ID ms) \<and> mi_ID ` set ms = mi_ID ` set (models_of reg) \<and>
      (\<forall>m \<in> set ms. \<forall>rate. Lookup cache (mi_ID m) = Some rate \<and> 0 < rt_InputPer1kMicro rate \<and> 0 < rt_OutputPer1kMicro rate \<longrightarrow>
        mi_Pricing m = FormatPricing (rt_InputPer1kMicro rate) (rt_OutputPer1kMicro rate) (rt_Currency rate)) \<and>
      (\<not> HasScope (rq_Principal r) ''admin'' ''webui'' \<longrightarrow> modelsHandler reg (Some cache) gatherer' r w s = (e, w', s'))"
proof -
  let ?show = "HasScope (rq_Principal r) ''admin'' ''webui''"
  define ms where "ms = map (\<lambda>m. enrichModel m (Some cache) (gatherBreakerStates gatherer) ?show) (AllModels reg)"
  have ids: "map mi_ID ms = map mi_ID (AllModels reg)" by (simp add: ms_def)
  have "set (map mi_ID ms) = set (map mi_ID (AllModels reg))" by (simp only: ids)
  then have set_ids: "mi_ID ` set ms = mi_ID ` set (AllModels reg)" by simp
  have price: "mi_Pricing m = FormatPricing (rt_InputPer1kMicro rate) (rt_OutputPer1kMicro rate) (rt_Currency rate)"
    if "m \<in> set ms" "Lookup cache (mi_ID m) = Some rate" "0 < rt_InputPer1kMicro rate" "0 < rt_OutputPer1kMicro rate" for m rate
    using that by (auto simp: ms_def enrichModel_price)
  have body: "rw_body w' = rw_body w @ [BJson (JObj [(''object'', JStr ''list''), (''data'', JArr (map ModelInfo_Marshal ms))])]" "rw_status w' = Some 200"
    using assms by (auto simp: modelsHandler_def Let_def ms_def jsonEncode_def write_part_body)
  have hidden: "modelsHandler reg (Some cache) gatherer' r w s = (e, w', s')" if "\<not> ?show"
  proof -
    have "(\<lambda>m. enrichModel m (Some cache) (gatherBreakerStates gatherer') False) = (\<lambda>m. enrichModel m (Some cache) (gatherBreakerStates gatherer) False)"
      by (intro ext enrichModel_hidden)
    with assms(1) that show ?thesis by (simp add: modelsHandler_def Let_def)
  qed
  show ?thesis
    using all_models_sorted_unique [of reg] ids set_ids price body hidden by (intro exI [of _ ms] conjI ballI allI impI) simp_all
qed

definition demo_registry :: registryState where
  "demo_registry = NewEmpty\<lparr>names := [''a''], byName := [''a'' \<mapsto> OpenAI \<lparr>op_cfg = \<lparr>oc_Name = ''a'', oc_Endpoint = [], oc_APIKey = ''k'',
     oc_Organization = [], oc_Timeout = 0, oc_Exact = [''gpt-4o'', ''deepseek-chat''], oc_Glob = [], oc_OwnedBy = []\<rparr>, op_baseURL = ''u''\<rparr>]\<rparr>"

lemma models_listing_witness:
  "\<exists>ms. map mi_ID ms = [''deepseek-chat'', ''gpt-4o''] \<and>
     (\<forall>gatherer. rw_body (fst (snd (modelsHandler demo_registry (Some NewPricingCache) gatherer
       \<lparr>rq_Method = ''GET'', rq_Path = [], rq_Header = [], rq_ReqID = [], rq_Principal = None\<rparr> (new_writer (\<lambda>_. True) True) ()))) =
       [BJson (JObj [(''object'', JStr ''list''), (''data'', JArr (map ModelInfo_Marshal ms))])])"
proof -
  let ?r = "\<lparr>rq_Method = ''GET'', rq_Path = [], rq_Header = [], rq_ReqID = [], rq_Principal = None\<rparr>" and ?w = "new_writer (\<lambda>_. True) True"
  obtain e w' s' where h: "modelsHandler demo_registry (Some NewPricingCache) None ?r ?w () = (e, w', s')" by (metis prod_cases3)
  have w: "rw_status ?w = None" "rw_writes ?w (length (rw_body ?w))" "rw_body ?w = []" by (simp_all add: new_writer_def)
  from models_listing [OF h w(1,2), of None] obtain ms where body: "rw_body w' = [BJson (JObj [(''object'', JStr ''list''), (''data'', JArr (map ModelInfo_Marshal ms))])]"
    and ids: "sorted (map mi_ID ms)" "distinct (map mi_ID ms)" "mi_ID ` set ms = mi_ID ` set (models_of demo_registry)"
    unfolding w(3) by auto
  have "set (map mi_ID ms) = {''deepseek-chat'', ''gpt-4o''}"
    using ids(3) by (auto simp: models_of_def demo_registry_def NewEmpty_def openai_SupportedModels_def model_info_def)
  then have "map mi_ID ms = [''deepseek-chat'', ''gpt-4o'']"
    using ids(1,2) by (intro sorted_distinct_set_unique) simp_all
  moreover have "modelsHandler demo_registry (Some NewPricingCache) gatherer ?r ?w () = (e, w', s')" for gatherer
    using models_listing [OF h w(1,2), of gatherer] by (auto simp: HasScope_def)
  ultimately show ?thesis using body by (intro exI [of _ ms]) simp
qed

end
