(* ===== verification/TimeSeries.thy ===== *)
theory TimeSeries
  imports BillingWorker Http
begin

text \<open>
  \<open>internal/observability/timeseries.go\<close>: the ring of sixty one-minute counters behind
  \<open>/admin/stats/timeseries\<close>, and the proof that it shows exactly the requests of the last
  hour.  A slot that was never used starts at Go's zero time; a negative index, which a clock
  before 1970 gives, panics (\<open>None\<close>).
\<close>

section \<open>The ring\<close>

record tsSlot =
  sl_start :: instant
  sl_success :: int
  sl_error :: int

record TimeSeries =
  ts_started :: instant
  ts_slotDur :: duration
  ts_slots :: "tsSlot list"

record TimePoint =
  tp_T :: instant
  tp_Success :: int
  tp_Error :: int

definition tsSlotCount :: nat where
  "tsSlotCount = 60"

definition tsSlotDur :: duration where
  "tsSlotDur = Minute"

definition NewTimeSeries :: "instant \<Rightarrow> TimeSeries" where
  "NewTimeSeries now = \<lparr>ts_started = now, ts_slotDur = tsSlotDur,
     ts_slots = replicate tsSlotCount \<lparr>sl_start = zero_time, sl_success = 0, sl_error = 0\<rparr>\<rparr>"

text \<open>\<open>Truncate\<close> rounds down to a multiple of the duration since the zero time; \<open>Unix\<close> is in seconds.\<close>

definition time_Truncate :: "instant \<Rightarrow> duration \<Rightarrow> instant" where
  "time_Truncate t d = (if d \<le> 0 then t else t - (t - zero_time) mod d)"

definition time_Unix :: "instant \<Rightarrow> int" where
  "time_Unix t = t div Second"

definition slotIndex :: "instant \<Rightarrow> duration \<Rightarrow> int" where
  "slotIndex bucket slotDur = go_mod (go_div (time_Unix bucket) (f_trunc (duration_Seconds slotDur))) (int tsSlotCount)"

definition bump :: "int \<Rightarrow> instant \<Rightarrow> tsSlot \<Rightarrow> tsSlot" where
  "bump status bucket s0 =
     (let s = (if sl_start s0 \<noteq> bucket then \<lparr>sl_start = bucket, sl_success = 0, sl_error = 0\<rparr> else s0)
      in if status \<ge> 400 then s\<lparr>sl_error := wrap64 (sl_error s + 1)\<rparr> else s\<lparr>sl_success := wrap64 (sl_success s + 1)\<rparr>)"

definition ts_Record :: "instant \<Rightarrow> int \<Rightarrow> TimeSeries \<Rightarrow> TimeSeries option" where
  "ts_Record now status t =
     (let bucket = time_Truncate now (ts_slotDur t); idx = slotIndex bucket (ts_slotDur t)
      in if idx < 0 then None
         else Some (t\<lparr>ts_slots := (ts_slots t)[nat idx := bump status bucket (ts_slots t ! nat idx)]\<rparr>))"

definition snapshot_point :: "instant \<Rightarrow> TimeSeries \<Rightarrow> nat \<Rightarrow> TimePoint option" where
  "snapshot_point now t i =
     (let bucket = now + (- (int tsSlotCount - 1 - int i)) * ts_slotDur t; idx = slotIndex bucket (ts_slotDur t)
      in if idx < 0 then None
         else let s = ts_slots t ! nat idx
              in Some (if sl_start s \<noteq> bucket then \<lparr>tp_T = bucket, tp_Success = 0, tp_Error = 0\<rparr>
                       else \<lparr>tp_T = sl_start s, tp_Success = sl_success s, tp_Error = sl_error s\<rparr>))"

definition Snapshot :: "instant \<Rightarrow> TimeSeries \<Rightarrow> TimePoint list option" where
  "Snapshot clock t = those (map (snapshot_point (time_Truncate clock (ts_slotDur t)) t) [0..<tsSlotCount])"

section \<open>Minutes\<close>

abbreviation minute :: "instant \<Rightarrow> int" where
  "minute t \<equiv> t div Minute"

lemma truncate_minute: "time_Truncate t tsSlotDur = minute t * Minute"
proof -
  have "t - zero_time = t + 1035593280 * Minute" by (simp add: zero_time_def)
  then have "(t - zero_time) mod Minute = t mod Minute" by (simp only: mod_mult_self1)
  then show ?thesis by (simp add: time_Truncate_def tsSlotDur_def minus_mod_eq_div_mult)
qed

lemma slot_seconds: "f_trunc (duration_Seconds tsSlotDur) = 60"
  by code_simp

lemma slotIndex_minute:
  assumes "0 \<le> m"
  shows "slotIndex (m * Minute) tsSlotDur = m mod 60"
proof -
  have u: "time_Unix (m * Minute) = m * 60"
    using nonzero_mult_div_cancel_right [of Second "m * 60"] by (simp add: time_Unix_def)
  have "go_div (m * 60) 60 = m" using assms by (simp add: go_div_nonneg)
  moreover have "go_mod m 60 = m mod 60" using assms by (simp add: go_mod_def go_div_nonneg minus_mult_div_eq_mod)
  ultimately show ?thesis by (simp add: slotIndex_def slot_seconds u tsSlotCount_def)
qed

lemma minute_of_start: "minute (m * Minute) = m"
  by simp

lemma zero_time_no_minute: "0 \<le> m \<Longrightarrow> m * Minute \<noteq> zero_time"
  by (simp add: zero_time_def)

section \<open>The ring and the history\<close>

text \<open>The number of requests of a minute whose status satisfies a predicate.\<close>

definition hits :: "(int \<Rightarrow> bool) \<Rightarrow> int \<Rightarrow> (instant \<times> int) list \<Rightarrow> int" where
  "hits P m hist = int (length (filter (\<lambda>(t, st). minute t = m \<and> P st) hist))"

lemma hits_snoc: "hits P m (hist @ [(t, st)]) = hits P m hist + (if minute t = m \<and> P st then 1 else 0)"
  by (simp add: hits_def)

lemma hits_le: "hits P m hist \<le> int (length hist)"
  by (simp add: hits_def)

lemma hits_none: "\<forall>(t, st) \<in> set hist. minute t \<noteq> m \<Longrightarrow> hits P m hist = 0"
  by (auto simp: hits_def filter_empty_conv)

text \<open>A slot holds the latest minute of its residue class that saw a request.\<close>

definition slot_ok :: "(instant \<times> int) list \<Rightarrow> nat \<Rightarrow> tsSlot \<Rightarrow> bool" where
  "slot_ok hist k s \<longleftrightarrow>
     (sl_start s = zero_time \<and> (\<forall>(t, st) \<in> set hist. minute t mod 60 \<noteq> int k)) \<or>
     (\<exists>m. 0 \<le> m \<and> sl_start s = m * Minute \<and> m mod 60 = int k \<and> (\<exists>(t, st) \<in> set hist. minute t = m) \<and>
       (\<forall>(t, st) \<in> set hist. minute t mod 60 = int k \<longrightarrow> minute t \<le> m) \<and>
       sl_success s = hits (\<lambda>st. st < 400) m hist \<and> sl_error s = hits (\<lambda>st. 400 \<le> st) m hist)"

definition ring_ok :: "(instant \<times> int) list \<Rightarrow> TimeSeries \<Rightarrow> bool" where
  "ring_ok hist t \<longleftrightarrow> length (ts_slots t) = 60 \<and> ts_slotDur t = tsSlotDur \<and> (\<forall>k < 60. slot_ok hist k (ts_slots t ! k))"

lemma ring_ok_New: "ring_ok [] (NewTimeSeries now)"
  by (simp add: ring_ok_def NewTimeSeries_def tsSlotCount_def slot_ok_def)

lemma slot_okI:
  assumes "0 \<le> m" "sl_start s = m * Minute" "m mod 60 = int k" "(u, x) \<in> set hist" "minute u = m"
    "\<And>t st. (t, st) \<in> set hist \<Longrightarrow> minute t mod 60 = int k \<Longrightarrow> minute t \<le> m"
    "sl_success s = hits (\<lambda>st. st < 400) m hist" "sl_error s = hits (\<lambda>st. 400 \<le> st) m hist"
  shows "slot_ok hist k s"
  unfolding slot_ok_def using assms by (intro disjI2 exI [of _ m]) blast

lemma slot_okE:
  assumes "slot_ok hist k s"
  obtains (unused) "sl_start s = zero_time" "\<And>t st. (t, st) \<in> set hist \<Longrightarrow> minute t mod 60 \<noteq> int k"
  | (used) m u x where "0 \<le> m" "sl_start s = m * Minute" "m mod 60 = int k" "(u, x) \<in> set hist" "minute u = m"
    "\<And>t st. (t, st) \<in> set hist \<Longrightarrow> minute t mod 60 = int k \<Longrightarrow> minute t \<le> m"
    "sl_success s = hits (\<lambda>st. st < 400) m hist" "sl_error s = hits (\<lambda>st. 400 \<le> st) m hist"
  using assms unfolding slot_ok_def by blast

lemma slot_ok_other:
  assumes "slot_ok hist k s" "minute t mod 60 \<noteq> int k"
  shows "slot_ok (hist @ [(t, st)]) k s"
  using assms(1)
proof (cases rule: slot_okE)
  case unused
  then show ?thesis using assms(2) by (auto simp: slot_ok_def)
next
  case (used m u x)
  have "minute t \<noteq> m" using used(3) assms(2) by blast
  then have h: "hits P m (hist @ [(t, st)]) = hits P m hist" for P by (simp add: hits_snoc)
  show ?thesis
  proof (rule slot_okI [of m _ _ u x])
    show "minute v \<le> m" if "(v, y) \<in> set (hist @ [(t, st)])" "minute v mod 60 = int k" for v y
      using that used(6) assms(2) by auto
  qed (use used h in simp_all)
qed

lemma bump_ok:
  assumes "slot_ok hist k s" "minute t mod 60 = int k" "0 \<le> t" "\<forall>(u, st) \<in> set hist. u \<le> t" "int (length hist) < 2 ^ 62"
  shows "slot_ok (hist @ [(t, st)]) k (bump st (minute t * Minute) s)"
proof -
  let ?m = "minute t"
  have m0: "0 \<le> ?m" using assms(3) by simp
  have le: "minute u \<le> ?m" if "(u, x) \<in> set hist" for u x using assms(4) that by (auto intro: zdiv_mono1)
  have small: "wrap64 (n + 1) = n + 1" if "0 \<le> n" "n \<le> int (length hist)" for n
    using that assms(5) by (simp add: wrap64_def)
  have cnt: "0 \<le> hits P m hist \<and> hits P m hist \<le> int (length hist)" for P m using hits_le by (simp add: hits_def)
  have last: "minute v \<le> ?m" if "(v, y) \<in> set (hist @ [(t, st)])" for v y using that le by auto
  have here: "(t, st) \<in> set (hist @ [(t, st)])" by simp
  show ?thesis
  proof (cases "sl_start s = ?m * Minute")
    case True
    from assms(1) have "sl_success s = hits (\<lambda>st. st < 400) ?m hist" "sl_error s = hits (\<lambda>st. 400 \<le> st) ?m hist"
      using True zero_time_no_minute [OF m0] by (cases rule: slot_okE; simp)+
    then show ?thesis using True m0 assms(2) last here cnt small
      by (intro slot_okI [of ?m _ _ t st]) (simp_all add: bump_def Let_def hits_snoc)
  next
    case False
    have "minute u \<noteq> ?m" if "(u, x) \<in> set hist" for u x
    proof
      assume u: "minute u = ?m"
      from assms(1) show False
      proof (cases rule: slot_okE)
        case unused
        show False using unused(2) [OF that] u assms(2) by simp
      next
        case (used m v y)
        have "?m \<le> m" using used(6) [OF that] u assms(2) by simp
        moreover have "m \<le> ?m" using le [OF used(4)] used(5) by simp
        ultimately show False using False used(2) by simp
      qed
    qed
    then have "hits P ?m hist = 0" for P by (intro hits_none) auto
    then show ?thesis using False m0 assms(2) last here
      by (intro slot_okI [of ?m _ _ t st]) (simp_all add: bump_def Let_def hits_snoc wrap64_def)
  qed
qed

lemma Record_ok:
  assumes "ring_ok hist t" "0 \<le> now" "\<forall>(u, st) \<in> set hist. u \<le> now" "int (length hist) < 2 ^ 62"
  shows "\<exists>t'. ts_Record now st t = Some t' \<and> ring_ok (hist @ [(now, st)]) t'"
proof -
  let ?k = "nat (minute now mod 60)"
  have d: "ts_slotDur t = tsSlotDur" "length (ts_slots t) = 60" using assms(1) by (simp_all add: ring_ok_def)
  have k: "minute now mod 60 = int ?k" "?k < 60" by simp_all
  have idx: "slotIndex (time_Truncate now (ts_slotDur t)) (ts_slotDur t) = minute now mod 60"
    unfolding d truncate_minute using assms(2) by (intro slotIndex_minute) simp
  have "slot_ok (hist @ [(now, st)]) j ((ts_slots t)[?k := bump st (minute now * Minute) (ts_slots t ! ?k)] ! j)" if "j < 60" for j
  proof (cases "j = ?k")
    case True
    then show ?thesis using bump_ok [OF _ k(1) assms(2-4), of "ts_slots t ! ?k" st] assms(1) k(2) d by (simp add: ring_ok_def)
  next
    case False
    with k(1) have "minute now mod 60 \<noteq> int j" by linarith
    then show ?thesis using slot_ok_other assms(1) that False by (simp add: ring_ok_def)
  qed
  then show ?thesis using d idx by (simp add: ts_Record_def ring_ok_def truncate_minute Let_def)
qed

text \<open>The requests of a history, recorded one after the other.\<close>

fun record_all :: "(instant \<times> int) list \<Rightarrow> TimeSeries \<Rightarrow> TimeSeries option" where
  "record_all [] t = Some t"
| "record_all ((now, st) # hist) t = Option.bind (ts_Record now st t) (record_all hist)"

lemma record_all_snoc: "record_all (hist @ [(now, st)]) t = Option.bind (record_all hist t) (ts_Record now st)"
  by (induction hist arbitrary: t) (auto split: Option.bind_splits)

lemma record_all_ok:
  assumes "sorted (map fst hist)" "\<forall>(t, st) \<in> set hist. 0 \<le> t" "int (length hist) < 2 ^ 62"
  shows "\<exists>t. record_all hist (NewTimeSeries start) = Some t \<and> ring_ok hist t"
  using assms
proof (induction hist rule: rev_induct)
  case Nil
  then show ?case by (simp add: ring_ok_New)
next
  case (snoc x hist)
  obtain now st where x: "x = (now, st)" by force
  from snoc obtain t where t: "record_all hist (NewTimeSeries start) = Some t" "ring_ok hist t"
    by (auto simp: sorted_append)
  have "\<forall>(u, st) \<in> set hist. u \<le> now" using snoc.prems(1) by (auto simp: x sorted_append)
  with Record_ok [OF t(2), of now st] snoc.prems t(1) show ?case by (auto simp: x record_all_snoc)
qed

text \<open>What the snapshot shows for a minute of the last hour.\<close>

lemma snapshot_point_exact:
  assumes "ring_ok hist t" "\<forall>(u, st) \<in> set hist. u \<le> clock" "i < 60" "59 * Minute \<le> clock"
  defines "m \<equiv> minute clock - 59 + int i"
  shows "snapshot_point (minute clock * Minute) t i =
    Some \<lparr>tp_T = m * Minute, tp_Success = hits (\<lambda>st. st < 400) m hist, tp_Error = hits (\<lambda>st. 400 \<le> st) m hist\<rparr>"
proof -
  have d: "ts_slotDur t = tsSlotDur" using assms(1) by (simp add: ring_ok_def)
  have mn: "59 \<le> minute clock" using assms(4) zdiv_mono1 [of "59 * Minute" clock Minute] by simp
  then have m0: "0 \<le> m" by (simp add: m_def)
  have b: "minute clock * Minute + (- (int tsSlotCount - 1 - int i)) * ts_slotDur t = m * Minute"
    by (simp add: d tsSlotCount_def tsSlotDur_def m_def algebra_simps)
  let ?k = "nat (m mod 60)"
  have k: "m mod 60 = int ?k" "?k < 60" by simp_all
  have ok: "slot_ok hist ?k (ts_slots t ! ?k)" using assms(1) k(2) by (simp add: ring_ok_def)
  have idx: "slotIndex (m * Minute) (ts_slotDur t) = m mod 60" unfolding d by (rule slotIndex_minute [OF m0])
  have recent: "minute u \<le> minute clock" if "(u, x) \<in> set hist" for u x using assms(2) that by (auto intro: zdiv_mono1)
  have "hits P m hist = 0" if ne: "sl_start (ts_slots t ! ?k) \<noteq> m * Minute" for P
  proof -
    have "minute u \<noteq> m" if u: "(u, x) \<in> set hist" for u x
    proof
      assume um: "minute u = m"
      from ok show False
      proof (cases rule: slot_okE)
        case unused
        show False using unused(2) [OF u] um k(1) by simp
      next
        case (used m' v y)
        have "m \<le> m'" using used(6) [OF u] um k(1) by simp
        moreover have "m' \<noteq> m" using ne used(2) by auto
        moreover have "60 dvd m' - m" using used(3) k(1) by (simp add: mod_eq_dvd_iff [symmetric])
        ultimately have "60 \<le> m' - m" using zdvd_imp_le [of 60 "m' - m"] by linarith
        moreover have "m' \<le> minute clock" using recent [OF used(4)] used(5) by simp
        ultimately show False unfolding m_def by linarith
      qed
    qed
    then show ?thesis by (intro hits_none) auto
  qed
  note stale = this
  have fresh: "sl_success (ts_slots t ! ?k) = hits (\<lambda>st. st < 400) m hist \<and> sl_error (ts_slots t ! ?k) = hits (\<lambda>st. 400 \<le> st) m hist"
    if "sl_start (ts_slots t ! ?k) = m * Minute"
    using ok that zero_time_no_minute [OF m0] by (cases rule: slot_okE) auto
  have nn: "\<not> m mod 60 < 0" by simp
  show ?thesis
    unfolding snapshot_point_def Let_def b idx
    using stale fresh nn by (cases "sl_start (ts_slots t ! ?k) = m * Minute") simp_all
qed

lemma those_Some: "(\<And>x. x \<in> set xs \<Longrightarrow> f x = Some (g x)) \<Longrightarrow> those (map f xs) = Some (map g xs)"
  by (induction xs) auto

section \<open>Properties\<close>

text \<open>
  C35: The ring implements the history it forgets.  After any requests in the order of their
  instants, the snapshot has sixty points, the minutes that end with the current one, and
  each shows exactly the numbers of successes and errors of the history in that minute.
\<close>

theorem timeseries_shows_last_hour:
  assumes "sorted (map fst hist)" "\<forall>(t, st) \<in> set hist. 0 \<le> t \<and> t \<le> clock" "int (length hist) < 2 ^ 62" "59 * Minute \<le> clock"
  shows "\<exists>t. record_all hist (NewTimeSeries start) = Some t \<and>
    Snapshot clock t = Some (map (\<lambda>i. let m = minute clock - 59 + int i
      in \<lparr>tp_T = m * Minute, tp_Success = hits (\<lambda>st. st < 400) m hist, tp_Error = hits (\<lambda>st. 400 \<le> st) m hist\<rparr>) [0..<60])"
proof -
  obtain t where t: "record_all hist (NewTimeSeries start) = Some t" "ring_ok hist t"
    using record_all_ok [OF assms(1) _ assms(3), of start] assms(2) by auto
  have "ts_slotDur t = tsSlotDur" using t(2) by (simp add: ring_ok_def)
  then have "Snapshot clock t = those (map (snapshot_point (minute clock * Minute) t) [0..<60])"
    by (simp add: Snapshot_def truncate_minute tsSlotCount_def)
  also have "\<dots> = Some (map (\<lambda>i. let m = minute clock - 59 + int i
      in \<lparr>tp_T = m * Minute, tp_Success = hits (\<lambda>st. st < 400) m hist, tp_Error = hits (\<lambda>st. 400 \<le> st) m hist\<rparr>) [0..<60])"
    using snapshot_point_exact [OF t(2) _ _ assms(4)] assms(2) by (intro those_Some) (auto simp: Let_def)
  finally show ?thesis using t(1) by blast
qed

theorem timeseries_shows_last_hour_witness:
  "\<exists>t ps. record_all [(0, 200), (Hour, 500), (Hour + 1, 200), (Hour + Minute, 404)] (NewTimeSeries 0) = Some t \<and>
     Snapshot (Hour + Minute) t = Some ps \<and> ps ! 58 = \<lparr>tp_T = Hour, tp_Success = 1, tp_Error = 1\<rparr>"
proof -
  let ?hist = "[(0, 200), (Hour, 500), (Hour + 1, 200), (Hour + Minute, 404)] :: (instant \<times> int) list"
  have h: "sorted (map fst ?hist)" "\<forall>(t, st) \<in> set ?hist. 0 \<le> t \<and> t \<le> Hour + Minute" "int (length ?hist) < 2 ^ 62" "59 * Minute \<le> Hour + Minute"
    by simp_all
  show ?thesis using timeseries_shows_last_hour [OF h, of 0] by (fastforce simp: Let_def hits_def)
qed

end
