(* ===== verification/Utf8.thy ===== *)
theory Utf8
  imports Main
begin

text \<open>
  Go's UTF-8 decoding, as \<open>range\<close> over a string and the conversions between \<open>string\<close> and
  \<open>[]rune\<close> do it: a rune is well formed by the ranges of its first and second byte, and a byte
  that starts no well-formed rune is the replacement rune by itself.  A rune is represented by
  the bytes it is encoded as.
\<close>

section \<open>Decoding\<close>

definition byte_in :: "nat \<Rightarrow> nat \<Rightarrow> char \<Rightarrow> bool" where
  "byte_in lo hi c \<longleftrightarrow> lo \<le> of_char c \<and> of_char c \<le> hi"

text \<open>At least \<open>n\<close> continuation bytes, the first of them in a narrower range.\<close>

definition continues :: "nat \<Rightarrow> nat \<Rightarrow> nat \<Rightarrow> string \<Rightarrow> bool" where
  "continues lo hi n cs \<longleftrightarrow> n \<le> length cs \<and> list_all (byte_in lo hi) (take 1 cs) \<and> list_all (byte_in 128 191) (take n cs)"

text \<open>The length of the well-formed rune a string starts with; 0 when there is none.\<close>

fun rune_len :: "string \<Rightarrow> nat" where
  "rune_len [] = 0"
| "rune_len (c # cs) =
     (if byte_in 0 127 c then 1
      else if byte_in 194 223 c \<and> continues 128 191 1 cs then 2
      else if byte_in 224 224 c \<and> continues 160 191 2 cs then 3
      else if (byte_in 225 236 c \<or> byte_in 238 239 c) \<and> continues 128 191 2 cs then 3
      else if byte_in 237 237 c \<and> continues 128 159 2 cs then 3
      else if byte_in 240 240 c \<and> continues 144 191 3 cs then 4
      else if byte_in 241 243 c \<and> continues 128 191 3 cs then 4
      else if byte_in 244 244 c \<and> continues 128 143 3 cs then 4
      else 0)"

definition rune_error :: string where
  "rune_error = map char_of [239 :: nat, 191, 189]"

function runes :: "string \<Rightarrow> string list" where
  "runes [] = []"
| "runes (c # cs) = (case rune_len (c # cs) of
     0 \<Rightarrow> rune_error # runes cs
   | Suc n \<Rightarrow> (c # take n cs) # runes (drop n cs))"
  by pat_completeness auto
termination
  by (relation "measure length") auto

text \<open>\<open>utf8.ValidString\<close>.\<close>

function valid_utf8 :: "string \<Rightarrow> bool" where
  "valid_utf8 [] = True"
| "valid_utf8 (c # cs) = (case rune_len (c # cs) of 0 \<Rightarrow> False | Suc n \<Rightarrow> valid_utf8 (drop n cs))"
  by pat_completeness auto
termination
  by (relation "measure length") auto

text \<open>A string converted to runes and back.\<close>

definition to_valid_utf8 :: "string \<Rightarrow> string" where
  "to_valid_utf8 s = concat (runes s)"

section \<open>Lemmas\<close>

declare rune_len.simps(2) [simp del]

lemma rune_len_ascii [simp]: "byte_in 0 127 c \<Longrightarrow> rune_len (c # cs) = 1"
  by (simp add: rune_len.simps)

text \<open>A valid text comes back as it was; so does every byte sequence that is ASCII.\<close>

lemma to_valid_id: "valid_utf8 s \<Longrightarrow> to_valid_utf8 s = s"
  unfolding to_valid_utf8_def by (induction s rule: runes.induct) (auto split: nat.splits)

lemma ascii_valid: "list_all (byte_in 0 127) s \<Longrightarrow> valid_utf8 s"
  by (induction s) auto

lemma runes_ascii: "list_all (byte_in 0 127) s \<Longrightarrow> runes s = map (\<lambda>c. [c]) s"
  by (induction s) auto

text \<open>An overlong form, a surrogate half and a lone continuation byte are replaced byte by byte.\<close>

lemma invalid_replaced:
  "runes (map char_of [192 :: nat, 128]) = [rune_error, rune_error]"
  "runes (map char_of [237 :: nat, 160, 128]) = [rune_error, rune_error, rune_error]"
  "runes (map char_of [97 :: nat, 128, 195, 169]) = [''a'', rune_error, map char_of [195 :: nat, 169]]"
  by code_simp+

declare runes.simps(2) [simp del] valid_utf8.simps(2) [simp del]

end
