(* ===== verification/Tokenizer.thy ===== *)
theory Tokenizer
  imports ProviderTypes Utf8 "HOL-Library.Sublist"
begin

text \<open>
  \<open>pkg/tokenizer\<close>: token counts of texts and message lists.  The BPE codec is a library;
  \<open>encode\<close>, the number of tokens it returns or an error, is an argument.  The locale
  \<open>token_counter\<close> is what the prompt compressor relies on.
\<close>

section \<open>Counting\<close>

datatype Tokenizer = OpenaiBPE | AnthropicApprox

definition perMessageOverhead :: int where
  "perMessageOverhead = 3"

definition primingOverhead :: int where
  "primingOverhead = 3"

text \<open>The runes that are not white space, a byte that is not UTF-8 counting as one.\<close>

definition charEstimate :: "string \<Rightarrow> int" where
  "charEstimate text = (if text = [] then 0
     else let chars = int (length (filter (\<lambda>r. r \<notin> {'' '', [CHR 9], ''\<newline>'', [CHR 13]}) (runes text)))
          in if chars < 4 then 1 else chars div 4)"

definition openai_CountText :: "(string \<Rightarrow> nat option) \<Rightarrow> string \<Rightarrow> int" where
  "openai_CountText encode text = (if text = [] then 0
     else case encode text of None \<Rightarrow> charEstimate text | Some n \<Rightarrow> int n)"

definition message_cost :: "(string \<Rightarrow> nat option) \<Rightarrow> Message \<Rightarrow> int" where
  "message_cost encode m = perMessageOverhead + openai_CountText encode (m_Role m) + openai_CountText encode (m_Content m) +
     (if m_Name m \<noteq> [] then openai_CountText encode (m_Name m) else 0)"

definition openai_CountMessages :: "(string \<Rightarrow> nat option) \<Rightarrow> Message list \<Rightarrow> int" where
  "openai_CountMessages encode ms = (if ms = [] then 0
     else foldl (\<lambda>total m. total + message_cost encode m) primingOverhead ms)"

definition anthropicScale :: rat where
  "anthropicScale = fl64 (115 / 100)"

definition scale :: "int \<Rightarrow> rat \<Rightarrow> int" where
  "scale n factor = (if n = 0 then 0 else f_trunc (f_add (f_mul (f_of_int n) factor) (1 / 2)))"

fun CountText :: "(string \<Rightarrow> nat option) \<Rightarrow> Tokenizer \<Rightarrow> string \<Rightarrow> int" where
  "CountText encode OpenaiBPE text = openai_CountText encode text"
| "CountText encode AnthropicApprox text = scale (openai_CountText encode text) anthropicScale"

fun CountMessages :: "(string \<Rightarrow> nat option) \<Rightarrow> Tokenizer \<Rightarrow> Message list \<Rightarrow> int" where
  "CountMessages encode OpenaiBPE ms = openai_CountMessages encode ms"
| "CountMessages encode AnthropicApprox ms = scale (openai_CountMessages encode ms) anthropicScale"

text \<open>\<open>Selector.For\<close>.\<close>

definition tokenizer_For :: "string \<Rightarrow> Tokenizer" where
  "tokenizer_For model = (if has_prefix (to_lower model) ''claude'' then AnthropicApprox else OpenaiBPE)"

section \<open>The contract\<close>

text \<open>
  Counting a concatenation costs no more than counting its parts.  The Anthropic estimate
  rounds a float product, so the law is stated below a size no prompt reaches.
\<close>

locale token_counter =
  fixes count :: "Message list \<Rightarrow> int" and small :: "Message list \<Rightarrow> bool"
  assumes count_nil: "count [] = 0"
    and count_nonneg: "small ms \<Longrightarrow> 0 \<le> count ms"
    and count_append: "small (xs @ ys) \<Longrightarrow> count (xs @ ys) \<le> count xs + count ys"
    and small_append: "small (xs @ ys) \<Longrightarrow> small xs \<and> small ys"
begin

lemma count_each: "small ms \<Longrightarrow> count ms \<le> sum_list (map (\<lambda>m. count [m]) ms)"
proof (induction ms)
  case (Cons m ms)
  then have "small ([m] @ ms)" by simp
  from count_append [OF this] small_append [OF this] Cons show ?case by simp
qed (simp add: count_nil)

end

lemma CountText_nonneg: "0 \<le> openai_CountText encode t"
  by (simp add: openai_CountText_def charEstimate_def Let_def pos_imp_zdiv_nonneg_iff split: option.splits)

lemma message_cost_pos: "3 \<le> message_cost encode m"
  using CountText_nonneg [of encode] by (simp add: message_cost_def perMessageOverhead_def add_increasing2)

lemma foldl_add: "foldl (\<lambda>total m. total + f m) (a :: int) ms = a + sum_list (map f ms)"
  by (induction ms arbitrary: a) simp_all

lemma CountMessages_sum:
  "openai_CountMessages encode ms = (if ms = [] then 0 else 3 + sum_list (map (message_cost encode) ms))"
  by (simp add: openai_CountMessages_def foldl_add primingOverhead_def)

lemma cost_sum_nonneg: "0 \<le> sum_list (map (message_cost encode) ms)"
  using message_cost_pos [of encode] by (intro sum_list_nonneg) (auto intro: order_trans [of 0 3])

interpretation openai_counter: token_counter "openai_CountMessages encode" "\<lambda>_. True" for encode
proof unfold_locales
  show "0 \<le> openai_CountMessages encode ms" for ms
    using cost_sum_nonneg [of encode ms] by (simp add: CountMessages_sum)
qed (auto simp: CountMessages_sum)

section \<open>The Anthropic estimate\<close>

lemma anthropicScale_bounds: "114 / 100 \<le> anthropicScale" "anthropicScale \<le> 116 / 100"
proof -
  have "quotient_of anthropicScale = (2589569785738035, 2251799813685248)" unfolding anthropicScale_def by code_simp
  then have "anthropicScale = of_int 2589569785738035 / of_int 2251799813685248" by (rule quotient_of_div)
  then show "114 / 100 \<le> anthropicScale" "anthropicScale \<le> 116 / 100" by simp_all
qed

lemma scale_bounds:
  assumes "0 < n" "n < 2 ^ 50"
  shows "of_int n * anthropicScale - 1 / 2 \<le> of_int (scale n anthropicScale)"
    "of_int (scale n anthropicScale) \<le> of_int n * anthropicScale + (1 :: rat)"
proof -
  define x where "x = of_int n * anthropicScale"
  have n: "(0 :: rat) < of_int n" "(of_int n :: rat) \<le> 2 ^ 50 - 1"
    using assms of_int_le_iff [of n "2 ^ 50 - 1", where 'a = rat] by simp_all
  have x: "0 \<le> x" "x < 2 ^ 51 - 1"
  proof -
    show "0 \<le> x" using n anthropicScale_bounds by (simp add: x_def)
    have "x \<le> (2 ^ 50 - 1) * (116 / 100)" unfolding x_def
      using n anthropicScale_bounds by (intro mult_mono) simp_all
    then show "x < 2 ^ 51 - 1" by simp
  qed
  define y where "y = fl64 x"
  have y: "of_int \<lfloor>2 * x\<rfloor> / 2 \<le> y" "y \<le> of_int \<lceil>2 * x\<rceil> / 2" "0 \<le> y"
    unfolding y_def using fl64_half_bounds [of x] x by (simp_all add: fl64_nonneg)
  have y51: "y + 1 / 2 < 2 ^ 51" using y(2) x(2) by linarith
  define z where "z = fl64 (y + 1 / 2)"
  have z: "of_int \<lfloor>2 * (y + 1 / 2)\<rfloor> / 2 \<le> z" "z \<le> of_int \<lceil>2 * (y + 1 / 2)\<rceil> / 2" "0 \<le> z"
    unfolding z_def using fl64_half_bounds [of "y + 1 / 2"] y(3) y51 by (simp_all add: fl64_nonneg)
  have s: "scale n anthropicScale = \<lfloor>z\<rfloor>"
    using assms z(3) by (simp add: scale_def f_trunc_def f_add_def f_mul_def f_of_int_exact z_def y_def x_def)
  have two: "\<lfloor>2 * (y + 1 / 2)\<rfloor> = \<lfloor>2 * y\<rfloor> + 1" "\<lceil>2 * (y + 1 / 2)\<rceil> = \<lceil>2 * y\<rceil> + 1"
    by (simp_all add: distrib_left)
  have "\<lfloor>2 * x\<rfloor> \<le> \<lfloor>2 * y\<rfloor>" using y(1) by (simp add: le_floor_iff)
  then have zlo: "(of_int \<lfloor>2 * x\<rfloor> + 1) / 2 \<le> z" using z(1) unfolding two by (simp add: divide_le_cancel order_trans [rotated])
  have "\<lceil>2 * y\<rceil> \<le> \<lceil>2 * x\<rceil>" using y(2) by (simp add: ceiling_le_iff)
  then have zhi: "z \<le> (of_int \<lceil>2 * x\<rceil> + 1) / 2" using z(2) unfolding two by (simp add: divide_le_cancel order_trans)
  show "of_int n * anthropicScale - 1 / 2 \<le> of_int (scale n anthropicScale)"
  proof -
    have "of_int \<lfloor>2 * x\<rfloor> + 1 < 2 * (of_int \<lfloor>z\<rfloor> + 1 :: rat)"
      using le_less_trans [OF zlo, of "of_int \<lfloor>z\<rfloor> + 1"] floor_correct [of z] by simp
    then have "(of_int (\<lfloor>2 * x\<rfloor> + 1) :: rat) < of_int (2 * \<lfloor>z\<rfloor> + 2)" by simp
    then have "\<lfloor>2 * x\<rfloor> \<le> 2 * \<lfloor>z\<rfloor>" by (simp only: of_int_less_iff)
    then have "(of_int \<lfloor>2 * x\<rfloor> :: rat) \<le> 2 * of_int \<lfloor>z\<rfloor>" by (simp flip: of_int_mult)
    then show ?thesis unfolding s x_def [symmetric] using floor_correct [of "2 * x"] by linarith
  qed
  show "of_int (scale n anthropicScale) \<le> of_int n * anthropicScale + (1 :: rat)"
  proof -
    have "of_int \<lceil>2 * x\<rceil> + 1 \<le> 2 * (x + 1)" using ceiling_correct [of "2 * x"] by simp
    then have "z \<le> x + 1" using zhi by simp
    then show ?thesis unfolding s x_def [symmetric] using of_int_floor_le order_trans by blast
  qed
qed

lemma scale_bounds_numeric:
  assumes "0 < n" "n < 2 ^ 50"
  shows "0 < scale n anthropicScale"
  using scale_bounds(1) [OF assms] anthropicScale_bounds(1) mult_mono [of 1 "of_int n :: rat" "114 / 100" anthropicScale] assms(1)
  by simp

interpretation anthropic_counter: token_counter "\<lambda>ms. scale (openai_CountMessages encode ms) anthropicScale"
  "\<lambda>ms. openai_CountMessages encode ms < 2 ^ 50" for encode
proof unfold_locales
  show "0 \<le> scale (openai_CountMessages encode ms) anthropicScale" if "openai_CountMessages encode ms < 2 ^ 50" for ms
    using scale_bounds_numeric [OF _ that] openai_counter.count_nonneg [of encode ms]
    by (cases "openai_CountMessages encode ms = 0") (simp_all add: scale_def [of 0] less_le)
next
  fix xs ys
  assume small: "openai_CountMessages encode (xs @ ys) < 2 ^ 50"
  let ?c = "openai_CountMessages encode" and ?S = "\<lambda>n. scale n anthropicScale"
  show both: "?c xs < 2 ^ 50 \<and> ?c ys < 2 ^ 50"
    using small cost_sum_nonneg [of encode] by (auto simp: CountMessages_sum split: if_splits intro: le_less_trans [rotated])
  show "?S (?c (xs @ ys)) \<le> ?S (?c xs) + ?S (?c ys)"
  proof (cases "xs = [] \<or> ys = []")
    case True
    then show ?thesis by (auto simp: CountMessages_sum scale_def [of 0])
  next
    case False
    then have c: "?c (xs @ ys) = ?c xs + ?c ys - 3" and pos: "3 \<le> ?c xs" "3 \<le> ?c ys"
      using cost_sum_nonneg [of encode] by (simp_all add: CountMessages_sum)
    have "of_int (?S (?c (xs @ ys))) \<le> (of_int (?c xs) + of_int (?c ys) - 3) * anthropicScale + (1 :: rat)"
      using scale_bounds(2) [of "?c (xs @ ys)"] small pos unfolding c by simp
    moreover have "of_int (?c xs) * anthropicScale - 1 / 2 \<le> of_int (?S (?c xs))"
      "of_int (?c ys) * anthropicScale - 1 / 2 \<le> of_int (?S (?c ys))"
      using scale_bounds(1) both pos by simp_all
    ultimately have "(of_int (?S (?c (xs @ ys))) :: rat) \<le> of_int (?S (?c xs) + ?S (?c ys))"
      using anthropicScale_bounds(1) by (simp add: algebra_simps)
    then show ?thesis by simp
  qed
qed (simp add: CountMessages_sum scale_def)

end
