(* ===== verification/Route.thy ===== *)
theory Route
  imports Tokenizer
begin

text \<open>
  \<open>internal/route\<close>: the rule classifier that picks a target model for a request.  The random
  source is an argument \<open>rng\<close> threaded through a state, so that a run shows which rules
  rolled.
\<close>

section \<open>Rules\<close>

record route_Decision =
  rd_Model :: string
  rd_Rule :: string

definition NoDecision :: route_Decision where
  "NoDecision = \<lparr>rd_Model = [], rd_Rule = []\<rparr>"

definition route_Empty :: "route_Decision \<Rightarrow> bool" where
  "route_Empty d \<longleftrightarrow> rd_Model d = []"

record Condition =
  cd_MaxTokens :: int
  cd_MinTokens :: int
  cd_KeywordsAny :: "string list"
  cd_KeywordsNone :: "string list"
  cd_Model :: string
  cd_Weight :: rat

record route_Rule =
  rr_Name :: string
  rr_RouteTo :: string
  rr_When :: Condition

record RuleClassifier =
  rc_rules :: "route_Rule list"
  rc_tokenizer :: bool

datatype classifier_error = MissingName nat | MissingRouteTo string | DuplicateRuleName string | WeightOutOfRange string | BadModelGlob string

fun check_route_rules :: "nat \<Rightarrow> string set \<Rightarrow> route_Rule list \<Rightarrow> classifier_error option" where
  "check_route_rules i seen [] = None"
| "check_route_rules i seen (r # rs) =
     (if rr_Name r = [] then Some (MissingName i)
      else if rr_RouteTo r = [] then Some (MissingRouteTo (rr_Name r))
      else if rr_Name r \<in> seen then Some (DuplicateRuleName (rr_Name r))
      else if cd_Weight (rr_When r) < 0 \<or> cd_Weight (rr_When r) > 100 then Some (WeightOutOfRange (rr_Name r))
      else if cd_Model (rr_When r) \<noteq> [] \<and> path_match (cd_Model (rr_When r)) ''probe'' = None then Some (BadModelGlob (rr_Name r))
      else check_route_rules (Suc i) (insert (rr_Name r) seen) rs)"

definition NewRuleClassifier :: "route_Rule list \<Rightarrow> bool \<Rightarrow> classifier_error + RuleClassifier" where
  "NewRuleClassifier rules tk = (case check_route_rules 0 {} rules of
     Some e \<Rightarrow> Inl e | None \<Rightarrow> Inr \<lparr>rc_rules = rules, rc_tokenizer = tk\<rparr>)"

section \<open>Classification\<close>

definition route_countTokens :: "(string \<Rightarrow> nat option) \<Rightarrow> RuleClassifier \<Rightarrow> ChatRequest \<Rightarrow> int" where
  "route_countTokens encode c req = (if \<not> rc_tokenizer c then 0
     else CountMessages encode (tokenizer_For (r_Model req)) (r_Messages req))"

definition joinUserContent :: "ChatRequest \<Rightarrow> string" where
  "joinUserContent req = foldl (\<lambda>b m. if m_Role m \<noteq> ''user'' then b
     else (if b \<noteq> [] then b @ '' '' else b) @ m_Content m) [] (r_Messages req)"

fun anyKeywordPresent :: "string \<Rightarrow> string list \<Rightarrow> bool" where
  "anyKeywordPresent haystack [] = False"
| "anyKeywordPresent haystack (kw # kws) =
     (if kw = [] then anyKeywordPresent haystack kws
      else contains haystack (to_lower kw) \<or> anyKeywordPresent haystack kws)"

text \<open>The conditions of a rule that precede its roll.\<close>

definition conditions_hold :: "(string \<Rightarrow> nat option) \<Rightarrow> RuleClassifier \<Rightarrow> ChatRequest \<Rightarrow> Condition \<Rightarrow> bool" where
  "conditions_hold encode c req w \<longleftrightarrow>
     (if cd_Model w \<noteq> [] then path_match (cd_Model w) (r_Model req) = Some True else True) \<and>
     (if cd_MaxTokens w > 0 \<or> cd_MinTokens w > 0
      then let tokenCount = route_countTokens encode c req in
           \<not> (cd_MaxTokens w > 0 \<and> tokenCount > cd_MaxTokens w) \<and> \<not> (cd_MinTokens w > 0 \<and> tokenCount < cd_MinTokens w)
      else True) \<and>
     (if cd_KeywordsAny w \<noteq> [] \<or> cd_KeywordsNone w \<noteq> []
      then let userContent = to_lower (joinUserContent req) in
           \<not> (cd_KeywordsAny w \<noteq> [] \<and> \<not> anyKeywordPresent userContent (cd_KeywordsAny w)) \<and>
           \<not> (cd_KeywordsNone w \<noteq> [] \<and> anyKeywordPresent userContent (cd_KeywordsNone w))
      else True)"

fun classify_loop ::
  "(string \<Rightarrow> nat option) \<Rightarrow> ('g \<Rightarrow> rat \<times> 'g) \<Rightarrow> RuleClassifier \<Rightarrow> ChatRequest \<Rightarrow> route_Rule list \<Rightarrow> 'g \<Rightarrow> route_Decision \<times> 'g" where
  "classify_loop encode rng c req [] g = (NoDecision, g)"
| "classify_loop encode rng c req (r # rs) g =
     (if \<not> conditions_hold encode c req (rr_When r) then classify_loop encode rng c req rs g
      else if cd_Weight (rr_When r) > 0
      then (let (x, g') = rng g in
            if f_mul x 100 \<ge> cd_Weight (rr_When r) then classify_loop encode rng c req rs g'
            else (\<lparr>rd_Model = rr_RouteTo r, rd_Rule = rr_Name r\<rparr>, g'))
      else (\<lparr>rd_Model = rr_RouteTo r, rd_Rule = rr_Name r\<rparr>, g))"

definition Classify ::
  "(string \<Rightarrow> nat option) \<Rightarrow> ('g \<Rightarrow> rat \<times> 'g) \<Rightarrow> RuleClassifier \<Rightarrow> ChatRequest \<Rightarrow> 'g \<Rightarrow> route_Decision \<times> 'g" where
  "Classify encode rng c req g = classify_loop encode rng c req (rc_rules c) g"

section \<open>What the rules mean\<close>

text \<open>\<open>rand.Float64\<close> draws \<open>k / 2 ^ 53\<close>, so a product with 100 stays below 100.\<close>

definition unit_draws :: "('g \<Rightarrow> rat \<times> 'g) \<Rightarrow> bool" where
  "unit_draws rng \<longleftrightarrow> (\<forall>g. 0 \<le> fst (rng g) \<and> fst (rng g) \<le> 1 - 1 / 2 ^ 53)"

lemma top_draw: "fl64 ((1 - 1 / 2 ^ 53) * 100) < 100"
proof -
  have "quotient_of (fl64 ((1 - 1 / 2 ^ 53) * 100)) = (7036874417766399, 70368744177664)" by code_simp
  then have "fl64 ((1 - 1 / 2 ^ 53) * 100) = of_int 7036874417766399 / of_int 70368744177664" by (rule quotient_of_div)
  then show ?thesis by simp
qed

lemma draw_below_100:
  assumes "unit_draws rng"
  shows "f_mul (fst (rng g)) 100 < 100"
proof -
  have "0 \<le> fst (rng g)" "fst (rng g) \<le> 1 - 1 / 2 ^ 53" using assms by (simp_all add: unit_draws_def)
  then have "f_mul (fst (rng g)) 100 \<le> fl64 ((1 - 1 / 2 ^ 53) * 100)"
    unfolding f_mul_def by (intro fl64_mono mult_right_mono) simp_all
  with top_draw show ?thesis by linarith
qed

lemma anyKeywordPresent_iff:
  "anyKeywordPresent h kws \<longleftrightarrow> (\<exists>kw \<in> set kws. kw \<noteq> [] \<and> (\<exists>a b. h = a @ to_lower kw @ b))"
  by (induction kws) (auto simp: contains_iff)

lemma check_route_rules_ok:
  "check_route_rules i seen rs = None \<Longrightarrow>
   distinct (map rr_Name rs) \<and> set (map rr_Name rs) \<inter> seen = {} \<and>
   (\<forall>r \<in> set rs. rr_Name r \<noteq> [] \<and> rr_RouteTo r \<noteq> [] \<and> 0 \<le> cd_Weight (rr_When r) \<and> cd_Weight (rr_When r) \<le> 100)"
  by (induction i seen rs rule: check_route_rules.induct) (auto split: if_splits)

definition must_match :: "Condition \<Rightarrow> bool" where
  "must_match w \<longleftrightarrow> cd_Weight w \<le> 0 \<or> cd_Weight w \<ge> 100"

text \<open>
  The reference.  Each rule whose conditions hold and whose weight is positive draws one number,
  so the state of the random source a rule meets is determined by the rules before it; a rule
  wins when its conditions hold and its draw, if it draws, is below its weight.
\<close>

fun draws_after ::
  "(string \<Rightarrow> nat option) \<Rightarrow> ('g \<Rightarrow> rat \<times> 'g) \<Rightarrow> RuleClassifier \<Rightarrow> ChatRequest \<Rightarrow> route_Rule list \<Rightarrow> 'g \<Rightarrow> 'g" where
  "draws_after encode rng c req [] g = g"
| "draws_after encode rng c req (r # rs) g = draws_after encode rng c req rs
     (if conditions_hold encode c req (rr_When r) \<and> cd_Weight (rr_When r) > 0 then snd (rng g) else g)"

definition wins ::
  "(string \<Rightarrow> nat option) \<Rightarrow> ('g \<Rightarrow> rat \<times> 'g) \<Rightarrow> RuleClassifier \<Rightarrow> ChatRequest \<Rightarrow> route_Rule \<Rightarrow> 'g \<Rightarrow> bool" where
  "wins encode rng c req r g \<longleftrightarrow> conditions_hold encode c req (rr_When r) \<and>
     (cd_Weight (rr_When r) \<le> 0 \<or> f_mul (fst (rng g)) 100 < cd_Weight (rr_When r))"

definition none_wins ::
  "(string \<Rightarrow> nat option) \<Rightarrow> ('g \<Rightarrow> rat \<times> 'g) \<Rightarrow> RuleClassifier \<Rightarrow> ChatRequest \<Rightarrow> route_Rule list \<Rightarrow> 'g \<Rightarrow> bool" where
  "none_wins encode rng c req rs g \<longleftrightarrow>
     (\<forall>i < length rs. \<not> wins encode rng c req (rs ! i) (draws_after encode rng c req (take i rs) g))"

definition first_match ::
  "(string \<Rightarrow> nat option) \<Rightarrow> ('g \<Rightarrow> rat \<times> 'g) \<Rightarrow> RuleClassifier \<Rightarrow> ChatRequest \<Rightarrow> route_Rule list \<Rightarrow> 'g \<Rightarrow>
   route_Decision \<Rightarrow> 'g \<Rightarrow> bool" where
  "first_match encode rng c req rs g d g' \<longleftrightarrow> (\<exists>before r after. rs = before @ r # after \<and>
     none_wins encode rng c req before g \<and> wins encode rng c req r (draws_after encode rng c req before g) \<and>
     d = \<lparr>rd_Model = rr_RouteTo r, rd_Rule = rr_Name r\<rparr> \<and> g' = draws_after encode rng c req (before @ [r]) g)"

text \<open>A rule that may be passed over: its conditions fail, or it is weighted below 100 percent.\<close>

definition passed_over :: "(string \<Rightarrow> nat option) \<Rightarrow> RuleClassifier \<Rightarrow> ChatRequest \<Rightarrow> route_Rule \<Rightarrow> bool" where
  "passed_over encode c req r \<longleftrightarrow> (conditions_hold encode c req (rr_When r) \<longrightarrow> \<not> must_match (rr_When r))"

lemma loses_passed_over: "unit_draws rng \<Longrightarrow> \<not> wins encode rng c req r g \<Longrightarrow> passed_over encode c req r"
  using draw_below_100 [of rng g] by (auto simp: wins_def passed_over_def must_match_def)

lemma none_wins_passed_over: "unit_draws rng \<Longrightarrow> none_wins encode rng c req rs g \<Longrightarrow> r \<in> set rs \<Longrightarrow> passed_over encode c req r"
  unfolding none_wins_def by (metis in_set_conv_nth loses_passed_over)

lemma none_wins_Nil [simp]: "none_wins encode rng c req [] g"
  by (simp add: none_wins_def)

lemma none_wins_Cons:
  "none_wins encode rng c req (r # rs) g \<longleftrightarrow>
     \<not> wins encode rng c req r g \<and> none_wins encode rng c req rs (draws_after encode rng c req [r] g)"
  unfolding none_wins_def by (auto simp: all_conj_distrib less_Suc_eq_0_disj)

lemma first_match_here:
  assumes "wins encode rng c req r g"
  shows "first_match encode rng c req (r # rs) g \<lparr>rd_Model = rr_RouteTo r, rd_Rule = rr_Name r\<rparr> (draws_after encode rng c req [r] g)"
  unfolding first_match_def using assms by (intro exI [of _ "[]"] exI [of _ r] exI [of _ rs]) simp

lemma first_match_later:
  assumes "\<not> wins encode rng c req r g" "first_match encode rng c req rs (draws_after encode rng c req [r] g) d g'"
  shows "first_match encode rng c req (r # rs) g d g'"
proof -
  obtain before x after where "rs = before @ x # after" "none_wins encode rng c req before (draws_after encode rng c req [r] g)"
    "wins encode rng c req x (draws_after encode rng c req before (draws_after encode rng c req [r] g))"
    "d = \<lparr>rd_Model = rr_RouteTo x, rd_Rule = rr_Name x\<rparr>"
    "g' = draws_after encode rng c req (before @ [x]) (draws_after encode rng c req [r] g)"
    using assms(2) by (auto simp: first_match_def)
  with assms(1) show ?thesis unfolding first_match_def
    by (intro exI [of _ "r # before"] exI [of _ x] exI [of _ after]) (simp add: none_wins_Cons)
qed

lemma distinct_name_split:
  assumes "distinct (map rr_Name rs)" "rs = a @ r # b" "rs = a' @ r' # b'" "rr_Name r = rr_Name r'"
  shows "a = a'"
proof -
  have cut: "takeWhile (\<lambda>y. rr_Name y \<noteq> rr_Name x) rs = u" if "rs = u @ x # v" for u x v
  proof -
    have "rr_Name x \<notin> rr_Name ` set u" using assms(1) unfolding that by simp
    then have "\<forall>y \<in> set u. rr_Name y \<noteq> rr_Name x" by (metis imageI)
    then show ?thesis unfolding that by (simp add: takeWhile_append2)
  qed
  from cut [OF assms(2)] cut [OF assms(3)] assms(4) show ?thesis by simp
qed

lemma classify_loop_result:
  assumes "\<forall>r \<in> set rs. rr_RouteTo r \<noteq> []" "classify_loop encode rng c req rs g = (d, g')"
  shows "if route_Empty d then d = NoDecision \<and> none_wins encode rng c req rs g \<and> g' = draws_after encode rng c req rs g
    else first_match encode rng c req rs g d g'"
  using assms
proof (induction rs arbitrary: g)
  case Nil
  then show ?case by (auto simp: route_Empty_def NoDecision_def)
next
  case (Cons r rs)
  show ?case
  proof (cases "wins encode rng c req r g")
    case True
    then have "d = \<lparr>rd_Model = rr_RouteTo r, rd_Rule = rr_Name r\<rparr>" "g' = draws_after encode rng c req [r] g"
      using Cons.prems by (auto simp: wins_def split: prod.splits if_splits)
    with Cons.prems(1) first_match_here [OF True, of rs] show ?thesis by (simp add: route_Empty_def del: draws_after.simps)
  next
    case False
    then have "classify_loop encode rng c req rs (draws_after encode rng c req [r] g) = (d, g')"
      using Cons.prems(2) by (auto simp: wins_def split: prod.splits if_splits)
    with Cons.IH Cons.prems(1) first_match_later [OF False] False show ?thesis
      by (auto simp: none_wins_Cons split: if_splits)
  qed
qed

section \<open>Properties\<close>

text \<open>
  C20: A classifier built from valid rules decides for the first rule, in configuration order,
  whose conditions hold and whose draw, if it is weighted, is below its weight; it draws once for
  each weighted rule whose conditions hold, up to the winner and for no other; it returns no
  decision exactly when no rule wins in this sense.  A rule of weight 0 or 100 whose conditions
  hold is never passed over.
\<close>

theorem classify_first_match:
  assumes "NewRuleClassifier rules tk = Inr c" "unit_draws rng" "Classify encode rng c req g = (d, g')"
  shows "(if route_Empty d then d = NoDecision \<and> none_wins encode rng c req rules g \<and> g' = draws_after encode rng c req rules g
      else first_match encode rng c req rules g d g') \<and>
    (\<forall>before r after. rules = before @ r # after \<and> rd_Rule d = rr_Name r \<longrightarrow> list_all (passed_over encode c req) before) \<and>
    (route_Empty d \<longrightarrow> list_all (passed_over encode c req) rules)"
proof -
  have c: "check_route_rules 0 {} rules = None" "rc_rules c = rules"
    using assms(1) by (auto simp: NewRuleClassifier_def split: option.splits)
  note ok = check_route_rules_ok [OF c(1)]
  have main: "if route_Empty d then d = NoDecision \<and> none_wins encode rng c req rules g \<and> g' = draws_after encode rng c req rules g
      else first_match encode rng c req rules g d g'"
    using ok assms(3) c(2) by (intro classify_loop_result) (simp_all add: Classify_def)
  have "list_all (passed_over encode c req) before" if b: "rules = before @ r # after" "rd_Rule d = rr_Name r" for before r after
  proof (cases "route_Empty d")
    case True
    with main ok b show ?thesis by (auto simp: NoDecision_def)
  next
    case False
    with main obtain before' r' after' where f: "rules = before' @ r' # after'" "none_wins encode rng c req before' g" "rd_Rule d = rr_Name r'"
      by (auto simp: first_match_def)
    have "before = before'" by (rule distinct_name_split [OF _ b(1) f(1)]) (use ok b(2) f(3) in auto)
    then show ?thesis using none_wins_passed_over [OF assms(2) f(2)] by (auto simp: list_all_iff)
  qed
  with main none_wins_passed_over [OF assms(2), of encode c req rules g] show ?thesis by (auto simp: list_all_iff)
qed

definition demo_cond :: Condition where
  "demo_cond = \<lparr>cd_MaxTokens = 0, cd_MinTokens = 0, cd_KeywordsAny = [], cd_KeywordsNone = [], cd_Model = [], cd_Weight = 0\<rparr>"

definition demo_route_rules :: "route_Rule list" where
  "demo_route_rules =
     [\<lparr>rr_Name = ''canary'', rr_RouteTo = ''gpt-5'', rr_When = demo_cond\<lparr>cd_Model := ''gpt-*'', cd_Weight := 10\<rparr>\<rparr>,
      \<lparr>rr_Name = ''code'', rr_RouteTo = ''claude-sonnet'', rr_When = demo_cond\<lparr>cd_KeywordsAny := [''Debug'']\<rparr>\<rparr>,
      \<lparr>rr_Name = ''rest'', rr_RouteTo = ''gpt-4o-mini'', rr_When = demo_cond\<rparr>]"

definition demo_route_request :: ChatRequest where
  "demo_route_request = ChatRequest.make ''gpt-4o''
     [\<lparr>m_Role = ''user'', m_Content = ''please debug this'', m_Name = [], m_ToolCallID = [], m_Extra = []\<rparr>]
     0 None None 0 False [] [] []"

text \<open>The canary rule, at ten percent, loses its draw of one half; the keyword rule wins.\<close>

theorem classify_first_match_witness:
  "first_match (\<lambda>_. None) (\<lambda>n. (1 / 2, Suc n)) \<lparr>rc_rules = demo_route_rules, rc_tokenizer = False\<rparr> demo_route_request demo_route_rules 0
     \<lparr>rd_Model = ''claude-sonnet'', rd_Rule = ''code''\<rparr> 1"
proof -
  let ?c = "\<lparr>rc_rules = demo_route_rules, rc_tokenizer = False\<rparr>" and ?rng = "\<lambda>n. (1 / 2, Suc n)"
  have new: "NewRuleClassifier demo_route_rules False = Inr ?c"
    unfolding NewRuleClassifier_def demo_route_rules_def demo_cond_def by code_simp
  have run: "Classify (\<lambda>_. None) ?rng ?c demo_route_request 0 =
      (\<lparr>rd_Model = ''claude-sonnet'', rd_Rule = ''code''\<rparr>, 1)" by code_simp
  have "unit_draws ?rng" by (simp add: unit_draws_def)
  from classify_first_match [OF new this run] show ?thesis by (auto simp: route_Empty_def)
qed

end
