(* ===== verification/Compressor.thy ===== *)
theory Compressor
  imports Tokenizer
begin

text \<open>
  \<open>internal/prompt/compressor.go\<close>: trimming a chat history to a share of the model's context
  window.  The request is mutated in place, so \<open>Compress\<close> returns the result with the
  request.  Window sizes are below \<open>2 ^ 53\<close>, where \<open>float64(window)\<close> is exact.
\<close>

section \<open>The model\<close>

record CompressResult =
  cr_Compressed :: bool
  cr_TokensBefore :: int
  cr_TokensAfter :: int
  cr_RemovedMessages :: int

definition CompressResult0 :: CompressResult where
  "CompressResult0 = \<lparr>cr_Compressed = False, cr_TokensBefore = 0, cr_TokensAfter = 0, cr_RemovedMessages = 0\<rparr>"

record SlidingWindow =
  sw_defaultWindow :: int
  sw_windows :: "(string \<times> int) list"
  sw_triggerRatio :: rat
  sw_minKeepMessages :: int

record SlidingWindowOptions =
  so_Tokenizer :: bool
  so_DefaultWindow :: int
  so_Windows :: "(string \<times> int) list"
  so_TriggerRatio :: rat
  so_MinKeepMessages :: int

definition defaultWindowFallback :: int where
  "defaultWindowFallback = 128000"

definition defaultTriggerRatio :: rat where
  "defaultTriggerRatio = fl64 (8 / 10)"

definition defaultMinKeepMessages :: int where
  "defaultMinKeepMessages = 2"

definition NewSlidingWindow :: "SlidingWindowOptions \<Rightarrow> SlidingWindow option" where
  "NewSlidingWindow opts = (if \<not> so_Tokenizer opts then None else Some
     \<lparr>sw_defaultWindow = (if so_DefaultWindow opts \<le> 0 then defaultWindowFallback else so_DefaultWindow opts),
      sw_windows = so_Windows opts,
      sw_triggerRatio = (if so_TriggerRatio opts \<le> 0 \<or> so_TriggerRatio opts > 1 then defaultTriggerRatio else so_TriggerRatio opts),
      sw_minKeepMessages = (if so_MinKeepMessages opts \<le> 0 then defaultMinKeepMessages else so_MinKeepMessages opts)\<rparr>)"

definition windowFor :: "SlidingWindow \<Rightarrow> string \<Rightarrow> int" where
  "windowFor c model = (case map_of (sw_windows c) model of
     Some w \<Rightarrow> (if w > 0 then w else sw_defaultWindow c) | None \<Rightarrow> sw_defaultWindow c)"

definition compress_budget :: "SlidingWindow \<Rightarrow> string \<Rightarrow> int" where
  "compress_budget c model = f_trunc (f_mul (f_of_int (windowFor c model)) (sw_triggerRatio c))"

text \<open>
  The loop over \<open>rest\<close> from its last message down: \<open>rev_rest\<close> are the messages still to
  visit, last first; \<open>kept\<close> are those kept so far.
\<close>

fun keep_tail :: "(Message list \<Rightarrow> int) \<Rightarrow> int \<Rightarrow> int \<Rightarrow> int \<Rightarrow> int \<Rightarrow> Message list \<Rightarrow> Message list \<Rightarrow> Message list" where
  "keep_tail count budget systemTokens minKeep keepTokens kept [] = kept"
| "keep_tail count budget systemTokens minKeep keepTokens kept (m # rev_rest) =
     (let msgTokens = count [m];
          fits = systemTokens + keepTokens + msgTokens \<le> budget;
          mustKeep = int (length kept) + 1 \<le> minKeep
      in if \<not> fits \<and> \<not> mustKeep then kept
         else keep_tail count budget systemTokens minKeep (keepTokens + msgTokens) (m # kept) rev_rest)"

abbreviation is_system :: "Message \<Rightarrow> bool" where
  "is_system m \<equiv> m_Role m = ''system''"

definition Compress ::
  "(string \<Rightarrow> nat option) \<Rightarrow> SlidingWindow option \<Rightarrow> ChatRequest \<Rightarrow> CompressResult \<times> ChatRequest" where
  "Compress encode sw req = (case sw of None \<Rightarrow> (CompressResult0, req)
   | Some c \<Rightarrow>
     if r_Messages req = [] then (CompressResult0, req)
     else let count = CountMessages encode (tokenizer_For (r_Model req));
              tokensBefore = count (r_Messages req);
              budget = compress_budget c (r_Model req);
              noop = CompressResult0\<lparr>cr_TokensBefore := tokensBefore, cr_TokensAfter := tokensBefore\<rparr>
          in if tokensBefore \<le> budget then (noop, req)
             else let systems = filter is_system (r_Messages req);
                      rest = filter (\<lambda>m. \<not> is_system m) (r_Messages req);
                      systemTokens = (if systems \<noteq> [] then count systems else 0);
                      kept = keep_tail count budget systemTokens (sw_minKeepMessages c) 0 [] (rev rest);
                      removed = int (length rest) - int (length kept)
                  in if removed = 0 then (noop, req)
                     else let req' = req\<lparr>r_Messages := systems @ kept\<rparr>
                          in (\<lparr>cr_Compressed = True, cr_TokensBefore = tokensBefore,
                               cr_TokensAfter = count (r_Messages req'), cr_RemovedMessages = removed\<rparr>, req'))"

section \<open>The kept tail\<close>

lemma keep_tail_go:
  "sys + k + count [m] \<le> budget \<or> int (length kept) + 1 \<le> n \<Longrightarrow>
   keep_tail count budget sys n k kept (m # ms) = keep_tail count budget sys n (k + count [m]) (m # kept) ms"
  by (auto simp: Let_def)

lemma keep_tail_stop:
  "\<not> (sys + k + count [m] \<le> budget \<or> int (length kept) + 1 \<le> n) \<Longrightarrow>
   keep_tail count budget sys n k kept (m # ms) = kept"
  by (auto simp: Let_def)

lemma keep_tail_suffix: "suffix (keep_tail count budget sys n k kept ms) (rev ms @ kept)"
proof (induction ms arbitrary: k kept)
  case (Cons m ms)
  from Cons.IH [of "k + count [m]" "m # kept"] show ?case by (auto simp: Let_def suffix_def)
qed simp

lemma keep_tail_length:
  "min (int (length kept + length ms)) n \<le> int (length (keep_tail count budget sys n k kept ms))"
proof (induction ms arbitrary: k kept)
  case (Cons m ms)
  from Cons.IH [of "m # kept" "k + count [m]"] show ?case by (auto simp: Let_def)
qed simp

lemma keep_tail_fits:
  "k = sum_list (map (\<lambda>m. count [m]) kept) \<Longrightarrow> int (length kept) > n \<longrightarrow> sys + k \<le> budget \<Longrightarrow>
   int (length (keep_tail count budget sys n k kept ms)) > n \<Longrightarrow>
   sys + sum_list (map (\<lambda>m. count [m]) (keep_tail count budget sys n k kept ms)) \<le> budget"
proof (induction ms arbitrary: k kept)
  case (Cons m ms)
  show ?case
  proof (cases "sys + k + count [m] \<le> budget \<or> int (length kept) + 1 \<le> n")
    case True
    then show ?thesis using Cons.IH [of "k + count [m]" "m # kept"] Cons.prems keep_tail_go [of sys k count m] by auto
  next
    case False
    with Cons.prems show ?thesis by (simp add: keep_tail_stop)
  qed
qed simp

text \<open>The last message left out did not fit.\<close>

lemma keep_tail_maximal:
  "rev ms @ kept = dropped @ m # keep_tail count budget sys n k kept ms \<Longrightarrow>
   k = sum_list (map (\<lambda>m. count [m]) kept) \<Longrightarrow>
   budget < sys + count [m] + sum_list (map (\<lambda>m. count [m]) (keep_tail count budget sys n k kept ms))"
proof (induction ms arbitrary: k kept)
  case (Cons x ms)
  show ?case
  proof (cases "sys + k + count [x] \<le> budget \<or> int (length kept) + 1 \<le> n")
    case True
    then show ?thesis using Cons.IH [of "x # kept" "k + count [x]"] Cons.prems keep_tail_go [of sys k count x] by auto
  next
    case False
    with Cons.prems show ?thesis by (simp add: keep_tail_stop)
  qed
qed simp

section \<open>Counting with the selected tokenizer\<close>

abbreviation small_prompt :: "(string \<Rightarrow> nat option) \<Rightarrow> Message list \<Rightarrow> bool" where
  "small_prompt encode ms \<equiv> openai_CountMessages encode ms < 2 ^ 50"

interpretation selected: token_counter "CountMessages encode t" "small_prompt encode" for encode t
proof (cases t)
  case OpenaiBPE
  then show "token_counter (CountMessages encode t) (small_prompt encode)"
    using openai_counter.count_nonneg openai_counter.count_append anthropic_counter.small_append
    by unfold_locales (auto simp: openai_CountMessages_def)
next
  case AnthropicApprox
  then show "token_counter (CountMessages encode t) (small_prompt encode)"
    using anthropic_counter.token_counter_axioms [of encode] CountMessages.simps(2) [of encode, abs_def] by simp
qed

lemma small_split:
  assumes "small_prompt encode ms" "suffix kept (filter (\<lambda>m. \<not> P m) ms)"
  shows "small_prompt encode (filter P ms @ kept)"
proof -
  let ?cost = "\<lambda>ms. sum_list (map (message_cost encode) ms)"
  obtain dropped where d: "filter (\<lambda>m. \<not> P m) ms = dropped @ kept" using assms(2) by (auto simp: suffix_def)
  have "?cost ms = ?cost (filter P ms) + ?cost (filter (\<lambda>m. \<not> P m) ms)" by (induction ms) auto
  then have "?cost (filter P ms @ kept) \<le> ?cost ms" using cost_sum_nonneg [of encode dropped] by (simp add: d)
  then show ?thesis using assms(1) by (auto simp: CountMessages_sum split: if_splits)
qed

section \<open>Properties\<close>

definition demo_turn :: "string \<Rightarrow> string \<Rightarrow> Message" where
  "demo_turn role content = \<lparr>m_Role = role, m_Content = content, m_Name = [], m_ToolCallID = [], m_Extra = []\<rparr>"

definition demo_history :: ChatRequest where
  "demo_history = ChatRequest.make ''gpt-4o''
     [demo_turn ''user'' ''a b c'', demo_turn ''system'' ''s'', demo_turn ''assistant'' ''d'', demo_turn ''user'' ''e'']
     0 None None 0 False [] [] []"

definition demo_window :: SlidingWindowOptions where
  "demo_window = \<lparr>so_Tokenizer = True, so_DefaultWindow = 0, so_Windows = [(''gpt-4o'', 45)], so_TriggerRatio = 1, so_MinKeepMessages = 1\<rparr>"

definition demo_compressor :: SlidingWindow where
  "demo_compressor = the (NewSlidingWindow demo_window)"

abbreviation demo_codec :: "string \<Rightarrow> nat option" where
  "demo_codec \<equiv> \<lambda>s. Some (length s)"



end
