(* ===== verification/Policy.thy ===== *)
theory Policy
  imports ProviderTypes
begin

text \<open>
  \<open>internal/router/policy.go\<close>: the retry policy and the full-jitter exponential backoff.
  The envelope is an \<open>int64\<close> that is doubled with wrap-around; the jitter is a \<open>float64\<close>
  product.
\<close>

record RetryPolicy =
  MaxRetries :: int
  MaxTotal :: duration
  BaseBackoff :: duration
  MaxBackoff :: duration

definition DefaultPolicy :: RetryPolicy where
  "DefaultPolicy = \<lparr>MaxRetries = 2, MaxTotal = 30 * Second, BaseBackoff = 100 * Millisecond,
     MaxBackoff = 5 * Second\<rparr>"

text \<open>The doubling loop: \<open>n\<close> iterations left, from \<open>e\<close>, leaving early at the cap.\<close>

fun envelope_loop :: "duration \<Rightarrow> nat \<Rightarrow> duration \<Rightarrow> duration" where
  "envelope_loop mx 0 e = e"
| "envelope_loop mx (Suc n) e =
     (let e' = wrap64 (e * 2) in if e' \<le> 0 \<or> mx \<le> e' then mx else envelope_loop mx n e')"

definition backoff_envelope :: "RetryPolicy \<Rightarrow> int \<Rightarrow> duration" where
  "backoff_envelope p attempt =
     (let e = envelope_loop (MaxBackoff p) (nat (attempt - 1)) (BaseBackoff p)
      in if e > MaxBackoff p then MaxBackoff p else e)"

definition backoffDuration :: "RetryPolicy \<Rightarrow> int \<Rightarrow> duration \<Rightarrow> rat \<Rightarrow> duration" where
  "backoffDuration p attempt retryAfter randFloat =
     (if retryAfter > 0 then retryAfter
      else if attempt < 1 then 0
      else let envelope = backoff_envelope p attempt;
               r1 = (if randFloat < 0 then 0 else randFloat);
               r2 = (if r1 \<ge> 1 then fl64 (999999 / 1000000) else r1)
           in f_trunc (f_mul r2 (f_of_int envelope)))"

section \<open>Lemmas\<close>

lemma envelope_loop_min:
  assumes "0 < e" "e < 2 ^ 63" "0 < mx" "mx < 2 ^ 63"
  shows "min mx (envelope_loop mx n e) = min mx (e * 2 ^ n)"
  using assms
proof (induction n arbitrary: e)
  case (Suc n)
  have pow: "2 * e \<le> e * 2 ^ Suc n"
    using Suc.prems(1) by (simp add: one_le_power)
  show ?case
  proof (cases "2 * e < 2 ^ 63")
    case True
    then have w: "wrap64 (e * 2) = 2 * e"
      using wrap64_double [OF Suc.prems(1,2)] by (simp add: mult.commute)
    show ?thesis
    proof (cases "mx \<le> 2 * e")
      case True
      with w pow show ?thesis by (simp add: Let_def)
    next
      case False
      with w Suc True show ?thesis by (simp add: Let_def mult.assoc)
    qed
  next
    case False
    then have "wrap64 (e * 2) \<le> 0"
      using wrap64_double [OF Suc.prems(1,2)] Suc.prems(2) by (simp add: mult.commute)
    moreover have "mx \<le> e * 2 ^ Suc n" using False pow Suc.prems(4) by linarith
    ultimately show ?thesis by (simp add: Let_def)
  qed
qed simp

lemma backoff_envelope_eq:
  assumes "0 < BaseBackoff p" "BaseBackoff p < 2 ^ 63" "0 < MaxBackoff p" "MaxBackoff p < 2 ^ 63"
  shows "backoff_envelope p attempt = min (MaxBackoff p) (BaseBackoff p * 2 ^ nat (attempt - 1))"
  using envelope_loop_min [OF assms, of "nat (attempt - 1)"]
  by (auto simp: backoff_envelope_def Let_def min_def split: if_splits)

lemma backoffDuration_bounds:
  assumes "0 < BaseBackoff p" "BaseBackoff p < 2 ^ 63" "0 < MaxBackoff p" "MaxBackoff p \<le> 2 ^ 53"
    and "retryAfter \<le> 0"
  shows "0 \<le> backoffDuration p attempt retryAfter r \<and>
    backoffDuration p attempt retryAfter r \<le> MaxBackoff p"
proof (cases "attempt < 1")
  case True
  with assms show ?thesis by (simp add: backoffDuration_def)
next
  case False
  let ?e = "backoff_envelope p attempt"
  have e: "0 \<le> ?e" "?e \<le> MaxBackoff p" using assms by (simp_all add: backoff_envelope_eq)
  let ?r = "if (if r < 0 then 0 else r) \<ge> 1 then fl64 (999999 / 1000000) else (if r < 0 then 0 else r)"
  have "0 \<le> fl64 (999999 / 1000000) \<and> fl64 (999999 / 1000000) \<le> 1"
    using fl64_nonneg [of "999999 / 1000000"] fl64_le_of_int [of "999999 / 1000000" 1] by simp
  then have r: "0 \<le> ?r" "?r \<le> 1" by auto
  have "0 \<le> f_trunc (f_mul ?r (f_of_int ?e)) \<and> f_trunc (f_mul ?r (f_of_int ?e)) \<le> ?e"
    using f_trunc_mul_le [of ?e ?r] e r assms(4) by simp
  with e False assms(5) show ?thesis by (simp add: backoffDuration_def Let_def)
qed

section \<open>Properties\<close>

text \<open>
  The doubling loop with its overflow and cap checks computes the documented envelope
  \<open>min (MaxBackoff, BaseBackoff * 2^(attempt-1))\<close> exactly, for every attempt, although the
  doubling is 64-bit arithmetic that wraps around.
\<close>

lemma backoff_envelope_closed_form:
  assumes "0 < BaseBackoff p" "in_int64 (BaseBackoff p)" "0 < MaxBackoff p" "in_int64 (MaxBackoff p)"
  shows "backoff_envelope p attempt = min (MaxBackoff p) (BaseBackoff p * 2 ^ nat (attempt - 1))"
  using assms by (intro backoff_envelope_eq) (simp_all add: in_int64_bounds)

lemma backoff_envelope_closed_form_witness:
  "backoff_envelope \<lparr>MaxRetries = 200, MaxTotal = 0, BaseBackoff = 3, MaxBackoff = max_int64\<rparr> 100 = max_int64"
  using backoff_envelope_closed_form
    [of "\<lparr>MaxRetries = 200, MaxTotal = 0, BaseBackoff = 3, MaxBackoff = max_int64\<rparr>" 100]
  by (simp add: in_int64_def max_int64_def min_int64_def)

text \<open>
  Without a \<open>Retry-After\<close> hint every delay lies between zero and \<open>MaxBackoff\<close>,
  whatever value the random source returns; with a hint the delay is the hint.
\<close>

lemma backoff_delay_bounds:
  assumes "0 < BaseBackoff p" "in_int64 (BaseBackoff p)" "0 < MaxBackoff p" "MaxBackoff p \<le> 2 ^ 53"
  shows "(retryAfter > 0 \<longrightarrow> backoffDuration p attempt retryAfter r = retryAfter) \<and>
    (retryAfter \<le> 0 \<longrightarrow> 0 \<le> backoffDuration p attempt retryAfter r \<and>
       backoffDuration p attempt retryAfter r \<le> MaxBackoff p)"
  using assms backoffDuration_bounds [of p retryAfter attempt r]
  by (simp add: backoffDuration_def in_int64_bounds)

lemma backoff_delay_bounds_witness:
  "0 \<le> backoffDuration DefaultPolicy 3 0 (1 / 2) \<and> backoffDuration DefaultPolicy 3 0 (1 / 2) \<le> 5 * Second"
  using backoff_delay_bounds [of DefaultPolicy 0 3 "1 / 2"]
  by (simp add: DefaultPolicy_def in_int64_bounds)

end
