(* ===== verification/Breaker.thy ===== *)
theory Breaker
  imports ProviderTypes
begin

text \<open>
  \<open>internal/router/breaker.go\<close>: the settings of the circuit breakers, the trip rule, and
  the pool with one breaker per provider name, created on first use.  The breaker itself is
  the library \<open>sony/gobreaker\<close>: the record \<open>gobreaker\<close> holds its operations, an argument
  of every definition that calls it.  \<open>Allow\<close> returns a permit that the caller hands back
  with the outcome; both operations return the state changes they signal through
  \<open>OnStateChange\<close>.
\<close>

section \<open>Settings\<close>

record BreakerSettings =
  bk_MaxRequests :: nat
  bk_Interval :: duration
  bk_Timeout :: duration
  bk_FailureRatio :: rat
  bk_MinRequests :: nat

definition DefaultBreakerSettings :: BreakerSettings where
  "DefaultBreakerSettings = \<lparr>bk_MaxRequests = 1, bk_Interval = 60 * Second, bk_Timeout = 30 * Second,
     bk_FailureRatio = 1 / 2, bk_MinRequests = 5\<rparr>"

definition applyDefaults :: "BreakerSettings \<Rightarrow> BreakerSettings" where
  "applyDefaults s =
     (let def = DefaultBreakerSettings;
          s1 = (if bk_MaxRequests s = 0 then s\<lparr>bk_MaxRequests := bk_MaxRequests def\<rparr> else s);
          s2 = (if bk_Interval s1 \<le> 0 then s1\<lparr>bk_Interval := bk_Interval def\<rparr> else s1);
          s3 = (if bk_Timeout s2 \<le> 0 then s2\<lparr>bk_Timeout := bk_Timeout def\<rparr> else s2);
          s4 = (if bk_FailureRatio s3 \<le> 0 then s3\<lparr>bk_FailureRatio := bk_FailureRatio def\<rparr> else s3)
      in if bk_MinRequests s4 = 0 then s4\<lparr>bk_MinRequests := bk_MinRequests def\<rparr> else s4)"

section \<open>The library's interface\<close>

record gb_Counts =
  gc_Requests :: nat
  gc_TotalSuccesses :: nat
  gc_TotalFailures :: nat
  gc_ConsecutiveSuccesses :: nat
  gc_ConsecutiveFailures :: nat

datatype gb_State = StateClosed | StateHalfOpen | StateOpen

record gb_Settings =
  gs_Name :: string
  gs_MaxRequests :: nat
  gs_Interval :: duration
  gs_Timeout :: duration
  gs_ReadyToTrip :: "gb_Counts \<Rightarrow> bool"

record ('b, 'tok) gobreaker =
  gb_New :: "gb_Settings \<Rightarrow> 'b"
  gb_Allow :: "instant \<Rightarrow> 'b \<Rightarrow> (goerr + 'tok) \<times> (gb_State \<times> gb_State) list \<times> 'b"
  gb_Done :: "instant \<Rightarrow> 'tok \<Rightarrow> goerr option \<Rightarrow> 'b \<Rightarrow> (gb_State \<times> gb_State) list \<times> 'b"

text \<open>The documented contract: a refused permit is \<open>ErrOpenState\<close> or \<open>ErrTooManyRequests\<close>.\<close>

definition allow_errors_documented :: "('b, 'tok) gobreaker \<Rightarrow> bool" where
  "allow_errors_documented gb \<longleftrightarrow>
     (\<forall>t b e ch b'. gb_Allow gb t b = (Inl e, ch, b') \<longrightarrow> e = ErrOpenState \<or> e = ErrTooManyRequests)"

section \<open>The trip rule and the state code\<close>

definition ReadyToTrip :: "BreakerSettings \<Rightarrow> gb_Counts \<Rightarrow> bool" where
  "ReadyToTrip settings counts =
     (if gc_Requests counts < bk_MinRequests settings then False
      else f_div (f_of_int (int (gc_TotalFailures counts))) (f_of_int (int (gc_Requests counts)))
             \<ge> bk_FailureRatio settings)"

fun breakerStateCode :: "gb_State \<Rightarrow> int" where
  "breakerStateCode StateClosed = 0"
| "breakerStateCode StateHalfOpen = 1"
| "breakerStateCode StateOpen = 2"

definition isBreakerError :: "goerr \<Rightarrow> bool" where
  "isBreakerError err \<longleftrightarrow> errors_Is err ErrOpenState \<or> errors_Is err ErrTooManyRequests"

definition breakerObservation :: "goerr option \<Rightarrow> goerr option" where
  "breakerObservation callErr = (case callErr of
     None \<Rightarrow> None
   | Some e \<Rightarrow> if IsRetryable e then Some e else None)"

section \<open>The pool\<close>

text \<open>\<open>bp_gauge\<close> is \<open>gateway_breaker_state\<close>, written by the \<open>OnStateChange\<close> callback.\<close>

record 'b breakerPool =
  bp_settings :: BreakerSettings
  bp_bs :: "string \<rightharpoonup> 'b"
  bp_gauge :: "string \<rightharpoonup> int"

definition newBreakerPool :: "BreakerSettings \<Rightarrow> 'b breakerPool" where
  "newBreakerPool settings =
     \<lparr>bp_settings = applyDefaults settings, bp_bs = Map.empty, bp_gauge = Map.empty\<rparr>"

definition on_state_change ::
    "string \<Rightarrow> (gb_State \<times> gb_State) list \<Rightarrow> 'b breakerPool \<Rightarrow> 'b breakerPool" where
  "on_state_change name changes pool =
     foldl (\<lambda>p ch. p\<lparr>bp_gauge := (bp_gauge p)(name \<mapsto> breakerStateCode (snd ch))\<rparr>) pool changes"

definition pool_get ::
    "('b, 'tok) gobreaker \<Rightarrow> 'b breakerPool \<Rightarrow> string \<Rightarrow> 'b \<times> 'b breakerPool" where
  "pool_get gb p name = (case bp_bs p name of
     Some cb \<Rightarrow> (cb, p)
   | None \<Rightarrow>
       (let s = bp_settings p;
            cb = gb_New gb \<lparr>gs_Name = name, gs_MaxRequests = bk_MaxRequests s,
                   gs_Interval = bk_Interval s, gs_Timeout = bk_Timeout s,
                   gs_ReadyToTrip = ReadyToTrip s\<rparr>
        in (cb, p\<lparr>bp_bs := (bp_bs p)(name \<mapsto> cb)\<rparr>)))"

definition pool_allow ::
    "('b, 'tok) gobreaker \<Rightarrow> instant \<Rightarrow> string \<Rightarrow> 'b breakerPool \<Rightarrow> (goerr + 'tok) \<times> 'b breakerPool" where
  "pool_allow gb t name p = (case pool_get gb p name of (cb, p1) \<Rightarrow>
     (case gb_Allow gb t cb of (r, changes, cb') \<Rightarrow>
        (r, on_state_change name changes (p1\<lparr>bp_bs := (bp_bs p1)(name \<mapsto> cb')\<rparr>))))"

text \<open>The callback \<open>Allow\<close> returned, called with the outcome of the request.\<close>

definition pool_done ::
    "('b, 'tok) gobreaker \<Rightarrow> instant \<Rightarrow> string \<Rightarrow> 'tok \<Rightarrow> goerr option \<Rightarrow> 'b breakerPool \<Rightarrow> 'b breakerPool" where
  "pool_done gb t name tok err p = (case pool_get gb p name of (cb, p1) \<Rightarrow>
     (case gb_Done gb t tok err cb of (changes, cb') \<Rightarrow>
        on_state_change name changes (p1\<lparr>bp_bs := (bp_bs p1)(name \<mapsto> cb')\<rparr>)))"

section \<open>Lemmas\<close>

lemma isBreakerError_simps [simp]:
  "isBreakerError ErrOpenState" "isBreakerError ErrTooManyRequests"
  "\<not> isBreakerError (UpstreamErr u)" "\<not> isBreakerError (ProviderErr s)" "\<not> isBreakerError CtxCanceled"
  by (simp_all add: isBreakerError_def)

lemma breakerObservation_simps [simp]:
  "breakerObservation None = None"
  "IsRetryable e \<Longrightarrow> breakerObservation (Some e) = Some e"
  "\<not> IsRetryable e \<Longrightarrow> breakerObservation (Some e) = None"
  by (simp_all add: breakerObservation_def)

lemma on_state_change_frame [simp]:
  "bp_bs (on_state_change name ch p) = bp_bs p"
  "bp_settings (on_state_change name ch p) = bp_settings p"
proof -
  show "bp_bs (on_state_change name ch p) = bp_bs p"
    unfolding on_state_change_def by (induction ch arbitrary: p) auto
  show "bp_settings (on_state_change name ch p) = bp_settings p"
    unfolding on_state_change_def by (induction ch arbitrary: p) auto
qed

text \<open>A call to one provider's breaker leaves the breakers of the others alone.\<close>

lemma pool_allow_frame:
  assumes "pool_allow gb t name p = (r, p')" "other \<noteq> name"
  shows "bp_bs p' other = bp_bs p other"
  using assms by (auto simp: pool_allow_def pool_get_def Let_def split: option.splits prod.splits)

lemma pool_done_frame:
  "other \<noteq> name \<Longrightarrow> bp_bs (pool_done gb t name tok err p) other = bp_bs p other"
  by (auto simp: pool_done_def pool_get_def Let_def split: option.splits prod.splits)

lemma pool_allow_error:
  assumes "allow_errors_documented gb" "pool_allow gb t name p = (Inl e, p')"
  shows "e = ErrOpenState \<or> e = ErrTooManyRequests"
  using assms unfolding pool_allow_def allow_errors_documented_def
  by (fastforce split: prod.splits)

lemma applyDefaults_positive:
  "0 < bk_MaxRequests (applyDefaults s) \<and> 0 < bk_Interval (applyDefaults s) \<and>
   0 < bk_Timeout (applyDefaults s) \<and> 0 < bk_FailureRatio (applyDefaults s) \<and>
   0 < bk_MinRequests (applyDefaults s)"
  by (simp add: applyDefaults_def DefaultBreakerSettings_def Let_def)

section \<open>Properties\<close>

text \<open>
  The default trip rule, a comparison of a rounded \<open>float64\<close> quotient with 0.5, opens
  the breaker exactly when at least five requests were counted and at least half of them
  failed, for every pair of 32-bit counters.
\<close>

lemma default_trip_rule:
  assumes "gc_Requests c < 2 ^ 32" "gc_TotalFailures c \<le> gc_Requests c"
  shows "ReadyToTrip DefaultBreakerSettings c \<longleftrightarrow>
    5 \<le> gc_Requests c \<and> gc_Requests c \<le> 2 * gc_TotalFailures c"
proof (cases "gc_Requests c < 5")
  case True
  then show ?thesis by (simp add: ReadyToTrip_def DefaultBreakerSettings_def)
next
  case False
  define n f where "n = gc_Requests c" and "f = gc_TotalFailures c"
  have n: "5 \<le> n" "n < 2 ^ 32" "f \<le> n" using False assms by (simp_all add: n_def f_def)
  let ?q = "(of_nat f :: rat) / of_nat n"
  have rule: "ReadyToTrip DefaultBreakerSettings c \<longleftrightarrow> 1 / 2 \<le> fl64 ?q"
    using n by (simp add: ReadyToTrip_def DefaultBreakerSettings_def f_of_int_exact f_div_def
        flip: n_def f_def)
  have "1 / 2 \<le> fl64 ?q" if "n \<le> 2 * f"
  proof -
    have "(of_nat n :: rat) \<le> of_nat (2 * f)" using that by (rule of_nat_mono)
    then have "1 / 2 \<le> ?q" using n by (simp add: field_simps)
    then have "fl64 (1 / 2) \<le> fl64 ?q" by (intro fl64_mono) simp_all
    moreover have "fl64 (1 / 2) = 1 / 2" by code_simp
    ultimately show ?thesis by simp
  qed
  moreover have "fl64 ?q < 1 / 2" if "2 * f < n"
  proof -
    have "(of_nat (2 * f + 1) :: rat) \<le> of_nat n" using that by (intro of_nat_mono) simp
    then have "(2 :: rat) ^ 33 * of_nat f + 2 ^ 32 \<le> 2 ^ 32 * of_nat n" by simp
    moreover have "(of_nat n :: rat) \<le> 2 ^ 32"
      using n(2) by (metis less_imp_le of_nat_le_iff of_nat_numeral of_nat_power)
    ultimately have "(2 :: rat) ^ 33 * of_nat f \<le> (2 ^ 32 - 1) * of_nat n" by simp
    then have "?q \<le> 4294967295 / 8589934592" using n by (simp add: field_simps)
    then have "fl64 ?q \<le> fl64 (4294967295 / 8589934592)" by (intro fl64_mono) simp_all
    also have "fl64 (4294967295 / 8589934592) = 4294967295 / 8589934592" by code_simp
    finally show ?thesis by simp
  qed
  ultimately have "1 / 2 \<le> fl64 ?q \<longleftrightarrow> n \<le> 2 * f" by (metis leD leI)
  with rule n show ?thesis by (simp add: n_def f_def)
qed

lemma default_trip_rule_witness:
  "ReadyToTrip DefaultBreakerSettings
     \<lparr>gc_Requests = 7, gc_TotalSuccesses = 3, gc_TotalFailures = 4, gc_ConsecutiveSuccesses = 0,
      gc_ConsecutiveFailures = 1\<rparr>"
  by (subst default_trip_rule) simp_all

end
