(* ===== verification/GatewayConfig.thy ===== *)
theory GatewayConfig
  imports Ratelimit Compressor Route Policy Breaker BillingWorker
begin

text \<open>
  \<open>internal/config/config.go\<close>: the configuration tree, its defaults and its validation.
  Reading the file, the environment and the decoding of both into the tree is the library
  viper, an argument that is given the defaults.  Float settings are finite.
\<close>

section \<open>The tree\<close>

record PromptCompressionConfig =
  pcc_Enabled :: bool
  pcc_TriggerRatio :: rat
  pcc_MinKeepMessages :: int
  pcc_DefaultWindow :: int
  pcc_ModelWindows :: "(string \<times> int) list"

record RoutingCondition =
  rcn_MaxTokens :: int
  rcn_Model :: string
  rcn_Weight :: rat
  rcn_MinTokens :: int
  rcn_KeywordsAny :: "string list"
  rcn_KeywordsNone :: "string list"

record RoutingRule =
  rru_Name :: string
  rru_RouteTo :: string
  rru_When :: RoutingCondition

record RoutingConfig =
  rcf_Enabled :: bool
  rcf_Rules :: "RoutingRule list"

record BillingConfig =
  bcf_BufferSize :: int
  bcf_Workers :: int
  bcf_FlushTimeout :: duration
  bcf_PricingReloadInterval :: duration

record RouterRetryConfig =
  rrc_MaxRetries :: int
  rrc_MaxTotal :: duration
  rrc_BaseBackoff :: duration
  rrc_MaxBackoff :: duration

record RouterBreakerConfig =
  rbc_MaxRequests :: nat
  rbc_Interval :: duration
  rbc_Timeout :: duration
  rbc_FailureRatio :: rat
  rbc_MinRequests :: nat

record StaticAuthKey =
  sak_ID :: string
  sak_Name :: string
  sak_Secret :: string
  sak_Scopes :: "(string \<times> string list) list option"

record AuthConfig =
  acf_PositiveTTL :: duration
  acf_NegativeTTL :: duration
  acf_StaticKeys :: "StaticAuthKey list"

record ServerConfig =
  scf_Addr :: string
  scf_ReadTimeout :: duration
  scf_WriteTimeout :: duration
  scf_ShutdownTimeout :: duration
  scf_PreShutdownDelay :: duration
  scf_AdminCORSOrigins :: "string list"

record LogConfig =
  lcf_Level :: string
  lcf_Format :: string

record ObservabilityConfig =
  ocf_MetricsEnabled :: bool
  ocf_MetricsPath :: string
  ocf_TracingEnabled :: bool
  ocf_TracingEndpoint :: string
  ocf_ServiceName :: string
  ocf_SampleRatio :: rat

record DatabaseConfig =
  dcf_DSN :: string
  dcf_MaxOpenConns :: int
  dcf_MaxIdleConns :: int
  dcf_ConnMaxLifetime :: duration

record RedisConfig =
  rdc_Addr :: string
  rdc_Password :: string
  rdc_DB :: int
  rdc_PoolSize :: int

record ExactCacheConfig =
  ecf_Enabled :: bool
  ecf_TTL :: duration

record RateLimitRule =
  rl_Name :: string
  rl_Algorithm :: string
  rl_Rate :: string
  rl_Window :: duration
  rl_Limit :: int
  rl_Burst :: int
  rl_KeyBy :: "string list"
  rl_Unit :: string

record Config =
  cf_Server :: ServerConfig
  cf_Log :: LogConfig
  cf_Observability :: ObservabilityConfig
  cf_Database :: DatabaseConfig
  cf_Redis :: RedisConfig
  cf_ProvidersFile :: string
  cf_Auth :: AuthConfig
  cf_RateLimits :: "RateLimitRule list"
  cf_Retry :: RouterRetryConfig
  cf_Breaker :: RouterBreakerConfig
  cf_Routing :: RoutingConfig
  cf_Billing :: BillingConfig
  cf_Cache :: ExactCacheConfig
  cf_Compression :: PromptCompressionConfig

section \<open>Defaults\<close>

definition setDefaults :: Config where
  "setDefaults = \<lparr>
     cf_Server = \<lparr>scf_Addr = '':8080'', scf_ReadTimeout = 10 * Second, scf_WriteTimeout = 600 * Second, scf_ShutdownTimeout = 30 * Second,
       scf_PreShutdownDelay = 5 * Second, scf_AdminCORSOrigins = []\<rparr>,
     cf_Log = \<lparr>lcf_Level = ''info'', lcf_Format = ''json''\<rparr>,
     cf_Observability = \<lparr>ocf_MetricsEnabled = True, ocf_MetricsPath = ''/metrics'', ocf_TracingEnabled = False, ocf_TracingEndpoint = [],
       ocf_ServiceName = ''x-beacon'', ocf_SampleRatio = fl64 (1 / 10)\<rparr>,
     cf_Database = \<lparr>dcf_DSN = [], dcf_MaxOpenConns = 20, dcf_MaxIdleConns = 5, dcf_ConnMaxLifetime = 30 * Minute\<rparr>,
     cf_Redis = \<lparr>rdc_Addr = [], rdc_Password = [], rdc_DB = 0, rdc_PoolSize = 50\<rparr>,
     cf_ProvidersFile = ''configs/providers.yaml'',
     cf_Auth = \<lparr>acf_PositiveTTL = 60 * Second, acf_NegativeTTL = 5 * Second, acf_StaticKeys = []\<rparr>,
     cf_RateLimits = [],
     cf_Retry = \<lparr>rrc_MaxRetries = 2, rrc_MaxTotal = 30 * Second, rrc_BaseBackoff = 100 * Millisecond, rrc_MaxBackoff = 5 * Second\<rparr>,
     cf_Breaker = \<lparr>rbc_MaxRequests = 1, rbc_Interval = 60 * Second, rbc_Timeout = 30 * Second, rbc_FailureRatio = fl64 (1 / 2), rbc_MinRequests = 5\<rparr>,
     cf_Routing = \<lparr>rcf_Enabled = False, rcf_Rules = []\<rparr>,
     cf_Billing = \<lparr>bcf_BufferSize = 10000, bcf_Workers = 2, bcf_FlushTimeout = 5 * Second, bcf_PricingReloadInterval = 30 * Minute\<rparr>,
     cf_Cache = \<lparr>ecf_Enabled = True, ecf_TTL = Hour\<rparr>,
     cf_Compression = \<lparr>pcc_Enabled = False, pcc_TriggerRatio = fl64 (8 / 10), pcc_MinKeepMessages = 2, pcc_DefaultWindow = 128000,
       pcc_ModelWindows = []\<rparr>\<rparr>"

section \<open>Validation\<close>

datatype config_error =
    AddrRequired | ReadTimeoutPositive | WriteTimeoutPositive | ShutdownTimeoutPositive | PreShutdownDelayNonneg
  | LogLevelInvalid string | LogFormatInvalid string | TracingEndpointRequired | SampleRatioRange rat
  | TriggerRatioRange rat | DefaultWindowPositive | MinKeepNonneg | MaxOpenConnsNonneg | MaxIdleConnsNonneg

definition err_if :: "bool \<Rightarrow> config_error \<Rightarrow> config_error list" where
  "err_if c e = (if c then [e] else [])"

definition Validate :: "Config \<Rightarrow> config_error list" where
  "Validate c =
     (let s = cf_Server c; o' = cf_Observability c; p = cf_Compression c; d = cf_Database c in
      err_if (scf_Addr s = []) AddrRequired @
      err_if (scf_ReadTimeout s \<le> 0) ReadTimeoutPositive @
      err_if (scf_WriteTimeout s \<le> 0) WriteTimeoutPositive @
      err_if (scf_ShutdownTimeout s \<le> 0) ShutdownTimeoutPositive @
      err_if (scf_PreShutdownDelay s < 0) PreShutdownDelayNonneg @
      err_if (to_lower (lcf_Level (cf_Log c)) \<notin> {''debug'', ''info'', ''warn'', ''error''}) (LogLevelInvalid (lcf_Level (cf_Log c))) @
      err_if (to_lower (lcf_Format (cf_Log c)) \<notin> {''json'', ''console''}) (LogFormatInvalid (lcf_Format (cf_Log c))) @
      err_if (ocf_TracingEnabled o' \<and> ocf_TracingEndpoint o' = []) TracingEndpointRequired @
      err_if (ocf_SampleRatio o' < 0 \<or> ocf_SampleRatio o' > 1) (SampleRatioRange (ocf_SampleRatio o')) @
      (if pcc_Enabled p then
         err_if (pcc_TriggerRatio p \<le> 0 \<or> pcc_TriggerRatio p > 1) (TriggerRatioRange (pcc_TriggerRatio p)) @
         err_if (pcc_DefaultWindow p \<le> 0) DefaultWindowPositive @
         err_if (pcc_MinKeepMessages p < 0) MinKeepNonneg
       else []) @
      err_if (dcf_MaxOpenConns d < 0) MaxOpenConnsNonneg @
      err_if (dcf_MaxIdleConns d < 0) MaxIdleConnsNonneg)"

datatype load_config_error = ReadConfig goerr | DecodeConfig goerr | InvalidConfig "config_error list"

text \<open>\<open>read\<close> is \<open>ReadInConfig\<close> and \<open>decode\<close> is \<open>Unmarshal\<close> over the defaults, the file and the environment.\<close>

definition LoadConfig :: "(string \<Rightarrow> goerr option) \<Rightarrow> (string \<Rightarrow> Config \<Rightarrow> goerr + Config) \<Rightarrow> string \<Rightarrow> load_config_error + Config" where
  "LoadConfig read decode path =
     (case (if path \<noteq> [] then read path else None) of
        Some err \<Rightarrow> Inl (ReadConfig err)
      | None \<Rightarrow> (case decode path setDefaults of
          Inl err \<Rightarrow> Inl (DecodeConfig err)
        | Inr cfg \<Rightarrow> (case Validate cfg of [] \<Rightarrow> Inr cfg | errs \<Rightarrow> Inl (InvalidConfig errs))))"

section \<open>Translations\<close>

text \<open>How \<open>cmd/gateway\<close> hands the settings to the components.\<close>

definition retry_policy :: "Config \<Rightarrow> RetryPolicy" where
  "retry_policy cfg = \<lparr>MaxRetries = rrc_MaxRetries (cf_Retry cfg), MaxTotal = rrc_MaxTotal (cf_Retry cfg),
     BaseBackoff = rrc_BaseBackoff (cf_Retry cfg), MaxBackoff = rrc_MaxBackoff (cf_Retry cfg)\<rparr>"

definition breaker_settings :: "Config \<Rightarrow> BreakerSettings" where
  "breaker_settings cfg = \<lparr>bk_MaxRequests = rbc_MaxRequests (cf_Breaker cfg), bk_Interval = rbc_Interval (cf_Breaker cfg),
     bk_Timeout = rbc_Timeout (cf_Breaker cfg), bk_FailureRatio = rbc_FailureRatio (cf_Breaker cfg), bk_MinRequests = rbc_MinRequests (cf_Breaker cfg)\<rparr>"

definition worker_config :: "Config \<Rightarrow> WorkerConfig" where
  "worker_config cfg = \<lparr>wc_BufferSize = bcf_BufferSize (cf_Billing cfg), wc_Workers = bcf_Workers (cf_Billing cfg),
     wc_FlushTimeout = bcf_FlushTimeout (cf_Billing cfg)\<rparr>"

definition rule_config :: "RateLimitRule \<Rightarrow> RuleConfig" where
  "rule_config r = \<lparr>rc_Name = rl_Name r, rc_Algorithm = rl_Algorithm r, rc_Rate = rl_Rate r, rc_Burst = rl_Burst r, rc_Window = rl_Window r,
     rc_Limit = rl_Limit r, rc_KeyBy = rl_KeyBy r, rc_Unit = rl_Unit r\<rparr>"

definition route_rule :: "RoutingRule \<Rightarrow> route_Rule" where
  "route_rule r = \<lparr>rr_Name = rru_Name r, rr_RouteTo = rru_RouteTo r, rr_When =
     \<lparr>cd_MaxTokens = rcn_MaxTokens (rru_When r), cd_MinTokens = rcn_MinTokens (rru_When r), cd_KeywordsAny = rcn_KeywordsAny (rru_When r),
      cd_KeywordsNone = rcn_KeywordsNone (rru_When r), cd_Model = rcn_Model (rru_When r), cd_Weight = rcn_Weight (rru_When r)\<rparr>\<rparr>"

definition window_options :: "Config \<Rightarrow> bool \<Rightarrow> SlidingWindowOptions" where
  "window_options cfg tk = \<lparr>so_Tokenizer = tk, so_DefaultWindow = pcc_DefaultWindow (cf_Compression cfg),
     so_Windows = pcc_ModelWindows (cf_Compression cfg), so_TriggerRatio = pcc_TriggerRatio (cf_Compression cfg),
     so_MinKeepMessages = pcc_MinKeepMessages (cf_Compression cfg)\<rparr>"

section \<open>Properties\<close>

text \<open>
  The tree without a file is valid, and its settings are the ones the components fall back to
  on their own: the two sets of defaults in the code agree.
\<close>

lemma default_config_consistent:
  "Validate setDefaults = [] \<and> retry_policy setDefaults = DefaultPolicy \<and> breaker_settings setDefaults = DefaultBreakerSettings \<and>
   worker_config setDefaults = DefaultWorkerConfig \<and> worker_defaults (worker_config setDefaults) = worker_config setDefaults \<and>
   applyDefaults (breaker_settings setDefaults) = breaker_settings setDefaults \<and>
   NewSlidingWindow (window_options setDefaults True) = NewSlidingWindow
     \<lparr>so_Tokenizer = True, so_DefaultWindow = 0, so_Windows = [], so_TriggerRatio = 0, so_MinKeepMessages = 0\<rparr>"
  by (intro conjI; code_simp)

text \<open>
  What validation buys.  A configuration that \<open>LoadConfig\<close> returns has positive time limits,
  so that no server waits for ever, and an enabled compressor built from it works with exactly
  the configured window and ratio; only a floor of 0 messages, which validation accepts, is
  replaced by the default of 2.
\<close>

lemma Validate_ok:
  assumes "Validate c = []"
  shows "0 < scf_ReadTimeout (cf_Server c)" "0 < scf_WriteTimeout (cf_Server c)" "0 < scf_ShutdownTimeout (cf_Server c)"
    "0 \<le> scf_PreShutdownDelay (cf_Server c)" "scf_Addr (cf_Server c) \<noteq> []"
    "pcc_Enabled (cf_Compression c) \<Longrightarrow> 0 < pcc_TriggerRatio (cf_Compression c) \<and> pcc_TriggerRatio (cf_Compression c) \<le> 1 \<and>
       0 < pcc_DefaultWindow (cf_Compression c) \<and> 0 \<le> pcc_MinKeepMessages (cf_Compression c)"
  using assms by (auto simp: Validate_def err_if_def Let_def split: if_splits)

lemma LoadConfig_valid: "LoadConfig read decode path = Inr cfg \<Longrightarrow> Validate cfg = []"
  by (auto simp: LoadConfig_def split: option.splits sum.splits list.splits if_splits)

end
