(* ===== verification/ProvidersFile.thy ===== *)
theory ProvidersFile
  imports Registry
begin

text \<open>
  \<open>internal/envexpand/envexpand.go\<close> and the function \<open>Load\<close> of \<open>internal/provider/registry/loader.go\<close>:
  the providers file is read, its placeholders are replaced by values of the environment, and
  what the YAML parser makes of the result is built into a table.  The file system, the
  environment and the parser are arguments.
\<close>

section \<open>Placeholders\<close>

text \<open>The pattern \<open>[A-Za-z_][A-Za-z0-9_]*\<close>.\<close>

definition var_start :: "char \<Rightarrow> bool" where
  "var_start c = (let n = (of_char c :: nat) in (65 \<le> n \<and> n \<le> 90) \<or> (97 \<le> n \<and> n \<le> 122) \<or> c = CHR ''_'')"

definition var_char :: "char \<Rightarrow> bool" where
  "var_char c \<longleftrightarrow> var_start c \<or> is_digit c"

text \<open>
  The rest of the pattern after \<open>${\<close>: the name, an optional default after \<open>:-\<close> that ends at the
  first brace, and the brace.  The greedy choices are the only ones: none of the characters that
  may follow a name belongs to one.
\<close>

definition placeholder :: "string \<Rightarrow> (string \<times> string \<times> string) option" where
  "placeholder s = (let name = takeWhile var_char s; rest = drop (length name) s in
     if name = [] \<or> \<not> var_start (hd name) then None
     else if has_prefix rest ''}'' then Some (name, [], tl rest)
     else if has_prefix rest '':-'' then
       (let body = drop 2 rest; def = takeWhile (\<lambda>c. c \<noteq> CHR ''}'') body
        in if length def = length body then None else Some (name, def, drop (length def + 1) body))
     else None)"

definition env_value :: "(string \<Rightarrow> string option) \<Rightarrow> string \<Rightarrow> string \<Rightarrow> string" where
  "env_value env name def = (case env name of Some v \<Rightarrow> if v \<noteq> [] then v else def | None \<Rightarrow> def)"

lemma placeholder_shorter: "placeholder s = Some (n, d, rest) \<Longrightarrow> length rest < length s"
  by (auto simp: placeholder_def Let_def takeWhile_eq_Nil_iff split: if_splits)

function Expand :: "(string \<Rightarrow> string option) \<Rightarrow> string \<Rightarrow> string" where
  "Expand env [] = []"
| "Expand env (c # s) =
     (if c = CHR ''$'' \<and> has_prefix s ''{'' then
        (case placeholder (tl s) of
           Some (name, def, rest) \<Rightarrow> env_value env name def @ Expand env rest
         | None \<Rightarrow> c # Expand env s)
      else c # Expand env s)"
  by pat_completeness auto
termination
  by (relation "measure (\<lambda>(env, s). length s)") (auto dest!: placeholder_shorter)

section \<open>Loading\<close>

datatype load_failure = ReadFailed goerr | ParseFailed goerr | InvalidFile "load_error list"

definition Load :: "(string \<Rightarrow> goerr + string) \<Rightarrow> (string \<Rightarrow> goerr + providersFile) \<Rightarrow> (string \<Rightarrow> string option) \<Rightarrow> string \<Rightarrow>
    load_failure + registryState" where
  "Load read yaml env path = (case read path of
     Inl e \<Rightarrow> Inl (ReadFailed e)
   | Inr raw \<Rightarrow> (case yaml (Expand env raw) of
       Inl e \<Rightarrow> Inl (ParseFailed e)
     | Inr pf \<Rightarrow> (case build pf of Inl errs \<Rightarrow> Inl (InvalidFile errs) | Inr st \<Rightarrow> Inr st)))"

section \<open>Lemmas\<close>

lemma Expand_no_dollar: "CHR ''$'' \<notin> set s \<Longrightarrow> Expand env (s @ t) = s @ Expand env t"
  by (induction s) auto

text \<open>A text as it is meant: literal parts and placeholders with their defaults.\<close>

datatype piece = Lit string | Var string | VarDefault string string

definition var_name :: "string \<Rightarrow> bool" where
  "var_name n \<longleftrightarrow> n \<noteq> [] \<and> var_start (hd n) \<and> list_all var_char n"

fun piece_ok :: "piece \<Rightarrow> bool" where
  "piece_ok (Lit s) = (CHR ''$'' \<notin> set s)"
| "piece_ok (Var n) = var_name n"
| "piece_ok (VarDefault n d) = (var_name n \<and> CHR ''}'' \<notin> set d)"

fun piece_text :: "piece \<Rightarrow> string" where
  "piece_text (Lit s) = s"
| "piece_text (Var n) = ''${'' @ n @ ''}''"
| "piece_text (VarDefault n d) = ''${'' @ n @ '':-'' @ d @ ''}''"

fun piece_value :: "(string \<Rightarrow> string option) \<Rightarrow> piece \<Rightarrow> string" where
  "piece_value env (Lit s) = s"
| "piece_value env (Var n) = env_value env n []"
| "piece_value env (VarDefault n d) = env_value env n d"

lemma takeWhile_name: "var_name n \<Longrightarrow> \<not> var_char c \<Longrightarrow> takeWhile var_char (n @ c # s) = n"
  by (simp add: var_name_def list_all_iff takeWhile_append2)

lemma not_var_char: "\<not> var_char (CHR ''}'')" "\<not> var_char (CHR '':'')"
  by (simp_all add: var_char_def var_start_def is_digit_def Let_def)

lemma placeholder_Var: "var_name n \<Longrightarrow> placeholder (n @ CHR ''}'' # s) = Some (n, [], s)"
  using takeWhile_name [OF _ not_var_char(1)] by (simp add: placeholder_def Let_def var_name_def has_prefix_def)

lemma placeholder_VarDefault:
  "var_name n \<Longrightarrow> CHR ''}'' \<notin> set d \<Longrightarrow> placeholder (n @ CHR '':'' # CHR ''-'' # d @ CHR ''}'' # s) = Some (n, d, s)"
proof -
  assume n: "var_name n" and d: "CHR ''}'' \<notin> set d"
  have "takeWhile (\<lambda>c. c \<noteq> CHR ''}'') (d @ CHR ''}'' # s) = d" using d by (subst takeWhile_append2) auto
  then show ?thesis using takeWhile_name [OF n not_var_char(2)] n
    by (simp add: placeholder_def Let_def var_name_def has_prefix_def)
qed

text \<open>Every placeholder is replaced once; a value that looks like a placeholder stays as it is.\<close>

lemma Expand_pieces: "list_all piece_ok ps \<Longrightarrow> Expand env (concat (map piece_text ps)) = concat (map (piece_value env) ps)"
proof (induction ps)
  case (Cons p ps)
  then have IH: "Expand env (concat (map piece_text ps)) = concat (map (piece_value env) ps)" and p: "piece_ok p" by simp_all
  show ?case
    using p IH by (cases p) (simp_all add: Expand_no_dollar placeholder_Var placeholder_VarDefault has_prefix_def)
qed simp

text \<open>The value of a variable is spliced into the text before parsing, line breaks included.\<close>

lemma value_breaks_line: "Expand (\<lambda>_. Some ''k\<newline>base_url: x'') ''api_key: ${K}'' = ''api_key: k\<newline>base_url: x''"
  by code_simp

lemma Load_Inr: "Load read yaml env path = Inr st \<longleftrightarrow> (\<exists>raw pf. read path = Inr raw \<and> yaml (Expand env raw) = Inr pf \<and> build pf = Inr st)"
  by (auto simp: Load_def split: sum.splits)

end
