(* ===== verification/AdminViews.thy ===== *)
theory AdminViews
  imports Admin Models TimeSeries Route GatewayConfig ProvidersFile
begin

text \<open>
  The remaining admin endpoints of \<open>internal/server\<close>: \<open>admin_providers.go\<close> with the reload of
  the provider table, \<open>admin_routing.go\<close>, \<open>admin_ratelimit.go\<close> and \<open>admin_stats.go\<close>.  What the
  metrics registry gathers is an argument; it may come with an error.  An empty list stands for
  the nil slice, which JSON writes as \<open>null\<close>.
\<close>

type_synonym gathered = "metric_family list \<times> goerr option"

section \<open>Counters by label\<close>

definition labelValueDirect :: "(string \<times> string) list \<Rightarrow> string \<Rightarrow> string" where
  "labelValueDirect labels name = (case map_of labels name of None \<Rightarrow> [] | Some v \<Rightarrow> v)"

text \<open>A Go map of counters: absent keys count zero.\<close>

definition bump_label :: "string \<Rightarrow> int \<Rightarrow> (string \<Rightarrow> int) \<Rightarrow> string \<Rightarrow> int" where
  "bump_label k v m = (if k = [] then m else m(k := u64 (m k + v)))"

definition sum_label :: "string \<Rightarrow> dto_Metric list \<Rightarrow> (string \<Rightarrow> int) \<Rightarrow> string \<Rightarrow> int" where
  "sum_label name ms m0 = foldl (\<lambda>m x. bump_label (labelValueDirect (dm_Label x) name) (f_trunc (dm_Counter x)) m) m0 ms"

definition gather_counter :: "string \<Rightarrow> string \<Rightarrow> gathered option \<Rightarrow> goerr + (string \<Rightarrow> int)" where
  "gather_counter family label g = (case g of
     None \<Rightarrow> Inr (\<lambda>_. 0)
   | Some (families, Some err) \<Rightarrow> Inl err
   | Some (families, None) \<Rightarrow> Inr (foldl (\<lambda>m (name, ms). if name \<noteq> family then m else sum_label label ms m) (\<lambda>_. 0) families))"

definition gatherRouteHits :: "gathered option \<Rightarrow> goerr + (string \<Rightarrow> int)" where
  "gatherRouteHits = gather_counter ''gateway_router_decision_total'' ''rule''"

definition gatherRatelimitRejects :: "gathered option \<Rightarrow> goerr + (string \<Rightarrow> int)" where
  "gatherRatelimitRejects = gather_counter ''gateway_ratelimit_rejected_total'' ''rule''"

definition enc_strings :: "string list \<Rightarrow> json" where
  "enc_strings xs = (if xs = [] then JNull else JArr (map JStr xs))"

section \<open>Providers\<close>

record provider_health =
  ph_breaker :: "string \<Rightarrow> int"
  ph_from :: "string \<Rightarrow> int"
  ph_to :: "string \<Rightarrow> int"

definition health_family :: "provider_health \<Rightarrow> metric_family \<Rightarrow> provider_health" where
  "health_family h f = (case f of (name, ms) \<Rightarrow>
     if name = ''gateway_breaker_state''
       then h\<lparr>ph_breaker := foldl (\<lambda>b m. let p = labelValueDirect (dm_Label m) ''provider'' in if p = [] then b else b(p := f_trunc (dm_Gauge m))) (ph_breaker h) ms\<rparr>
     else if name = ''gateway_router_failover_total''
       then h\<lparr>ph_from := sum_label ''from'' ms (ph_from h), ph_to := sum_label ''to'' ms (ph_to h)\<rparr>
     else h)"

text \<open>A failed gathering is logged, and what it returned is used.\<close>

definition gather_health :: "gathered option \<Rightarrow> provider_health" where
  "gather_health g = foldl health_family \<lparr>ph_breaker = \<lambda>_. 0, ph_from = \<lambda>_. 0, ph_to = \<lambda>_. 0\<rparr> (case g of None \<Rightarrow> [] | Some (families, _) \<Rightarrow> families)"

definition breakerStateLabel :: "int \<Rightarrow> string" where
  "breakerStateLabel state = (if state = 0 then ''closed'' else if state = 1 then ''half_open'' else if state = 2 then ''open'' else ''unknown'')"

record providerDTO =
  po_Name :: string
  po_Models :: "string list"
  po_BreakerState :: string
  po_FailoversFrom :: int
  po_FailoversTo :: int

definition modelsByOwner :: "registryState \<Rightarrow> string \<Rightarrow> string list" where
  "modelsByOwner reg owner = (if owner = [] then [] else sort (map mi_ID (filter (\<lambda>m. mi_OwnedBy m = owner) (AllModels reg))))"

definition provider_rows :: "registryState \<Rightarrow> gathered option \<Rightarrow> providerDTO list" where
  "provider_rows reg g = (let h = gather_health g in map (\<lambda>name. \<lparr>po_Name = name, po_Models = modelsByOwner reg name,
     po_BreakerState = breakerStateLabel (ph_breaker h name), po_FailoversFrom = ph_from h name, po_FailoversTo = ph_to h name\<rparr>) (Names reg))"

definition providerDTO_Marshal :: "providerDTO \<Rightarrow> json" where
  "providerDTO_Marshal p = JObj [(''name'', JStr (po_Name p)), (''models'', enc_strings (po_Models p)), (''breaker_state'', JStr (po_BreakerState p)),
     (''failovers_from'', JInt (po_FailoversFrom p)), (''failovers_to'', JInt (po_FailoversTo p))]"

definition adminProvidersHandler :: "registryState \<Rightarrow> gathered option \<Rightarrow> 's handler" where
  "adminProvidersHandler reg g r w s = (Returned, reply_json (JObj [(''providers'', JArr (map providerDTO_Marshal (provider_rows reg g)))]) w, s)"

text \<open>
  The reload works on the registry and the state of the other handlers; \<open>txt\<close> is the text of an
  error of \<open>registry.Load\<close>.
\<close>

definition adminProvidersReloadHandler ::
  "'k admin_deps \<Rightarrow> (string \<Rightarrow> goerr + string) \<Rightarrow> (string \<Rightarrow> goerr + providersFile) \<Rightarrow> (string \<Rightarrow> string option) \<Rightarrow> (load_failure \<Rightarrow> string) \<Rightarrow>
   string \<Rightarrow> (registryState \<times> 'k admin_state) handler" where
  "adminProvidersReloadHandler deps read yaml env txt providersFile r w s =
     (if providersFile = [] then (Returned, writeError (mapped 409 ''invalid_request_error'' ''no_providers_file''
         ''Gateway was started without a providers file; nothing to reload'') (rq_ReqID r) w, s)
      else case Load read yaml env providersFile of
        Inl err \<Rightarrow> (Returned, writeError (invalid ''providers_file_invalid''
            (''Providers file failed validation; keeping the current table: '' @ txt err)) (rq_ReqID r) w, s)
      | Inr fresh \<Rightarrow>
          let reg = Swap (fst s) fresh; ns = Names reg; models = int (length (AllModels reg))
          in (Returned,
              jsonEncode (JObj [(''models'', JInt models), (''providers'', enc_strings ns), (''reloaded'', JBool True)])
                (set_header ''Content-Type'' ''application/json'' w),
              (reg, recordAudit deps r ActionProvidersReload ''providers_file'' providersFile
                 (Some (JObj [(''models'', JInt models), (''providers'', enc_strings ns)])) (snd s))))"

section \<open>Routing rules\<close>

definition routingRuleDTO_Marshal :: "(string \<Rightarrow> int) \<Rightarrow> route_Rule \<Rightarrow> json" where
  "routingRuleDTO_Marshal counts rule = (let c = rr_When rule in JObj [
     (''name'', JStr (rr_Name rule)), (''route_to'', JStr (rr_RouteTo rule)),
     (''when'', JObj (members [
        (''max_tokens'', cd_MaxTokens c \<noteq> 0, JInt (cd_MaxTokens c)), (''min_tokens'', cd_MinTokens c \<noteq> 0, JInt (cd_MinTokens c)),
        (''keywords_any'', cd_KeywordsAny c \<noteq> [], JArr (map JStr (cd_KeywordsAny c))),
        (''keywords_none'', cd_KeywordsNone c \<noteq> [], JArr (map JStr (cd_KeywordsNone c)))])),
     (''hits'', JInt (counts (rr_Name rule)))])"

definition hits_or_zero :: "goerr + (string \<Rightarrow> int) \<Rightarrow> string \<Rightarrow> int" where
  "hits_or_zero x = (case x of Inl _ \<Rightarrow> \<lambda>_. 0 | Inr m \<Rightarrow> m)"

definition adminRoutingRulesHandler :: "RuleClassifier option \<Rightarrow> gathered option \<Rightarrow> 's handler" where
  "adminRoutingRulesHandler classifier g r w s =
     (let counts = hits_or_zero (gatherRouteHits g);
          (enabled, rules) = (case classifier of None \<Rightarrow> (False, JNull)
            | Some rc \<Rightarrow> (True, JArr (map (routingRuleDTO_Marshal counts) (rc_rules rc))))
      in (Returned, reply_json (JObj [(''enabled'', JBool enabled), (''rules'', rules)]) w, s))"

section \<open>Rate-limit rules\<close>

text \<open>\<open>time.Duration.String\<close>: a fraction of \<open>prec\<close> digits without trailing zeros, and the units.\<close>

definition pad_digits :: "nat \<Rightarrow> nat \<Rightarrow> string" where
  "pad_digits prec n = (let d = nat_str n in replicate (prec - length d) (CHR ''0'') @ d)"

definition fmtFrac :: "nat \<Rightarrow> nat \<Rightarrow> string" where
  "fmtFrac prec v = (if v = 0 then [] else CHR ''.'' # rev (dropWhile (\<lambda>c. c = CHR ''0'') (rev (pad_digits prec v))))"

definition duration_String :: "duration \<Rightarrow> string" where
  "duration_String d =
     (let u = nat \<bar>d\<bar>; sign = (if d < 0 then ''-'' else []) in
      if u = 0 then ''0s''
      else if u < 1000 then sign @ nat_str u @ ''ns''
      else if u < 1000000 then sign @ nat_str (u div 1000) @ fmtFrac 3 (u mod 1000) @ [CHR 0xC2, CHR 0xB5] @ ''s''
      else if u < 1000000000 then sign @ nat_str (u div 1000000) @ fmtFrac 6 (u mod 1000000) @ ''ms''
      else let secs = u div 1000000000; mins = secs div 60; hours = mins div 60;
               s = nat_str (secs mod 60) @ fmtFrac 9 (u mod 1000000000) @ ''s''
           in sign @ (if hours > 0 then nat_str hours @ ''h'' else []) @ (if mins > 0 then nat_str (mins mod 60) @ ''m'' else []) @ s)"

definition durString :: "duration \<Rightarrow> string" where
  "durString d = (if d = 0 then [] else duration_String d)"

definition ratelimitRuleDTO_Marshal :: "(string \<Rightarrow> int) \<Rightarrow> RateLimitRule \<Rightarrow> json" where
  "ratelimitRuleDTO_Marshal rejects rl = JObj (members [
     (''name'', True, JStr (rl_Name rl)), (''algorithm'', True, JStr (rl_Algorithm rl)), (''rate'', rl_Rate rl \<noteq> [], JStr (rl_Rate rl)),
     (''window'', durString (rl_Window rl) \<noteq> [], JStr (durString (rl_Window rl))), (''limit'', rl_Limit rl \<noteq> 0, JInt (rl_Limit rl)),
     (''burst'', rl_Burst rl \<noteq> 0, JInt (rl_Burst rl)), (''key_by'', True, enc_strings (rl_KeyBy rl)), (''rejects'', True, JInt (rejects (rl_Name rl)))])"

definition adminRateLimitRulesHandler :: "RateLimitRule list \<Rightarrow> gathered option \<Rightarrow> 's handler" where
  "adminRateLimitRulesHandler rules g r w s =
     (Returned, reply_json (JObj [(''enabled'', JBool (rules \<noteq> [])),
        (''rules'', JArr (map (ratelimitRuleDTO_Marshal (hits_or_zero (gatherRatelimitRejects g))) rules))]) w, s)"

section \<open>Statistics\<close>

definition ModelBreakdown_Marshal :: "ModelBreakdown \<Rightarrow> json" where
  "ModelBreakdown_Marshal b = JObj [(''provider'', JStr (mb_Provider b)), (''model'', JStr (mb_Model b)), (''requests'', JInt (mb_Requests b)),
     (''prompt_tokens'', JInt (mb_PromptTokens b)), (''completion_tokens'', JInt (mb_CompletionTokens b)), (''cost_micro'', JInt (mb_CostMicro b))]"

definition StatsSummary_Marshal :: "(instant \<Rightarrow> json) \<Rightarrow> StatsSummary \<Rightarrow> json" where
  "StatsSummary_Marshal time s = JObj [(''window'', JStr (su_Window s)), (''since'', time (su_Since s)), (''as_of'', time (su_AsOf s)),
     (''requests_total'', JInt (su_RequestsTotal s)), (''errors_4xx'', JInt (su_Errors4xx s)), (''errors_5xx'', JInt (su_Errors5xx s)),
     (''cost_micro_total'', JInt (su_CostMicroTotal s)), (''p99_latency_seconds'', enc_float (su_P99LatencySeconds s)),
     (''top_models'', if su_TopModels s = [] then JNull else JArr (map ModelBreakdown_Marshal (su_TopModels s)))]"

definition adminStatsSummaryHandler :: "(instant \<Rightarrow> json) \<Rightarrow> (goerr + metric_family list) option \<Rightarrow> instant \<Rightarrow> StatsCollector handler" where
  "adminStatsSummaryHandler time gatherer now r w c = (case Summary gatherer now c of
     (Inl _, c') \<Rightarrow> (Returned, writeError (internal ''Failed to compute stats summary'') (rq_ReqID r) w, c')
   | (Inr s, c') \<Rightarrow> (Returned, reply_json (StatsSummary_Marshal time s) w, c'))"

definition CacheStats_Marshal :: "(instant \<Rightarrow> json) \<Rightarrow> CacheStats \<Rightarrow> json" where
  "CacheStats_Marshal time s = JObj [(''window'', JStr (ca_Window s)), (''since'', time (ca_Since s)), (''as_of'', time (ca_AsOf s)),
     (''exact'', JObj (members [(''hits'', True, JInt (cs_Hits (ca_Exact s))), (''writes'', True, JInt (cs_Writes (ca_Exact s))),
        (''hit_rate'', cs_HitRate (ca_Exact s) \<noteq> None, enc_float (the (cs_HitRate (ca_Exact s))))]))]"

definition adminStatsCacheHandler :: "(instant \<Rightarrow> json) \<Rightarrow> (goerr + metric_family list) option \<Rightarrow> instant \<Rightarrow> CacheStatsCollector handler" where
  "adminStatsCacheHandler time gatherer now r w c = (case CacheStatsCollector_Stats gatherer now c of
     (Inl _, c') \<Rightarrow> (Returned, writeError (internal ''Failed to compute cache stats'') (rq_ReqID r) w, c')
   | (Inr s, c') \<Rightarrow> (Returned, reply_json (CacheStats_Marshal time s) w, c'))"

definition TimePoint_Marshal :: "(instant \<Rightarrow> json) \<Rightarrow> TimePoint \<Rightarrow> json" where
  "TimePoint_Marshal time p = JObj [(''t'', time (tp_T p)), (''success'', JInt (tp_Success p)), (''error'', JInt (tp_Error p))]"

text \<open>\<open>points\<close> is what \<open>Snapshot\<close> returns.\<close>

definition adminStatsTimeseriesHandler :: "(instant \<Rightarrow> json) \<Rightarrow> (string \<times> string list) list \<Rightarrow> TimePoint list \<Rightarrow> 's handler" where
  "adminStatsTimeseriesHandler time query points r w s =
     (let metric = (if query_get query ''metric'' = [] then ''qps'' else query_get query ''metric'')
      in (Returned, reply_json (JObj [(''metric'', JStr metric), (''points'', JArr (map (TimePoint_Marshal time) points)),
           (''step'', JStr ''1m''), (''window'', JStr ''1h'')]) w, s))"

section \<open>Lemmas\<close>

text \<open>A provider whose breaker has reported nothing shows as closed.\<close>

lemma unreported_breaker_closed: "breakerStateLabel (ph_breaker (gather_health None) name) = ''closed''"
  by (simp add: gather_health_def breakerStateLabel_def)

text \<open>The view of a routing rule leaves out its model pattern and its weight.\<close>

lemma routing_view_hides_canary:
  "routingRuleDTO_Marshal counts (rule\<lparr>rr_When := (rr_When rule)\<lparr>cd_Model := m, cd_Weight := x\<rparr>\<rparr>) = routingRuleDTO_Marshal counts rule"
  by (simp add: routingRuleDTO_Marshal_def Let_def)

text \<open>A window of one minute shows as \<open>1m0s\<close>.\<close>

lemma minute_window_text: "durString Minute = ''1m0s''"
  by (simp add: durString_def duration_String_def fmtFrac_def Let_def nat_str.simps digit_char_def) code_simp

section \<open>Properties\<close>

text \<open>
  Reloading the providers is all or nothing.  Without a providers file, or with one that
  cannot be read, does not parse or fails validation, the answer is an error status and nothing
  changes; otherwise the new table is exactly the one the expanded file describes, it is well
  formed, and, with the audit table writable, the reload has its row.
\<close>

lemma reload_all_or_nothing:
  assumes "adminProvidersReloadHandler deps read yaml env txt file r w (reg, s) = (e, w', (reg', s'))"
    and "admin_ready deps r w s"
  shows "((file = [] \<or> (\<nexists>fresh. Load read yaml env file = Inr fresh)) \<and>
      (\<exists>st. rw_status w' = Some st \<and> 400 \<le> st) \<and> reg' = reg \<and> s' = s) \<or>
    (\<exists>raw pf. read file = Inr raw \<and> yaml (Expand env raw) = Inr pf \<and> build pf = Inr reg' \<and> wf_registry reg' \<and>
      names reg' = map pc_Name (pf_Providers pf) \<and> rw_status w' = Some 200 \<and> audited r ActionProvidersReload (ad_audit s) (ad_audit s') \<and>
      ad_auth s' = ad_auth s \<and> ad_pricing s' = ad_pricing s)"
proof (cases "file = [] \<or> (\<nexists>fresh. Load read yaml env file = Inr fresh)")
  case True
  with assms show ?thesis
    by (auto simp: adminProvidersReloadHandler_def writeError_status admin_ready_def split: sum.splits if_splits)
next
  case False
  then obtain fresh where fresh: "Load read yaml env file = Inr fresh" and path: "file \<noteq> []" by blast
  then obtain raw pf where pf: "read file = Inr raw" "yaml (Expand env raw) = Inr pf" "build pf = Inr fresh" by (auto simp: Load_Inr)
  have "reg' = fresh \<and> rw_status w' = Some 200 \<and> (\<exists>m. s' = recordAudit deps r ActionProvidersReload ''providers_file'' file m s)"
    using assms path fresh by (auto simp: adminProvidersReloadHandler_def Let_def Swap_def jsonEncode_status admin_ready_def)
  then obtain m where d: "reg' = fresh" "rw_status w' = Some 200" "s' = recordAudit deps r ActionProvidersReload ''providers_file'' file m s" by blast
  moreover have "audited r ActionProvidersReload (ad_audit s) (ad_audit s')"
    using assms(2) path recordAudit_audited [where r = r and deps = deps and s = s and t = "''providers_file''" and i = "file" and a = ActionProvidersReload and m = m] has_inner_dot_actions(5) d(3)
    by (auto simp: admin_ready_def)
  moreover have "ad_auth s' = ad_auth s" "ad_pricing s' = ad_pricing s" by (simp_all add: d(3))
  ultimately show ?thesis using pf build_Inr [of pf fresh] by blast
qed

lemma reload_all_or_nothing_witness:
  "\<exists>e w' reg' s'. adminProvidersReloadHandler demo_admin (\<lambda>_. Inr ''${P}'') (\<lambda>t. if t = ''p'' then Inr example_pf else Inl ErrOpenState) (\<lambda>_. Some ''p'')
     (\<lambda>_. []) ''p.yaml'' demo_admin_request (new_writer (\<lambda>_. True) True) (NewEmpty, demo_admin_state) = (e, w', (reg', s')) \<and>
     names reg' = [''a'', ''b''] \<and> wf_registry reg'"
proof -
  let ?yaml = "\<lambda>t. if t = ''p'' then Inr example_pf else Inl ErrOpenState"
  obtain e w' reg' s' where h: "adminProvidersReloadHandler demo_admin (\<lambda>_. Inr ''${P}'') ?yaml (\<lambda>_. Some ''p'') (\<lambda>_. []) ''p.yaml'' demo_admin_request
      (new_writer (\<lambda>_. True) True) (NewEmpty, demo_admin_state) = (e, w', (reg', s'))" by (metis prod_cases4)
  have "admin_ready demo_admin demo_admin_request (new_writer (\<lambda>_. True) True) demo_admin_state"
    by (simp add: admin_ready_def demo_admin_def demo_admin_request_def demo_admin_state_def new_writer_def)
  moreover have "Expand (\<lambda>_. Some ''p'') ''${P}'' = ''p''" by code_simp
  ultimately have "names reg' = [''a'', ''b''] \<and> wf_registry reg'"
    using reload_all_or_nothing [OF h] example_pf_builds by (auto simp: example_pf_def Load_Inr)
  with h show ?thesis by blast
qed

end
