(* ===== verification/RequestLogs.thy ===== *)
theory RequestLogs
  imports Admin
begin

text \<open>
  \<open>internal/billing/logs_query.go\<close> and \<open>internal/server/admin_logs.go\<close>: reading the request
  ledger page by page.  The pool is absent or holds the tables the billing worker writes; a
  failure of the query is an argument.  The query orders the rows by \<open>started_at DESC\<close> only, so SQL
  leaves the order of rows with the same instant open, from one page to the next: the order in
  which the database returns the matches of a query is an argument, \<open>orders_rows\<close> what it promises.
\<close>

section \<open>Queries and rows\<close>

record LogQuery =
  lq_Start :: instant
  lq_End :: instant
  lq_APIKeyIDPrefix :: string
  lq_Model :: string
  lq_StatusBucket :: string
  lq_Limit :: int
  lq_Offset :: int

record LogRow =
  lw_RequestID :: string
  lw_StartedAt :: instant
  lw_APIKeyID :: string
  lw_APIKeyIDPreview :: string
  lw_Model :: string
  lw_Provider :: string
  lw_Status :: int
  lw_LatencyMs :: int
  lw_PromptTokens :: int
  lw_CompletionTokens :: int
  lw_TotalTokens :: int
  lw_CostMicro :: int
  lw_Currency :: string
  lw_ErrorCode :: string
  lw_Streamed :: bool

datatype log_error = ErrLogWindowTooWide | ErrLogWindowInvalid | LogPoolNil | LogBucketInvalid string | LogQueryErr goerr

definition maxLogWindow :: duration where
  "maxLogWindow = 7 * 24 * Hour"

definition previewID :: "string \<Rightarrow> string" where
  "previewID i = (if length i \<le> 8 then i else take 8 i)"

text \<open>\<open>COALESCE\<close> of a column that may be \<open>NULL\<close>.\<close>

definition coalesce :: "string option \<Rightarrow> string" where
  "coalesce v = (case v of None \<Rightarrow> [] | Some s \<Rightarrow> s)"

definition scan_log :: "log_row \<Rightarrow> LogRow" where
  "scan_log r = (let e = lr_event r; key = coalesce (lr_api_key_id r) in
     \<lparr>lw_RequestID = ev_RequestID e, lw_StartedAt = ev_StartedAt e, lw_APIKeyID = key, lw_APIKeyIDPreview = previewID key, lw_Model = ev_Model e,
      lw_Provider = ev_Provider e, lw_Status = ev_Status e, lw_LatencyMs = ev_LatencyMs e, lw_PromptTokens = ev_PromptTokens e,
      lw_CompletionTokens = ev_CompletionTokens e, lw_TotalTokens = lr_total_tokens r, lw_CostMicro = lr_total_micro r,
      lw_Currency = lr_currency r, lw_ErrorCode = coalesce (lr_error_code r), lw_Streamed = ev_Streamed e\<rparr>)"

text \<open>The range of statuses of a bucket.\<close>

definition bucket_range :: "string \<Rightarrow> (int \<Rightarrow> bool) option" where
  "bucket_range b =
     (if b = [] then Some (\<lambda>_. True)
      else if b = ''2xx'' then Some (\<lambda>st. 200 \<le> st \<and> st < 300)
      else if b = ''4xx'' then Some (\<lambda>st. 400 \<le> st \<and> st < 500)
      else if b = ''5xx'' then Some (\<lambda>st. 500 \<le> st \<and> st < 600)
      else None)"

text \<open>The \<open>WHERE\<close> clause; \<open>LIKE\<close> does not hold of \<open>NULL\<close>.\<close>

definition log_matches :: "LogQuery \<Rightarrow> (int \<Rightarrow> bool) \<Rightarrow> log_row \<Rightarrow> bool" where
  "log_matches q st r \<longleftrightarrow> lq_Start q \<le> ev_StartedAt (lr_event r) \<and> ev_StartedAt (lr_event r) < lq_End q \<and>
     (lq_APIKeyIDPrefix q = [] \<or> (case lr_api_key_id r of None \<Rightarrow> False | Some k \<Rightarrow> sql_like (lq_APIKeyIDPrefix q @ ''%'') k)) \<and>
     (lq_Model q = [] \<or> ev_Model (lr_event r) = lq_Model q) \<and> st (ev_Status (lr_event r))"

text \<open>The total is a column of the rows of the page, so an empty page leaves it at zero.\<close>

definition ListLogs :: "(LogQuery \<Rightarrow> log_row list \<Rightarrow> log_row list) \<Rightarrow> log_db option \<Rightarrow> goerr option \<Rightarrow> LogQuery \<Rightarrow> log_error + LogRow list \<times> int" where
  "ListLogs order pool db_err q =
     (if lq_Start q = zero_time \<or> lq_End q = zero_time \<or> \<not> lq_Start q < lq_End q then Inl ErrLogWindowInvalid
      else if time_sub (lq_End q) (lq_Start q) > maxLogWindow then Inl ErrLogWindowTooWide
      else case pool of None \<Rightarrow> Inl LogPoolNil
      | Some db \<Rightarrow>
          (let limit = (if lq_Limit q \<le> 0 \<or> lq_Limit q > 200 then 50 else lq_Limit q);
               offset = (if lq_Offset q < 0 then 0 else lq_Offset q)
           in case bucket_range (lq_StatusBucket q) of None \<Rightarrow> Inl (LogBucketInvalid (lq_StatusBucket q))
              | Some st \<Rightarrow> (case db_err of Some err \<Rightarrow> Inl (LogQueryErr err)
                | None \<Rightarrow>
                    (let matching = filter (log_matches q st) (db_rows db);
                         page = take (nat limit) (drop (nat offset) (order q matching))
                     in Inr (map scan_log page, if page = [] then 0 else int (length matching))))))"

definition newest_first :: "log_row \<Rightarrow> int" where
  "newest_first r = - ev_StartedAt (lr_event r)"

definition orders_rows :: "(LogQuery \<Rightarrow> log_row list \<Rightarrow> log_row list) \<Rightarrow> bool" where
  "orders_rows order \<longleftrightarrow> (\<forall>q rs. mset (order q rs) = mset rs \<and> sorted (map newest_first (order q rs)))"

section \<open>The handler\<close>

definition parseLogQuery :: "'k admin_deps \<Rightarrow> (string \<times> string list) list \<Rightarrow> mappedError + LogQuery" where
  "parseLogQuery deps query =
     (let q = query_get query
      in if q ''start'' = [] \<or> q ''end'' = [] then Inl (invalid ''missing_window'' ''Both 'start' and 'end' (RFC3339) are required'')
         else case ax_time deps (q ''start'') of
           None \<Rightarrow> Inl (invalid ''invalid_start'' ''Field 'start' must be RFC3339'')
         | Some start \<Rightarrow> (case ax_time deps (q ''end'') of
             None \<Rightarrow> Inl (invalid ''invalid_end'' ''Field 'end' must be RFC3339'')
           | Some stop \<Rightarrow> (case query_int (q ''limit'') 1 limit_err of
               Inl m \<Rightarrow> Inl m
             | Inr limit \<Rightarrow> (case query_int (q ''offset'') 0 offset_err of
                 Inl m \<Rightarrow> Inl m
               | Inr offset \<Rightarrow> Inr \<lparr>lq_Start = start, lq_End = stop, lq_APIKeyIDPrefix = q ''api_key'', lq_Model = q ''model'',
                   lq_StatusBucket = (if q ''status'' = ''all'' then [] else q ''status''), lq_Limit = limit, lq_Offset = offset\<rparr>))))"

definition logDTO_Marshal :: "'k admin_deps \<Rightarrow> LogRow \<Rightarrow> json" where
  "logDTO_Marshal deps r = JObj (members [
     (''request_id'', True, JStr (lw_RequestID r)), (''started_at'', True, ax_time_json deps (lw_StartedAt r)),
     (''api_key_id'', True, JStr (lw_APIKeyID r)), (''api_key_id_preview'', True, JStr (lw_APIKeyIDPreview r)),
     (''model'', True, JStr (lw_Model r)), (''provider'', True, JStr (lw_Provider r)), (''status'', True, JInt (lw_Status r)),
     (''latency_ms'', True, JInt (lw_LatencyMs r)), (''prompt_tokens'', True, JInt (lw_PromptTokens r)),
     (''completion_tokens'', True, JInt (lw_CompletionTokens r)), (''total_tokens'', True, JInt (lw_TotalTokens r)),
     (''cost_micro'', True, JInt (lw_CostMicro r)), (''currency'', True, JStr (lw_Currency r)),
     (''error_code'', lw_ErrorCode r \<noteq> [], JStr (lw_ErrorCode r)), (''streamed'', True, JBool (lw_Streamed r))])"

definition log_query_error :: "log_error \<Rightarrow> mappedError" where
  "log_query_error err = (case err of
     ErrLogWindowInvalid \<Rightarrow> invalid ''invalid_window'' ''billing: log window invalid (require start < end, both non-zero)''
   | ErrLogWindowTooWide \<Rightarrow> invalid ''window_too_wide'' ''Window must be <= 7d; narrow start/end and retry''
   | _ \<Rightarrow> internal ''Failed to query logs'')"

text \<open>The offset of the next page, or the sentinel for the last one.\<close>

definition nextOffset :: "int \<Rightarrow> int \<Rightarrow> int \<Rightarrow> int" where
  "nextOffset offset n all = (if offset + n \<ge> all then -1 else offset + n)"

definition adminLogsHandler ::
  "'k admin_deps \<Rightarrow> (LogQuery \<Rightarrow> log_row list \<Rightarrow> log_row list) \<Rightarrow> log_db option \<Rightarrow> goerr option \<Rightarrow> admin_call \<Rightarrow> 's handler" where
  "adminLogsHandler deps order pool db_err c r w s = (case parseLogQuery deps (cl_query c) of
     Inl m \<Rightarrow> (Returned, writeError m (rq_ReqID r) w, s)
   | Inr query \<Rightarrow> (case ListLogs order pool db_err query of
       Inl err \<Rightarrow> (Returned, writeError (log_query_error err) (rq_ReqID r) w, s)
     | Inr (rows, n) \<Rightarrow>
         let w1 = (if n > 100000 then set_header ''X-X-Beacon-Logs-Warn'' ''wide_window'' w else w)
         in (Returned, reply_json (JObj [(''items'', JArr (map (logDTO_Marshal deps) rows)),
               (''next_offset'', JInt (nextOffset (lq_Offset query) (int (length rows)) n)),
               (''object'', JStr ''list''), (''total'', JInt n)]) w1, s)))"

section \<open>Lemmas\<close>

text \<open>
  A status filter the query layer does not know is a bad request, but it is answered as a
  failure of the server.
\<close>

lemma unknown_bucket_is_500:
  assumes "parseLogQuery deps (cl_query c) = Inr query" "lq_StatusBucket query = ''3xx''"
    and "lq_Start query \<noteq> zero_time" "lq_End query \<noteq> zero_time" "lq_Start query < lq_End query"
    and "time_sub (lq_End query) (lq_Start query) \<le> maxLogWindow" "pool = Some db"
  shows "adminLogsHandler deps order pool db_err c r w s = (Returned, writeError (internal ''Failed to query logs'') (rq_ReqID r) w, s)"
  using assms by (simp add: adminLogsHandler_def ListLogs_def bucket_range_def log_query_error_def Let_def)

text \<open>A query the ledger answers, and all the rows it selects, newest first.\<close>

definition query_ok :: "LogQuery \<Rightarrow> bool" where
  "query_ok q \<longleftrightarrow> lq_Start q \<noteq> zero_time \<and> lq_End q \<noteq> zero_time \<and> lq_Start q < lq_End q \<and>
     time_sub (lq_End q) (lq_Start q) \<le> maxLogWindow \<and> bucket_range (lq_StatusBucket q) \<noteq> None"

definition matching_rows :: "log_db \<Rightarrow> LogQuery \<Rightarrow> log_row list" where
  "matching_rows db q = filter (log_matches q (the (bucket_range (lq_StatusBucket q)))) (db_rows db)"

definition selected :: "log_db \<Rightarrow> LogQuery \<Rightarrow> LogRow list" where
  "selected db q = map scan_log (sort_key newest_first (matching_rows db q))"

lemma matching_offset [simp]: "matching_rows db (q\<lparr>lq_Offset := x\<rparr>) = matching_rows db q"
proof -
  have "log_matches (q\<lparr>lq_Offset := x\<rparr>) = log_matches q" by (intro ext) (simp add: log_matches_def split: option.split)
  then show ?thesis by (simp add: matching_rows_def)
qed

lemma selected_offset [simp]: "selected db (q\<lparr>lq_Offset := x\<rparr>) = selected db q"
  by (simp add: selected_def)

lemma query_ok_offset [simp]: "query_ok (q\<lparr>lq_Offset := x\<rparr>) = query_ok q"
  by (simp add: query_ok_def)

text \<open>All the matches of a query, in the order the database has for it: the instants are those of the sorted rows.\<close>

definition ordered :: "(LogQuery \<Rightarrow> log_row list \<Rightarrow> log_row list) \<Rightarrow> log_db \<Rightarrow> LogQuery \<Rightarrow> LogRow list" where
  "ordered order db q = map scan_log (order q (matching_rows db q))"

lemma ordered_instants:
  assumes "orders_rows order"
  shows "map lw_StartedAt (ordered order db q) = map lw_StartedAt (selected db q)" "set (ordered order db q) = set (selected db q)"
    "length (ordered order db q) = length (selected db q)"
proof -
  let ?rs = "order q (matching_rows db q)"
  have o: "mset ?rs = mset (matching_rows db q)" "sorted (map newest_first ?rs)" using assms by (simp_all add: orders_rows_def)
  have "sort (map newest_first (matching_rows db q)) = map newest_first ?rs"
    using o by (intro properties_for_sort) (simp_all add: mset_map)
  moreover have "map newest_first (sort_key newest_first (matching_rows db q)) = sort (map newest_first (matching_rows db q))"
    by (rule properties_for_sort [symmetric]) (simp_all add: mset_map)
  ultimately have "map newest_first ?rs = map newest_first (sort_key newest_first (matching_rows db q))" by simp
  from arg_cong [OF this, where f = "map uminus"]
  show "map lw_StartedAt (ordered order db q) = map lw_StartedAt (selected db q)"
    by (simp add: ordered_def selected_def newest_first_def scan_log_def Let_def comp_def)
  show "set (ordered order db q) = set (selected db q)" "length (ordered order db q) = length (selected db q)"
    using mset_eq_setD [OF o(1)] mset_eq_length [OF o(1)] by (simp_all add: ordered_def selected_def)
qed

lemma ListLogs_page:
  assumes "orders_rows order" "query_ok q" "0 \<le> lq_Offset q"
  obtains limit where "0 < limit" "limit \<le> 200"
    "ListLogs order (Some db) None q = Inr (take limit (drop (nat (lq_Offset q)) (ordered order db q)),
       if nat (lq_Offset q) < length (selected db q) then int (length (selected db q)) else 0)"
proof -
  define limit where "limit = nat (if lq_Limit q \<le> 0 \<or> lq_Limit q > 200 then 50 else lq_Limit q)"
  have lim: "0 < limit" "limit \<le> 200" by (auto simp: limit_def)
  obtain st where st: "bucket_range (lq_StatusBucket q) = Some st" using assms(2) by (auto simp: query_ok_def)
  have len: "length (order q (filter (log_matches q st) (db_rows db))) = length (filter (log_matches q st) (db_rows db))"
    using assms(1) unfolding orders_rows_def by (metis size_mset)
  have "ListLogs order (Some db) None q = Inr (take limit (drop (nat (lq_Offset q)) (ordered order db q)),
      if nat (lq_Offset q) < length (selected db q) then int (length (selected db q)) else 0)"
    using assms lim(1) st len unfolding ListLogs_def query_ok_def selected_def ordered_def matching_rows_def Let_def limit_def [symmetric]
    by (auto simp: take_map drop_map limit_def)
  with lim show ?thesis by (rule that)
qed

section \<open>Following the pages\<close>

text \<open>A client that reads pages until \<open>next_offset\<close> is the sentinel, from a table that does not change meanwhile.\<close>

fun follow_pages :: "nat \<Rightarrow> (LogQuery \<Rightarrow> log_row list \<Rightarrow> log_row list) \<Rightarrow> log_db \<Rightarrow> LogQuery \<Rightarrow> LogRow list option" where
  "follow_pages 0 order db q = None"
| "follow_pages (Suc fuel) order db q = (case ListLogs order (Some db) None q of
     Inl _ \<Rightarrow> None
   | Inr (rows, all) \<Rightarrow>
       (let next = nextOffset (lq_Offset q) (int (length rows)) all
        in if next = -1 then Some rows else map_option ((@) rows) (follow_pages fuel order db (q\<lparr>lq_Offset := next\<rparr>))))"

lemma follow_from:
  assumes "orders_rows order" "query_ok q" "lq_Offset q = int n" "length (selected db q) - n < fuel"
  shows "\<exists>rows. follow_pages fuel order db q = Some rows \<and> map lw_StartedAt rows = drop n (map lw_StartedAt (selected db q)) \<and>
    set rows \<subseteq> set (selected db q)"
  using assms(2-4)
proof (induction fuel arbitrary: q n)
  case (Suc fuel)
  let ?M = "selected db q" and ?O = "ordered order db q"
  note O = ordered_instants [OF assms(1), of db q]
  obtain limit where lim: "0 < limit"
    and page: "ListLogs order (Some db) None q = Inr (take limit (drop n ?O), if n < length ?M then int (length ?M) else 0)"
    using ListLogs_page [OF assms(1), of q db] Suc.prems(1,2) by (metis nat_int of_nat_0_le_iff)
  have times: "map lw_StartedAt (take limit (drop n ?O)) = take limit (drop n (map lw_StartedAt ?M))"
    by (simp add: take_map [symmetric] drop_map [symmetric] O(1))
  have mem: "set (take limit (drop n ?O)) \<subseteq> set ?M"
    using O(2) by (metis set_drop_subset set_take_subset subset_trans)
  show ?case
  proof (cases "n + limit < length ?M")
    case True
    then have next': "nextOffset (lq_Offset q) (int (length (take limit (drop n ?O)))) (int (length ?M)) = int (n + limit)"
      using Suc.prems(2) O(3) by (simp add: nextOffset_def)
    obtain rows where rows: "follow_pages fuel order db (q\<lparr>lq_Offset := int (n + limit)\<rparr>) = Some rows"
      "map lw_StartedAt rows = drop (n + limit) (map lw_StartedAt ?M)" "set rows \<subseteq> set ?M"
    proof -
      have "length (selected db q) - (n + limit) < fuel" using Suc.prems(3) lim True by linarith
      then show thesis using Suc.IH [of "q\<lparr>lq_Offset := int (n + limit)\<rparr>" "n + limit"] Suc.prems(1) that by auto
    qed
    have "take limit (drop n (map lw_StartedAt ?M)) @ drop (n + limit) (map lw_StartedAt ?M) = drop n (map lw_StartedAt ?M)"
      by (metis append_take_drop_id drop_drop add.commute)
    with rows times mem True page next' show ?thesis by simp
  next
    case False
    then have "nextOffset (lq_Offset q) (int (length (take limit (drop n ?O)))) (if n < length ?M then int (length ?M) else 0) = -1"
      using Suc.prems(2) O(3) by (auto simp: nextOffset_def min_def)
    moreover have "take limit (drop n (map lw_StartedAt ?M)) = drop n (map lw_StartedAt ?M)" using False by simp
    ultimately show ?thesis using page times mem by simp
  qed
qed simp

text \<open>
  Where two matches have the same instant, the pages need not agree on their order.  A database
  that answers the second page with the tied rows the other way round shows one of two rows
  twice and the other never.
\<close>

definition demo_log :: "instant \<Rightarrow> int \<Rightarrow> log_row" where
  "demo_log started status = make_row None (demo_event\<lparr>ev_StartedAt := started, ev_Status := status\<rparr>)"

definition demo_query :: LogQuery where
  "demo_query = \<lparr>lq_Start = 0, lq_End = 100, lq_APIKeyIDPrefix = [], lq_Model = [], lq_StatusBucket = ''2xx'', lq_Limit = 1, lq_Offset = 0\<rparr>"

definition demo_order :: "LogQuery \<Rightarrow> log_row list \<Rightarrow> log_row list" where
  "demo_order q rs = sort_key newest_first (if lq_Offset q = 0 then rs else rev rs)"

lemma demo_order_orders: "orders_rows demo_order"
  by (simp add: orders_rows_def demo_order_def)

lemma tied_rows_repeated:
  "map_option (map lw_Status) (follow_pages 5 demo_order \<lparr>db_parts = [], db_rows = [demo_log 3 200, demo_log 3 201]\<rparr> demo_query) = Some [200, 200]"
  by code_simp

section \<open>Properties\<close>

text \<open>
  C36: Paging through the request ledger is complete.  For every window and filter the query
  accepts and every page size, and however the database orders rows of the same instant from page
  to page, a client that starts at offset 0 and follows \<open>next_offset\<close> through an unchanging ledger
  stops after finitely many pages, at most one more than there are rows, and has then read as
  many rows as match, all of them matches, with the instants of the matches, newest first.  When
  no two matches have the same instant, it has read every matching row exactly once.
\<close>

theorem log_pages_complete:
  assumes "orders_rows order" "query_ok q" "lq_Offset q = 0" "length (selected db q) < fuel"
  shows "\<exists>rows. follow_pages fuel order db q = Some rows \<and> length rows = length (selected db q) \<and> set rows \<subseteq> set (selected db q) \<and>
    map lw_StartedAt rows = map lw_StartedAt (selected db q) \<and>
    (distinct (map lw_StartedAt (selected db q)) \<longrightarrow> rows = selected db q)"
proof -
  obtain rows where rows: "follow_pages fuel order db q = Some rows" "map lw_StartedAt rows = map lw_StartedAt (selected db q)"
    "set rows \<subseteq> set (selected db q)" using follow_from [of order q 0 db fuel] assms by auto
  have "rows = selected db q" if "distinct (map lw_StartedAt (selected db q))"
  proof (rule map_inj_on [OF rows(2)])
    have "inj_on lw_StartedAt (set (selected db q))" using that by (simp add: distinct_map)
    then show "inj_on lw_StartedAt (set rows \<union> set (selected db q))" using rows(3) by (simp add: Un_absorb1)
  qed
  with rows show ?thesis using map_eq_imp_length_eq [OF rows(2)] by blast
qed

theorem log_pages_complete_witness:
  "map_option (map lw_StartedAt) (follow_pages 5 demo_order \<lparr>db_parts = [], db_rows = [demo_log 3 200, demo_log 7 200, demo_log 9 500, demo_log 100 200]\<rparr> demo_query) = Some [7, 3]"
proof -
  let ?db = "\<lparr>db_parts = [], db_rows = [demo_log 3 200, demo_log 7 200, demo_log 9 500, demo_log 100 200]\<rparr>"
  have sel: "map lw_StartedAt (selected ?db demo_query) = [7, 3]" by code_simp
  then have "length (selected ?db demo_query) < 5" by (auto dest: arg_cong [where f = length])
  moreover have "query_ok demo_query" "lq_Offset demo_query = 0" by code_simp+
  ultimately show ?thesis using log_pages_complete [OF demo_order_orders, of demo_query ?db 5] sel by auto
qed

end
