(* ===== verification/ChatStream.thy ===== *)
theory ChatStream
  imports Http Tokenizer "HOL-Library.Sublist"
begin

text \<open>
  The parts of \<open>internal/server/chat_stream.go\<close> that do not touch the gateway's state: what is
  accumulated over a stream, the response it is cached as, the loop that writes a stream to
  the client, and the replay of a cached response as a stream.
\<close>

section \<open>Accumulating a stream\<close>

text \<open>The field \<open>provider\<close> of the source is never assigned: it stays empty.\<close>

record streamStats =
  ss_provider :: string
  ss_id :: string
  ss_created :: int
  ss_model :: string
  ss_contentBuf :: string
  ss_finishReason :: string
  ss_promptUsage :: int
  ss_outputUsage :: int

definition streamStats0 :: streamStats where
  "streamStats0 = \<lparr>ss_provider = [], ss_id = [], ss_created = 0, ss_model = [], ss_contentBuf = [], ss_finishReason = [],
     ss_promptUsage = 0, ss_outputUsage = 0\<rparr>"

definition observe_choice :: "streamStats \<Rightarrow> StreamChoice \<Rightarrow> streamStats" where
  "observe_choice s ch =
     (let s1 = (if d_Content (sc_Delta ch) \<noteq> [] then s\<lparr>ss_contentBuf := ss_contentBuf s @ d_Content (sc_Delta ch)\<rparr> else s)
      in if sc_FinishReason ch \<noteq> [] then s1\<lparr>ss_finishReason := sc_FinishReason ch\<rparr> else s1)"

definition observe_usage :: "streamStats \<Rightarrow> Usage option \<Rightarrow> streamStats" where
  "observe_usage s usage = (case usage of None \<Rightarrow> s
     | Some u \<Rightarrow> let s1 = (if u_PromptTokens u > 0 then s\<lparr>ss_promptUsage := u_PromptTokens u\<rparr> else s)
                 in if u_CompletionTokens u > 0 then s1\<lparr>ss_outputUsage := u_CompletionTokens u\<rparr> else s1)"

definition observe :: "ChatStreamChunk \<Rightarrow> streamStats \<Rightarrow> streamStats" where
  "observe chunk s =
     (let s1 = (if k_ID chunk \<noteq> [] then s\<lparr>ss_id := k_ID chunk\<rparr> else s);
          s2 = (if k_Created chunk \<noteq> 0 then s1\<lparr>ss_created := k_Created chunk\<rparr> else s1);
          s3 = (if k_Model chunk \<noteq> [] then s2\<lparr>ss_model := k_Model chunk\<rparr> else s2);
          s4 = observe_usage s3 (k_Usage chunk)
      in foldl observe_choice s4 (k_Choices chunk))"

text \<open>\<open>now\<close> is the clock in seconds.\<close>

definition toCachedResponse :: "int \<Rightarrow> streamStats \<Rightarrow> ChatRequest \<Rightarrow> ChatResponse" where
  "toCachedResponse now s req =
     \<lparr>p_ID = (if ss_id s = [] then ''chatcmpl-stream'' else ss_id s), p_Object = ''chat.completion'',
      p_Created = (if ss_created s = 0 then now else ss_created s),
      p_Model = (if ss_model s = [] then r_Model req else ss_model s),
      p_Choices = [\<lparr>c_Index = 0, c_Message = Message0\<lparr>m_Role := ''assistant'', m_Content := ss_contentBuf s\<rparr>,
        c_FinishReason = ss_finishReason s, c_Extra = []\<rparr>],
      p_Usage = (if ss_promptUsage s > 0 \<or> ss_outputUsage s > 0
        then Some \<lparr>u_PromptTokens = ss_promptUsage s, u_CompletionTokens = ss_outputUsage s,
          u_TotalTokens = wrap64 (ss_promptUsage s + ss_outputUsage s), u_Extra = []\<rparr> else None),
      p_Provider = ss_provider s\<rparr>"

definition stream_tokenCounts :: "(string \<Rightarrow> nat option) \<Rightarrow> bool \<Rightarrow> streamStats \<Rightarrow> ChatRequest \<Rightarrow> int \<times> int" where
  "stream_tokenCounts encode tk s req = (if \<not> tk then (ss_promptUsage s, ss_outputUsage s)
     else let t = tokenizer_For (r_Model req)
          in (if ss_promptUsage s = 0 then CountMessages encode t (r_Messages req) else ss_promptUsage s,
              if ss_outputUsage s = 0 then CountText encode t (ss_contentBuf s) else ss_outputUsage s))"

section \<open>Writing a live stream\<close>

definition emitStreamError :: "goerr \<Rightarrow> string \<Rightarrow> resp_writer \<Rightarrow> resp_writer" where
  "emitStreamError err reqID w = snd (WriteData (errorEnvelope (mapProviderError err) reqID) w)"

record stream_progress =
  sp_w :: resp_writer
  sp_stats :: streamStats
  sp_status :: int
  sp_errCode :: string

text \<open>The loop over the events of the router's channel; encoding a chunk cannot fail.\<close>

fun stream_loop :: "string \<Rightarrow> StreamEvent list \<Rightarrow> stream_progress \<Rightarrow> stream_progress" where
  "stream_loop reqID [] p = p"
| "stream_loop reqID (EvErr e # evs) p =
     (let m = mapProviderError e
      in p\<lparr>sp_status := me_Status m, sp_errCode := me_Code m, sp_w := emitStreamError e reqID (sp_w p)\<rparr>)"
| "stream_loop reqID (EvChunk c # evs) p =
     (let stats = observe c (sp_stats p)
      in case WriteData (ChatStreamChunk_Marshal c) (sp_w p) of (ok, w') \<Rightarrow>
           if ok then stream_loop reqID evs (p\<lparr>sp_stats := stats, sp_w := w'\<rparr>) else p\<lparr>sp_stats := stats, sp_w := w'\<rparr>)"

section \<open>Replaying a cached response\<close>

function pieces :: "nat \<Rightarrow> 'a list \<Rightarrow> 'a list list" where
  "pieces n xs = (if n = 0 \<or> xs = [] then [] else take n xs # pieces n (drop n xs))"
  by pat_completeness auto
termination
  by (relation "measure (\<lambda>(n, xs). length xs)") auto

declare pieces.simps [simp del]

definition replayChunkRunes :: nat where
  "replayChunkRunes = 32"

definition replay_chunk :: "string \<Rightarrow> int \<Rightarrow> string \<Rightarrow> StreamChoice list \<Rightarrow> Usage option \<Rightarrow> ChatStreamChunk" where
  "replay_chunk rid created model choices usage =
     \<lparr>k_ID = rid, k_Object = ''chat.completion.chunk'', k_Created = created, k_Model = model, k_Choices = choices, k_Usage = usage\<rparr>"

definition delta_choice :: "int \<Rightarrow> string \<Rightarrow> string \<Rightarrow> string \<Rightarrow> StreamChoice" where
  "delta_choice i role content finish = \<lparr>sc_Index = i, sc_Delta = \<lparr>d_Role = role, d_Content = content, d_Extra = []\<rparr>, sc_FinishReason = finish\<rparr>"

text \<open>The chunks of a replay, in the order they are written.\<close>

definition replay_chunks :: "int \<Rightarrow> string \<Rightarrow> ChatResponse \<Rightarrow> ChatStreamChunk list" where
  "replay_chunks now reqID cached =
     (let rid = (if p_ID cached = [] then ''chatcmpl-cache-'' @ reqID else p_ID cached);
          created = (if p_Created cached = 0 then now else p_Created cached);
          chunk = replay_chunk rid created (p_Model cached)
      in [chunk (map (\<lambda>ch. delta_choice (c_Index ch) ''assistant'' [] []) (p_Choices cached)) None] @
         concat (map (\<lambda>ch. map (\<lambda>piece. chunk [delta_choice (c_Index ch) [] (concat piece) []] None)
           (pieces replayChunkRunes (runes (m_Content (c_Message ch))))) (p_Choices cached)) @
         [chunk (map (\<lambda>ch. delta_choice (c_Index ch) [] [] (if c_FinishReason ch = [] then ''stop'' else c_FinishReason ch)) (p_Choices cached))
            (p_Usage cached)])"

text \<open>Each chunk is written in turn; the first write that fails ends the replay.\<close>

fun write_chunks :: "ChatStreamChunk list \<Rightarrow> resp_writer \<Rightarrow> bool \<times> resp_writer" where
  "write_chunks [] w = (True, w)"
| "write_chunks (c # cs) w = (case WriteData (ChatStreamChunk_Marshal c) w of (ok, w') \<Rightarrow> if ok then write_chunks cs w' else (False, w'))"

definition replayCachedStream :: "int \<Rightarrow> string \<Rightarrow> ChatResponse \<Rightarrow> resp_writer \<Rightarrow> resp_writer" where
  "replayCachedStream now reqID cached w = (case write_chunks (replay_chunks now reqID cached) w of
     (ok, w') \<Rightarrow> if ok then snd (WriteDone w') else w')"

section \<open>Lemmas: runes and pieces\<close>

lemma concat_pieces: "0 < n \<Longrightarrow> concat (pieces n xs) = xs"
  by (induction n xs rule: pieces.induct) (subst pieces.simps, simp)

lemma concat_map_concat: "concat (map concat xss) = concat (concat xss)"
  by (induction xss) simp_all

lemma pieces_text: "concat (map concat (pieces replayChunkRunes (runes s))) = to_valid_utf8 s"
  by (simp add: concat_map_concat concat_pieces replayChunkRunes_def to_valid_utf8_def)

section \<open>Lemmas: what is observed\<close>

lemma foldl_observe_choice:
  "ss_contentBuf (foldl observe_choice s chs) = ss_contentBuf s @ concat (map (\<lambda>ch. d_Content (sc_Delta ch)) chs)"
  by (induction chs arbitrary: s) (auto simp: observe_choice_def Let_def)

lemma foldl_observe_choice_frame:
  "ss_id (foldl observe_choice s chs) = ss_id s" "ss_created (foldl observe_choice s chs) = ss_created s"
  "ss_model (foldl observe_choice s chs) = ss_model s" "ss_provider (foldl observe_choice s chs) = ss_provider s"
  "ss_promptUsage (foldl observe_choice s chs) = ss_promptUsage s" "ss_outputUsage (foldl observe_choice s chs) = ss_outputUsage s"
  by (induction chs arbitrary: s) (auto simp: observe_choice_def Let_def)

lemma observe_provider: "ss_provider (observe c s) = ss_provider s"
  by (simp add: observe_def Let_def foldl_observe_choice_frame observe_usage_def split: option.splits)

lemma stream_loop_provider: "ss_provider (sp_stats (stream_loop reqID evs p)) = ss_provider (sp_stats p)"
  by (induction reqID evs p rule: stream_loop.induct) (auto simp: Let_def observe_provider split: prod.splits)

section \<open>Collecting a replay\<close>

abbreviation collect :: "streamStats \<Rightarrow> ChatStreamChunk list \<Rightarrow> streamStats" where
  "collect s cs \<equiv> foldl (\<lambda>s c. observe c s) s cs"

lemma observe_replayed:
  assumes "i \<noteq> []" "t \<noteq> 0" "m \<noteq> []"
  shows "observe (replay_chunk i t m [delta_choice k role text0 fin] u) s =
    (observe_usage s u)\<lparr>ss_id := i, ss_created := t, ss_model := m, ss_contentBuf := ss_contentBuf s @ text0,
      ss_finishReason := (if fin \<noteq> [] then fin else ss_finishReason s)\<rparr>"
  using assms
  by (cases s; cases u) (simp_all add: observe_def replay_chunk_def delta_choice_def observe_choice_def observe_usage_def Let_def)

lemma collect_pieces:
  assumes "i \<noteq> []" "t \<noteq> 0" "m \<noteq> []"
  shows "collect (s\<lparr>ss_id := i, ss_created := t, ss_model := m\<rparr>) (map (\<lambda>piece. replay_chunk i t m [delta_choice k [] (concat piece) []] None) ps) =
    s\<lparr>ss_id := i, ss_created := t, ss_model := m, ss_contentBuf := ss_contentBuf s @ concat (map concat ps)\<rparr>"
proof (induction ps arbitrary: s)
  case (Cons p ps)
  from Cons.IH [of "s\<lparr>ss_contentBuf := ss_contentBuf s @ concat p\<rparr>"] show ?case
    by (cases s) (simp add: observe_replayed [OF assms] observe_usage_def)
qed simp

text \<open>
  A response of the shape the gateway caches from a stream: one choice with index 0, an assistant
  message of valid UTF-8 text and nothing else, a finish reason, no members beyond the known
  ones, and, if it has usage, counts that are not both zero and add up to the total.
\<close>

definition plain_answer :: "ChatResponse \<Rightarrow> bool" where
  "plain_answer p \<longleftrightarrow> p_ID p \<noteq> [] \<and> p_Object p = ''chat.completion'' \<and> p_Created p \<noteq> 0 \<and> p_Model p \<noteq> [] \<and>
     (\<exists>text0 fin. valid_utf8 text0 \<and> fin \<noteq> [] \<and> p_Choices p = [\<lparr>c_Index = 0, c_Message = Message0\<lparr>m_Role := ''assistant'', m_Content := text0\<rparr>,
        c_FinishReason = fin, c_Extra = []\<rparr>]) \<and>
     (case p_Usage p of None \<Rightarrow> True
      | Some u \<Rightarrow> u_PromptTokens u \<ge> 0 \<and> u_CompletionTokens u \<ge> 0 \<and> u_PromptTokens u + u_CompletionTokens u > 0 \<and>
          u_TotalTokens u = wrap64 (u_PromptTokens u + u_CompletionTokens u) \<and> u_Extra u = [])"

lemma replay_collected:
  assumes "plain_answer p"
  shows "toCachedResponse now' (collect streamStats0 (replay_chunks now reqID p)) req = p\<lparr>p_Provider := []\<rparr>"
proof -
  obtain text0 fin where ch: "valid_utf8 text0" "fin \<noteq> []" "p_Choices p = [\<lparr>c_Index = 0, c_Message = Message0\<lparr>m_Role := ''assistant'', m_Content := text0\<rparr>,
        c_FinishReason = fin, c_Extra = []\<rparr>]"
    and h: "p_ID p \<noteq> []" "p_Created p \<noteq> 0" "p_Model p \<noteq> []" "p_Object p = ''chat.completion''"
    using assms by (auto simp: plain_answer_def)
  note obs = observe_replayed [OF h(1-3)]
  have "collect streamStats0 (replay_chunks now reqID p) =
      (observe_usage streamStats0 (p_Usage p))\<lparr>ss_id := p_ID p, ss_created := p_Created p, ss_model := p_Model p,
        ss_contentBuf := text0, ss_finishReason := fin\<rparr>"
    using collect_pieces [OF h(1-3), of streamStats0 0 "pieces replayChunkRunes (runes text0)"]
    by (cases "p_Usage p") (simp_all add: replay_chunks_def Let_def h ch obs observe_usage_def streamStats0_def pieces_text to_valid_id)
  then show ?thesis using assms h ch
    by (cases p; cases "p_Usage p")
       (auto simp: toCachedResponse_def plain_answer_def observe_usage_def streamStats0_def Let_def intro: Usage.equality)
qed

section \<open>What a replay says of each choice\<close>

text \<open>
  What a client puts together from the chunks of a stream, choice by choice: the text, the roles
  and the finish reasons it was sent for an index.
\<close>

definition deltas :: "int \<Rightarrow> ChatStreamChunk list \<Rightarrow> StreamChoice list" where
  "deltas i cs = filter (\<lambda>ch. sc_Index ch = i) (concat (map k_Choices cs))"

definition client_text :: "int \<Rightarrow> ChatStreamChunk list \<Rightarrow> string" where
  "client_text i cs = concat (map (\<lambda>ch. d_Content (sc_Delta ch)) (deltas i cs))"

definition client_roles :: "int \<Rightarrow> ChatStreamChunk list \<Rightarrow> string list" where
  "client_roles i cs = filter (\<lambda>r. r \<noteq> []) (map (\<lambda>ch. d_Role (sc_Delta ch)) (deltas i cs))"

definition client_finish :: "int \<Rightarrow> ChatStreamChunk list \<Rightarrow> string list" where
  "client_finish i cs = filter (\<lambda>f. f \<noteq> []) (map sc_FinishReason (deltas i cs))"

definition choices_at :: "int \<Rightarrow> ChatResponse \<Rightarrow> Choice list" where
  "choices_at i p = filter (\<lambda>ch. c_Index ch = i) (p_Choices p)"

definition finish_or_stop :: "Choice \<Rightarrow> string" where
  "finish_or_stop ch = (if c_FinishReason ch = [] then ''stop'' else c_FinishReason ch)"

lemma finish_or_stop_nonempty [simp]: "finish_or_stop ch \<noteq> []"
  by (simp add: finish_or_stop_def)

lemma concat_map_nil [simp]: "concat (map (\<lambda>_. []) xs) = []"
  by (induction xs) simp_all

lemma delta_choice_sel [simp]: "sc_Index (delta_choice i role t f) = i" "d_Role (sc_Delta (delta_choice i role t f)) = role"
  "d_Content (sc_Delta (delta_choice i role t f)) = t" "sc_FinishReason (delta_choice i role t f) = f"
  by (simp_all add: delta_choice_def)

lemma replay_chunk_sel [simp]: "k_ID (replay_chunk i t m cs u) = i" "k_Object (replay_chunk i t m cs u) = ''chat.completion.chunk''"
  "k_Created (replay_chunk i t m cs u) = t" "k_Model (replay_chunk i t m cs u) = m" "k_Choices (replay_chunk i t m cs u) = cs"
  "k_Usage (replay_chunk i t m cs u) = u"
  by (simp_all add: replay_chunk_def)

text \<open>The deltas of a replay for an index: the openers, the pieces of each text, the closers.\<close>

lemma deltas_replay:
  "deltas i (replay_chunks now reqID p) = map (\<lambda>ch. delta_choice i ''assistant'' [] []) (choices_at i p) @
     concat (map (\<lambda>ch. map (\<lambda>piece. delta_choice i [] (concat piece) []) (pieces replayChunkRunes (runes (m_Content (c_Message ch))))) (choices_at i p)) @
     map (\<lambda>ch. delta_choice i [] [] (finish_or_stop ch)) (choices_at i p)"
proof -
  have "filter (\<lambda>x. sc_Index x = i) (map (\<lambda>ch. delta_choice (c_Index ch) role t (f ch)) chs) =
      map (\<lambda>ch. delta_choice i role t (f ch)) (filter (\<lambda>ch. c_Index ch = i) chs)" for role t f and chs :: "Choice list"
    by (induction chs) auto
  moreover have "filter (\<lambda>x. sc_Index x = i) (concat (map (\<lambda>ch. map (\<lambda>piece. delta_choice (c_Index ch) [] (concat piece) []) (g ch)) chs)) =
      concat (map (\<lambda>ch. map (\<lambda>piece. delta_choice i [] (concat piece) []) (g ch)) (filter (\<lambda>ch. c_Index ch = i) chs))"
    for g :: "Choice \<Rightarrow> string list list" and chs :: "Choice list" by (induction chs) (auto simp: filter_map comp_def)
  moreover have "concat (map k_Choices (concat (map (\<lambda>ch. map (\<lambda>x. replay_chunk a b c [h ch x] None) (g ch)) chs))) =
      concat (map (\<lambda>ch. map (h ch) (g ch)) chs)" for a b c h and g :: "Choice \<Rightarrow> string list list" and chs :: "Choice list"
    by (induction chs) (simp_all add: comp_def map_concat)
  ultimately show ?thesis
    by (simp add: deltas_def replay_chunks_def Let_def choices_at_def finish_or_stop_def [abs_def])
qed

lemma client_text_replay: "client_text i (replay_chunks now reqID p) = concat (map (\<lambda>ch. to_valid_utf8 (m_Content (c_Message ch))) (choices_at i p))"
proof -
  have "concat (map (\<lambda>x. d_Content (sc_Delta x)) (concat (map (\<lambda>ch. map (\<lambda>piece. delta_choice i [] (concat piece) [])
      (pieces replayChunkRunes (runes (m_Content (c_Message ch))))) chs))) = concat (map (\<lambda>ch. to_valid_utf8 (m_Content (c_Message ch))) chs)" for chs :: "Choice list"
    by (induction chs) (simp_all add: comp_def pieces_text)
  then show ?thesis by (simp add: client_text_def deltas_replay comp_def)
qed

lemma client_roles_replay: "client_roles i (replay_chunks now reqID p) = map (\<lambda>_. ''assistant'') (choices_at i p)"
  and client_finish_replay: "client_finish i (replay_chunks now reqID p) = map finish_or_stop (choices_at i p)"
  by (auto simp: client_roles_def client_finish_def deltas_replay comp_def filter_concat filter_map intro: filter_True)

text \<open>All chunks carry the same id, time and model; only the last one carries the usage.\<close>

lemma replay_heads:
  "c \<in> set (replay_chunks now reqID p) \<Longrightarrow> k_ID c = (if p_ID p = [] then ''chatcmpl-cache-'' @ reqID else p_ID p) \<and>
     k_Object c = ''chat.completion.chunk'' \<and> k_Created c = (if p_Created p = 0 then now else p_Created p) \<and> k_Model c = p_Model p"
  by (auto simp: replay_chunks_def Let_def)

lemma replay_usage: "\<exists>n. map k_Usage (replay_chunks now reqID p) = replicate n None @ [p_Usage p]"
proof -
  let ?cs = "replay_chunks now reqID p"
  have "map k_Usage ?cs = map k_Usage (butlast ?cs) @ [p_Usage p]" and "\<forall>c \<in> set (butlast ?cs). k_Usage c = None"
    by (auto simp: replay_chunks_def Let_def butlast_append)
  then show ?thesis by (metis (no_types, lifting) map_replicate_const map_cong)
qed

text \<open>The roles come before everything else, and the finish reasons after it.\<close>

lemma replay_order:
  "\<forall>x \<in> set (concat (map k_Choices (tl (replay_chunks now reqID p)))). d_Role (sc_Delta x) = []"
  "\<forall>x \<in> set (concat (map k_Choices (butlast (replay_chunks now reqID p)))). sc_FinishReason x = []"
  by (auto simp: replay_chunks_def Let_def butlast_append)

section \<open>What reaches the client\<close>

text \<open>The chunks before the first error of a stream, and that error.\<close>

fun leading_chunks :: "StreamEvent list \<Rightarrow> ChatStreamChunk list" where
  "leading_chunks (EvChunk c # evs) = c # leading_chunks evs"
| "leading_chunks _ = []"

fun first_error :: "StreamEvent list \<Rightarrow> goerr option" where
  "first_error [] = None"
| "first_error (EvChunk c # evs) = first_error evs"
| "first_error (EvErr e # evs) = Some e"

lemma stream_loop_status:
  "rw_status (sp_w (stream_loop reqID evs p)) = (if evs = [] then rw_status (sp_w p) else case rw_status (sp_w p) of None \<Rightarrow> Some 200 | Some s \<Rightarrow> Some s)"
  "sp_status (stream_loop reqID evs p) \<in> {sp_status p, 400, 429, 500, 502, 503, 504}"
  "sp_status (stream_loop reqID evs p) \<noteq> sp_status p \<Longrightarrow> evs \<noteq> []"
proof (induction reqID evs p rule: stream_loop.induct)
  case (2 reqID e evs p)
  { case 1 show ?case by (simp add: Let_def emitStreamError_def WriteData_def) }
  { case 2 show ?case using mapProviderError_status [of e] by (auto simp: Let_def) }
  { case 3 show ?case by simp }
next
  case (3 reqID c evs p)
  obtain ok w where wd: "WriteData (ChatStreamChunk_Marshal c) (sp_w p) = (ok, w)" by force
  have st: "rw_status w = (case rw_status (sp_w p) of None \<Rightarrow> Some 200 | Some s \<Rightarrow> Some s)"
  proof -
    have "w = snd (WriteData (ChatStreamChunk_Marshal c) (sp_w p))" by (simp add: wd)
    then show ?thesis by (simp add: WriteData_def)
  qed
  { case 1 show ?case using "3.IH"(1) [OF refl wd [symmetric]] st wd by (auto simp: Let_def split: option.splits) }
  { case 2 show ?case using "3.IH"(2) [OF refl wd [symmetric]] wd by (auto simp: Let_def) }
  { case 3 show ?case by simp }
qed simp_all

lemma stream_loop_writes:
  assumes "\<And>i. rw_writes (sp_w p) i"
  shows "rw_body (sp_w (stream_loop reqID evs p)) = rw_body (sp_w p) @ map (\<lambda>c. BData (ChatStreamChunk_Marshal c)) (leading_chunks evs) @
      (case first_error evs of None \<Rightarrow> [] | Some e \<Rightarrow> [BData (errorEnvelope (mapProviderError e) reqID)]) \<and>
    rw_writes (sp_w (stream_loop reqID evs p)) = rw_writes (sp_w p) \<and>
    sp_stats (stream_loop reqID evs p) = collect (sp_stats p) (leading_chunks evs) \<and>
    sp_status (stream_loop reqID evs p) = (case first_error evs of None \<Rightarrow> sp_status p | Some e \<Rightarrow> me_Status (mapProviderError e))"
  using assms
proof (induction reqID evs p rule: stream_loop.induct)
  case (2 reqID e evs p)
  then show ?case by (simp add: Let_def emitStreamError_def WriteData_def write_part_body)
next
  case (3 reqID c evs p)
  obtain ok w where wd: "WriteData (ChatStreamChunk_Marshal c) (sp_w p) = (ok, w)" by force
  then have w: "ok" "rw_writes w = rw_writes (sp_w p)" "rw_body w = rw_body (sp_w p) @ [BData (ChatStreamChunk_Marshal c)]"
    using 3(2) by (auto simp: WriteData_def write_part_def Let_def split: if_splits)
  show ?case using "3.IH" [OF refl wd [symmetric]] w wd 3(2) by (simp add: Let_def split: option.splits)
qed simp

lemma WriteData_status: "rw_status (snd (WriteData j w)) = (case rw_status w of None \<Rightarrow> Some 200 | Some s \<Rightarrow> Some s)"
  by (simp add: WriteData_def)

lemma write_chunks_status:
  "rw_status (snd (write_chunks cs w)) = (if cs = [] then rw_status w else case rw_status w of None \<Rightarrow> Some 200 | Some s \<Rightarrow> Some s)"
proof (induction cs arbitrary: w)
  case (Cons c cs)
  then show ?case using WriteData_status [of "ChatStreamChunk_Marshal c" w] by (auto split: prod.splits option.splits)
qed simp

lemma replay_status:
  assumes "rw_status w = None"
  shows "rw_status (replayCachedStream now reqID p w) = Some 200"
proof -
  have ne: "replay_chunks now reqID p \<noteq> []" by (simp add: replay_chunks_def Let_def)
  obtain ok w1 where w1: "write_chunks (replay_chunks now reqID p) w = (ok, w1)" by force
  then have "rw_status w1 = Some 200" using write_chunks_status [of "replay_chunks now reqID p" w] ne assms by simp
  with w1 show ?thesis by (simp add: replayCachedStream_def WriteDone_def)
qed

lemma write_chunks_all:
  assumes "\<And>i. rw_writes w i"
  shows "fst (write_chunks cs w) \<and> rw_writes (snd (write_chunks cs w)) = rw_writes w \<and>
    rw_body (snd (write_chunks cs w)) = rw_body w @ map (\<lambda>c. BData (ChatStreamChunk_Marshal c)) cs"
  using assms
proof (induction cs arbitrary: w)
  case (Cons c cs)
  obtain ok w1 where wd: "WriteData (ChatStreamChunk_Marshal c) w = (ok, w1)" by force
  then have "ok" "rw_writes w1 = rw_writes w" "rw_body w1 = rw_body w @ [BData (ChatStreamChunk_Marshal c)]"
    using Cons.prems by (auto simp: WriteData_def write_part_def Let_def split: if_splits)
  with Cons wd show ?case by simp
qed simp

end
