(* ===== verification/Router.thy ===== *)
theory Router
  imports Registry Policy Breaker
begin

text \<open>
  \<open>internal/router/router.go\<close>: retry, fail-over and circuit breaking around the provider
  calls.  Everything the router does not compute itself is a field of \<open>router_env\<close>: the
  clocks, the sleep, the random source, the provider calls and the context.  The state
  threads the breaker pool, the world those operations act on, and the log of the spans,
  log lines, metrics and breaker callbacks the router emits, in order.

  A stream is the list of events its channel will carry; a channel that closes without an
  event is the empty list.  The forwarding goroutine is \<open>forwardStream\<close>, run on the stream
  a successful attempt hands back.
\<close>

section \<open>Environment and state\<close>

record ('b, 'tok, 'w) router_env =
  re_gb :: "('b, 'tok) gobreaker"
  re_wall :: "'w \<Rightarrow> instant \<times> 'w"
  re_now :: "'w \<Rightarrow> instant \<times> 'w"
  re_sleep :: "duration \<Rightarrow> 'w \<Rightarrow> goerr option \<times> 'w"
  re_random :: "'w \<Rightarrow> rat \<times> 'w"
  re_call :: "Provider \<Rightarrow> ChatRequest \<Rightarrow> 'w \<Rightarrow> (goerr + ChatResponse) \<times> 'w"
  re_stream :: "Provider \<Rightarrow> ChatRequest \<Rightarrow> 'w \<Rightarrow> (goerr + StreamEvent list) \<times> 'w"
  re_peek :: "'w \<Rightarrow> goerr option \<times> 'w"

text \<open>
  \<open>LSleep\<close> carries what the time budget was checked against: the elapsed time, when the
  policy has a budget, and the delay.
\<close>

datatype router_event =
    LRejected string goerr
  | LCall string
  | LDone string "goerr option"
  | LBudget string
  | LSleep "duration option" duration
  | LAbandoned
  | LFailover string string

record ('b, 'w) rstate =
  rs_pool :: "'b breakerPool"
  rs_world :: 'w
  rs_log :: "router_event list"

definition emit :: "router_event \<Rightarrow> ('b, 'w) rstate \<Rightarrow> ('b, 'w) rstate" where
  "emit ev s = s\<lparr>rs_log := rs_log s @ [ev]\<rparr>"

definition with_world :: "('w \<Rightarrow> 'a \<times> 'w) \<Rightarrow> ('b, 'w) rstate \<Rightarrow> 'a \<times> ('b, 'w) rstate" where
  "with_world f s = (case f (rs_world s) of (x, w) \<Rightarrow> (x, s\<lparr>rs_world := w\<rparr>))"

text \<open>\<open>r.breakers.allow(name)\<close> and the \<open>done\<close> callback; the library reads the wall clock.\<close>

definition r_allow ::
    "('b, 'tok, 'w) router_env \<Rightarrow> string \<Rightarrow> ('b, 'w) rstate \<Rightarrow> (goerr + 'tok) \<times> ('b, 'w) rstate" where
  "r_allow env name s = (case with_world (re_wall env) s of (t, s1) \<Rightarrow>
     (case pool_allow (re_gb env) t name (rs_pool s1) of (r, p) \<Rightarrow> (r, s1\<lparr>rs_pool := p\<rparr>)))"

definition r_done ::
    "('b, 'tok, 'w) router_env \<Rightarrow> string \<Rightarrow> 'tok \<Rightarrow> goerr option \<Rightarrow> ('b, 'w) rstate \<Rightarrow> ('b, 'w) rstate" where
  "r_done env name tok obs s = (case with_world (re_wall env) s of (t, s1) \<Rightarrow>
     emit (LDone name obs) (s1\<lparr>rs_pool := pool_done (re_gb env) t name tok obs (rs_pool s1)\<rparr>))"

definition extractRetryAfter :: "goerr \<Rightarrow> duration" where
  "extractRetryAfter err = (case as_UpstreamError err of Some ue \<Rightarrow> ue_RetryAfter ue | None \<Rightarrow> 0)"

section \<open>One attempt\<close>

text \<open>
  An attempt fails with \<open>(True, e)\<close> when the loop must not retry because the breaker
  refused the permit, and with \<open>(False, e)\<close> when the provider call failed with \<open>e\<close>.
  \<open>attemptOnce\<close> is the body of the loop of \<open>tryProvider\<close> up to the retry decision.
\<close>

definition attemptOnce ::
    "('b, 'tok, 'w) router_env \<Rightarrow> Provider \<Rightarrow> ChatRequest \<Rightarrow> ('b, 'w) rstate \<Rightarrow>
     (bool \<times> goerr + ChatResponse) \<times> ('b, 'w) rstate" where
  "attemptOnce env p req s = (case r_allow env (Name p) s of
     (Inl gateErr, s1) \<Rightarrow> (Inl (True, gateErr), emit (LRejected (Name p) gateErr) s1)
   | (Inr tok, s1) \<Rightarrow>
       (case with_world (re_call env p req) (emit (LCall (Name p)) s1) of
          (Inr resp, s2) \<Rightarrow> (Inr resp, r_done env (Name p) tok (breakerObservation None) s2)
        | (Inl callErr, s2) \<Rightarrow>
            (Inl (False, callErr), r_done env (Name p) tok (breakerObservation (Some callErr)) s2)))"

text \<open>
  What a committed stream attempt returns: the peeked chunk, the rest of the provider's
  channel, and the permit the forwarder will hand back.
\<close>

record 'tok stream =
  st_provider :: string
  st_first :: ChatStreamChunk
  st_rest :: "StreamEvent list"
  st_tok :: 'tok

definition streamAttemptOnce ::
    "('b, 'tok, 'w) router_env \<Rightarrow> Provider \<Rightarrow> ChatRequest \<Rightarrow> ('b, 'w) rstate \<Rightarrow>
     (goerr + 'tok stream) \<times> ('b, 'w) rstate" where
  "streamAttemptOnce env p req s = (case r_allow env (Name p) s of
     (Inl gateErr, s1) \<Rightarrow> (Inl gateErr, emit (LRejected (Name p) gateErr) s1)
   | (Inr tok, s1) \<Rightarrow>
       (case with_world (re_stream env p req) (emit (LCall (Name p)) s1) of
          (Inl callErr, s2) \<Rightarrow>
            (Inl callErr, r_done env (Name p) tok (breakerObservation (Some callErr)) s2)
        | (Inr ch, s2) \<Rightarrow>
            (case with_world (re_peek env) s2 of
               (Some ctxErr, s3) \<Rightarrow> (Inl ctxErr, r_done env (Name p) tok None s3)
             | (None, s3) \<Rightarrow>
                 (case ch of
                    [] \<Rightarrow>
                      (let ue = UpstreamErr (NewUpstreamError (Name p) ErrUpstream 0
                                  ''stream closed before first event'')
                       in (Inl ue, r_done env (Name p) tok (breakerObservation (Some ue)) s3))
                  | EvErr e # _ \<Rightarrow> (Inl e, r_done env (Name p) tok (breakerObservation (Some e)) s3)
                  | EvChunk c # rest \<Rightarrow>
                      (Inr \<lparr>st_provider = Name p, st_first = c, st_rest = rest, st_tok = tok\<rparr>, s3)))))"

section \<open>Retries of one provider\<close>

text \<open>
  The retry decision after a failed attempt, shared by the loops of \<open>tryProvider\<close> and
  \<open>tryProviderStream\<close>: the delay, the time budget, the sleep.  \<open>None\<close> means the loop goes
  on; \<open>Some e\<close> is the error it ends with.
\<close>

definition before_retry ::
    "('b, 'tok, 'w) router_env \<Rightarrow> RetryPolicy \<Rightarrow> string \<Rightarrow> instant \<Rightarrow> int \<Rightarrow> goerr \<Rightarrow> ('b, 'w) rstate \<Rightarrow>
     goerr option \<times> ('b, 'w) rstate" where
  "before_retry env pol pname start attempt callErr s =
     (case with_world (re_random env) s of (rnd, s1) \<Rightarrow>
      (let delay = backoffDuration pol (attempt + 1) (extractRetryAfter callErr) rnd in
       if MaxTotal pol > 0 then
         (case with_world (re_now env) s1 of (now, s2) \<Rightarrow>
          (let elapsed = time_sub now start in
           if wrap64 (elapsed + delay) > MaxTotal pol then (Some callErr, emit (LBudget pname) s2)
           else with_world (re_sleep env delay) (emit (LSleep (Some elapsed) delay) s2)))
       else with_world (re_sleep env delay) (emit (LSleep None delay) s1)))"

function retry_loop ::
    "('b, 'tok, 'w) router_env \<Rightarrow> RetryPolicy \<Rightarrow> string \<Rightarrow> instant \<Rightarrow>
     (('b, 'w) rstate \<Rightarrow> (bool \<times> goerr + 'a) \<times> ('b, 'w) rstate) \<Rightarrow> int \<Rightarrow> ('b, 'w) rstate \<Rightarrow>
     (goerr + 'a) \<times> ('b, 'w) rstate" where
  "retry_loop env pol pname start once attempt s = (case once s of
     (Inr x, s1) \<Rightarrow> (Inr x, s1)
   | (Inl (gate, e), s1) \<Rightarrow>
       (if gate then (Inl e, s1)
        else if \<not> IsRetryable e then (Inl e, s1)
        else if attempt \<ge> MaxRetries pol then (Inl e, s1)
        else (case before_retry env pol pname start attempt e s1 of
                (Some e', s2) \<Rightarrow> (Inl e', s2)
              | (None, s2) \<Rightarrow> retry_loop env pol pname start once (attempt + 1) s2)))"
  by pat_completeness auto
termination
  by (relation "measure (\<lambda>(env, pol, pname, start, once, attempt, s). nat (MaxRetries pol - attempt))") auto

declare retry_loop.simps [simp del]

definition tryProvider ::
    "('b, 'tok, 'w) router_env \<Rightarrow> RetryPolicy \<Rightarrow> Provider \<Rightarrow> ChatRequest \<Rightarrow> instant \<Rightarrow> ('b, 'w) rstate \<Rightarrow>
     (goerr + ChatResponse) \<times> ('b, 'w) rstate" where
  "tryProvider env pol p req start s =
     retry_loop env pol (Name p) start (attemptOnce env p req) 0 s"

definition tryProviderStream ::
    "('b, 'tok, 'w) router_env \<Rightarrow> RetryPolicy \<Rightarrow> Provider \<Rightarrow> ChatRequest \<Rightarrow> instant \<Rightarrow> ('b, 'w) rstate \<Rightarrow>
     (goerr + 'tok stream) \<times> ('b, 'w) rstate" where
  "tryProviderStream env pol p req start s =
     retry_loop env pol (Name p) start
       (\<lambda>s. case streamAttemptOnce env p req s of
          (Inl e, s1) \<Rightarrow> (Inl (isBreakerError e, e), s1)
        | (Inr st, s1) \<Rightarrow> (Inr st, s1)) 0 s"

section \<open>The fail-over chain\<close>

text \<open>\<open>r.policy.MaxTotal > 0 && r.now().Sub(start) >= r.policy.MaxTotal\<close>.\<close>

definition chain_over ::
    "('b, 'tok, 'w) router_env \<Rightarrow> RetryPolicy \<Rightarrow> instant \<Rightarrow> ('b, 'w) rstate \<Rightarrow> bool \<times> ('b, 'w) rstate" where
  "chain_over env pol start s =
     (if MaxTotal pol > 0 then
        (case with_world (re_now env) s of (now, s1) \<Rightarrow> (time_sub now start \<ge> MaxTotal pol, s1))
      else (False, s))"

text \<open>The loop over the chain, at provider \<open>p\<close> with \<open>ps\<close> still to come.\<close>

fun chain_loop ::
    "('b, 'tok, 'w) router_env \<Rightarrow> RetryPolicy \<Rightarrow> instant \<Rightarrow>
     (Provider \<Rightarrow> ('b, 'w) rstate \<Rightarrow> (goerr + 'a) \<times> ('b, 'w) rstate) \<Rightarrow>
     Provider \<Rightarrow> Provider list \<Rightarrow> ('b, 'w) rstate \<Rightarrow> (goerr + 'a) \<times> ('b, 'w) rstate" where
  "chain_loop env pol start try_p p ps s = (case try_p p s of
     (Inr x, s1) \<Rightarrow> (Inr x, s1)
   | (Inl e, s1) \<Rightarrow>
       (if \<not> isBreakerError e \<and> \<not> IsRetryable e then (Inl e, s1)
        else (case chain_over env pol start s1 of
          (True, s2) \<Rightarrow> (Inl e, emit LAbandoned s2)
        | (False, s2) \<Rightarrow>
            (case ps of
               [] \<Rightarrow> (Inl e, s2)
             | q # qs \<Rightarrow> chain_loop env pol start try_p q qs (emit (LFailover (Name p) (Name q)) s2)))))"

declare chain_loop.simps [simp del]

record Router =
  rt_resolver :: registryState
  rt_policy :: RetryPolicy

definition ChatCompletion ::
    "('b, 'tok, 'w) router_env \<Rightarrow> Router \<Rightarrow> ChatRequest \<Rightarrow> ('b, 'w) rstate \<Rightarrow>
     (goerr + ChatResponse) \<times> ('b, 'w) rstate" where
  "ChatCompletion env r req s = (case ResolveChain (rt_resolver r) (r_Model req) of
     [] \<Rightarrow> (Inl (Wrapped (r_Model req) ErrNoProviderForModel), s)
   | p # ps \<Rightarrow>
       (case with_world (re_now env) s of (start, s1) \<Rightarrow>
          chain_loop env (rt_policy r) start
            (\<lambda>p. tryProvider env (rt_policy r) p req start) p ps s1))"

definition ChatCompletionStream ::
    "('b, 'tok, 'w) router_env \<Rightarrow> Router \<Rightarrow> ChatRequest \<Rightarrow> ('b, 'w) rstate \<Rightarrow>
     (goerr + 'tok stream) \<times> ('b, 'w) rstate" where
  "ChatCompletionStream env r req s = (case ResolveChain (rt_resolver r) (r_Model req) of
     [] \<Rightarrow> (Inl (Wrapped (r_Model req) ErrNoProviderForModel), s)
   | p # ps \<Rightarrow>
       (case with_world (re_now env) s of (start, s1) \<Rightarrow>
          chain_loop env (rt_policy r) start
            (\<lambda>p. tryProviderStream env (rt_policy r) p req start) p ps s1))"

section \<open>Forwarding a committed stream\<close>

text \<open>
  \<open>sends\<close> is the number of sends that succeed before the caller's context ends, \<open>None\<close>
  when it never does.  The result is what the handler receives and the observation the
  breaker gets.
\<close>

fun forward_rest ::
    "nat option \<Rightarrow> StreamEvent list \<Rightarrow> goerr option \<Rightarrow> StreamEvent list \<times> goerr option" where
  "forward_rest sends [] lastErr = ([], breakerObservation lastErr)"
| "forward_rest sends (ev # evs) lastErr =
     (if sends = Some 0 then ([], None)
      else (case forward_rest (map_option (\<lambda>n. n - 1) sends) evs
                   (case ev of EvErr e \<Rightarrow> Some e | EvChunk _ \<Rightarrow> lastErr) of
              (out, obs) \<Rightarrow> (ev # out, obs)))"

definition forwardStream ::
    "('b, 'tok, 'w) router_env \<Rightarrow> nat option \<Rightarrow> 'tok stream \<Rightarrow> ('b, 'w) rstate \<Rightarrow>
     StreamEvent list \<times> ('b, 'w) rstate" where
  "forwardStream env sends st s =
     (if sends = Some 0 then ([], r_done env (st_provider st) (st_tok st) None s)
      else (case forward_rest (map_option (\<lambda>n. n - 1) sends) (st_rest st) None of
              (out, obs) \<Rightarrow> (EvChunk (st_first st) # out, r_done env (st_provider st) (st_tok st) obs s)))"

section \<open>What is logged\<close>

lemma emit_simps [simp]:
  "rs_log (emit ev s) = rs_log s @ [ev]" "rs_pool (emit ev s) = rs_pool s" "rs_world (emit ev s) = rs_world s"
  by (simp_all add: emit_def)

lemma with_world_log: "with_world f s = (x, s') \<Longrightarrow> rs_log s' = rs_log s"
  by (auto simp: with_world_def split: prod.splits)

lemma snd_with_world_log [simp]: "rs_log (snd (with_world f s)) = rs_log s"
  by (cases "with_world f s") (simp add: with_world_log)

lemma r_allow_log: "r_allow env name s = (r, s') \<Longrightarrow> rs_log s' = rs_log s"
  by (auto simp: r_allow_def split: prod.splits dest: with_world_log)

lemma r_done_log [simp]: "rs_log (r_done env name tok obs s) = rs_log s @ [LDone name obs]"
  by (auto simp: r_done_def split: prod.splits dest: with_world_log)

lemmas log_dests = with_world_log r_allow_log

text \<open>
  The events of one attempt: a refusal, a call whose permit was handed back, or, for a
  stream that was committed, a call whose permit is still out.
\<close>

definition attempt_events :: "string \<Rightarrow> bool \<Rightarrow> router_event list \<Rightarrow> bool" where
  "attempt_events pname committed evs \<longleftrightarrow>
     (if committed then evs = [LCall pname]
      else (\<exists>e. evs = [LRejected pname e]) \<or> (\<exists>obs. evs = [LCall pname, LDone pname obs]))"

section \<open>Counting calls and permits\<close>

definition calls :: "router_event list \<Rightarrow> nat" where
  "calls evs = length (filter (\<lambda>ev. \<exists>n. ev = LCall n) evs)"

definition dones :: "router_event list \<Rightarrow> nat" where
  "dones evs = length (filter (\<lambda>ev. \<exists>n obs. ev = LDone n obs) evs)"

text \<open>The providers called, in order.\<close>

fun called :: "router_event \<Rightarrow> string option" where
  "called (LCall n) = Some n"
| "called _ = None"

definition call_names :: "router_event list \<Rightarrow> string list" where
  "call_names evs = List.map_filter called evs"

text \<open>An event concerns a provider of the set \<open>N\<close>, and a sleep fits the time budget.\<close>

fun event_ok :: "RetryPolicy \<Rightarrow> string set \<Rightarrow> router_event \<Rightarrow> bool" where
  "event_ok pol N (LRejected n e) = (n \<in> N)"
| "event_ok pol N (LCall n) = (n \<in> N)"
| "event_ok pol N (LDone n obs) = (n \<in> N)"
| "event_ok pol N (LBudget n) = (n \<in> N)"
| "event_ok pol N (LSleep (Some elapsed) delay) = (MaxTotal pol > 0 \<and> wrap64 (elapsed + delay) \<le> MaxTotal pol)"
| "event_ok pol N (LSleep None delay) = (MaxTotal pol \<le> 0)"
| "event_ok pol N LAbandoned = (MaxTotal pol > 0)"
| "event_ok pol N (LFailover a b) = (a \<in> N \<and> b \<in> N)"

lemma event_ok_mono: "event_ok pol N ev \<Longrightarrow> N \<subseteq> N' \<Longrightarrow> event_ok pol N' ev"
  by (induction pol N ev rule: event_ok.induct) auto

lemma counts_append [simp]:
  "calls (a @ b) = calls a + calls b" "dones (a @ b) = dones a + dones b"
  "calls [] = 0" "dones [] = 0"
  by (simp_all add: calls_def dones_def)

lemma counts_Cons [simp]:
  "calls (LCall n # evs) = Suc (calls evs)" "dones (LDone n obs # evs) = Suc (dones evs)"
  "calls (LDone n obs # evs) = calls evs" "calls (LRejected n e # evs) = calls evs"
  "calls (LSleep el d # evs) = calls evs" "calls (LBudget n # evs) = calls evs"
  "calls (LFailover n m # evs) = calls evs" "calls (LAbandoned # evs) = calls evs"
  "dones (LCall n # evs) = dones evs" "dones (LRejected n e # evs) = dones evs"
  "dones (LSleep el d # evs) = dones evs" "dones (LBudget n # evs) = dones evs"
  "dones (LFailover n m # evs) = dones evs" "dones (LAbandoned # evs) = dones evs"
  by (simp_all add: calls_def dones_def)

lemma call_names_append [simp]:
  "call_names (a @ b) = call_names a @ call_names b" "call_names [] = []"
  by (simp_all add: call_names_def List.map_filter_def)

lemma call_names_Cons:
  "call_names (ev # evs) = (case called ev of None \<Rightarrow> call_names evs | Some n \<Rightarrow> n # call_names evs)"
  by (simp add: call_names_def List.map_filter_simps split: option.split)

lemma length_call_names: "length (call_names evs) = calls evs"
proof (induction evs)
  case (Cons ev evs)
  then show ?case by (cases ev) (simp_all add: call_names_Cons)
qed simp

text \<open>
  \<open>account pol N k out evs\<close>: the events are about the providers \<open>N\<close>, hold at most \<open>k\<close>
  provider calls, and hand back the permit of every call, except one when \<open>out\<close>.
\<close>

definition account :: "RetryPolicy \<Rightarrow> string set \<Rightarrow> nat \<Rightarrow> bool \<Rightarrow> router_event list \<Rightarrow> bool" where
  "account pol N k out evs \<longleftrightarrow>
     calls evs \<le> k \<and> calls evs = dones evs + of_bool out \<and> list_all (event_ok pol N) evs"

lemma account_append:
  "account pol N k False evs \<Longrightarrow> account pol N m out evs' \<Longrightarrow> account pol N (k + m) out (evs @ evs')"
  by (auto simp: account_def)

lemma account_mono:
  "account pol N k out evs \<Longrightarrow> N \<subseteq> N' \<Longrightarrow> k \<le> k' \<Longrightarrow> account pol N' k' out evs"
  by (auto simp: account_def list_all_iff intro: event_ok_mono)

lemma account_call_names:
  assumes "account pol N k out evs"
  shows "set (call_names evs) \<subseteq> N" "length (call_names evs) \<le> k"
proof -
  have "list_all (event_ok pol N) evs \<Longrightarrow> set (call_names evs) \<subseteq> N"
  proof (induction evs)
    case (Cons ev evs)
    then show ?case by (cases ev) (auto simp: call_names_Cons)
  qed simp
  with assms show "set (call_names evs) \<subseteq> N" "length (call_names evs) \<le> k" by (simp_all add: account_def length_call_names)
qed

lemma account_one_name:
  assumes "account pol {n} k out evs"
  shows "call_names evs = replicate (length (call_names evs)) n"
  using account_call_names(1) [OF assms] by (intro replicate_eqI) auto

lemma attempt_events_account: "attempt_events pname c evs \<Longrightarrow> account pol {pname} 1 c evs"
  by (auto simp: attempt_events_def account_def split: if_splits)

text \<open>
  The contract of an attempt, on which the retry loop's bounds rest: it only appends to the
  log, and what it appends is one attempt's events.  \<open>hands_over\<close> says that a success keeps
  the permit for the forwarder.
\<close>

locale attempt_step =
  fixes once :: "('b, 'w) rstate \<Rightarrow> (bool \<times> goerr + 'a) \<times> ('b, 'w) rstate"
    and pname :: string
    and hands_over :: bool
  assumes logged: "once s = (r, s') \<Longrightarrow>
    \<exists>evs. rs_log s' = rs_log s @ evs \<and> attempt_events pname (hands_over \<and> \<not> isl r) evs"

lemma attemptOnce_logged:
  assumes "attemptOnce env p req s = (r, s')"
  shows "\<exists>evs. rs_log s' = rs_log s @ evs \<and> attempt_events (Name p) False evs"
  using assms
  by (auto simp: attemptOnce_def attempt_events_def split: prod.splits sum.splits dest!: log_dests)

lemma streamAttemptOnce_logged:
  assumes "streamAttemptOnce env p req s = (r, s')"
  shows "\<exists>evs. rs_log s' = rs_log s @ evs \<and> attempt_events (Name p) (\<not> isl r) evs"
  using assms
  by (auto simp: streamAttemptOnce_def attempt_events_def Let_def
           split: prod.splits sum.splits option.splits list.splits StreamEvent.splits dest!: log_dests)

interpretation chat_attempt: attempt_step "attemptOnce env p req" "Name p" False for env p req
  by unfold_locales (simp add: attemptOnce_logged)

interpretation stream_attempt: attempt_step
  "\<lambda>s. case streamAttemptOnce env p req s of
     (Inl e, s1) \<Rightarrow> (Inl (isBreakerError e, e), s1) | (Inr st, s1) \<Rightarrow> (Inr st, s1)"
  "Name p" True for env p req
proof unfold_locales
  fix s r s'
  assume "(case streamAttemptOnce env p req s of
     (Inl e, s1) \<Rightarrow> (Inl (isBreakerError e, e), s1) | (Inr st, s1) \<Rightarrow> (Inr st, s1)) = (r, s')"
  then obtain r' where "streamAttemptOnce env p req s = (r', s')" "isl r = isl r'"
    by (auto split: prod.splits sum.splits)
  then show "\<exists>evs. rs_log s' = rs_log s @ evs \<and> attempt_events (Name p) (True \<and> \<not> isl r) evs"
    using streamAttemptOnce_logged by force
qed

lemma before_retry_logged:
  assumes "before_retry env pol pname start attempt e s = (r, s')"
  shows "\<exists>evs. rs_log s' = rs_log s @ evs \<and> account pol {pname} 0 False evs"
  using assms
  by (auto simp: before_retry_def account_def Let_def split: prod.splits if_splits dest!: with_world_log)

context attempt_step
begin

lemma retry_logged:
  "retry_loop env pol pname start once a s = (r, s') \<Longrightarrow>
   \<exists>evs. rs_log s' = rs_log s @ evs \<and>
     account pol {pname} (1 + nat (MaxRetries pol - a)) (hands_over \<and> \<not> isl r) evs"
proof (induction "nat (MaxRetries pol - a)" arbitrary: a s rule: less_induct)
  case less
  obtain r1 s1 where one: "once s = (r1, s1)" by (meson surj_pair)
  from logged [OF one] obtain evs1 where l1: "rs_log s1 = rs_log s @ evs1"
    and a1: "account pol {pname} 1 (hands_over \<and> \<not> isl r1) evs1"
    using attempt_events_account by blast
  show ?case
  proof (cases "\<exists>e. r1 = Inl (False, e) \<and> IsRetryable e \<and> a < MaxRetries pol")
    case False
    then have "s' = s1" "isl r = isl r1"
      using less.prems one
      by (auto simp: retry_loop.simps [of env pol pname start once a s] split: sum.splits prod.splits if_splits)
    with l1 a1 show ?thesis by (auto intro: account_mono)
  next
    case True
    then obtain e where e: "r1 = Inl (False, e)" "IsRetryable e" "a < MaxRetries pol" by blast
    obtain r2 s2 where br: "before_retry env pol pname start a e s1 = (r2, s2)" by (meson surj_pair)
    from before_retry_logged [OF br] obtain evs2 where l2: "rs_log s2 = rs_log s1 @ evs2"
      and a2: "account pol {pname} 0 False evs2" by blast
    have a12: "account pol {pname} 1 False (evs1 @ evs2)"
      using account_append [OF _ a2] a1 e by fastforce
    show ?thesis
    proof (cases r2)
      case (Some e')
      with less.prems one e br have "r = Inl e'" "s' = s2"
        by (simp_all add: retry_loop.simps [of env pol pname start once a s])
      with l1 l2 account_mono [OF a12] show ?thesis by (intro exI [of _ "evs1 @ evs2"]) auto
    next
      case None
      with less.prems one e br have rec: "retry_loop env pol pname start once (a + 1) s2 = (r, s')"
        by (simp add: retry_loop.simps [of env pol pname start once a s])
      have lt: "nat (MaxRetries pol - (a + 1)) < nat (MaxRetries pol - a)" using e by simp
      from less.hyps [OF lt rec] obtain evs3 where l3: "rs_log s' = rs_log s2 @ evs3"
        and a3: "account pol {pname} (1 + nat (MaxRetries pol - (a + 1))) (hands_over \<and> \<not> isl r) evs3" by blast
      have "1 + (1 + nat (MaxRetries pol - (a + 1))) \<le> 1 + nat (MaxRetries pol - a)" using lt by simp
      from account_mono [OF account_append [OF a12 a3] _ this] l1 l2 l3 show ?thesis by auto
    qed
  qed
qed

end

section \<open>The budget of the chain\<close>

text \<open>
  The contract the chain loop has with the loop of one provider: a bounded number of calls,
  permits accounted for, and events about that provider only.
\<close>

locale provider_try =
  fixes try_p :: "Provider \<Rightarrow> ('b, 'w) rstate \<Rightarrow> (goerr + 'a) \<times> ('b, 'w) rstate"
    and pol :: RetryPolicy
    and hands_over :: bool
  assumes tried: "try_p p s = (r, s') \<Longrightarrow>
    \<exists>evs. rs_log s' = rs_log s @ evs \<and>
      account pol {Name p} (1 + nat (MaxRetries pol)) (hands_over \<and> \<not> isl r) evs"

lemmas chat_retry_logged = chat_attempt.retry_logged [where a = 0, simplified]
lemmas stream_retry_logged = stream_attempt.retry_logged [where a = 0, simplified]

interpretation chat_try: provider_try
  "\<lambda>p. tryProvider env pol p req start" pol False for env pol req start
  by unfold_locales (simp add: tryProvider_def chat_retry_logged)

interpretation stream_try: provider_try
  "\<lambda>p. tryProviderStream env pol p req start" pol True for env pol req start
  by unfold_locales (simp add: tryProviderStream_def stream_retry_logged)

text \<open>One round of the chain loop: it stops at \<open>p\<close>, or goes on to the next provider.\<close>

lemma chain_loop_cases:
  assumes "chain_loop env pol start try_p p ps s = (r, s')" "try_p p s = (r1, s1)"
  obtains (stop) evs where "r = r1" "rs_log s' = rs_log s1 @ evs" "account pol {} 0 False evs"
  | (failover) e q qs s2 where "r1 = Inl e" "isBreakerError e \<or> IsRetryable e" "ps = q # qs"
      "rs_log s2 = rs_log s1 @ [LFailover (Name p) (Name q)]"
      "chain_loop env pol start try_p q qs s2 = (r, s')"
proof (cases r1)
  case (Inr x)
  with assms stop [of "[]"] show thesis by (simp add: chain_loop.simps [of _ _ _ _ p] account_def)
next
  case (Inl e)
  obtain over s2 where co: "chain_over env pol start s1 = (over, s2)" by (meson surj_pair)
  then have l2: "rs_log s2 = rs_log s1" "over \<longrightarrow> MaxTotal pol > 0"
    by (auto simp: chain_over_def split: prod.splits if_splits dest: with_world_log)
  consider "\<not> isBreakerError e \<and> \<not> IsRetryable e" | "isBreakerError e \<or> IsRetryable e" "over"
    | "isBreakerError e \<or> IsRetryable e" "\<not> over" "ps = []"
    | q qs where "isBreakerError e \<or> IsRetryable e" "\<not> over" "ps = q # qs" by (cases ps) auto
  then show thesis
  proof cases
    case 1
    with assms Inl stop [of "[]"] show thesis by (simp add: chain_loop.simps [of _ _ _ _ p] account_def)
  next
    case 2
    with assms Inl co l2 stop [of "[LAbandoned]"] show thesis
      by (auto simp: chain_loop.simps [of _ _ _ _ p] account_def)
  next
    case 3
    with assms Inl co l2 stop [of "[]"] show thesis
      by (auto simp: chain_loop.simps [of _ _ _ _ p] account_def)
  next
    case 4
    with assms Inl co l2 failover [of e q qs "emit (LFailover (Name p) (Name q)) s2"] show thesis
      by (auto simp: chain_loop.simps [of _ _ _ _ p])
  qed
qed

text \<open>
  \<open>in_chain_order k ps ns\<close>: the names are those of the chain, in its order, each repeated at
  most \<open>k\<close> times.
\<close>

definition in_chain_order :: "nat \<Rightarrow> Provider list \<Rightarrow> string list \<Rightarrow> bool" where
  "in_chain_order k ps ns \<longleftrightarrow> (\<exists>js. length js = length ps \<and> (\<forall>j \<in> set js. j \<le> k) \<and>
     ns = concat (map2 (\<lambda>j p. replicate j (Name p)) js ps))"

lemma in_chain_order_none: "in_chain_order k ps []"
  unfolding in_chain_order_def by (rule exI [of _ "replicate (length ps) 0"]) (induction ps, auto)

lemma in_chain_order_Cons:
  assumes "j \<le> k" "in_chain_order k ps ns"
  shows "in_chain_order k (p # ps) (replicate j (Name p) @ ns)"
proof -
  from assms(2) obtain js where "length js = length ps" "\<forall>j \<in> set js. j \<le> k" "ns = concat (map2 (\<lambda>j p. replicate j (Name p)) js ps)"
    by (auto simp: in_chain_order_def)
  with assms(1) show ?thesis unfolding in_chain_order_def by (intro exI [of _ "j # js"]) simp
qed

lemma in_chain_order_names: "in_chain_order k ps ns \<Longrightarrow> set ns \<subseteq> Name ` set ps"
  by (auto simp: in_chain_order_def set_zip)

text \<open>Where the names of a chain are distinct, no provider is called more than \<open>k\<close> times.\<close>

lemma in_chain_order_count:
  assumes "in_chain_order k ps ns" "distinct (map Name ps)"
  shows "count_list ns n \<le> k"
proof -
  from assms(1) obtain js where js: "length js = length ps" "\<forall>j \<in> set js. j \<le> k" "ns = concat (map2 (\<lambda>j p. replicate j (Name p)) js ps)"
    by (auto simp: in_chain_order_def)
  have none: "n \<notin> Name ` set ps \<Longrightarrow> count_list (concat (map2 (\<lambda>j p. replicate j (Name p)) js ps)) n = 0" for js ps
    by (auto simp: count_list_0_iff set_zip)
  have rep: "count_list (replicate j m) n = (if m = n then j else 0)" for j and m :: string by (induction j) auto
  have "count_list (concat (map2 (\<lambda>j p. replicate j (Name p)) js ps)) n \<le> k" using js(1,2) assms(2)
  proof (induction js ps rule: list_induct2)
    case (Cons j js p ps)
    then show ?case using none [of ps js] by (cases "Name p = n") (auto simp: rep)
  qed simp
  with js(3) show ?thesis by simp
qed

context provider_try
begin

lemma chain_logged:
  "chain_loop env pol start try_p p ps s = (r, s') \<Longrightarrow>
   \<exists>evs. rs_log s' = rs_log s @ evs \<and>
     account pol (Name ` set (p # ps)) (Suc (length ps) * (1 + nat (MaxRetries pol))) (hands_over \<and> \<not> isl r) evs"
proof (induction ps arbitrary: p s)
  case Nil
  obtain r1 s1 where one: "try_p p s = (r1, s1)" by (meson surj_pair)
  from tried [OF one] obtain evs1 where l1: "rs_log s1 = rs_log s @ evs1"
    and a1: "account pol {Name p} (1 + nat (MaxRetries pol)) (hands_over \<and> \<not> isl r1) evs1" by blast
  from Nil one show ?case
  proof (cases rule: chain_loop_cases)
    case (stop evs)
    with l1 a1 show ?thesis by (intro exI [of _ "evs1 @ evs"]) (auto simp: account_def list_all_iff intro: event_ok_mono)
  qed simp
next
  case (Cons q' qs')
  obtain r1 s1 where one: "try_p p s = (r1, s1)" by (meson surj_pair)
  from tried [OF one] obtain evs1 where l1: "rs_log s1 = rs_log s @ evs1"
    and a1: "account pol {Name p} (1 + nat (MaxRetries pol)) (hands_over \<and> \<not> isl r1) evs1" by blast
  from Cons.prems one show ?case
  proof (cases rule: chain_loop_cases)
    case (stop evs)
    with l1 a1 show ?thesis by (intro exI [of _ "evs1 @ evs"]) (auto simp: account_def list_all_iff intro: event_ok_mono)
  next
    case (failover e q qs s2)
    let ?N = "Name ` set (p # q # qs)" and ?k = "1 + nat (MaxRetries pol)"
    from failover Cons.IH obtain evs3 where l3: "rs_log s' = rs_log s2 @ evs3"
      and a3: "account pol (Name ` set (q # qs)) (Suc (length qs) * ?k) (hands_over \<and> \<not> isl r) evs3" by blast
    have "account pol ?N ?k False evs1" using account_mono [OF a1] failover(1) by auto
    moreover have "account pol ?N 0 False [LFailover (Name p) (Name q)]" by (simp add: account_def)
    ultimately have "account pol ?N (?k + 0) False (evs1 @ [LFailover (Name p) (Name q)])"
      by (rule account_append)
    moreover have "account pol ?N (Suc (length qs) * ?k) (hands_over \<and> \<not> isl r) evs3"
      by (rule account_mono [OF a3 _ order_refl]) auto
    ultimately have "account pol ?N (?k + 0 + Suc (length qs) * ?k) (hands_over \<and> \<not> isl r)
        ((evs1 @ [LFailover (Name p) (Name q)]) @ evs3)" by (rule account_append)
    moreover have "?k + 0 + Suc (length qs) * ?k = Suc (length (q # qs)) * ?k" by simp
    moreover have "rs_log s' = rs_log s @ (evs1 @ [LFailover (Name p) (Name q)]) @ evs3"
      using l1 l3 failover by simp
    ultimately show ?thesis using failover(3) by metis
  qed
qed

lemma chain_order:
  "chain_loop env pol start try_p p ps s = (r, s') \<Longrightarrow> rs_log s' = rs_log s @ evs \<Longrightarrow>
   in_chain_order (1 + nat (MaxRetries pol)) (p # ps) (call_names evs)"
proof (induction ps arbitrary: p s evs)
  case Nil
  obtain r1 s1 where one: "try_p p s = (r1, s1)" by (meson surj_pair)
  from tried [OF one] obtain evs1 where l1: "rs_log s1 = rs_log s @ evs1"
    and a1: "account pol {Name p} (1 + nat (MaxRetries pol)) (hands_over \<and> \<not> isl r1) evs1" by blast
  from Nil.prems(1) one show ?case
  proof (cases rule: chain_loop_cases)
    case (stop evs2)
    have "call_names evs2 = []" using account_call_names(2) [OF stop(3)] by simp
    moreover have "evs = evs1 @ evs2" using Nil.prems(2) l1 stop(2) by simp
    ultimately show ?thesis
      using in_chain_order_Cons [OF account_call_names(2) [OF a1] in_chain_order_none [of _ "[]"], of p] account_one_name [OF a1] by simp
  qed simp
next
  case (Cons q' qs')
  obtain r1 s1 where one: "try_p p s = (r1, s1)" by (meson surj_pair)
  from tried [OF one] obtain evs1 where l1: "rs_log s1 = rs_log s @ evs1"
    and a1: "account pol {Name p} (1 + nat (MaxRetries pol)) (hands_over \<and> \<not> isl r1) evs1" by blast
  note here = in_chain_order_Cons [OF account_call_names(2) [OF a1], of _ _ p, folded account_one_name [OF a1]]
  from Cons.prems(1) one show ?case
  proof (cases rule: chain_loop_cases)
    case (stop evs2)
    have "call_names evs2 = []" using account_call_names(2) [OF stop(3)] by simp
    moreover have "evs = evs1 @ evs2" using Cons.prems(2) l1 stop(2) by simp
    ultimately show ?thesis using here [OF in_chain_order_none] by simp
  next
    case (failover e q qs s2)
    from chain_logged [OF failover(5)] obtain evs3 where l3: "rs_log s' = rs_log s2 @ evs3" by blast
    have "evs = evs1 @ [LFailover (Name p) (Name q)] @ evs3" using Cons.prems(2) l1 l3 failover(4) by simp
    then have "call_names evs = call_names evs1 @ call_names evs3" by (simp add: call_names_Cons)
    moreover have "in_chain_order (1 + nat (MaxRetries pol)) (q # qs) (call_names evs3)" using Cons.IH failover l3 by blast
    ultimately show ?thesis using here failover(3) by simp
  qed
qed

end

section \<open>Where a response comes from\<close>

lemma retry_loop_Inr:
  "retry_loop env pol pname start once a s = (Inr x, s') \<Longrightarrow> \<exists>s1. once s1 = (Inr x, s')"
proof (induction env pol pname start once a s rule: retry_loop.induct)
  case (1 env pol pname start once a s)
  from "1.prems" show ?case
    by (subst (asm) retry_loop.simps)
       (auto split: sum.splits prod.splits if_splits option.splits dest!: "1.IH" [rotated -1])
qed

lemma chain_loop_Inr:
  "chain_loop env pol start try_p p ps s = (Inr x, s') \<Longrightarrow>
   \<exists>q \<in> set (p # ps). \<exists>s1. try_p q s1 = (Inr x, s')"
proof (induction ps arbitrary: p s)
  case Nil
  then show ?case by (auto simp: chain_loop.simps split: sum.splits prod.splits if_splits bool.splits)
next
  case (Cons q qs)
  from Cons.prems show ?case
    by (auto simp: chain_loop.simps [of _ _ _ _ p] split: sum.splits prod.splits if_splits bool.splits
        dest!: Cons.IH)
qed

lemma attemptOnce_Inr:
  assumes "attemptOnce env p req s = (Inr x, s')"
  shows "(\<exists>w. fst (re_call env p req w) = Inr x) \<and>
    (\<exists>pre. rs_log s' = pre @ [LCall (Name p), LDone (Name p) None])"
  using assms
  by (auto simp: attemptOnce_def with_world_def split: prod.splits sum.splits dest: r_allow_log) (metis fst_conv)+

section \<open>A breaker that stays open\<close>

text \<open>
  Until its timeout an open breaker of the library refuses every permit with
  \<open>ErrOpenState\<close>; \<open>is_open\<close> names the states of that phase.
\<close>

definition refuses_while_open :: "('b, 'tok) gobreaker \<Rightarrow> ('b \<Rightarrow> bool) \<Rightarrow> bool" where
  "refuses_while_open gb is_open \<longleftrightarrow>
     (\<forall>t b. is_open b \<longrightarrow> (\<exists>ch b'. gb_Allow gb t b = (Inl ErrOpenState, ch, b') \<and> is_open b'))"

definition all_open :: "('b \<Rightarrow> bool) \<Rightarrow> Provider list \<Rightarrow> ('b, 'w) rstate \<Rightarrow> bool" where
  "all_open is_open ps s \<longleftrightarrow> (\<forall>p \<in> set ps. \<exists>b. bp_bs (rs_pool s) (Name p) = Some b \<and> is_open b)"

lemma with_world_pool: "with_world f s = (x, s') \<Longrightarrow> rs_pool s' = rs_pool s"
  by (auto simp: with_world_def split: prod.splits)

lemma all_open_emit [simp]: "all_open is_open ps (emit ev s) = all_open is_open ps s"
  by (simp add: all_open_def)

lemma r_allow_open:
  assumes "refuses_while_open (re_gb env) is_open" "all_open is_open ps s" "p \<in> set ps"
  shows "\<exists>s'. r_allow env (Name p) s = (Inl ErrOpenState, s') \<and> rs_log s' = rs_log s \<and> all_open is_open ps s'"
proof -
  obtain t s1 where w: "with_world (re_wall env) s = (t, s1)" by (meson surj_pair)
  note p1 = with_world_pool [OF w]
  obtain b where b: "bp_bs (rs_pool s1) (Name p) = Some b" "is_open b"
    using assms(2,3) p1 by (auto simp: all_open_def)
  then obtain ch b' where a: "gb_Allow (re_gb env) t b = (Inl ErrOpenState, ch, b')" "is_open b'"
    using assms(1) unfolding refuses_while_open_def by blast
  have "r_allow env (Name p) s = (Inl ErrOpenState,
      s1\<lparr>rs_pool := on_state_change (Name p) ch ((rs_pool s1)\<lparr>bp_bs := (bp_bs (rs_pool s1))(Name p \<mapsto> b')\<rparr>)\<rparr>)"
    using w b a by (simp add: r_allow_def pool_allow_def pool_get_def)
  then show ?thesis using assms(2) a(2) p1 with_world_log [OF w] by (auto simp: all_open_def)
qed

lemma tryProvider_open:
  assumes "refuses_while_open (re_gb env) is_open" "all_open is_open ps s" "p \<in> set ps"
  shows "\<exists>s'. tryProvider env pol p req start s = (Inl ErrOpenState, s') \<and>
    rs_log s' = rs_log s @ [LRejected (Name p) ErrOpenState] \<and> all_open is_open ps s'"
  using r_allow_open [OF assms]
  by (auto simp: tryProvider_def retry_loop.simps attemptOnce_def)

lemma chain_loop_open:
  assumes "refuses_while_open (re_gb env) is_open" "all_open is_open all s" "set (p # ps) \<subseteq> set all"
  shows "\<exists>s' evs. chain_loop env pol start (\<lambda>p. tryProvider env pol p req start) p ps s = (Inl ErrOpenState, s') \<and>
    rs_log s' = rs_log s @ evs \<and> calls evs = 0"
  using assms(2,3)
proof (induction ps arbitrary: p s)
  case Nil
  from tryProvider_open [OF assms(1) Nil(1), of p pol req start] Nil(2)
  obtain s1 where s1: "tryProvider env pol p req start s = (Inl ErrOpenState, s1)"
    "rs_log s1 = rs_log s @ [LRejected (Name p) ErrOpenState]" by auto
  obtain over s2 where co: "chain_over env pol start s1 = (over, s2)" by (meson surj_pair)
  then have "rs_log s2 = rs_log s1"
    by (auto simp: chain_over_def split: prod.splits if_splits dest: with_world_log)
  with s1 co show ?case by (cases over) (auto simp: chain_loop.simps)
next
  case (Cons q qs)
  from tryProvider_open [OF assms(1) Cons.prems(1), of p pol req start] Cons.prems(2)
  obtain s1 where s1: "tryProvider env pol p req start s = (Inl ErrOpenState, s1)"
    "rs_log s1 = rs_log s @ [LRejected (Name p) ErrOpenState]" "all_open is_open all s1" by auto
  obtain over s2 where co: "chain_over env pol start s1 = (over, s2)" by (meson surj_pair)
  then have s2: "rs_log s2 = rs_log s1" "rs_pool s2 = rs_pool s1"
    by (auto simp: chain_over_def split: prod.splits if_splits dest: with_world_log with_world_pool)
  show ?case
  proof (cases over)
    case True
    with s1 s2 co show ?thesis by (auto simp: chain_loop.simps)
  next
    case False
    have "all_open is_open all (emit (LFailover (Name p) (Name q)) s2)"
      using s1(3) s2(2) by (simp add: all_open_def)
    from Cons.IH [OF this, of q] Cons.prems(2) obtain s' evs where
      "chain_loop env pol start (\<lambda>p. tryProvider env pol p req start) q qs (emit (LFailover (Name p) (Name q)) s2)
         = (Inl ErrOpenState, s')" "rs_log s' = rs_log (emit (LFailover (Name p) (Name q)) s2) @ evs" "calls evs = 0"
      by auto
    with s1 s2 co False show ?thesis by (auto simp: chain_loop.simps [of _ _ _ _ p])
  qed
qed

section \<open>What the forwarder sends\<close>

definition last_error :: "StreamEvent list \<Rightarrow> goerr option" where
  "last_error evs = foldl (\<lambda>acc ev. case ev of EvErr e \<Rightarrow> Some e | EvChunk _ \<Rightarrow> acc) None evs"

lemma forward_rest_eq:
  "forward_rest sends evs acc =
     ((case sends of None \<Rightarrow> evs | Some k \<Rightarrow> take k evs),
      if (case sends of None \<Rightarrow> True | Some k \<Rightarrow> length evs \<le> k)
      then breakerObservation (foldl (\<lambda>acc ev. case ev of EvErr e \<Rightarrow> Some e | EvChunk _ \<Rightarrow> acc) acc evs)
      else None)"
proof (induction evs arbitrary: sends acc)
  case (Cons ev evs)
  then show ?case
    by (cases sends; cases "the sends") (auto split: StreamEvent.splits)
qed (auto split: option.splits)

lemma forwardStream_log:
  "\<exists>obs. rs_log (snd (forwardStream env sends st s)) = rs_log s @ [LDone (st_provider st) obs]"
  by (cases "forward_rest (map_option (\<lambda>n. n - 1) sends) (st_rest st) None") (simp add: forwardStream_def)

section \<open>A concrete environment\<close>

text \<open>
  For the witnesses: a breaker that opens by the trip rule and stays open, clocks that stand
  still, and providers that answer from a script.
\<close>

definition trip_gb :: "(gb_Counts \<times> gb_Settings, unit) gobreaker" where
  "trip_gb = \<lparr>
     gb_New = (\<lambda>st. (\<lparr>gc_Requests = 0, gc_TotalSuccesses = 0, gc_TotalFailures = 0,
       gc_ConsecutiveSuccesses = 0, gc_ConsecutiveFailures = 0\<rparr>, st)),
     gb_Allow = (\<lambda>t (c, st). if gs_ReadyToTrip st c then (Inl ErrOpenState, [], (c, st))
       else (Inr (), [], (c\<lparr>gc_Requests := gc_Requests c + 1\<rparr>, st))),
     gb_Done = (\<lambda>t tok err (c, st).
       (let c' = (if err = None then c\<lparr>gc_TotalSuccesses := gc_TotalSuccesses c + 1\<rparr>
                  else c\<lparr>gc_TotalFailures := gc_TotalFailures c + 1\<rparr>)
        in (if gs_ReadyToTrip st c' then [(StateClosed, StateOpen)] else [], (c', st))))\<rparr>"

definition scripted_env ::
    "(gb_Counts \<times> gb_Settings, unit, (goerr + ChatResponse) list) router_env" where
  "scripted_env = \<lparr>re_gb = trip_gb, re_wall = (\<lambda>w. (0, w)), re_now = (\<lambda>w. (0, w)),
     re_sleep = (\<lambda>d w. (None, w)), re_random = (\<lambda>w. (1 / 2, w)),
     re_call = (\<lambda>p req w. case w of [] \<Rightarrow> (Inl (ProviderErr ErrUpstream), []) | r # rs \<Rightarrow> (r, rs)),
     re_stream = (\<lambda>p req w. (Inr [], w)), re_peek = (\<lambda>w. (None, w))\<rparr>"

definition demo_provider :: "string \<Rightarrow> Provider" where
  "demo_provider name = OpenAI \<lparr>op_cfg = \<lparr>oc_Name = name, oc_Endpoint = [], oc_APIKey = ''k'',
     oc_Organization = [], oc_Timeout = 0, oc_Exact = [], oc_Glob = [], oc_OwnedBy = []\<rparr>, op_baseURL = ''u''\<rparr>"

definition demo_router :: Router where
  "demo_router = \<lparr>rt_resolver = NewEmpty\<lparr>exactIndex := [''gpt'' \<mapsto> demo_provider ''a''],
     defaultProvider := Some (demo_provider ''b'')\<rparr>, rt_policy = DefaultPolicy\<rparr>"

definition demo_request :: ChatRequest where
  "demo_request = \<lparr>r_Model = ''gpt'', r_Messages = [], r_MaxTokens = 0, r_Temperature = None,
     r_TopP = None, r_N = 0, r_Stream = False, r_Stop = [], r_User = [], r_Extra = []\<rparr>"

definition demo_response :: ChatResponse where
  "demo_response = \<lparr>p_ID = ''id'', p_Object = [], p_Created = 0, p_Model = ''gpt'', p_Choices = [],
     p_Usage = None, p_Provider = ''a''\<rparr>"

definition demo_state ::
    "(goerr + ChatResponse) list \<Rightarrow> (gb_Counts \<times> gb_Settings, (goerr + ChatResponse) list) rstate" where
  "demo_state w = \<lparr>rs_pool = newBreakerPool DefaultBreakerSettings, rs_world = w, rs_log = []\<rparr>"

lemmas demo_defs = scripted_env_def trip_gb_def demo_provider_def demo_router_def demo_request_def
  demo_response_def demo_state_def

lemma demo_chain:
  "ResolveChain (rt_resolver demo_router) (r_Model demo_request) = [demo_provider ''a'', demo_provider ''b'']"
  by (simp add: demo_defs ResolveChain_def chain_add_def NewEmpty_def)

section \<open>Properties\<close>

abbreviation chain_of :: "Router \<Rightarrow> ChatRequest \<Rightarrow> Provider list" where
  "chain_of r req \<equiv> ResolveChain (rt_resolver r) (r_Model req)"

abbreviation call_budget :: "Router \<Rightarrow> ChatRequest \<Rightarrow> nat" where
  "call_budget r req \<equiv> length (chain_of r req) * (1 + nat (MaxRetries (rt_policy r)))"

lemma ChatCompletion_logged:
  assumes "ChatCompletion env r req s = (res, s')"
  shows "\<exists>evs. rs_log s' = rs_log s @ evs \<and>
    account (rt_policy r) (Name ` set (chain_of r req)) (call_budget r req) False evs"
proof (cases "chain_of r req")
  case Nil
  with assms show ?thesis by (simp add: ChatCompletion_def account_def)
next
  case (Cons p ps)
  obtain start s1 where w: "with_world (re_now env) s = (start, s1)" by (meson surj_pair)
  with assms Cons have "chain_loop env (rt_policy r) start
      (\<lambda>p. tryProvider env (rt_policy r) p req start) p ps s1 = (res, s')" by (simp add: ChatCompletion_def)
  from chat_try.chain_logged [OF this] with_world_log [OF w] Cons show ?thesis by simp
qed

lemma ChatCompletionStream_logged:
  assumes "ChatCompletionStream env r req s = (res, s')"
  shows "\<exists>evs. rs_log s' = rs_log s @ evs \<and>
    account (rt_policy r) (Name ` set (chain_of r req)) (call_budget r req) (\<not> isl res) evs"
proof (cases "chain_of r req")
  case Nil
  with assms show ?thesis by (auto simp: ChatCompletionStream_def account_def)
next
  case (Cons p ps)
  obtain start s1 where w: "with_world (re_now env) s = (start, s1)" by (meson surj_pair)
  with assms Cons have "chain_loop env (rt_policy r) start
      (\<lambda>p. tryProviderStream env (rt_policy r) p req start) p ps s1 = (res, s')"
    by (simp add: ChatCompletionStream_def)
  from stream_try.chain_logged [OF this] with_world_log [OF w] Cons show ?thesis by simp
qed

lemma ChatCompletion_order:
  assumes "ChatCompletion env r req s = (res, s')" "rs_log s' = rs_log s @ evs"
  shows "in_chain_order (1 + nat (MaxRetries (rt_policy r))) (chain_of r req) (call_names evs)"
proof (cases "chain_of r req")
  case Nil
  with assms show ?thesis by (simp add: ChatCompletion_def in_chain_order_none)
next
  case (Cons p ps)
  obtain start s1 where w: "with_world (re_now env) s = (start, s1)" by (meson surj_pair)
  with assms(1) Cons have "chain_loop env (rt_policy r) start
      (\<lambda>p. tryProvider env (rt_policy r) p req start) p ps s1 = (res, s')" by (simp add: ChatCompletion_def)
  from chat_try.chain_order [OF this] with_world_log [OF w] assms(2) Cons show ?thesis by simp
qed

lemma ChatCompletionStream_order:
  assumes "ChatCompletionStream env r req s = (res, s')" "rs_log s' = rs_log s @ evs"
  shows "in_chain_order (1 + nat (MaxRetries (rt_policy r))) (chain_of r req) (call_names evs)"
proof (cases "chain_of r req")
  case Nil
  with assms show ?thesis by (simp add: ChatCompletionStream_def in_chain_order_none)
next
  case (Cons p ps)
  obtain start s1 where w: "with_world (re_now env) s = (start, s1)" by (meson surj_pair)
  with assms(1) Cons have "chain_loop env (rt_policy r) start
      (\<lambda>p. tryProviderStream env (rt_policy r) p req start) p ps s1 = (res, s')" by (simp add: ChatCompletionStream_def)
  from stream_try.chain_order [OF this] with_world_log [OF w] assms(2) Cons show ?thesis by simp
qed

lemma account_calls_in: "account pol N k out evs \<Longrightarrow> {n. LCall n \<in> set evs} \<subseteq> N"
  by (auto simp: account_def list_all_iff dest: bspec)

text \<open>
  C1: a chat request calls the providers of the model's chain in the order of the chain, each
  of them at most \<open>1 + MaxRetries\<close> times and never again once it has moved on to the next, and
  hands every permit it took back to the breaker, whatever the providers, the clocks and the
  breakers do.
\<close>

theorem chat_calls_and_permits:
  "\<exists>evs. rs_log (snd (ChatCompletion env r req s)) = rs_log s @ evs \<and>
     in_chain_order (1 + nat (MaxRetries (rt_policy r))) (ResolveChain (rt_resolver r) (r_Model req)) (call_names evs) \<and>
     (\<forall>n. count_list (call_names evs) n \<le> 1 + nat (MaxRetries (rt_policy r))) \<and>
     calls evs \<le> length (ResolveChain (rt_resolver r) (r_Model req)) * (1 + nat (MaxRetries (rt_policy r))) \<and>
     calls evs = dones evs \<and>
     {n. LCall n \<in> set evs} \<subseteq> Name ` set (ResolveChain (rt_resolver r) (r_Model req))"
proof -
  obtain res s' where c: "ChatCompletion env r req s = (res, s')" by (meson surj_pair)
  from ChatCompletion_logged [OF c] obtain evs where l: "rs_log s' = rs_log s @ evs"
    and a: "account (rt_policy r) (Name ` set (chain_of r req)) (call_budget r req) False evs" by blast
  note order = ChatCompletion_order [OF c l]
  have "\<forall>n. count_list (call_names evs) n \<le> 1 + nat (MaxRetries (rt_policy r))"
    using in_chain_order_count [OF order reg.chain_distinct] by blast
  with account_calls_in [OF a] a c l order show ?thesis unfolding account_def by (intro exI [of _ evs]) simp
qed

text \<open>
  C2: a streaming request that fails has returned every permit; one that commits holds
  exactly one, and the forwarder of that stream hands it back, wherever the client goes
  away.  The upstream calls have the order and the bounds of the non-streaming path.
\<close>

theorem stream_calls_and_permits:
  "(case ChatCompletionStream env r req s of (res, s') \<Rightarrow>
     \<exists>evs. rs_log (case res of Inl e \<Rightarrow> s' | Inr st \<Rightarrow> snd (forwardStream env sends st s')) = rs_log s @ evs \<and>
       in_chain_order (1 + nat (MaxRetries (rt_policy r))) (ResolveChain (rt_resolver r) (r_Model req)) (call_names evs) \<and>
       (\<forall>n. count_list (call_names evs) n \<le> 1 + nat (MaxRetries (rt_policy r))) \<and>
       calls evs \<le> length (ResolveChain (rt_resolver r) (r_Model req)) * (1 + nat (MaxRetries (rt_policy r))) \<and>
       calls evs = dones evs)"
proof -
  obtain res s' where c: "ChatCompletionStream env r req s = (res, s')" by (meson surj_pair)
  from ChatCompletionStream_logged [OF c] obtain evs where l: "rs_log s' = rs_log s @ evs"
    and a: "account (rt_policy r) (Name ` set (chain_of r req)) (call_budget r req) (\<not> isl res) evs" by blast
  note order = ChatCompletionStream_order [OF c l] in_chain_order_count [OF ChatCompletionStream_order [OF c l] reg.chain_distinct]
  show ?thesis
  proof (cases res)
    case (Inl e)
    with a l c order show ?thesis by (auto simp: account_def)
  next
    case (Inr st)
    obtain obs where "rs_log (snd (forwardStream env sends st s')) = rs_log s @ evs @ [LDone (st_provider st) obs]"
      using forwardStream_log [of env sends st s'] l by auto
    with a c Inr order show ?thesis
      by (auto simp: account_def call_names_Cons intro!: exI [of _ "evs @ [LDone (st_provider st) obs]"])
  qed
qed

text \<open>
  Whenever the router sleeps before a retry under a time budget, the time already spent
  plus the delay fits \<open>MaxTotal\<close>, as long as that sum is an \<open>int64\<close>.
\<close>

lemma sleeps_fit_budget:
  assumes "ChatCompletion env r req s = (res, s')" "rs_log s' = rs_log s @ evs"
    and "LSleep (Some elapsed) delay \<in> set evs" "in_int64 (elapsed + delay)"
  shows "elapsed + delay \<le> MaxTotal (rt_policy r)"
proof -
  have "account (rt_policy r) (Name ` set (chain_of r req)) (call_budget r req) False evs"
    using ChatCompletion_logged [OF assms(1)] assms(2) by auto
  then have "event_ok (rt_policy r) (Name ` set (chain_of r req)) (LSleep (Some elapsed) delay)"
    using assms(3) by (auto simp: account_def list_all_iff)
  then show ?thesis using assms(4) by (simp add: wrap64_id)
qed

lemma sleeps_fit_budget_witness:
  "\<exists>delay. LSleep (Some 0) delay \<in> set (rs_log (snd (ChatCompletion scripted_env demo_router demo_request
      (demo_state [Inl (ProviderErr ErrTimeout), Inr demo_response])))) \<and> delay \<le> 30 * Second"
proof -
  let ?s = "demo_state [Inl (ProviderErr ErrTimeout), Inr demo_response]"
  obtain res s' where c: "ChatCompletion scripted_env demo_router demo_request ?s = (res, s')" by (meson surj_pair)
  have "rs_log (snd (ChatCompletion scripted_env demo_router demo_request ?s)) =
      [LCall ''a'', LDone ''a'' (Some (ProviderErr ErrTimeout)), LSleep (Some 0) (50 * Millisecond),
       LCall ''a'', LDone ''a'' None]"
    by code_simp
  with c have l: "LSleep (Some 0) (50 * Millisecond) \<in> set (rs_log s')" "rs_log s' = rs_log ?s @ rs_log s'"
    by (simp_all add: demo_state_def)
  from sleeps_fit_budget [OF c l(2) l(1)] l c show ?thesis
    by (intro exI [of _ "50 * Millisecond"]) (simp add: in_int64_bounds demo_router_def DefaultPolicy_def)
qed

text \<open>
  The sum is not always an \<open>int64\<close>.  Under the default policy an upstream that answers
  \<open>Retry-After: 9223372036\<close> once 855 ms of the budget are spent passes the budget check,
  because \<open>elapsed+delay\<close> wraps to a negative number, and the router starts a sleep of 292
  years.
\<close>

lemma retry_after_wraps_budget:
  assumes "as_UpstreamError e = Some ue" "ue_RetryAfter ue = 9223372036 * Second"
    and "\<forall>w. fst (re_now env w) = now" "in_int64 (now - start)" "855 * Millisecond \<le> now - start"
  shows "rs_log (snd (before_retry env DefaultPolicy n start a e s)) =
    rs_log s @ [LSleep (Some (now - start)) (9223372036 * Second)]"
proof -
  have delay: "backoffDuration DefaultPolicy (a + 1) (extractRetryAfter e) rnd = 9223372036 * Second" for rnd
    using assms(1,2) by (simp add: backoffDuration_def extractRetryAfter_def)
  obtain rnd s1 where s1: "with_world (re_random env) s = (rnd, s1)" by (meson surj_pair)
  obtain w2 where "re_now env (rs_world s1) = (now, w2)" using assms(3) by (metis prod.collapse)
  then obtain s2 where s2: "with_world (re_now env) s1 = (now, s2)" by (simp add: with_world_def)
  have sub: "time_sub now start = now - start" using assms(4) by (simp add: time_sub_def sat64_id)
  have "wrap64 (now - start + 9223372036 * Second) \<le> 0"
    using assms(4,5) by (subst wrap64_over) (simp_all add: in_int64_bounds)
  then have "\<not> wrap64 (now - start + 9223372036 * Second) > MaxTotal DefaultPolicy"
    by (simp add: DefaultPolicy_def)
  moreover have "MaxTotal DefaultPolicy > 0" by (simp add: DefaultPolicy_def)
  ultimately have "before_retry env DefaultPolicy n start a e s =
      with_world (re_sleep env (9223372036 * Second)) (emit (LSleep (Some (now - start)) (9223372036 * Second)) s2)"
    unfolding before_retry_def s1 Let_def delay by (simp add: s2 sub)
  then show ?thesis
    using with_world_log [OF s1] with_world_log [OF s2] by simp
qed

definition far_retry_after :: UpstreamError where
  "far_retry_after = \<lparr>ue_Provider = ''a'', ue_StatusCode = 429, ue_RetryAfter = 9223372036 * Second,
     ue_Message = [], ue_Sentinel = ErrRateLimited\<rparr>"

lemma retry_after_wraps_budget_witness:
  "rs_log (snd (before_retry (scripted_env\<lparr>re_now := \<lambda>w. (2 * Second, w)\<rparr>) DefaultPolicy ''a'' 0 0
     (UpstreamErr far_retry_after) (demo_state []))) = [LSleep (Some (2 * Second)) (9223372036 * Second)]"
  by (subst retry_after_wraps_budget [where now = "2 * Second" and ue = far_retry_after])
     (simp_all add: in_int64_bounds demo_state_def far_retry_after_def)

text \<open>
  C3: an error that is neither retryable nor the breaker's ends the request at the first
  provider: one call, no retry, no fail-over, the error unchanged, and the breaker counts a
  success.
\<close>

theorem permanent_error_short_circuits:
  assumes "ResolveChain (rt_resolver r) (r_Model req) = p # ps"
    and "with_world (re_now env) s = (start, s1)" "r_allow env (Name p) s1 = (Inr tok, s2)"
    and "fst (re_call env p req (rs_world s2)) = Inl e" "\<not> IsRetryable e" "\<not> isBreakerError e"
  shows "fst (ChatCompletion env r req s) = Inl e \<and>
    rs_log (snd (ChatCompletion env r req s)) = rs_log s @ [LCall (Name p), LDone (Name p) None]"
proof -
  obtain w where "re_call env p req (rs_world s2) = (Inl e, w)" using assms(4) by (metis prod.collapse)
  with assms have "ChatCompletion env r req s =
      (Inl e, r_done env (Name p) tok None ((emit (LCall (Name p)) s2)\<lparr>rs_world := w\<rparr>))"
    by (simp add: ChatCompletion_def chain_loop.simps tryProvider_def retry_loop.simps attemptOnce_def with_world_def)
  with with_world_log [OF assms(2)] r_allow_log [OF assms(3)] show ?thesis by simp
qed

theorem permanent_error_short_circuits_witness:
  "fst (ChatCompletion scripted_env demo_router demo_request
     (demo_state [Inl (ProviderErr ErrAuth), Inr demo_response])) = Inl (ProviderErr ErrAuth)"
proof -
  let ?s = "demo_state [Inl (ProviderErr ErrAuth), Inr demo_response]"
  have now: "with_world (re_now scripted_env) ?s = (0, ?s)"
    by (simp add: with_world_def scripted_env_def)
  obtain s2 where al: "r_allow scripted_env (Name (demo_provider ''a'')) ?s = (Inr (), s2)"
    and w: "rs_world s2 = [Inl (ProviderErr ErrAuth), Inr demo_response]"
    by (simp add: r_allow_def with_world_def pool_allow_def pool_get_def demo_defs newBreakerPool_def
        ReadyToTrip_def applyDefaults_def DefaultBreakerSettings_def Let_def on_state_change_def)
  have call: "fst (re_call scripted_env (demo_provider ''a'') demo_request (rs_world s2)) = Inl (ProviderErr ErrAuth)"
    by (simp add: w scripted_env_def)
  show ?thesis using permanent_error_short_circuits [OF demo_chain now al call] by (simp add: IsRetryable_def)
qed

text \<open>
  While the breakers of all the providers of the chain are open, a chat request returns
  the breaker's own error and calls no provider.
\<close>

lemma all_breakers_open:
  assumes "ResolveChain (rt_resolver r) (r_Model req) \<noteq> []" "refuses_while_open (re_gb env) is_open"
    and "all_open is_open (ResolveChain (rt_resolver r) (r_Model req)) s"
  shows "fst (ChatCompletion env r req s) = Inl ErrOpenState \<and>
    (\<exists>evs. rs_log (snd (ChatCompletion env r req s)) = rs_log s @ evs \<and> calls evs = 0)"
proof -
  obtain p ps where ch: "chain_of r req = p # ps" using assms(1) by (cases "chain_of r req") auto
  obtain start s1 where w: "with_world (re_now env) s = (start, s1)" by (meson surj_pair)
  have "all_open is_open (p # ps) s1"
    using assms(3) ch with_world_pool [OF w] by (simp add: all_open_def)
  from chain_loop_open [OF assms(2) this order_refl, of "rt_policy r" start req] w with_world_log [OF w] ch
  show ?thesis by (auto simp: ChatCompletion_def)
qed

definition open_breaker :: "gb_Counts \<times> gb_Settings \<Rightarrow> bool" where
  "open_breaker b = gs_ReadyToTrip (snd b) (fst b)"

lemma all_breakers_open_witness:
  "\<exists>b. open_breaker b \<and>
    fst (ChatCompletion scripted_env demo_router demo_request
      ((demo_state [Inr demo_response])\<lparr>rs_pool :=
         (newBreakerPool DefaultBreakerSettings)\<lparr>bp_bs := [''a'' \<mapsto> b, ''b'' \<mapsto> b]\<rparr>\<rparr>)) = Inl ErrOpenState"
proof -
  define b where "b = (\<lparr>gc_Requests = 8, gc_TotalSuccesses = 0, gc_TotalFailures = 8,
    gc_ConsecutiveSuccesses = 0, gc_ConsecutiveFailures = 8\<rparr>,
    \<lparr>gs_Name = ''a'', gs_MaxRequests = 1, gs_Interval = 1, gs_Timeout = 1,
     gs_ReadyToTrip = ReadyToTrip DefaultBreakerSettings\<rparr>)"
  have "fl64 1 = 1" by code_simp
  then have "open_breaker b"
    by (simp add: b_def open_breaker_def ReadyToTrip_def DefaultBreakerSettings_def f_of_int_exact f_div_def)
  moreover have "refuses_while_open (re_gb scripted_env) open_breaker"
    by (auto simp: refuses_while_open_def open_breaker_def scripted_env_def trip_gb_def)
  ultimately show ?thesis
    by (cases b, intro exI [of _ b] conjI conjunct1 [OF all_breakers_open [where is_open = open_breaker]])
       (simp_all add: demo_chain all_open_def demo_provider_def)
qed

text \<open>
  C4: the response of a successful chat request is what a provider of the model's chain
  returned for it, its call is the last one made, and the breaker saw a success.
\<close>

theorem response_from_chain:
  assumes "ChatCompletion env r req s = (Inr resp, s')"
  shows "\<exists>q \<in> set (ResolveChain (rt_resolver r) (r_Model req)).
    (\<exists>w. fst (re_call env q req w) = Inr resp) \<and>
    (\<exists>pre. rs_log s' = pre @ [LCall (Name q), LDone (Name q) None])"
proof (cases "chain_of r req")
  case Nil
  with assms show ?thesis by (simp add: ChatCompletion_def)
next
  case (Cons p ps)
  with assms obtain start s1 where
    "chain_loop env (rt_policy r) start (\<lambda>p. tryProvider env (rt_policy r) p req start) p ps s1 = (Inr resp, s')"
    by (auto simp: ChatCompletion_def split: prod.splits)
  from chain_loop_Inr [OF this] Cons obtain q s2 where q: "q \<in> set (chain_of r req)"
    "tryProvider env (rt_policy r) q req start s2 = (Inr resp, s')" by auto
  then obtain s3 where "attemptOnce env q req s3 = (Inr resp, s')"
    unfolding tryProvider_def by (auto dest: retry_loop_Inr)
  with attemptOnce_Inr q(1) show ?thesis by blast
qed

theorem response_from_chain_witness:
  "\<exists>q \<in> set [demo_provider ''a'', demo_provider ''b'']. \<exists>s' pre.
     ChatCompletion scripted_env demo_router demo_request (demo_state [Inr demo_response]) = (Inr demo_response, s') \<and>
     rs_log s' = pre @ [LCall (Name q), LDone (Name q) None]"
proof -
  have "fst (ChatCompletion scripted_env demo_router demo_request (demo_state [Inr demo_response])) = Inr demo_response"
    by code_simp
  then obtain s' where c:
    "ChatCompletion scripted_env demo_router demo_request (demo_state [Inr demo_response]) = (Inr demo_response, s')"
    by (metis prod.collapse)
  from response_from_chain [OF c] c show ?thesis unfolding demo_chain by blast
qed

text \<open>
  The forwarder delivers the committed chunk and then the provider's events, in order
  and without gaps, up to the send that fails because the client has gone; it reports the
  last error of the stream to the breaker when it delivered everything, and a clean call
  otherwise.
\<close>

lemma forward_stream_delivers:
  "forwardStream env sends st s =
     (let evs = EvChunk (st_first st) # st_rest st;
          done_all = (case sends of None \<Rightarrow> True | Some k \<Rightarrow> length evs \<le> k)
      in ((case sends of None \<Rightarrow> evs | Some k \<Rightarrow> take k evs),
          r_done env (st_provider st) (st_tok st)
            (if done_all then breakerObservation (last_error (st_rest st)) else None) s))"
proof (cases sends)
  case None
  then show ?thesis by (simp add: forwardStream_def forward_rest_eq last_error_def)
next
  case (Some k)
  then show ?thesis by (cases k) (auto simp: forwardStream_def forward_rest_eq last_error_def Let_def)
qed

end
