(* ===== verification/Cache.thy ===== *)
theory Cache
  imports KeyValue ProviderJson
begin

text \<open>
  \<open>internal/cache/exact.go\<close>: the exact-match response cache.  The bytes \<open>json.Marshal\<close>
  emits are given by their JSON tree, so \<open>sha\<close>, SHA-256 of those bytes, is a function of
  the tree.
\<close>

section \<open>Keys\<close>

definition cacheKeyPayload :: "ChatRequest \<Rightarrow> json" where
  "cacheKeyPayload req = JObj (members [
     (''model'', True, JStr (r_Model req)),
     (''messages'', True, enc_list Message_MarshalJSON (r_Messages req)),
     (''temperature'', r_Temperature req \<noteq> None, enc_float (the (r_Temperature req))),
     (''top_p'', r_TopP req \<noteq> None, enc_float (the (r_TopP req))),
     (''max_tokens'', r_MaxTokens req \<noteq> 0, JInt (r_MaxTokens req)),
     (''stop'', r_Stop req \<noteq> [], enc_list JStr (r_Stop req))])"

definition Key :: "(json \<Rightarrow> string) \<Rightarrow> ChatRequest \<Rightarrow> string" where
  "Key sha req = ''cache:exact:'' @ hex_encode (sha (cacheKeyPayload req))"

section \<open>The Redis cache\<close>

definition exact_Get :: "'k kv_ops \<Rightarrow> string \<Rightarrow> 'k \<Rightarrow> (goerr + ChatResponse) \<times> 'k" where
  "exact_Get kv key s = (case kv_Get kv key s of
     (Inl err, s') \<Rightarrow> (if errors_Is err RedisNil then Inl ErrMiss else Inl (Wrapped ''cache: redis get'' err), s')
   | (Inr raw, s') \<Rightarrow>
       ((case raw of
           Garbage e \<Rightarrow> Inl (Wrapped ''cache: decode entry'' (OtherErr e))
         | Blob j \<Rightarrow> (case ChatResponse_Unmarshal j of
             None \<Rightarrow> Inl (Wrapped ''cache: decode entry'' (OtherErr ''json''))
           | Some resp \<Rightarrow> Inr resp)), s'))"

definition exact_Set :: "'k kv_ops \<Rightarrow> string \<Rightarrow> ChatResponse option \<Rightarrow> duration \<Rightarrow> 'k \<Rightarrow> goerr option \<times> 'k" where
  "exact_Set kv key resp ttl s = (case resp of
     None \<Rightarrow> (Some (OtherErr ''cache: Set: nil response''), s)
   | Some r \<Rightarrow>
       if ttl \<le> 0 then (Some (OtherErr ''cache: Set: non-positive ttl''), s)
       else (case kv_Set kv key (Blob (ChatResponse_Marshal r)) ttl s of
               (Some err, s') \<Rightarrow> (Some (Wrapped ''cache: redis set'' err), s')
             | (None, s') \<Rightarrow> (None, s')))"

definition exact_Delete :: "'k kv_ops \<Rightarrow> string \<Rightarrow> 'k \<Rightarrow> goerr option \<times> 'k" where
  "exact_Delete kv key s = (case kv_Del kv key s of
     (Some err, s') \<Rightarrow> (Some (Wrapped ''cache: redis del'' err), s') | (None, s') \<Rightarrow> (None, s'))"

section \<open>What a key distinguishes\<close>

text \<open>The part of a request the key is derived from, extra members of messages in key order.\<close>

definition cache_view :: "ChatRequest \<Rightarrow> ChatRequest" where
  "cache_view r = r\<lparr>r_Messages := map Message_norm (r_Messages r), r_N := 0, r_Stream := False, r_User := [], r_Extra := []\<rparr>"

lemma payload_read_back:
  assumes "ChatRequest_ok r"
  shows "dec_struct ChatRequest_field ChatRequest0 (cacheKeyPayload r) = Some (cache_view r)"
proof -
  have t: "r_Temperature r \<noteq> None \<Longrightarrow> dec_float_ptr (enc_float (the (r_Temperature r))) = Some (r_Temperature r)"
    "r_TopP r \<noteq> None \<Longrightarrow> dec_float_ptr (enc_float (the (r_TopP r))) = Some (r_TopP r)"
    using assms by (auto simp: ChatRequest_ok_def dec_float_enc)
  have m: "dec_list Message_UnmarshalJSON (enc_list Message_MarshalJSON (r_Messages r)) = Some (map Message_norm (r_Messages r))"
    using assms by (intro messages_read_back) (simp add: ChatRequest_ok_def)
  have "in_int64 (r_MaxTokens r)" using assms by (simp add: ChatRequest_ok_def)
  then show ?thesis
    using t m stop_read_back [of "r_Stop r"]
    by (cases r; cases "r_Temperature r = None"; cases "r_TopP r = None")
       (simp_all add: cacheKeyPayload_def cache_view_def dec_struct_def dec_members_members ChatRequest_fields ChatRequest0_def)
qed

lemma Key_payload: "Key sha r = Key sha s \<longleftrightarrow> sha (cacheKeyPayload r) = sha (cacheKeyPayload s)"
  by (auto simp: Key_def dest: hex_encode_inj)

section \<open>Properties\<close>

text \<open>
  Where SHA-256 does not collide on their payloads, two requests share a cache key only
  if they agree on the model, the messages with their extra members, the sampling parameters
  and the stop list; and the number of choices, the user, the stream flag and all extra
  members of the request have no influence on the key.
\<close>

lemma cache_key_identifies:
  assumes "ChatRequest_ok r" "ChatRequest_ok s" "inj_on sha {cacheKeyPayload r, cacheKeyPayload s}"
  shows "(Key sha r = Key sha s \<longrightarrow> cache_view r = cache_view s) \<and>
    Key sha (r\<lparr>r_N := n, r_User := u, r_Stream := b, r_Extra := ex\<rparr>) = Key sha r"
proof
  show "Key sha r = Key sha s \<longrightarrow> cache_view r = cache_view s"
  proof
    assume "Key sha r = Key sha s"
    with assms(3) have "cacheKeyPayload r = cacheKeyPayload s" by (auto simp: Key_payload)
    with payload_read_back [OF assms(1)] payload_read_back [OF assms(2)] show "cache_view r = cache_view s" by simp
  qed
  show "Key sha (r\<lparr>r_N := n, r_User := u, r_Stream := b, r_Extra := ex\<rparr>) = Key sha r"
    by (simp add: Key_def cacheKeyPayload_def)
qed

definition demo_json_hash :: "json \<Rightarrow> string" where
  "demo_json_hash j = (if j = cacheKeyPayload demo_chat_request then ''a'' else ''b'')"

lemma cache_key_identifies_witness:
  "Key demo_json_hash demo_chat_request \<noteq> Key demo_json_hash (demo_chat_request\<lparr>r_Model := ''claude''\<rparr>) \<and>
   Key demo_json_hash (demo_chat_request\<lparr>r_N := 1, r_User := ''u'', r_Stream := True, r_Extra := []\<rparr>) = Key demo_json_hash demo_chat_request"
proof -
  let ?s = "demo_chat_request\<lparr>r_Model := ''claude''\<rparr>"
  have ok: "ChatRequest_ok demo_chat_request" "ChatRequest_ok ?s" by code_simp+
  have "cache_view demo_chat_request \<noteq> cache_view ?s" by code_simp
  moreover have "inj_on demo_json_hash {cacheKeyPayload demo_chat_request, cacheKeyPayload ?s}"
    by (auto simp: demo_json_hash_def inj_on_def split: if_splits)
  ultimately show ?thesis using cache_key_identifies [OF ok] by blast
qed

text \<open>
  A response stored under a key is what a later read of that key returns, as long as the
  store keeps it: all of it but the provider name, with extra members in key order.  A
  rejected write (no response, or a lifetime that is not positive) leaves the store alone,
  and a deleted key misses.
\<close>

lemma cache_set_get:
  assumes "kv_laws kv look" "ChatResponse_ok p" "exact_Set kv key (Some p) ttl s = (e, s')"
    "exact_Get kv key s' = (r, s'')" "exact_Delete kv key s'' = (e', t)" "exact_Get kv key t = (r', t')"
  shows "(e = None \<longrightarrow> 0 < ttl \<and> look s' = (look s)(key \<mapsto> Blob (ChatResponse_Marshal p)) \<and>
      (\<forall>q. r = Inr q \<longrightarrow> q = ChatResponse_norm p)) \<and>
    (ttl \<le> 0 \<longrightarrow> e \<noteq> None \<and> s' = s) \<and>
    (e' = None \<longrightarrow> (\<forall>q. r' \<noteq> Inr q))"
proof -
  have set: "e = None \<Longrightarrow> 0 < ttl \<and> look s' = (look s)(key \<mapsto> Blob (ChatResponse_Marshal p))"
    using assms(1,3) by (auto simp: exact_Set_def kv_Set_done split: if_splits prod.splits option.splits)
  have "r = Inr q \<Longrightarrow> e = None \<Longrightarrow> q = ChatResponse_norm p" for q
    using assms(1,4) set ChatResponse_read_back [OF assms(2)]
    by (auto simp: exact_Get_def dest!: kv_Get_hit split: prod.splits sum.splits if_splits blob.splits option.splits)
  moreover have "e' = None \<Longrightarrow> r' \<noteq> Inr q" for q
    using assms(5,6)
    by (auto simp: exact_Delete_def exact_Get_def dest!: kv_Get_hit [OF assms(1)] kv_Del_done [OF assms(1)] split: prod.splits sum.splits option.splits if_splits)
  ultimately show ?thesis using set assms(3) by (auto simp: exact_Set_def)
qed

definition demo_cached_response :: ChatResponse where
  "demo_cached_response = ChatResponse0\<lparr>p_ID := ''r1'', p_Provider := ''openai'',
     p_Choices := [Choice0\<lparr>c_Message := Message0\<lparr>m_Content := ''hi''\<rparr>, c_FinishReason := ''stop''\<rparr>]\<rparr>"

lemma cache_set_get_witness:
  "let (e, s) = exact_Set map_kv ''k'' (Some demo_cached_response) Minute Map.empty in
     e = None \<and> fst (exact_Get map_kv ''k'' s) = Inr (demo_cached_response\<lparr>p_Provider := []\<rparr>)"
proof -
  let ?b = "Blob (ChatResponse_Marshal demo_cached_response)" and ?p = demo_cached_response
  have ok: "ChatResponse_ok ?p" by code_simp
  have n: "ChatResponse_norm ?p = ?p\<lparr>p_Provider := []\<rparr>" by code_simp
  have s: "exact_Set map_kv ''k'' (Some ?p) Minute Map.empty = (None, [''k'' \<mapsto> ?b])"
    by (simp add: exact_Set_def map_kv_def)
  obtain q where g: "exact_Get map_kv ''k'' [''k'' \<mapsto> ?b] = (Inr q, [''k'' \<mapsto> ?b])"
    using ChatResponse_read_back [OF ok] by (simp add: exact_Get_def map_kv_def)
  obtain e' t r' t' where "exact_Delete map_kv ''k'' [''k'' \<mapsto> ?b] = (e', t)" "exact_Get map_kv ''k'' t = (r', t')"
    by (meson surj_pair)
  from cache_set_get [OF map_kv_laws ok s g this] g s n show ?thesis by simp
qed

end
