(* ===== verification/ChatHandler.thy ===== *)
theory ChatHandler
  imports ChatStream Router Compressor Route Cache BillingWorker Middleware
begin

text \<open>
  \<open>internal/server/chat.go\<close> and the state-changing part of \<open>chat_stream.go\<close>: the handler of
  \<open>/v1/chat/completions\<close>, which routes, compresses, limits, caches, calls the router, bills
  and counts.  It works on one record of the gateway's state; metrics are the list of the
  calls made to the metrics bundle, without the durations.  Keep-alive comments of a live
  stream are left out.
\<close>

section \<open>State and dependencies\<close>

datatype metric =
    ObserveRequest string string int
  | IncRouterBypass string
  | IncRouterDecision string string string
  | ObservePromptCompressed string int
  | IncRatelimitReject string
  | ObserveCacheLookup string
  | IncCacheHit string
  | IncCacheWrite string
  | AddTokens string string int int

record ('b, 'w, 'k, 'l, 'g) gateway =
  gw_router :: "('b, 'w) rstate"
  gw_kv :: 'k
  gw_limits :: 'l
  gw_worker :: Worker
  gw_rng :: 'g
  gw_metrics :: "metric list"

record ('b, 'tok, 'w, 'k, 'l, 'g) chat_deps =
  ch_env :: "('b, 'tok, 'w) router_env"
  ch_router :: Router
  ch_encode :: "string \<Rightarrow> nat option"
  ch_tokenizer :: bool
  ch_billing :: bool
  ch_cache :: "'k kv_ops option"
  ch_sha :: "json \<Rightarrow> string"
  ch_cacheTTL :: duration
  ch_classifier :: "RuleClassifier option"
  ch_rng :: "'g \<Rightarrow> rat \<times> 'g"
  ch_compressor :: "SlidingWindow option"
  ch_rules :: "Rule list"
  ch_allow :: "Limiter \<Rightarrow> string \<Rightarrow> int \<Rightarrow> 'l \<Rightarrow> (goerr + Decision) \<times> 'l"
  ch_limit_text :: "string \<Rightarrow> duration \<Rightarrow> string"
  ch_parse :: "string \<Rightarrow> string + json"

datatype body_read = NoBody | TooLarge | ReadFailed | Body string

text \<open>
  What one call of the handler finds: the body, the clock, the request's context at the end,
  and how many events its channel takes before the client is gone.
\<close>

record chat_call =
  cc_body :: body_read
  cc_started :: instant
  cc_latency_ms :: int
  cc_unix :: int
  cc_ctx_done :: bool
  cc_sends :: "nat option"

definition count_metric :: "metric \<Rightarrow> ('b, 'w, 'k, 'l, 'g) gateway \<Rightarrow> ('b, 'w, 'k, 'l, 'g) gateway" where
  "count_metric m s = s\<lparr>gw_metrics := gw_metrics s @ [m]\<rparr>"

section \<open>Reading the request\<close>

definition bad_request :: "string \<Rightarrow> string \<Rightarrow> mappedError" where
  "bad_request code msg = mapped 400 ''invalid_request_error'' code msg"

definition readChatRequest :: "(string \<Rightarrow> string + json) \<Rightarrow> body_read \<Rightarrow> mappedError + ChatRequest" where
  "readChatRequest parse body = (case body of
     NoBody \<Rightarrow> Inl (bad_request [] ''Empty request body'')
   | TooLarge \<Rightarrow> Inl (mapped 413 ''invalid_request_error'' ''request_too_large'' ''Request body exceeds 1 MiB'')
   | ReadFailed \<Rightarrow> Inl (bad_request [] ''Failed to read request body'')
   | Body raw \<Rightarrow>
       if raw = [] then Inl (bad_request [] ''Empty request body'')
       else case parse raw of
         Inl err \<Rightarrow> Inl (bad_request [] (''Malformed JSON: '' @ err))
       | Inr j \<Rightarrow> (case ChatRequest_UnmarshalJSON j of
           None \<Rightarrow> Inl (bad_request [] ''Malformed JSON: json: type mismatch'')
         | Some req \<Rightarrow>
             if r_Model req = [] then Inl (bad_request ''missing_model'' ''Field 'model' is required'')
             else if r_Messages req = [] then Inl (bad_request ''missing_messages'' ''Field 'messages' must contain at least one message'')
             else Inr req))"

section \<open>Counting and billing\<close>

definition tokenCounts :: "(string \<Rightarrow> nat option) \<Rightarrow> bool \<Rightarrow> ChatRequest \<Rightarrow> ChatResponse \<Rightarrow> int \<times> int" where
  "tokenCounts encode tk req resp =
     (let (p, c) = (case p_Usage resp of None \<Rightarrow> (0, 0) | Some u \<Rightarrow> (u_PromptTokens u, u_CompletionTokens u))
      in if \<not> tk then (p, c)
         else let t = tokenizer_For (r_Model req)
              in (if p = 0 then CountMessages encode t (r_Messages req) else p,
                  if c = 0 then foldl (\<lambda>n ch. n + CountText encode t (m_Content (c_Message ch))) c (p_Choices resp) else c))"

definition shouldCacheResponse :: "ChatResponse \<Rightarrow> int \<Rightarrow> bool" where
  "shouldCacheResponse resp promptTok =
     (if promptTok \<le> 0 \<or> p_Choices resp = [] then False
      else if c_FinishReason (hd (p_Choices resp)) \<noteq> ''stop'' then False
      else list_ex (\<lambda>ch. m_Content (c_Message ch) \<noteq> []) (p_Choices resp))"

text \<open>A closed queue panics, and with it the handler.\<close>

definition emitBillingEvent ::
  "bool \<Rightarrow> Event \<Rightarrow> ('b, 'w, 'k, 'l, 'g) gateway \<Rightarrow> ending \<times> ('b, 'w, 'k, 'l, 'g) gateway" where
  "emitBillingEvent bill ev s = (if \<not> bill then (Returned, s)
     else case Enqueue (ev_StartedAt ev) ev (gw_worker s) of (res, wk) \<Rightarrow>
       (if res = Panic then Panicked else Returned, s\<lparr>gw_worker := wk\<rparr>))"

definition apiKeyIDFrom :: "request \<Rightarrow> string" where
  "apiKeyIDFrom r = (case rq_Principal r of None \<Rightarrow> [] | Some p \<Rightarrow> pr_ID p)"

definition billing_event ::
  "chat_call \<Rightarrow> request \<Rightarrow> string \<Rightarrow> string \<Rightarrow> int \<Rightarrow> int \<Rightarrow> int \<Rightarrow> bool \<Rightarrow> string \<Rightarrow> Event" where
  "billing_event call r model prov promptTok completionTok status streamed errCode =
     \<lparr>ev_StartedAt = cc_started call, ev_RequestID = rq_ReqID r, ev_APIKeyID = apiKeyIDFrom r, ev_Provider = prov,
      ev_Model = model, ev_PromptTokens = promptTok, ev_CompletionTokens = completionTok,
      ev_LatencyMs = cc_latency_ms call, ev_Status = status, ev_Streamed = streamed, ev_ErrorCode = errCode\<rparr>"

section \<open>Routing and compression\<close>

definition classify_step ::
  "('b, 'tok, 'w, 'k, 'l, 'g) chat_deps \<Rightarrow> request \<Rightarrow> ChatRequest \<Rightarrow> resp_writer \<Rightarrow> ('b, 'w, 'k, 'l, 'g) gateway \<Rightarrow>
   ChatRequest \<times> resp_writer \<times> ('b, 'w, 'k, 'l, 'g) gateway" where
  "classify_step deps r req w s = (case ch_classifier deps of
     None \<Rightarrow> (req, w, s)
   | Some c \<Rightarrow>
       if HasScope (rq_Principal r) ''smart_route'' ''disable''
       then (req, set_header ''X-X-Beacon-Route-Rule'' ''skip:scope'' w, count_metric (IncRouterBypass ''scope'') s)
       else (case Classify (ch_encode deps) (ch_rng deps) c req (gw_rng s) of (d, g) \<Rightarrow>
         let s1 = s\<lparr>gw_rng := g\<rparr>
         in if route_Empty d then (req, w, s1)
            else (req\<lparr>r_Model := rd_Model d\<rparr>,
                  set_header ''X-X-Beacon-Route-To'' (rd_Model d) (set_header ''X-X-Beacon-Route-From'' (r_Model req)
                    (set_header ''X-X-Beacon-Route-Rule'' (rd_Rule d) w)),
                  count_metric (IncRouterDecision (r_Model req) (rd_Model d) (rd_Rule d)) s1)))"

definition compress_step ::
  "('b, 'tok, 'w, 'k, 'l, 'g) chat_deps \<Rightarrow> ChatRequest \<Rightarrow> resp_writer \<Rightarrow> ('b, 'w, 'k, 'l, 'g) gateway \<Rightarrow>
   ChatRequest \<times> resp_writer \<times> ('b, 'w, 'k, 'l, 'g) gateway" where
  "compress_step deps req w s = (case ch_compressor deps of
     None \<Rightarrow> (req, w, s)
   | Some c \<Rightarrow> (case Compress (ch_encode deps) (Some c) req of (res, req') \<Rightarrow>
       if cr_Compressed res
       then (req', set_header ''X-X-Beacon-Prompt-Compressed'' ''1'' w,
             count_metric (ObservePromptCompressed (r_Model req') (cr_TokensBefore res - cr_TokensAfter res)) s)
       else (req', w, s)))"

section \<open>Token limits\<close>

text \<open>\<open>(d.RetryAfter + time.Second - 1) / time.Second\<close>; the sum may wrap.\<close>

definition token_retry_after :: "duration \<Rightarrow> int" where
  "token_retry_after d = go_div (wrap64 (d + Second - 1)) Second"

text \<open>\<open>Some\<close> is the response that ends the request.\<close>

definition token_limit_step ::
  "('b, 'tok, 'w, 'k, 'l, 'g) chat_deps \<Rightarrow> request \<Rightarrow> ChatRequest \<Rightarrow> resp_writer \<Rightarrow> ('b, 'w, 'k, 'l, 'g) gateway \<Rightarrow>
   resp_writer option \<times> ('b, 'w, 'k, 'l, 'g) gateway" where
  "token_limit_step deps r req w s =
     (if ch_rules deps = [] \<or> \<not> ch_tokenizer deps then (None, s)
      else let kctx = \<lparr>kc_APIKeyID = apiKeyIDFrom r, kc_Model = r_Model req\<rparr>;
               promptTok = CountMessages (ch_encode deps) (tokenizer_For (r_Model req)) (r_Messages req)
           in case CheckTokens (ch_allow deps) (ch_rules deps) kctx promptTok (gw_limits s) of
                (Inl err, l) \<Rightarrow> (None, s\<lparr>gw_limits := l\<rparr>)
              | (Inr d, l) \<Rightarrow>
                  let s1 = s\<lparr>gw_limits := l\<rparr>
                  in if d_Allowed d then (None, s1)
                     else let w1 = (if d_RetryAfter d > 0 then set_header ''Retry-After'' (itoa (token_retry_after (d_RetryAfter d))) w else w)
                          in (Some (writeError (mapped 429 ''rate_limit_error'' ''rate_limit_exceeded''
                                (ch_limit_text deps (d_Rule d) (d_RetryAfter d))) (rq_ReqID r) w1),
                              count_metric (ObserveRequest [] (r_Model req) 429) (count_metric (IncRatelimitReject (d_Rule d)) s1)))"

section \<open>The cache\<close>

text \<open>\<open>None\<close> when the handler has no cache; the key and the response found, if any.\<close>

definition cache_lookup ::
  "('b, 'tok, 'w, 'k, 'l, 'g) chat_deps \<Rightarrow> ChatRequest \<Rightarrow> ('b, 'w, 'k, 'l, 'g) gateway \<Rightarrow>
   (string \<times> ChatResponse option) option \<times> ('b, 'w, 'k, 'l, 'g) gateway" where
  "cache_lookup deps req s = (case ch_cache deps of
     None \<Rightarrow> (None, s)
   | Some kv \<Rightarrow>
       let key = Key (ch_sha deps) req
       in case exact_Get kv key (gw_kv s) of (res, k) \<Rightarrow>
            let s1 = s\<lparr>gw_kv := k\<rparr>
            in case res of
                 Inr cached \<Rightarrow> (Some (key, Some cached), count_metric (ObserveCacheLookup ''hit'') s1)
               | Inl err \<Rightarrow> (Some (key, None), count_metric (ObserveCacheLookup (if errors_Is err ErrMiss then ''miss'' else ''error'')) s1))"

definition cache_store ::
  "('b, 'tok, 'w, 'k, 'l, 'g) chat_deps \<Rightarrow> string \<Rightarrow> ChatResponse \<Rightarrow> ('b, 'w, 'k, 'l, 'g) gateway \<Rightarrow> ('b, 'w, 'k, 'l, 'g) gateway" where
  "cache_store deps key resp s = (case ch_cache deps of
     None \<Rightarrow> s
   | Some kv \<Rightarrow> (case exact_Set kv key (Some resp) (ch_cacheTTL deps) (gw_kv s) of (err, k) \<Rightarrow>
       let s1 = s\<lparr>gw_kv := k\<rparr> in if err = None then count_metric (IncCacheWrite ''exact'') s1 else s1))"

definition miss_header :: "('b, 'tok, 'w, 'k, 'l, 'g) chat_deps \<Rightarrow> resp_writer \<Rightarrow> resp_writer" where
  "miss_header deps w = (if ch_cache deps = None then w else set_header ''X-X-Beacon-Cache'' ''miss'' w)"

section \<open>Without streaming\<close>

definition upstream_failed ::
  "('b, 'tok, 'w, 'k, 'l, 'g) chat_deps \<Rightarrow> chat_call \<Rightarrow> request \<Rightarrow> ChatRequest \<Rightarrow> bool \<Rightarrow> goerr \<Rightarrow> resp_writer \<Rightarrow>
   ('b, 'w, 'k, 'l, 'g) gateway \<Rightarrow> ending \<times> resp_writer \<times> ('b, 'w, 'k, 'l, 'g) gateway" where
  "upstream_failed deps call r req streamed err w s =
     (let m = mapProviderError err;
          s1 = count_metric (ObserveRequest [] (r_Model req) (me_Status m)) s
      in case emitBillingEvent (ch_billing deps) (billing_event call r (r_Model req) [] 0 0 (me_Status m) streamed (me_Code m)) s1 of
           (e, s2) \<Rightarrow> (e, writeError m (rq_ReqID r) w, s2))"

text \<open>The end of a request that was answered upstream: the answer, the cache, the counters, the bill.\<close>

definition finish_unary ::
  "('b, 'tok, 'w, 'k, 'l, 'g) chat_deps \<Rightarrow> chat_call \<Rightarrow> string option \<Rightarrow> ChatRequest \<Rightarrow> request \<Rightarrow> ChatResponse \<Rightarrow> resp_writer \<Rightarrow>
   ('b, 'w, 'k, 'l, 'g) gateway \<Rightarrow> ending \<times> resp_writer \<times> ('b, 'w, 'k, 'l, 'g) gateway" where
  "finish_unary deps call key req r resp w s =
     (let w1 = jsonEncode (ChatResponse_Marshal resp) (WriteHeader 200 (set_header ''Content-Type'' ''application/json'' w));
          (promptTok, completionTok) = tokenCounts (ch_encode deps) (ch_tokenizer deps) req resp;
          s1 = (case key of
                  None \<Rightarrow> s
                | Some k \<Rightarrow> if ch_cacheTTL deps > 0 \<and> shouldCacheResponse resp promptTok then cache_store deps k resp s else s);
          s2 = count_metric (AddTokens (p_Provider resp) (r_Model req) promptTok completionTok)
                 (count_metric (ObserveRequest (p_Provider resp) (r_Model req) 200) s1)
      in case emitBillingEvent (ch_billing deps) (billing_event call r (r_Model req) (p_Provider resp) promptTok completionTok 200 False []) s2 of
           (e, s3) \<Rightarrow> (e, w1, s3))"

definition handle_unary ::
  "('b, 'tok, 'w, 'k, 'l, 'g) chat_deps \<Rightarrow> chat_call \<Rightarrow> ChatRequest \<Rightarrow> ('b, 'w, 'k, 'l, 'g) gateway handler" where
  "handle_unary deps call req r w s = (case cache_lookup deps req s of
     (Some (key, Some cached), s1) \<Rightarrow>
       (Returned,
        jsonEncode (ChatResponse_Marshal cached) (WriteHeader 200 (set_header ''Content-Type'' ''application/json'' (set_header ''X-X-Beacon-Cache'' ''hit'' w))),
        count_metric (ObserveRequest (p_Provider cached) (r_Model req) 200) (count_metric (IncCacheHit ''exact'') s1))
   | (found, s1) \<Rightarrow>
       (case ChatCompletion (ch_env deps) (ch_router deps) req (gw_router s1) of
          (Inl err, rs) \<Rightarrow> upstream_failed deps call r req False err (miss_header deps w) (s1\<lparr>gw_router := rs\<rparr>)
        | (Inr resp, rs) \<Rightarrow> finish_unary deps call (map_option fst found) req r resp (miss_header deps w) (s1\<lparr>gw_router := rs\<rparr>)))"

section \<open>With streaming\<close>

definition no_streaming :: "request \<Rightarrow> resp_writer \<Rightarrow> resp_writer" where
  "no_streaming r w = writeError (mapped 500 ''internal_error'' [] ''Server does not support streaming'') (rq_ReqID r) w"

text \<open>What follows the loop over a stream's events.\<close>

definition finish_stream ::
  "('b, 'tok, 'w, 'k, 'l, 'g) chat_deps \<Rightarrow> chat_call \<Rightarrow> string option \<Rightarrow> ChatRequest \<Rightarrow> request \<Rightarrow> stream_progress \<Rightarrow>
   ('b, 'w, 'k, 'l, 'g) gateway \<Rightarrow> ending \<times> resp_writer \<times> ('b, 'w, 'k, 'l, 'g) gateway" where
  "finish_stream deps call key req r p s =
     (let clean = (sp_status p = 200);
          w1 = (if \<not> cc_ctx_done call \<and> clean then snd (WriteDone (sp_w p)) else sp_w p);
          stats = sp_stats p;
          (promptTok, completionTok) = stream_tokenCounts (ch_encode deps) (ch_tokenizer deps) stats req;
          s1 = count_metric (ObserveRequest (ss_provider stats) (r_Model req) (sp_status p)) s;
          s2 = (if clean then count_metric (AddTokens (ss_provider stats) (r_Model req) promptTok completionTok) s1 else s1);
          cacheable = toCachedResponse (cc_unix call) stats req;
          s3 = (case key of
                  None \<Rightarrow> s2
                | Some k \<Rightarrow> if clean \<and> \<not> cc_ctx_done call \<and> shouldCacheResponse cacheable promptTok \<and> ch_cacheTTL deps > 0
                            then cache_store deps k cacheable s2 else s2)
      in case emitBillingEvent (ch_billing deps) (billing_event call r (r_Model req) (ss_provider stats) promptTok completionTok (sp_status p) True (sp_errCode p)) s3 of
           (e, s4) \<Rightarrow> (e, w1, s4))"

definition handleChatStream ::
  "('b, 'tok, 'w, 'k, 'l, 'g) chat_deps \<Rightarrow> chat_call \<Rightarrow> string option \<Rightarrow> ChatRequest \<Rightarrow> ('b, 'w, 'k, 'l, 'g) gateway handler" where
  "handleChatStream deps call key req r w s =
     (case ChatCompletionStream (ch_env deps) (ch_router deps) req (gw_router s) of
        (Inl err, rs) \<Rightarrow> upstream_failed deps call r req True err w (s\<lparr>gw_router := rs\<rparr>)
      | (Inr st, rs) \<Rightarrow>
          (case forwardStream (ch_env deps) (cc_sends call) st rs of (evs, rs1) \<Rightarrow>
             let s1 = s\<lparr>gw_router := rs1\<rparr>
             in case sse_New w of
                  Inl _ \<Rightarrow> (Returned, no_streaming r w, s1)
                | Inr sw \<Rightarrow> finish_stream deps call key req r
                    (stream_loop (rq_ReqID r) evs \<lparr>sp_w = sw, sp_stats = streamStats0, sp_status = 200, sp_errCode = []\<rparr>) s1))"

definition handle_stream ::
  "('b, 'tok, 'w, 'k, 'l, 'g) chat_deps \<Rightarrow> chat_call \<Rightarrow> ChatRequest \<Rightarrow> ('b, 'w, 'k, 'l, 'g) gateway handler" where
  "handle_stream deps call req r w s = (case cache_lookup deps req s of
     (Some (key, Some cached), s1) \<Rightarrow>
       let w1 = set_header ''X-X-Beacon-Cache'' ''hit'' w
       in (case sse_New w1 of
             Inl _ \<Rightarrow> (Returned, no_streaming r w1, s1)
           | Inr sw \<Rightarrow> (Returned, replayCachedStream (cc_unix call) (rq_ReqID r) cached sw,
               count_metric (ObserveRequest (p_Provider cached) (r_Model req) 200) (count_metric (IncCacheHit ''exact'') s1)))
   | (found, s1) \<Rightarrow> handleChatStream deps call (map_option fst found) req r (miss_header deps w) s1)"

section \<open>The handler\<close>

definition chatCompletionsHandler ::
  "('b, 'tok, 'w, 'k, 'l, 'g) chat_deps \<Rightarrow> chat_call \<Rightarrow> ('b, 'w, 'k, 'l, 'g) gateway handler" where
  "chatCompletionsHandler deps call r w s = (case readChatRequest (ch_parse deps) (cc_body call) of
     Inl m \<Rightarrow> (Returned, writeError m (rq_ReqID r) w, count_metric (ObserveRequest [] [] (me_Status m)) s)
   | Inr req0 \<Rightarrow>
       (case classify_step deps r req0 w s of (req1, w1, s1) \<Rightarrow>
       (case compress_step deps req1 w1 s1 of (req, w2, s2) \<Rightarrow>
        (case ResolveModel (rt_resolver (ch_router deps)) (r_Model req) of
           Inl _ \<Rightarrow> (Returned,
             writeError (bad_request ''model_not_found'' (''Model '' @ r_Model req @ '' is not configured on this gateway'')) (rq_ReqID r) w2,
             count_metric (ObserveRequest [] (r_Model req) 400) s2)
         | Inr _ \<Rightarrow>
             (case token_limit_step deps r req w2 s2 of
                (Some w3, s3) \<Rightarrow> (Returned, w3, s3)
              | (None, s3) \<Rightarrow>
                  if r_Stream req then handle_stream deps call req r w2 s3 else handle_unary deps call req r w2 s3)))))"

end
