(* ===== verification/ChatProperties.thy ===== *)
theory ChatProperties
  imports ChatHandler
begin

text \<open>
  What the chat endpoint guarantees: every request is answered, a request that was routed
  upstream is offered to the billing queue exactly once, a repeated request is served from
  the cache, and the frames a streaming client receives.
\<close>

section \<open>What the steps leave alone\<close>

lemma count_metric_simps [simp]:
  "gw_router (count_metric m s) = gw_router s" "gw_kv (count_metric m s) = gw_kv s" "gw_limits (count_metric m s) = gw_limits s"
  "gw_worker (count_metric m s) = gw_worker s" "gw_rng (count_metric m s) = gw_rng s"
  "gw_metrics (count_metric m s) = gw_metrics s @ [m]"
  by (simp_all add: count_metric_def)

lemma emitBillingEvent_simps [simp]:
  "gw_router (snd (emitBillingEvent b ev s)) = gw_router s" "gw_kv (snd (emitBillingEvent b ev s)) = gw_kv s"
  "gw_metrics (snd (emitBillingEvent b ev s)) = gw_metrics s"
  by (simp_all add: emitBillingEvent_def split: prod.splits)

lemma cache_lookup_frame:
  "gw_router (snd (cache_lookup deps req s)) = gw_router s" "gw_worker (snd (cache_lookup deps req s)) = gw_worker s"
  by (simp_all add: cache_lookup_def Let_def split: option.splits prod.splits sum.splits)

lemma cache_store_frame [simp]:
  "gw_router (cache_store deps key resp s) = gw_router s" "gw_worker (cache_store deps key resp s) = gw_worker s"
  by (simp_all add: cache_store_def Let_def split: option.splits prod.splits)

lemma classify_step_frame:
  assumes "classify_step deps r req w s = (req', w', s')"
  shows "gw_router s' = gw_router s" "gw_worker s' = gw_worker s" "gw_kv s' = gw_kv s" "rw_status w' = rw_status w" "rw_flusher w' = rw_flusher w"
    "rw_body w' = rw_body w" "rw_writes w' = rw_writes w"
  using assms by (auto simp: classify_step_def Let_def split: option.splits if_splits prod.splits)

lemma compress_step_frame:
  assumes "compress_step deps req w s = (req', w', s')"
  shows "gw_router s' = gw_router s" "gw_worker s' = gw_worker s" "gw_kv s' = gw_kv s" "rw_status w' = rw_status w" "rw_flusher w' = rw_flusher w"
    "rw_body w' = rw_body w" "rw_writes w' = rw_writes w"
  using assms by (auto simp: compress_step_def Let_def split: option.splits if_splits prod.splits)

lemma token_limit_step_frame:
  assumes "token_limit_step deps r req w s = (stop, s')"
  shows "gw_router s' = gw_router s" "gw_worker s' = gw_worker s" "gw_kv s' = gw_kv s"
    "rw_status w = None \<Longrightarrow> stop = Some w' \<Longrightarrow> rw_status w' = Some 429"
  using assms by (auto simp: token_limit_step_def Let_def writeError_status mapped_def split: sum.splits if_splits prod.splits)

lemma miss_header_frame [simp]: "rw_status (miss_header deps w) = rw_status w" "rw_flusher (miss_header deps w) = rw_flusher w"
   "rw_body (miss_header deps w) = rw_body w" "rw_writes (miss_header deps w) = rw_writes w"
  by (simp_all add: miss_header_def)


text \<open>What one request may do to the billing queue: offer it one event, which carries its identity.\<close>

definition billed_once :: "request \<Rightarrow> bool \<Rightarrow> int \<Rightarrow> ('b, 'w, 'k, 'l, 'g) gateway \<Rightarrow> ('b, 'w, 'k, 'l, 'g) gateway \<Rightarrow> bool" where
  "billed_once r streamed st s s' \<longleftrightarrow> (\<exists>ev. gw_worker s' = snd (Enqueue (ev_StartedAt ev) ev (gw_worker s)) \<and>
     ev_RequestID ev = rq_ReqID r \<and> ev_APIKeyID ev = apiKeyIDFrom r \<and> ev_Streamed ev = streamed \<and> ev_Status ev = st)"

lemma billed_onceI:
  assumes "emitBillingEvent b (billing_event call r model prov p c st streamed code) s1 = (e, s')" "b" "gw_worker s1 = gw_worker s"
  shows "billed_once r streamed st s s'"
proof -
  let ?ev = "billing_event call r model prov p c st streamed code"
  have "gw_worker s' = snd (Enqueue (ev_StartedAt ?ev) ?ev (gw_worker s))"
    using assms by (auto simp: emitBillingEvent_def split: prod.splits)
  then show ?thesis unfolding billed_once_def by (intro exI [where x = ?ev]) (simp add: billing_event_def)
qed

definition untouched :: "('b, 'w, 'k, 'l, 'g) gateway \<Rightarrow> ('b, 'w, 'k, 'l, 'g) gateway \<Rightarrow> bool" where
  "untouched s s' \<longleftrightarrow> gw_router s' = gw_router s \<and> gw_worker s' = gw_worker s"

lemma upstream_failed_outcome:
  assumes "upstream_failed deps call r req streamed err w s1 = (e, w', s')" "rw_status w = None"
  shows "rw_status w' = Some (me_Status (mapProviderError err))"
    and "ch_billing deps \<Longrightarrow> gw_worker s1 = gw_worker s \<Longrightarrow> billed_once r streamed (me_Status (mapProviderError err)) s s'"
  using assms by (auto simp: upstream_failed_def Let_def writeError_status split: prod.splits elim!: billed_onceI)

text \<open>Whether the cache has an answer to a request.\<close>

definition cache_hit :: "('b, 'tok, 'w, 'k, 'l, 'g) chat_deps \<Rightarrow> ChatRequest \<Rightarrow> ('b, 'w, 'k, 'l, 'g) gateway \<Rightarrow> bool" where
  "cache_hit deps req s = (case fst (cache_lookup deps req s) of Some (_, Some _) \<Rightarrow> True | _ \<Rightarrow> False)"

lemma cache_hit_iff: "cache_lookup deps req s = (found, s1) \<Longrightarrow> cache_hit deps req s \<longleftrightarrow> (\<exists>key cached. found = Some (key, Some cached))"
  by (auto simp: cache_hit_def split: option.splits)

lemma handle_unary_hit:
  "cache_lookup deps req s = (Some (key, Some cached), s1) \<Longrightarrow> handle_unary deps call req r w s =
     (Returned,
      jsonEncode (ChatResponse_Marshal cached) (WriteHeader 200 (set_header ''Content-Type'' ''application/json'' (set_header ''X-X-Beacon-Cache'' ''hit'' w))),
      count_metric (ObserveRequest (p_Provider cached) (r_Model req) 200) (count_metric (IncCacheHit ''exact'') s1))"
  by (simp add: handle_unary_def)

lemma handle_unary_miss:
  assumes "cache_lookup deps req s = (found, s1)" "\<And>key cached. found \<noteq> Some (key, Some cached)"
  shows "handle_unary deps call req r w s = (case ChatCompletion (ch_env deps) (ch_router deps) req (gw_router s1) of
       (Inl err, rs) \<Rightarrow> upstream_failed deps call r req False err (miss_header deps w) (s1\<lparr>gw_router := rs\<rparr>)
     | (Inr resp, rs) \<Rightarrow> finish_unary deps call (map_option fst found) req r resp (miss_header deps w) (s1\<lparr>gw_router := rs\<rparr>))"
  using assms by (auto simp: handle_unary_def split: option.splits)

lemma handle_stream_miss:
  assumes "cache_lookup deps req s = (found, s1)" "\<And>key cached. found \<noteq> Some (key, Some cached)"
  shows "handle_stream deps call req r w s = handleChatStream deps call (map_option fst found) req r (miss_header deps w) s1"
  using assms by (auto simp: handle_stream_def split: option.splits)

lemma finish_unary_outcome:
  assumes "finish_unary deps call key req r resp w s1 = (e, w', s')" "rw_status w = None"
  shows "rw_status w' = Some 200"
    and "ch_billing deps \<Longrightarrow> gw_worker s1 = gw_worker s \<Longrightarrow> billed_once r False 200 s s'"
proof -
  show "rw_status w' = Some 200" using assms by (auto simp: finish_unary_def Let_def split: prod.splits)
next
  assume b: "ch_billing deps" "gw_worker s1 = gw_worker s"
  obtain p c where tc: "tokenCounts (ch_encode deps) (ch_tokenizer deps) req resp = (p, c)" by force
  from assms(1) b show "billed_once r False 200 s s'"
    by (auto simp: finish_unary_def Let_def tc split: prod.splits option.splits if_splits elim!: billed_onceI)
qed

lemma finish_stream_outcome:
  assumes "finish_stream deps call key req r p s1 = (e, w', s')"
  shows "\<not> cc_ctx_done call \<Longrightarrow> sp_status p = 200 \<Longrightarrow> w' = snd (WriteDone (sp_w p))"
    and "cc_ctx_done call \<or> sp_status p \<noteq> 200 \<Longrightarrow> w' = sp_w p"
    and "ch_billing deps \<Longrightarrow> gw_worker s1 = gw_worker s \<Longrightarrow> billed_once r True (sp_status p) s s'"
proof -
  show "\<not> cc_ctx_done call \<Longrightarrow> sp_status p = 200 \<Longrightarrow> w' = snd (WriteDone (sp_w p))"
    and "cc_ctx_done call \<or> sp_status p \<noteq> 200 \<Longrightarrow> w' = sp_w p"
    using assms by (auto simp: finish_stream_def Let_def split: prod.splits)
next
  assume b: "ch_billing deps" "gw_worker s1 = gw_worker s"
  obtain pt ct where tc: "stream_tokenCounts (ch_encode deps) (ch_tokenizer deps) (sp_stats p) req = (pt, ct)" by force
  from assms(1) b show "billed_once r True (sp_status p) s s'"
    by (auto simp: finish_stream_def Let_def tc split: prod.splits option.splits if_splits elim!: billed_onceI)
qed

lemma handle_unary_outcome:
  assumes "handle_unary deps call req r w s = (e, w', s')" "rw_status w = None"
  shows "\<exists>st \<in> {200, 400, 429, 500, 502, 503, 504}. rw_status w' = Some st \<and>
    (if cache_hit deps req s then untouched s s' \<and> st = 200 else ch_billing deps \<longrightarrow> billed_once r False st s s')"
proof -
  obtain found s1 where cl: "cache_lookup deps req s = (found, s1)" by force
  note fr = cache_lookup_frame [of deps req s, unfolded cl snd_conv] and hit = cache_hit_iff [OF cl]
  obtain res rs where cc: "ChatCompletion (ch_env deps) (ch_router deps) req (gw_router s1) = (res, rs)" by force
  consider key cached where "found = Some (key, Some cached)" | "\<And>key cached. found \<noteq> Some (key, Some cached)" by blast
  then show ?thesis
  proof cases
    case 1
    then have "(e, w', s') = (Returned,
      jsonEncode (ChatResponse_Marshal cached) (WriteHeader 200 (set_header ''Content-Type'' ''application/json'' (set_header ''X-X-Beacon-Cache'' ''hit'' w))),
      count_metric (ObserveRequest (p_Provider cached) (r_Model req) 200) (count_metric (IncCacheHit ''exact'') s1))"
      using assms(1) cl handle_unary_hit by metis
    then show ?thesis using assms(2) fr hit 1 by (simp add: untouched_def)
  next
    case 2
    note eq = handle_unary_miss [OF cl 2, of call r w, unfolded cc assms(1)]
    have w: "rw_status (miss_header deps w) = None" and k: "gw_worker (s1\<lparr>gw_router := rs\<rparr>) = gw_worker s" using assms(2) fr by simp_all
    show ?thesis
    proof (cases res)
      case (Inl err)
      with eq have "upstream_failed deps call r req False err (miss_header deps w) (s1\<lparr>gw_router := rs\<rparr>) = (e, w', s')" by simp
      from upstream_failed_outcome [OF this w] k mapProviderError_status [of err] show ?thesis using hit 2 by auto
    next
      case (Inr resp)
      with eq have "finish_unary deps call (map_option fst found) req r resp (miss_header deps w) (s1\<lparr>gw_router := rs\<rparr>) = (e, w', s')" by simp
      from finish_unary_outcome [OF this w] k show ?thesis using hit 2 by auto
    qed
  qed
qed


lemma sse_New_ok: "rw_flusher w \<Longrightarrow> \<exists>sw. sse_New w = Inr sw \<and> rw_status sw = rw_status w \<and> rw_body sw = rw_body w \<and> rw_writes sw = rw_writes w"
  by (simp add: sse_New_def)

lemma handleChatStream_outcome:
  assumes "handleChatStream deps call key req r w s1 = (e, w', s')" "rw_status w = None" "rw_flusher w"
  shows "\<not> cc_ctx_done call \<Longrightarrow> \<exists>st \<in> {200, 400, 429, 500, 502, 503, 504}. rw_status w' = Some st"
    and "ch_billing deps \<Longrightarrow> gw_worker s1 = gw_worker s \<Longrightarrow> \<exists>st. billed_once r True st s s'"
proof -
  obtain res rs where cc: "ChatCompletionStream (ch_env deps) (ch_router deps) req (gw_router s1) = (res, rs)" by force
  have "(\<not> cc_ctx_done call \<longrightarrow> (\<exists>st \<in> {200, 400, 429, 500, 502, 503, 504}. rw_status w' = Some st)) \<and>
    (ch_billing deps \<and> gw_worker s1 = gw_worker s \<longrightarrow> (\<exists>st. billed_once r True st s s'))"
  proof (cases res)
    case (Inl err)
    with assms(1) cc have "upstream_failed deps call r req True err w (s1\<lparr>gw_router := rs\<rparr>) = (e, w', s')" by (simp add: handleChatStream_def)
    from upstream_failed_outcome(1) [OF this assms(2)] upstream_failed_outcome(2) [OF this assms(2), of s] mapProviderError_status [of err]
    show ?thesis by auto
  next
    case (Inr st)
    obtain evs rs1 where fs: "forwardStream (ch_env deps) (cc_sends call) st rs = (evs, rs1)" by force
    obtain sw where sw: "sse_New w = Inr sw" "rw_status sw = None" using sse_New_ok [OF assms(3)] assms(2) by metis
    let ?p = "stream_loop (rq_ReqID r) evs \<lparr>sp_w = sw, sp_stats = streamStats0, sp_status = 200, sp_errCode = []\<rparr>"
    from assms(1) cc fs sw Inr have fin: "finish_stream deps call key req r ?p (s1\<lparr>gw_router := rs1\<rparr>) = (e, w', s')"
      by (simp add: handleChatStream_def Let_def)
    note ps = stream_loop_status [of "rq_ReqID r" evs "\<lparr>sp_w = sw, sp_stats = streamStats0, sp_status = 200, sp_errCode = []\<rparr>"]
    have "rw_status w' = Some 200" if "\<not> cc_ctx_done call"
      using finish_stream_outcome(1,2) [OF fin] that ps(1,3) sw(2)
      by (cases "sp_status ?p = 200") (auto simp: WriteDone_def split: if_splits)
    then show ?thesis using finish_stream_outcome(3) [OF fin, of s] by auto
  qed
  then show "\<not> cc_ctx_done call \<Longrightarrow> \<exists>st \<in> {200, 400, 429, 500, 502, 503, 504}. rw_status w' = Some st"
    and "ch_billing deps \<Longrightarrow> gw_worker s1 = gw_worker s \<Longrightarrow> \<exists>st. billed_once r True st s s'" by blast+
qed

lemma handle_stream_outcome:
  assumes "handle_stream deps call req r w s = (e, w', s')" "rw_status w = None" "rw_flusher w"
  shows "\<not> cc_ctx_done call \<Longrightarrow> \<exists>st \<in> {200, 400, 429, 500, 502, 503, 504}. rw_status w' = Some st"
    and "cache_hit deps req s \<Longrightarrow> untouched s s' \<and> rw_status w' = Some 200"
    and "ch_billing deps \<Longrightarrow> \<not> cache_hit deps req s \<Longrightarrow> \<exists>st. billed_once r True st s s'"
proof -
  obtain found s1 where cl: "cache_lookup deps req s = (found, s1)" by force
  note fr = cache_lookup_frame [of deps req s, unfolded cl snd_conv] and hit = cache_hit_iff [OF cl]
  have "(\<not> cc_ctx_done call \<longrightarrow> (\<exists>st \<in> {200, 400, 429, 500, 502, 503, 504}. rw_status w' = Some st)) \<and>
    (if cache_hit deps req s then untouched s s' \<and> rw_status w' = Some 200 else ch_billing deps \<longrightarrow> (\<exists>st. billed_once r True st s s'))"
  proof (cases "\<exists>key cached. found = Some (key, Some cached)")
    case True
    then obtain key cached where f: "found = Some (key, Some cached)" by blast
    obtain sw where sw: "sse_New (set_header ''X-X-Beacon-Cache'' ''hit'' w) = Inr sw" "rw_status sw = None"
      using sse_New_ok [of "set_header ''X-X-Beacon-Cache'' ''hit'' w"] assms(2,3) by auto
    with assms(1) cl f have "w' = replayCachedStream (cc_unix call) (rq_ReqID r) cached sw" "untouched s s'"
      using fr by (auto simp: handle_stream_def untouched_def)
    with replay_status [OF sw(2)] show ?thesis using hit True by simp
  next
    case False
    then have "handleChatStream deps call (map_option fst found) req r (miss_header deps w) s1 = (e, w', s')"
      using assms(1) handle_stream_miss [OF cl, of call r w] by simp
    from handleChatStream_outcome(1) [OF this] handleChatStream_outcome(2) [OF this, of s] assms(2,3) fr show ?thesis using hit False by auto
  qed
  then show "\<not> cc_ctx_done call \<Longrightarrow> \<exists>st \<in> {200, 400, 429, 500, 502, 503, 504}. rw_status w' = Some st"
    and "cache_hit deps req s \<Longrightarrow> untouched s s' \<and> rw_status w' = Some 200"
    and "ch_billing deps \<Longrightarrow> \<not> cache_hit deps req s \<Longrightarrow> \<exists>st. billed_once r True st s s'" by auto
qed

lemma readChatRequest_status: "readChatRequest parse body = Inl m \<Longrightarrow> me_Status m \<in> {400, 413}"
  by (auto simp: readChatRequest_def bad_request_def mapped_def split: body_read.splits if_splits sum.splits option.splits)

lemma readChatRequest_Inr: "readChatRequest parse body = Inr req \<Longrightarrow> r_Model req \<noteq> [] \<and> r_Messages req \<noteq> []"
  by (auto simp: readChatRequest_def split: body_read.splits if_splits sum.splits option.splits)

text \<open>
  The stages before the cache: \<open>None\<close> when the request is refused (its body, its model or its
  token limits), otherwise the request as it goes on and the gateway's state by then.
\<close>

definition admission ::
  "('b, 'tok, 'w, 'k, 'l, 'g) chat_deps \<Rightarrow> chat_call \<Rightarrow> request \<Rightarrow> resp_writer \<Rightarrow> ('b, 'w, 'k, 'l, 'g) gateway \<Rightarrow>
   (ChatRequest \<times> ('b, 'w, 'k, 'l, 'g) gateway) option" where
  "admission deps call r w s = (case readChatRequest (ch_parse deps) (cc_body call) of
     Inl _ \<Rightarrow> None
   | Inr req0 \<Rightarrow>
       let (req1, w1, s1) = classify_step deps r req0 w s;
           (req, w2, s2) = compress_step deps req1 w1 s1
       in case ResolveModel (rt_resolver (ch_router deps)) (r_Model req) of
            Inl _ \<Rightarrow> None
          | Inr _ \<Rightarrow> (case token_limit_step deps r req w2 s2 of (Some _, _) \<Rightarrow> None | (None, s3) \<Rightarrow> Some (req, s3)))"

lemma chat_stages:
  assumes "chatCompletionsHandler deps call r w s = (e, w', s')" "rw_status w = None"
  obtains (refused) st where "admission deps call r w s = None" "st \<in> {400, 413, 429}" "rw_status w' = Some st" "untouched s s'"
  | (served) req w1 s1 where "admission deps call r w s = Some (req, s1)" "untouched s s1" "rw_status w1 = None" "rw_flusher w1 = rw_flusher w" "gw_kv s1 = gw_kv s"
      "(if r_Stream req then handle_stream deps call req r w1 s1 else handle_unary deps call req r w1 s1) = (e, w', s')"
proof (cases "readChatRequest (ch_parse deps) (cc_body call)")
  case (Inl m)
  then show ?thesis using assms readChatRequest_status [OF Inl]
    by (intro refused [of "me_Status m"]) (auto simp: chatCompletionsHandler_def admission_def writeError_status untouched_def)
next
  case (Inr req0)
  obtain req1 w1 s1 where cs: "classify_step deps r req0 w s = (req1, w1, s1)" by (metis prod_cases3)
  obtain req w2 s2 where cp: "compress_step deps req1 w1 s1 = (req, w2, s2)" by (metis prod_cases3)
  obtain stop s3 where tl: "token_limit_step deps r req w2 s2 = (stop, s3)" by force
  note fr = classify_step_frame [OF cs] compress_step_frame [OF cp] token_limit_step_frame(1-3) [OF tl]
  show ?thesis
  proof (cases "ResolveModel (rt_resolver (ch_router deps)) (r_Model req)")
    case Inl': (Inl err)
    show ?thesis using assms Inr cs cp Inl' fr
      by (intro refused [of 400]) (auto simp: chatCompletionsHandler_def admission_def bad_request_def mapped_def writeError_status untouched_def)
  next
    case Inr': (Inr prov)
    show ?thesis
    proof (cases stop)
      case None
      show ?thesis using assms Inr cs cp tl Inr' fr None
        by (intro served [of req s3 w2]) (auto simp: chatCompletionsHandler_def admission_def untouched_def)
    next
      case (Some w3)
      show ?thesis using assms Inr cs cp tl Inr' fr Some token_limit_step_frame(4) [OF tl, of w3]
        by (intro refused [of 429]) (auto simp: chatCompletionsHandler_def admission_def untouched_def)
    qed
  qed
qed

lemma untouched_trans: "untouched s t \<Longrightarrow> untouched t u \<Longrightarrow> untouched s u"
  by (simp add: untouched_def)

lemma billed_once_from: "untouched s t \<Longrightarrow> billed_once r b st t u = billed_once r b st s u"
  by (simp add: untouched_def billed_once_def)

section \<open>What the cache holds\<close>

lemma lookup_hit:
  assumes "kv_laws kv look" "ch_cache deps = Some kv" "look (gw_kv s) (Key (ch_sha deps) req) = Some (Blob (ChatResponse_Marshal p))"
    "ChatResponse_ok p" "kv_Get kv (Key (ch_sha deps) req) (gw_kv s) = (Inr v, k)"
  shows "\<exists>s1. cache_lookup deps req s = (Some (Key (ch_sha deps) req, Some (ChatResponse_norm p)), s1) \<and> untouched s s1"
proof -
  have "v = Blob (ChatResponse_Marshal p)" using kv_Get_hit [OF assms(1,5)] assms(3) by simp
  then have "exact_Get kv (Key (ch_sha deps) req) (gw_kv s) = (Inr (ChatResponse_norm p), k)"
    using assms(5) ChatResponse_read_back [OF assms(4)] by (simp add: exact_Get_def)
  then show ?thesis using assms(2) by (simp add: cache_lookup_def Let_def untouched_def)
qed

lemma cache_store_wrote:
  assumes "ch_cache deps = Some kv" "kv_laws kv look" "IncCacheWrite ''exact'' \<in> set (gw_metrics (cache_store deps key p s))" "IncCacheWrite ''exact'' \<notin> set (gw_metrics s)"
  shows "look (gw_kv (cache_store deps key p s)) = (look (gw_kv s))(key \<mapsto> Blob (ChatResponse_Marshal p))"
  using assms by (auto simp: cache_store_def exact_Set_def Let_def kv_Set_done split: prod.splits option.splits if_splits)

lemma finish_unary_wrote:
  assumes "ch_cache deps = Some kv" "kv_laws kv look" "finish_unary deps call (Some key) req r p w s = (e, w', s')"
    "IncCacheWrite ''exact'' \<in> set (gw_metrics s')" "IncCacheWrite ''exact'' \<notin> set (gw_metrics s)"
  shows "look (gw_kv s') key = Some (Blob (ChatResponse_Marshal p))"
proof -
  obtain pt ct where tc: "tokenCounts (ch_encode deps) (ch_tokenizer deps) req p = (pt, ct)" by force
  let ?s1 = "if ch_cacheTTL deps > 0 \<and> shouldCacheResponse p pt then cache_store deps key p s else s"
  have "s' = snd (emitBillingEvent (ch_billing deps) (billing_event call r (r_Model req) (p_Provider p) pt ct 200 False [])
      (count_metric (AddTokens (p_Provider p) (r_Model req) pt ct) (count_metric (ObserveRequest (p_Provider p) (r_Model req) 200) ?s1)))"
    using assms(3) by (auto simp: finish_unary_def Let_def tc split: prod.splits)
  then have "gw_kv s' = gw_kv ?s1" "gw_metrics s' = gw_metrics ?s1 @ [ObserveRequest (p_Provider p) (r_Model req) 200, AddTokens (p_Provider p) (r_Model req) pt ct]"
    by simp_all
  then show ?thesis using cache_store_wrote [OF assms(1,2), of key p s] assms(4,5) by (auto split: if_splits)
qed

section \<open>An example\<close>

definition demo_chunk1 :: ChatStreamChunk where
  "demo_chunk1 = replay_chunk ''c1'' 7 ''gpt'' [delta_choice 0 ''assistant'' ''Hello'' []] None"

definition demo_answer :: ChatResponse where
  "demo_answer = demo_cached_response\<lparr>p_Usage := Some \<lparr>u_PromptTokens = 3, u_CompletionTokens = 1, u_TotalTokens = 4, u_Extra = []\<rparr>\<rparr>"

definition demo_chat_deps ::
  "(gb_Counts \<times> gb_Settings, unit, (goerr + ChatResponse) list, string \<rightharpoonup> blob, unit, unit) chat_deps" where
  "demo_chat_deps = \<lparr>ch_env = scripted_env\<lparr>re_stream := (\<lambda>p req w. (Inr [EvChunk demo_chunk1, EvErr (ProviderErr ErrUpstream)], w))\<rparr>,
     ch_router = demo_router, ch_encode = (\<lambda>s. Some (length s)), ch_tokenizer = True, ch_billing = True, ch_cache = Some map_kv,
     ch_sha = (\<lambda>j. ''h''), ch_cacheTTL = Minute, ch_classifier = None, ch_rng = (\<lambda>g. (0, g)), ch_compressor = None, ch_rules = [],
     ch_allow = (\<lambda>_ _ _ l. (Inr Decision0, l)), ch_limit_text = (\<lambda>_ _. []),
     ch_parse = (\<lambda>raw. if raw = ''body'' then Inr (ChatRequest_MarshalJSON demo_chat_request) else Inl ''syntax'')\<rparr>"

definition demo_call :: chat_call where
  "demo_call = \<lparr>cc_body = Body ''body'', cc_started = 5, cc_latency_ms = 2, cc_unix = 9, cc_ctx_done = False, cc_sends = None\<rparr>"

definition demo_http_request :: request where
  "demo_http_request = \<lparr>rq_Method = ''POST'', rq_Path = ''/v1/chat/completions'', rq_Header = [], rq_ReqID = ''q1'', rq_Principal = None\<rparr>"

definition demo_gateway :: "(gb_Counts \<times> gb_Settings, (goerr + ChatResponse) list, string \<rightharpoonup> blob, unit, unit) gateway" where
  "demo_gateway = \<lparr>gw_router = demo_state [Inr demo_answer], gw_kv = Map.empty, gw_limits = (), gw_worker = NewWorker DefaultWorkerConfig,
     gw_rng = (), gw_metrics = []\<rparr>"

abbreviation demo_writer :: resp_writer where
  "demo_writer \<equiv> new_writer (\<lambda>_. True) True"

section \<open>Properties\<close>

text \<open>
  C24: Every chat request is answered: unless the client has gone, its response has a status
  line when the handler ends, with one of eight statuses, whatever the body, the routing, the
  limits, the cache and the providers do.
\<close>

theorem every_request_answered:
  assumes "rw_status w = None" "rw_flusher w" "chatCompletionsHandler deps call r w s = (e, w', s')"
  shows "cc_ctx_done call \<or> (\<exists>st \<in> {200, 400, 413, 429, 500, 502, 503, 504}. rw_status w' = Some st)"
  using assms(3,1)
proof (cases rule: chat_stages)
  case refused
  then show ?thesis by blast
next
  case (served req w1 s1)
  show ?thesis
  proof (cases "r_Stream req")
    case True
    with served handle_stream_outcome(1) [of deps call req r w1 s1 e w' s'] assms(2) show ?thesis by auto
  next
    case False
    with served handle_unary_outcome [of deps call req r w1 s1 e w' s'] show ?thesis by auto
  qed
qed

theorem every_request_answered_witness:
  "\<exists>st \<in> {200, 400, 413, 429, 500, 502, 503, 504}.
     rw_status (fst (snd (chatCompletionsHandler demo_chat_deps demo_call demo_http_request demo_writer demo_gateway))) = Some st"
proof -
  obtain e w' s' where h: "chatCompletionsHandler demo_chat_deps demo_call demo_http_request demo_writer demo_gateway = (e, w', s')"
    by (metis prod_cases3)
  show ?thesis using every_request_answered [OF _ _ h] h by (simp add: new_writer_def demo_call_def)
qed

text \<open>
  C25: What is billed and what is not.  With billing on and a response writer that can flush (as
  \<open>net/http\<close>'s can), every chat request falls under one of three cases.  A request that is
  refused, for its body, its model or its token limit, gets 400, 413 or 429 and leaves the router
  and the billing queue exactly as they were.  One the cache has an answer for gets 200 and
  leaves them as they were too.  Every other request, and so every one that reaches the router,
  is offered to the billing queue exactly once, in one event with its request id and API key,
  whose status is the status the client got when the response is not streamed.
\<close>

theorem routed_requests_billed_once:
  assumes "ch_billing deps" "rw_status w = None" "rw_flusher w" "chatCompletionsHandler deps call r w s = (e, w', s')"
  shows "case admission deps call r w s of
      None \<Rightarrow> untouched s s' \<and> rw_status w' \<in> {Some 400, Some 413, Some 429}
    | Some (req, s1) \<Rightarrow>
        if cache_hit deps req s1 then untouched s s' \<and> rw_status w' = Some 200
        else if r_Stream req then \<exists>st. billed_once r True st s s'
        else \<exists>st. rw_status w' = Some st \<and> billed_once r False st s s'"
  using assms(4,2)
proof (cases rule: chat_stages)
  case (served req w1 s1)
  show ?thesis
  proof (cases "r_Stream req")
    case True
    with served handle_stream_outcome(2,3) [of deps call req r w1 s1 e w' s'] assms(1,3) show ?thesis
      by (auto simp: billed_once_from dest: untouched_trans)
  next
    case False
    with served handle_unary_outcome [of deps call req r w1 s1 e w' s'] assms(1) show ?thesis
      by (auto simp: billed_once_from split: if_splits dest: untouched_trans)
  qed
qed auto

text \<open>A first request goes upstream and is billed; the same request again is answered from the cache.\<close>

theorem routed_requests_billed_once_witness:
  "let (e1, w1, s1) = chatCompletionsHandler demo_chat_deps demo_call demo_http_request demo_writer demo_gateway;
       (e2, w2, s2) = chatCompletionsHandler demo_chat_deps demo_call demo_http_request demo_writer s1
   in (\<exists>st. rw_status w1 = Some st \<and> billed_once demo_http_request False st demo_gateway s1) \<and> untouched s1 s2"
proof -
  let ?chat = "chatCompletionsHandler demo_chat_deps demo_call demo_http_request demo_writer"
    and ?adm = "admission demo_chat_deps demo_call demo_http_request demo_writer"
  obtain e1 w1 s1 where h1: "?chat demo_gateway = (e1, w1, s1)" by (metis prod_cases3)
  obtain e2 w2 s2 where h2: "?chat s1 = (e2, w2, s2)" by (metis prod_cases3)
  have "case ?adm demo_gateway of None \<Rightarrow> False | Some (req, t) \<Rightarrow> \<not> cache_hit demo_chat_deps req t \<and> \<not> r_Stream req" by code_simp
  moreover have "case ?adm (snd (snd (?chat demo_gateway))) of None \<Rightarrow> False | Some (req, t) \<Rightarrow> cache_hit demo_chat_deps req t" by code_simp
  moreover have "ch_billing demo_chat_deps" "rw_status demo_writer = None" "rw_flusher demo_writer"
    by (simp_all add: new_writer_def demo_chat_deps_def)
  ultimately show ?thesis
    using routed_requests_billed_once [OF _ _ _ h1] routed_requests_billed_once [OF _ _ _ h2] h1 h2 by (auto split: option.splits)
qed

text \<open>
  C26: After a request whose answer was written to the cache, a second request with the same
  key is answered with that answer, extra members in key order and without the provider name,
  and neither the router nor the billing queue sees it, as long as the store still has the
  entry and answers.
\<close>

theorem second_request_from_cache:
  assumes "kv_laws kv look" "ch_cache deps = Some kv"
    and first: "handle_unary deps call req r w s = (e, w1, s1)" "IncCacheWrite ''exact'' \<in> set (gw_metrics s1)" "IncCacheWrite ''exact'' \<notin> set (gw_metrics s)"
    and second: "Key (ch_sha deps) req2 = Key (ch_sha deps) req" "rw_status w2 = None"
      "look (gw_kv s2) (Key (ch_sha deps) req) = look (gw_kv s1) (Key (ch_sha deps) req)"
      "kv_Get kv (Key (ch_sha deps) req) (gw_kv s2) = (Inr v, k2)"
      "handle_unary deps call2 req2 r2 w2 s2 = (e2, w3, s3)"
  shows "\<exists>resp rs. ChatCompletion (ch_env deps) (ch_router deps) req (gw_router s) = (Inr resp, rs) \<and>
    (ChatResponse_ok resp \<longrightarrow> untouched s2 s3 \<and> e2 = Returned \<and> rw_status w3 = Some 200 \<and>
       rw_body w3 = rw_body w2 @ (if rw_writes w2 (length (rw_body w2)) then [BJson (ChatResponse_Marshal (ChatResponse_norm resp))] else []))"
proof -
  let ?key = "Key (ch_sha deps) req"
  obtain found s0 where cl: "cache_lookup deps req s = (found, s0)" by force
  have frame: "gw_router s0 = gw_router s" using cache_lookup_frame [of deps req s] cl by simp
  have lk: "\<exists>c. found = Some (?key, c)" "IncCacheWrite ''exact'' \<notin> set (gw_metrics s0)"
    using cl assms(2) first(3) by (auto simp: cache_lookup_def Let_def split: prod.splits sum.splits)
  have miss: "found \<noteq> Some (key, Some cached)" for key cached
    using first lk(2) cl handle_unary_hit [of deps req s key cached s0 call r w] by auto
  with lk(1) have found: "found = Some (?key, None)" by (metis not_None_eq)
  obtain res rs where cc: "ChatCompletion (ch_env deps) (ch_router deps) req (gw_router s0) = (res, rs)" by force
  note eq = handle_unary_miss [OF cl miss, of call r w, unfolded cc first(1)]
  obtain resp where resp: "res = Inr resp"
  proof (cases res)
    case (Inl err)
    with eq have "upstream_failed deps call r req False err (miss_header deps w) (s0\<lparr>gw_router := rs\<rparr>) = (e, w1, s1)" by simp
    from arg_cong [OF this, where f = "\<lambda>x. gw_metrics (snd (snd x))"]
    have "gw_metrics s1 = gw_metrics s0 @ [ObserveRequest [] (r_Model req) (me_Status (mapProviderError err))]"
      by (simp add: upstream_failed_def Let_def prod.case_eq_if)
    with first(2) lk(2) show ?thesis by simp
  qed (use that in blast)
  from eq resp found have "finish_unary deps call (Some ?key) req r resp (miss_header deps w) (s0\<lparr>gw_router := rs\<rparr>) = (e, w1, s1)" by simp
  then have stored: "look (gw_kv s1) ?key = Some (Blob (ChatResponse_Marshal resp))"
    using finish_unary_wrote [OF assms(2,1)] first(2) lk(2) by simp
  have "untouched s2 s3 \<and> e2 = Returned \<and> rw_status w3 = Some 200 \<and>
       rw_body w3 = rw_body w2 @ (if rw_writes w2 (length (rw_body w2)) then [BJson (ChatResponse_Marshal (ChatResponse_norm resp))] else [])"
    if ok: "ChatResponse_ok resp"
  proof -
    obtain t where t: "cache_lookup deps req2 s2 = (Some (Key (ch_sha deps) req2, Some (ChatResponse_norm resp)), t)" "untouched s2 t"
      using lookup_hit [OF assms(1,2), of s2 req2 resp v k2] second ok stored by auto
    from handle_unary_hit [OF t(1), of call2 r2 w2] second(2,5) t(2)
    show ?thesis by (auto simp: untouched_def jsonEncode_def write_part_body)
  qed
  with cc resp frame show ?thesis by auto
qed

theorem second_request_from_cache_witness:
  "let (e, w, s) = handle_unary demo_chat_deps demo_call demo_chat_request demo_http_request demo_writer demo_gateway;
       (e2, w2, s2) = handle_unary demo_chat_deps demo_call (demo_chat_request\<lparr>r_User := ''other''\<rparr>) demo_http_request demo_writer s
   in untouched s s2 \<and> rw_body w2 = [BJson (ChatResponse_Marshal (demo_answer\<lparr>p_Provider := []\<rparr>))]"
proof -
  let ?req2 = "demo_chat_request\<lparr>r_User := ''other''\<rparr>" and ?key = "Key (ch_sha demo_chat_deps) demo_chat_request"
  obtain e w s where f: "handle_unary demo_chat_deps demo_call demo_chat_request demo_http_request demo_writer demo_gateway = (e, w, s)"
    by (metis prod_cases3)
  have "let (e, w, s) = handle_unary demo_chat_deps demo_call demo_chat_request demo_http_request demo_writer demo_gateway in
      IncCacheWrite ''exact'' \<in> set (gw_metrics s) \<and> gw_kv s ?key = Some (Blob (ChatResponse_Marshal demo_answer))" by code_simp
  then have wrote: "IncCacheWrite ''exact'' \<in> set (gw_metrics s)" "gw_kv s ?key = Some (Blob (ChatResponse_Marshal demo_answer))"
    by (simp_all add: f)
  obtain e2 w2 s2 where g: "handle_unary demo_chat_deps demo_call ?req2 demo_http_request demo_writer s = (e2, w2, s2)"
    by (metis prod_cases3)
  have get: "kv_Get map_kv ?key (gw_kv s) = (Inr (Blob (ChatResponse_Marshal demo_answer)), gw_kv s)" using wrote(2) by (simp add: map_kv_def)
  have key: "Key (ch_sha demo_chat_deps) ?req2 = ?key" by (simp add: demo_chat_deps_def Key_def)
  have ans: "fst (ChatCompletion (ch_env demo_chat_deps) (ch_router demo_chat_deps) demo_chat_request (gw_router demo_gateway)) = Inr demo_answer"
    by code_simp
  have ok: "ChatResponse_ok demo_answer" "ChatResponse_norm demo_answer = demo_answer\<lparr>p_Provider := []\<rparr>" by code_simp+
  have cache: "ch_cache demo_chat_deps = Some map_kv" "IncCacheWrite ''exact'' \<notin> set (gw_metrics demo_gateway)" "rw_status demo_writer = None"
    and w0: "rw_body demo_writer = []" "rw_writes demo_writer = (\<lambda>_. True)"
    by (simp_all add: demo_chat_deps_def demo_gateway_def new_writer_def)
  from second_request_from_cache [OF map_kv_laws cache(1) f wrote(1) cache(2) key cache(3) refl get g] ans ok
  show ?thesis by (auto simp: f g w0)
qed

text \<open>
  C29: With a client that stays, a live stream arrives as one \<open>data:\<close> frame per chunk before
  the first error of the router's stream, in order, followed by exactly one more frame: the
  \<open>[DONE]\<close> marker if there was no error, the error envelope otherwise.
\<close>

theorem live_stream_frames:
  assumes "ChatCompletionStream (ch_env deps) (ch_router deps) req (gw_router s) = (Inr st, rs)"
    "forwardStream (ch_env deps) (cc_sends call) st rs = (evs, rs1)"
    "rw_flusher w" "\<And>i. rw_writes w i" "\<not> cc_ctx_done call"
    "handleChatStream deps call key req r w s = (e, w', s')"
  shows "rw_body w' = rw_body w @ map (\<lambda>c. BData (ChatStreamChunk_Marshal c)) (leading_chunks evs) @
      [case first_error evs of None \<Rightarrow> BDone | Some err \<Rightarrow> BData (errorEnvelope (mapProviderError err) (rq_ReqID r))]"
proof -
  obtain sw where sw: "sse_New w = Inr sw" "rw_body sw = rw_body w" "rw_writes sw = rw_writes w" using sse_New_ok [OF assms(3)] by metis
  define p where "p = stream_loop (rq_ReqID r) evs \<lparr>sp_w = sw, sp_stats = streamStats0, sp_status = 200, sp_errCode = []\<rparr>"
  have fin: "finish_stream deps call key req r p (s\<lparr>gw_router := rs1\<rparr>) = (e, w', s')"
    using assms(1,2,6) sw(1) by (simp add: handleChatStream_def Let_def p_def)
  note loop = stream_loop_writes [of "\<lparr>sp_w = sw, sp_stats = streamStats0, sp_status = 200, sp_errCode = []\<rparr>" "rq_ReqID r" evs, folded p_def]
  show ?thesis
  proof (cases "first_error evs")
    case None
    with loop assms(4) sw have p: "rw_body (sp_w p) = rw_body w @ map (\<lambda>c. BData (ChatStreamChunk_Marshal c)) (leading_chunks evs)"
      "rw_writes (sp_w p) = rw_writes w" "sp_status p = 200" by simp_all
    then show ?thesis using finish_stream_outcome(1) [OF fin assms(5)] assms(4) None by (simp add: WriteDone_def write_part_body)
  next
    case (Some err)
    with loop assms(4) sw mapProviderError_status [of err] show ?thesis using finish_stream_outcome(2) [OF fin] by auto
  qed
qed

theorem live_stream_frames_witness:
  "rw_body (fst (snd (handleChatStream demo_chat_deps demo_call None demo_chat_request demo_http_request demo_writer demo_gateway))) =
     [BData (ChatStreamChunk_Marshal demo_chunk1), BData (errorEnvelope (mapProviderError (ProviderErr ErrUpstream)) ''q1'')]"
proof -
  let ?cs = "ChatCompletionStream (ch_env demo_chat_deps) (ch_router demo_chat_deps) demo_chat_request (gw_router demo_gateway)"
  have "case ?cs of (Inr st, rs) \<Rightarrow> fst (forwardStream (ch_env demo_chat_deps) (cc_sends demo_call) st rs) =
      [EvChunk demo_chunk1, EvErr (ProviderErr ErrUpstream)] | (Inl _, _) \<Rightarrow> False" by code_simp
  then obtain st rs rs1 where cs: "?cs = (Inr st, rs)"
      "forwardStream (ch_env demo_chat_deps) (cc_sends demo_call) st rs = ([EvChunk demo_chunk1, EvErr (ProviderErr ErrUpstream)], rs1)"
    by (auto split: prod.splits sum.splits simp: prod_eq_iff)
  obtain e w' s' where h: "handleChatStream demo_chat_deps demo_call None demo_chat_request demo_http_request demo_writer demo_gateway = (e, w', s')"
    by (metis prod_cases3)
  have "rw_flusher demo_writer" "\<And>i. rw_writes demo_writer i" "\<not> cc_ctx_done demo_call" "rq_ReqID demo_http_request = ''q1''"
    by (simp_all add: new_writer_def demo_call_def demo_http_request_def)
  with live_stream_frames [OF cs _ _ _ h] h show ?thesis by (simp add: new_writer_def)
qed

text \<open>
  C30: Replaying a cached answer to a streaming client whose connection holds is faithful, for an
  answer with any number of choices.  The client gets the chunks of the replay, one frame each,
  and then \<open>[DONE]\<close>.  All chunks carry the answer's id, time and model (an id made from the
  request id and the current time where the answer has none).  For every index, the texts the
  client puts together are those of the choices with that index, each byte that is not UTF-8
  replaced, so exactly the cached texts when they are valid UTF-8; it is told the role assistant
  once per choice, in the first chunk only, and the finish reason of each choice (\<open>stop\<close>
  where it has none), in the last chunk only, which alone carries the usage.  What a replay does
  not carry are members of a message other than its text, and extra members of a choice.  For an
  answer without those, of the shape a stream is cached in (one choice, index 0, see
  \<open>plain_answer\<close>), collecting the replay the way a live stream is collected for the cache
  gives the whole answer back, but for the provider's name, which is not stored.
\<close>

theorem replay_faithful:
  assumes "\<And>i. rw_writes w i"
  shows "let cs = replay_chunks now reqID p in
    rw_body (replayCachedStream now reqID p w) = rw_body w @ map (\<lambda>c. BData (ChatStreamChunk_Marshal c)) cs @ [BDone] \<and>
    (\<forall>c \<in> set cs. k_ID c = (if p_ID p = [] then ''chatcmpl-cache-'' @ reqID else p_ID p) \<and> k_Object c = ''chat.completion.chunk'' \<and>
       k_Created c = (if p_Created p = 0 then now else p_Created p) \<and> k_Model c = p_Model p) \<and>
    (\<forall>i. client_text i cs = concat (map (\<lambda>ch. to_valid_utf8 (m_Content (c_Message ch))) (choices_at i p)) \<and>
       client_roles i cs = map (\<lambda>_. ''assistant'') (choices_at i p) \<and> client_finish i cs = map finish_or_stop (choices_at i p)) \<and>
    ((\<forall>ch \<in> set (p_Choices p). valid_utf8 (m_Content (c_Message ch))) \<longrightarrow>
       (\<forall>i. client_text i cs = concat (map (\<lambda>ch. m_Content (c_Message ch)) (choices_at i p)))) \<and>
    (\<forall>x \<in> set (concat (map k_Choices (tl cs))). d_Role (sc_Delta x) = []) \<and>
    (\<forall>x \<in> set (concat (map k_Choices (butlast cs))). sc_FinishReason x = []) \<and>
    (\<exists>n. map k_Usage cs = replicate n None @ [p_Usage p]) \<and>
    (plain_answer p \<longrightarrow> toCachedResponse now' (collect streamStats0 cs) req = p\<lparr>p_Provider := []\<rparr>)"
  unfolding Let_def
proof (intro conjI allI impI)
  let ?cs = "replay_chunks now reqID p"
  obtain ok w1 where "write_chunks ?cs w = (ok, w1)" by force
  with write_chunks_all [OF assms, of ?cs] assms
  show "rw_body (replayCachedStream now reqID p w) = rw_body w @ map (\<lambda>c. BData (ChatStreamChunk_Marshal c)) ?cs @ [BDone]"
    by (simp add: replayCachedStream_def WriteDone_def write_part_body)
  show "client_text i ?cs = concat (map (\<lambda>ch. m_Content (c_Message ch)) (choices_at i p))"
    if "\<forall>ch \<in> set (p_Choices p). valid_utf8 (m_Content (c_Message ch))" for i
    using that unfolding client_text_replay by (intro arg_cong [where f = concat] map_cong) (auto simp: choices_at_def to_valid_id)
qed (use replay_heads replay_order replay_usage in \<open>auto simp: client_text_replay client_roles_replay client_finish_replay replay_collected\<close>)

text \<open>An answer with two choices, one of them longer than a piece, and the answer a stream was cached as.\<close>

definition demo_two_choices :: ChatResponse where
  "demo_two_choices = ChatResponse0\<lparr>p_ID := ''c2'', p_Created := 7, p_Model := ''gpt'', p_Choices := [
     Choice0\<lparr>c_Message := Message0\<lparr>m_Content := ''Hello''\<rparr>, c_FinishReason := ''stop''\<rparr>,
     Choice0\<lparr>c_Index := 1, c_Message := Message0\<lparr>m_Content := ''The second of the choices, of more than 32 runes''\<rparr>, c_FinishReason := ''length''\<rparr>]\<rparr>"

theorem replay_faithful_witness:
  "client_text 1 (replay_chunks 0 ''q1'' demo_two_choices) = ''The second of the choices, of more than 32 runes'' \<and>
   length (replay_chunks 0 ''q1'' demo_two_choices) = 5 \<and>
   (let p = toCachedResponse 9 (collect streamStats0 [demo_chunk1\<lparr>k_Choices := [delta_choice 0 [] ''Hello'' ''stop'']\<rparr>]) demo_chat_request
    in toCachedResponse 0 (collect streamStats0 (replay_chunks 0 ''q1'' p)) demo_chat_request = p)"
proof (intro conjI)
  have w: "\<And>i. rw_writes demo_writer i" by (simp add: new_writer_def)
  have "list_all (\<lambda>ch. valid_utf8 (m_Content (c_Message ch))) (p_Choices demo_two_choices)" by code_simp
  then have "client_text 1 (replay_chunks 0 ''q1'' demo_two_choices) = concat (map (\<lambda>ch. m_Content (c_Message ch)) (choices_at 1 demo_two_choices))"
    using replay_faithful [where p = demo_two_choices and now = 0 and reqID = "''q1''", OF w, unfolded Let_def list_all_iff [symmetric]] by blast
  moreover have "map (\<lambda>ch. m_Content (c_Message ch)) (choices_at 1 demo_two_choices) = [''The second of the choices, of more than 32 runes'']" by code_simp
  ultimately show "client_text 1 (replay_chunks 0 ''q1'' demo_two_choices) = ''The second of the choices, of more than 32 runes''" by simp
  show "length (replay_chunks 0 ''q1'' demo_two_choices) = 5" by code_simp
  let ?p = "toCachedResponse 9 (collect streamStats0 [demo_chunk1\<lparr>k_Choices := [delta_choice 0 [] ''Hello'' ''stop'']\<rparr>]) demo_chat_request"
  have p: "?p = ChatResponse0\<lparr>p_ID := ''c1'', p_Object := ''chat.completion'', p_Created := 7, p_Model := ''gpt'',
      p_Choices := [Choice0\<lparr>c_Message := Message0\<lparr>m_Role := ''assistant'', m_Content := ''Hello''\<rparr>, c_FinishReason := ''stop''\<rparr>]\<rparr>" by code_simp
  have "valid_utf8 ''Hello''" by code_simp
  then have "plain_answer ?p" unfolding p by (force simp: plain_answer_def ChatResponse0_def Choice0_def)
  then show "let p = ?p in toCachedResponse 0 (collect streamStats0 (replay_chunks 0 ''q1'' p)) demo_chat_request = p"
    using replay_faithful [where p = ?p and now = 0 and reqID = "''q1''" and now' = 0 and req = demo_chat_request, OF w, unfolded Let_def] p by (simp add: ChatResponse0_def)
qed

end
