(* ===== verification/AnthropicAdapter.thy ===== *)
theory AnthropicAdapter
  imports Upstream
begin

text \<open>
  \<open>provider/anthropic/convert.go\<close>, \<open>chat.go\<close>, \<open>stream.go\<close> and \<open>forward.go\<close>: the
  translation between the gateway's OpenAI-shaped types and the Messages API, and the state
  machine that turns Anthropic's events into OpenAI-shaped chunks.
\<close>

section \<open>Wire types\<close>

record anthMsg =
  am_Role :: string
  am_Content :: string

record messagesRequest =
  mr_Model :: string
  mr_Messages :: "anthMsg list"
  mr_System :: string
  mr_MaxTokens :: int
  mr_Temperature :: "rat option"
  mr_TopP :: "rat option"
  mr_StopSequences :: "string list"
  mr_Stream :: bool

record contentBlock =
  cb_Type :: string
  cb_Text :: string

record messageUsage =
  mu_InputTokens :: int
  mu_OutputTokens :: int

record messagesResponse =
  ms_ID :: string
  ms_Type :: string
  ms_Role :: string
  ms_Content :: "contentBlock list"
  ms_Model :: string
  ms_StopReason :: string
  ms_StopSequence :: string
  ms_Usage :: messageUsage

definition messageUsage0 :: messageUsage where
  "messageUsage0 = \<lparr>mu_InputTokens = 0, mu_OutputTokens = 0\<rparr>"

definition messagesRequest_Marshal :: "messagesRequest \<Rightarrow> json" where
  "messagesRequest_Marshal r = JObj (members [
     (''model'', True, JStr (mr_Model r)),
     (''messages'', True, enc_list (\<lambda>m. JObj [(''role'', JStr (am_Role m)), (''content'', JStr (am_Content m))]) (mr_Messages r)),
     (''system'', mr_System r \<noteq> [], JStr (mr_System r)),
     (''max_tokens'', True, JInt (mr_MaxTokens r)),
     (''temperature'', mr_Temperature r \<noteq> None, enc_float (the (mr_Temperature r))),
     (''top_p'', mr_TopP r \<noteq> None, enc_float (the (mr_TopP r))),
     (''stop_sequences'', mr_StopSequences r \<noteq> [], enc_list JStr (mr_StopSequences r)),
     (''stream'', mr_Stream r, JBool (mr_Stream r))])"

definition contentBlock_field :: "string \<Rightarrow> json \<Rightarrow> contentBlock \<Rightarrow> contentBlock option" where
  "contentBlock_field key v b = (let k = to_lower key in
     if k = ''type'' then map_option (\<lambda>s. b\<lparr>cb_Type := s\<rparr>) (dec_str v (cb_Type b))
     else if k = ''text'' then map_option (\<lambda>s. b\<lparr>cb_Text := s\<rparr>) (dec_str v (cb_Text b))
     else Some b)"

definition messageUsage_field :: "string \<Rightarrow> json \<Rightarrow> messageUsage \<Rightarrow> messageUsage option" where
  "messageUsage_field key v u = (let k = to_lower key in
     if k = ''input_tokens'' then map_option (\<lambda>n. u\<lparr>mu_InputTokens := n\<rparr>) (dec_int v (mu_InputTokens u))
     else if k = ''output_tokens'' then map_option (\<lambda>n. u\<lparr>mu_OutputTokens := n\<rparr>) (dec_int v (mu_OutputTokens u))
     else Some u)"

definition messagesResponse_field :: "string \<Rightarrow> json \<Rightarrow> messagesResponse \<Rightarrow> messagesResponse option" where
  "messagesResponse_field key v r = (let k = to_lower key in
     if k = ''id'' then map_option (\<lambda>s. r\<lparr>ms_ID := s\<rparr>) (dec_str v (ms_ID r))
     else if k = ''type'' then map_option (\<lambda>s. r\<lparr>ms_Type := s\<rparr>) (dec_str v (ms_Type r))
     else if k = ''role'' then map_option (\<lambda>s. r\<lparr>ms_Role := s\<rparr>) (dec_str v (ms_Role r))
     else if k = ''content'' then map_option (\<lambda>bs. r\<lparr>ms_Content := bs\<rparr>)
       (dec_list (dec_struct contentBlock_field \<lparr>cb_Type = [], cb_Text = []\<rparr>) v)
     else if k = ''model'' then map_option (\<lambda>s. r\<lparr>ms_Model := s\<rparr>) (dec_str v (ms_Model r))
     else if k = ''stop_reason'' then map_option (\<lambda>s. r\<lparr>ms_StopReason := s\<rparr>) (dec_str v (ms_StopReason r))
     else if k = ''stop_sequence'' then map_option (\<lambda>s. r\<lparr>ms_StopSequence := s\<rparr>) (dec_str v (ms_StopSequence r))
     else if k = ''usage'' then map_option (\<lambda>u. r\<lparr>ms_Usage := u\<rparr>) (dec_struct messageUsage_field (ms_Usage r) v)
     else Some r)"

definition messagesResponse_Unmarshal :: "json \<Rightarrow> messagesResponse option" where
  "messagesResponse_Unmarshal j = dec_struct messagesResponse_field
     \<lparr>ms_ID = [], ms_Type = [], ms_Role = [], ms_Content = [], ms_Model = [], ms_StopReason = [], ms_StopSequence = [],
      ms_Usage = messageUsage0\<rparr> j"

section \<open>Conversion\<close>

definition toAnthropicRequest :: "ChatRequest \<Rightarrow> int \<Rightarrow> bool \<Rightarrow> messagesRequest" where
  "toAnthropicRequest req defaultMaxTokens stream =
     (let (systems, msgs) = foldl (\<lambda>(systems, msgs) m.
            if m_Role m = ''system''
            then (if m_Content m \<noteq> [] then systems @ [m_Content m] else systems, msgs)
            else (systems, msgs @ [\<lparr>am_Role = m_Role m, am_Content = m_Content m\<rparr>])) ([], []) (r_Messages req)
      in \<lparr>mr_Model = r_Model req, mr_Messages = msgs,
          mr_System = (if systems \<noteq> [] then join_with ''\<newline>\<newline>'' systems else []),
          mr_MaxTokens = (if r_MaxTokens req > 0 then r_MaxTokens req else defaultMaxTokens),
          mr_Temperature = r_Temperature req, mr_TopP = r_TopP req, mr_StopSequences = r_Stop req, mr_Stream = stream\<rparr>)"

definition mapStopReason :: "string \<Rightarrow> string" where
  "mapStopReason r = (if r = ''end_turn'' then ''stop''
     else if r = ''max_tokens'' then ''length''
     else if r = ''stop_sequence'' then ''stop''
     else if r = ''tool_use'' then ''tool_calls''
     else r)"

text \<open>Token counts are added as \<open>int\<close>, 64 bits wide; \<open>now\<close> is the clock in seconds.\<close>

definition make_usage :: "int \<Rightarrow> int \<Rightarrow> Usage" where
  "make_usage inp out = \<lparr>u_PromptTokens = inp, u_CompletionTokens = out, u_TotalTokens = wrap64 (inp + out), u_Extra = []\<rparr>"

definition fromAnthropicResponse :: "int \<Rightarrow> messagesResponse \<Rightarrow> string \<Rightarrow> ChatResponse" where
  "fromAnthropicResponse now resp providerName =
     \<lparr>p_ID = ms_ID resp, p_Object = ''chat.completion'', p_Created = now, p_Model = ms_Model resp,
      p_Choices = [\<lparr>c_Index = 0,
        c_Message = Message0\<lparr>m_Role := ''assistant'',
          m_Content := foldl (\<lambda>b blk. if cb_Type blk = ''text'' then b @ cb_Text blk else b) [] (ms_Content resp)\<rparr>,
        c_FinishReason = mapStopReason (ms_StopReason resp), c_Extra = []\<rparr>],
      p_Usage = Some (make_usage (mu_InputTokens (ms_Usage resp)) (mu_OutputTokens (ms_Usage resp))),
      p_Provider = providerName\<rparr>"

section \<open>Calls\<close>

definition messagesPath :: string where
  "messagesPath = ''/v1/messages''"

definition anthropic_request :: "'w http_env \<Rightarrow> anthropic_Provider \<Rightarrow> messagesRequest \<Rightarrow> http_request" where
  "anthropic_request env p r = \<lparr>hq_URL = ap_baseURL p @ messagesPath, hq_Header = anthropic_setHeaders (he_Version env) p [],
     hq_Body = Marshalled (messagesRequest_Marshal r), hq_Timeout = None\<rparr>"

definition anthropic_http_error :: "'w http_env \<Rightarrow> anthropic_Provider \<Rightarrow> http_response \<Rightarrow> string \<Rightarrow> goerr" where
  "anthropic_http_error env p resp body = anthropic_mapHTTPError (he_Until env) (ac_Name (ap_cfg p)) (hs_Status resp) body
     (error_body (he_Parse env) ''type'' body) (header_get (hs_Header resp) ''Retry-After'')"

definition anthropic_ChatCompletion :: "'w http_env \<Rightarrow> anthropic_Provider \<Rightarrow> ChatRequest \<Rightarrow> 'w \<Rightarrow> (goerr + ChatResponse) \<times> 'w" where
  "anthropic_ChatCompletion env p req w =
     (let name = ac_Name (ap_cfg p);
          httpReq = (anthropic_request env p (toAnthropicRequest req (ap_defaultMaxTokens p) False))\<lparr>hq_Timeout := Some (ac_Timeout (ap_cfg p))\<rparr>
      in case he_Build env (hq_URL httpReq) of
        Some err \<Rightarrow> (Inl (Wrapped ''anthropic: build request'' err), w)
      | None \<Rightarrow> (case he_Do env httpReq w of
          (Inl err, w') \<Rightarrow> (Inl (mapRequestError name err (he_Text env err)), w')
        | (Inr resp, w') \<Rightarrow>
            ((case hs_Body resp of
                Inl err \<Rightarrow> Inl (mapRequestError name err (he_Text env err))
              | Inr respBody \<Rightarrow>
                  if hs_Status resp \<ge> 400 then Inl (anthropic_http_error env p resp respBody)
                  else let bad = (\<lambda>msg. Inl (UpstreamErr (NewUpstreamError name ErrUpstream (hs_Status resp) (''decode response: '' @ msg))))
                       in case he_Parse env respBody of
                            Inl msg \<Rightarrow> bad msg
                          | Inr j \<Rightarrow> (case messagesResponse_Unmarshal j of
                              None \<Rightarrow> bad ''json: type mismatch''
                            | Some parsed \<Rightarrow> Inr (fromAnthropicResponse (he_Now env w') parsed name))), w')))"

text \<open>\<open>ForwardMessages\<close>: the body goes out as it came.\<close>

definition ForwardMessages ::
  "'w http_env \<Rightarrow> anthropic_Provider \<Rightarrow> string \<Rightarrow> string \<Rightarrow> 'w \<Rightarrow> (goerr + http_response) \<times> 'w" where
  "ForwardMessages env p body betaHeader w =
     (let name = ac_Name (ap_cfg p);
          h = anthropic_setHeaders (he_Version env) p [];
          httpReq = \<lparr>hq_URL = ap_baseURL p @ messagesPath,
            hq_Header = (if betaHeader \<noteq> [] then al_put ''Anthropic-Beta'' betaHeader h else h), hq_Body = Raw body, hq_Timeout = None\<rparr>
      in case he_Build env (hq_URL httpReq) of
        Some err \<Rightarrow> (Inl (mapRequestError name err (he_Text env err)), w)
      | None \<Rightarrow> (case he_Do env httpReq w of
          (Inl err, w') \<Rightarrow> (Inl (mapRequestError name err (he_Text env err)), w')
        | (Inr resp, w') \<Rightarrow> (Inr resp, w')))"

section \<open>The stream\<close>

record start_message =
  sm_ID :: string
  sm_Model :: string
  sm_Usage :: messageUsage

record event_delta =
  ed_Type :: string
  ed_Text :: string
  ed_StopReason :: string

record streamEvent =
  ev_Type :: string
  ev_Message :: "start_message option"
  ev_Index :: int
  ev_Delta :: "event_delta option"
  ev_Usage :: "messageUsage option"
  ev_Error :: "(string \<times> string) option"

text \<open>A pointer to a struct: \<open>null\<close> clears it, an object is decoded into what it points to.\<close>

definition dec_ptr :: "(string \<Rightarrow> json \<Rightarrow> 'a \<Rightarrow> 'a option) \<Rightarrow> 'a \<Rightarrow> json \<Rightarrow> 'a option \<Rightarrow> 'a option option" where
  "dec_ptr field zero v old = (if v = JNull then Some None
     else map_option Some (dec_struct field (case old of None \<Rightarrow> zero | Some x \<Rightarrow> x) v))"

definition start_message_field :: "string \<Rightarrow> json \<Rightarrow> start_message \<Rightarrow> start_message option" where
  "start_message_field key v m = (let k = to_lower key in
     if k = ''id'' then map_option (\<lambda>s. m\<lparr>sm_ID := s\<rparr>) (dec_str v (sm_ID m))
     else if k = ''model'' then map_option (\<lambda>s. m\<lparr>sm_Model := s\<rparr>) (dec_str v (sm_Model m))
     else if k = ''usage'' then map_option (\<lambda>u. m\<lparr>sm_Usage := u\<rparr>) (dec_struct messageUsage_field (sm_Usage m) v)
     else Some m)"

definition event_delta_field :: "string \<Rightarrow> json \<Rightarrow> event_delta \<Rightarrow> event_delta option" where
  "event_delta_field key v d = (let k = to_lower key in
     if k = ''type'' then map_option (\<lambda>s. d\<lparr>ed_Type := s\<rparr>) (dec_str v (ed_Type d))
     else if k = ''text'' then map_option (\<lambda>s. d\<lparr>ed_Text := s\<rparr>) (dec_str v (ed_Text d))
     else if k = ''stop_reason'' then map_option (\<lambda>s. d\<lparr>ed_StopReason := s\<rparr>) (dec_str v (ed_StopReason d))
     else Some d)"

definition event_error_field :: "string \<Rightarrow> json \<Rightarrow> string \<times> string \<Rightarrow> (string \<times> string) option" where
  "event_error_field key v = (\<lambda>(t, m). let k = to_lower key in
     if k = ''type'' then map_option (\<lambda>s. (s, m)) (dec_str v t)
     else if k = ''message'' then map_option (\<lambda>s. (t, s)) (dec_str v m)
     else Some (t, m))"

definition streamEvent_field :: "string \<Rightarrow> json \<Rightarrow> streamEvent \<Rightarrow> streamEvent option" where
  "streamEvent_field key v e = (let k = to_lower key in
     if k = ''type'' then map_option (\<lambda>s. e\<lparr>ev_Type := s\<rparr>) (dec_str v (ev_Type e))
     else if k = ''message'' then map_option (\<lambda>m. e\<lparr>ev_Message := m\<rparr>)
       (dec_ptr start_message_field \<lparr>sm_ID = [], sm_Model = [], sm_Usage = messageUsage0\<rparr> v (ev_Message e))
     else if k = ''index'' then map_option (\<lambda>n. e\<lparr>ev_Index := n\<rparr>) (dec_int v (ev_Index e))
     else if k = ''delta'' then map_option (\<lambda>d. e\<lparr>ev_Delta := d\<rparr>)
       (dec_ptr event_delta_field \<lparr>ed_Type = [], ed_Text = [], ed_StopReason = []\<rparr> v (ev_Delta e))
     else if k = ''usage'' then map_option (\<lambda>u. e\<lparr>ev_Usage := u\<rparr>) (dec_ptr messageUsage_field messageUsage0 v (ev_Usage e))
     else if k = ''error'' then map_option (\<lambda>x. e\<lparr>ev_Error := x\<rparr>) (dec_ptr event_error_field ([], []) v (ev_Error e))
     else Some e)"

definition streamEvent_Unmarshal :: "json \<Rightarrow> streamEvent option" where
  "streamEvent_Unmarshal j = dec_struct streamEvent_field
     \<lparr>ev_Type = [], ev_Message = None, ev_Index = 0, ev_Delta = None, ev_Usage = None, ev_Error = None\<rparr> j"

record anthStreamState =
  st_providerName :: string
  st_id :: string
  st_model :: string
  st_created :: int
  st_inputTokens :: int

definition newStreamState :: "int \<Rightarrow> string \<Rightarrow> anthStreamState" where
  "newStreamState now providerName = \<lparr>st_providerName = providerName, st_id = [], st_model = [], st_created = now, st_inputTokens = 0\<rparr>"

definition makeChunk :: "anthStreamState \<Rightarrow> StreamChoice list \<Rightarrow> Usage option \<Rightarrow> ChatStreamChunk" where
  "makeChunk s choices usage = \<lparr>k_ID = st_id s, k_Object = ''chat.completion.chunk'', k_Created = st_created s,
     k_Model = st_model s, k_Choices = choices, k_Usage = usage\<rparr>"

definition choice0 :: "string \<Rightarrow> string \<Rightarrow> string \<Rightarrow> StreamChoice" where
  "choice0 role content finish = \<lparr>sc_Index = 0, sc_Delta = \<lparr>d_Role = role, d_Content = content, d_Extra = []\<rparr>, sc_FinishReason = finish\<rparr>"

text \<open>\<open>handleEvent\<close>: the result is the state, the events and \<open>(done, ok)\<close>.\<close>

definition handleEvent ::
  "string \<Rightarrow> (nat \<Rightarrow> bool) \<Rightarrow> anthStreamState \<Rightarrow> streamEvent \<Rightarrow> StreamEvent list \<Rightarrow> anthStreamState \<times> StreamEvent list \<times> bool \<times> bool" where
  "handleEvent name sends state ev evs =
     (let send_chunk = (\<lambda>st c. case sendEvent sends (EvChunk c) evs of (evs', ok) \<Rightarrow> (st, evs', False, ok));
          send_err = (\<lambda>sentinel msg. case sendEvent sends (upstream_event name sentinel msg) evs of (evs', ok) \<Rightarrow> (state, evs', True, ok))
      in if ev_Type ev = ''message_start'' then
           (let state' = (case ev_Message ev of None \<Rightarrow> state
                | Some m \<Rightarrow> state\<lparr>st_id := sm_ID m, st_model := sm_Model m, st_inputTokens := mu_InputTokens (sm_Usage m)\<rparr>)
            in send_chunk state' (makeChunk state' [choice0 ''assistant'' [] []] None))
         else if ev_Type ev = ''content_block_delta'' then
           (case ev_Delta ev of
              None \<Rightarrow> (state, evs, False, True)
            | Some d \<Rightarrow> if ed_Type d \<noteq> ''text_delta'' \<or> ed_Text d = [] then (state, evs, False, True)
                else send_chunk state (makeChunk state [choice0 [] (ed_Text d) []] None))
         else if ev_Type ev = ''message_delta'' then
           (let finishReason = (case ev_Delta ev of None \<Rightarrow> [] | Some d \<Rightarrow> mapStopReason (ed_StopReason d));
                usage = map_option (\<lambda>u. make_usage (st_inputTokens state) (mu_OutputTokens u)) (ev_Usage ev)
            in send_chunk state (makeChunk state [choice0 [] [] finishReason] usage))
         else if ev_Type ev = ''message_stop'' then (state, evs, True, True)
         else if ev_Type ev = ''error'' then
           (case ev_Error ev of
              None \<Rightarrow> send_err ErrUpstream ''upstream sent 'error' event with no body''
            | Some (t, m) \<Rightarrow> send_err (anthropic_mapToSentinel 0 t) m)
         else (state, evs, False, True))"

definition anthropic_handle ::
  "(string \<Rightarrow> string + json) \<Rightarrow> string \<Rightarrow> (nat \<Rightarrow> bool) \<Rightarrow> string \<Rightarrow> anthStreamState \<Rightarrow> StreamEvent list \<Rightarrow> anthStreamState \<times> StreamEvent list \<times> bool" where
  "anthropic_handle parse name sends data state evs =
     (let bad = (\<lambda>msg. (state, fst (sendEvent sends (upstream_event name ErrUpstream (''decode event: '' @ msg)) evs), True))
      in case parse data of
           Inl msg \<Rightarrow> bad msg
         | Inr j \<Rightarrow> (case streamEvent_Unmarshal j of
             None \<Rightarrow> bad ''json: type mismatch''
           | Some ev \<Rightarrow> (case handleEvent name sends state ev evs of (state', evs', finished, ok) \<Rightarrow> (state', evs', \<not> ok \<or> finished))))"

definition anthropic_readSSE :: "(string \<Rightarrow> string + json) \<Rightarrow> string \<Rightarrow> int \<Rightarrow> sse_input \<Rightarrow> StreamEvent list" where
  "anthropic_readSSE parse name now inp = end_sse name ''stream ended without message_stop'' inp
     (scan_sse (anthropic_handle parse name (si_sends inp)) (si_lines inp) (newStreamState now name) [])"

definition anthropic_ChatCompletionStream ::
  "'w http_env \<Rightarrow> (http_response \<Rightarrow> sse_input) \<Rightarrow> anthropic_Provider \<Rightarrow> ChatRequest \<Rightarrow> 'w \<Rightarrow> (goerr + StreamEvent list) \<times> 'w" where
  "anthropic_ChatCompletionStream env stream_of p req w =
     (let name = ac_Name (ap_cfg p);
          httpReq = anthropic_request env p (toAnthropicRequest req (ap_defaultMaxTokens p) True);
          httpReq' = httpReq\<lparr>hq_Header := al_put ''Accept'' ''text/event-stream'' (hq_Header httpReq)\<rparr>
      in case he_Build env (hq_URL httpReq') of
        Some err \<Rightarrow> (Inl (Wrapped ''anthropic: build request'' err), w)
      | None \<Rightarrow> (case he_Do env httpReq' w of
          (Inl err, w') \<Rightarrow> (Inl (mapRequestError name err (he_Text env err)), w')
        | (Inr resp, w') \<Rightarrow>
            (if hs_Status resp \<ge> 400
             then Inl (anthropic_http_error env p resp (case hs_Body resp of Inl _ \<Rightarrow> [] | Inr b \<Rightarrow> b))
             else Inr (anthropic_readSSE (he_Parse env) name (he_Now env w') (stream_of resp)), w')))"

interpretation anthropic_sse: sse_handler "anthropic_handle parse name sends" for parse name sends
  by unfold_locales
     (auto simp: anthropic_handle_def handleEvent_def Let_def sendEvent_def split: if_splits sum.splits option.splits prod.splits)

section \<open>What a stream carries\<close>

lemma anthropic_handle_stop_clean:
  assumes "anthropic_handle parse name sends data st evs = (t, evs', True)" "\<And>i. sends i" "list_all is_chunk evs'"
  shows "\<exists>j ev. parse data = Inr j \<and> streamEvent_Unmarshal j = Some ev \<and> ev_Type ev = ''message_stop''"
  using assms
  by (auto simp: anthropic_handle_def handleEvent_def Let_def sendEvent_def upstream_event_def
      split: if_splits sum.splits option.splits)

text \<open>The events of the \<open>data:\<close> lines, when all of them decode.\<close>

definition decode_event :: "(string \<Rightarrow> string + json) \<Rightarrow> string \<Rightarrow> streamEvent option" where
  "decode_event parse data = (case parse data of Inl _ \<Rightarrow> None | Inr j \<Rightarrow> streamEvent_Unmarshal j)"

definition stream_events :: "(string \<Rightarrow> string + json) \<Rightarrow> string list \<Rightarrow> streamEvent option list" where
  "stream_events parse lines = map (decode_event parse) (List.map_filter sse_data lines)"

definition event_text :: "streamEvent \<Rightarrow> string" where
  "event_text ev = (if ev_Type ev = ''content_block_delta'' then
     (case ev_Delta ev of Some d \<Rightarrow> if ed_Type d = ''text_delta'' then ed_Text d else [] | None \<Rightarrow> []) else [])"

definition event_finish :: "streamEvent \<Rightarrow> string" where
  "event_finish ev = (if ev_Type ev = ''message_delta'' then
     (case ev_Delta ev of Some d \<Rightarrow> mapStopReason (ed_StopReason d) | None \<Rightarrow> []) else [])"

fun chunk_text :: "StreamEvent \<Rightarrow> string" where
  "chunk_text (EvChunk c) = concat (map (\<lambda>ch. d_Content (sc_Delta ch)) (k_Choices c))"
| "chunk_text (EvErr e) = []"

fun chunk_finish :: "StreamEvent \<Rightarrow> string" where
  "chunk_finish (EvChunk c) = concat (map sc_FinishReason (k_Choices c))"
| "chunk_finish (EvErr e) = []"

fun stamped :: "int \<Rightarrow> StreamEvent \<Rightarrow> bool" where
  "stamped now (EvChunk c) \<longleftrightarrow> k_Object c = ''chat.completion.chunk'' \<and> k_Created c = now \<and> map sc_Index (k_Choices c) = [0]"
| "stamped now (EvErr e) \<longleftrightarrow> False"

lemma handleEvent_inner:
  assumes "\<And>i. sends i" "ev_Type ev \<noteq> ''message_stop''" "ev_Type ev \<noteq> ''error''" "st_created st = now"
  shows "\<exists>st' new. handleEvent name sends st ev evs = (st', evs @ new, False, True) \<and> st_created st' = now \<and>
    list_all (stamped now) new \<and> concat (map chunk_text new) = event_text ev \<and> concat (map chunk_finish new) = event_finish ev"
  using assms
  by (auto simp: handleEvent_def Let_def sendEvent_def makeChunk_def choice0_def event_text_def event_finish_def
      split: option.splits)

lemma scan_body:
  assumes "\<And>i. sends i" "stream_events parse lines = map Some body @ Some stop # rest" "ev_Type stop = ''message_stop''"
    "\<forall>e \<in> set body. ev_Type e \<noteq> ''message_stop'' \<and> ev_Type e \<noteq> ''error''" "st_created st = now"
  shows "\<exists>new. scan_sse (anthropic_handle parse name sends) lines st evs = (evs @ new, True) \<and>
    list_all (stamped now) new \<and> concat (map chunk_text new) = concat (map event_text body) \<and>
    concat (map chunk_finish new) = concat (map event_finish body)"
  using assms(2,4,5)
proof (induction lines arbitrary: st evs body)
  case Nil
  then show ?case by (simp add: stream_events_def List.map_filter_def)
next
  case (Cons line lines)
  show ?case
  proof (cases "sse_data line")
    case None
    with Cons show ?thesis by (simp add: stream_events_def map_filter_simps)
  next
    case (Some data)
    with Cons.prems(1) have evs: "decode_event parse data # stream_events parse lines = map Some body @ Some stop # rest"
      by (simp add: stream_events_def map_filter_simps)
    have handle: "anthropic_handle parse name sends data st evs =
        (case handleEvent name sends st e evs of (st', evs', finished, ok) \<Rightarrow> (st', evs', \<not> ok \<or> finished))"
      if "decode_event parse data = Some e" for e
      using that by (auto simp: decode_event_def anthropic_handle_def Let_def split: sum.splits)
    consider (stop) "body = []" | (inner) e body' where "body = e # body'" by (cases body) auto
    then show ?thesis
    proof cases
      case stop
      with evs handle [of stop] assms(3) Some show ?thesis by (simp add: handleEvent_def Let_def)
    next
      case (inner e body')
      then have e: "decode_event parse data = Some e" "stream_events parse lines = map Some body' @ Some stop # rest"
        using evs by simp_all
      obtain st' new where h: "handleEvent name sends st e evs = (st', evs @ new, False, True)" "st_created st' = now"
        "list_all (stamped now) new" "concat (map chunk_text new) = event_text e" "concat (map chunk_finish new) = event_finish e"
        using handleEvent_inner [of sends e st now name evs] assms(1) Cons.prems(2,3) inner by auto
      have "anthropic_handle parse name sends data st evs = (st', evs @ new, False)" using handle [OF e(1)] h(1) by simp
      moreover obtain more where "scan_sse (anthropic_handle parse name sends) lines st' (evs @ new) = (evs @ new @ more, True)"
        "list_all (stamped now) more" "concat (map chunk_text more) = concat (map event_text body')"
        "concat (map chunk_finish more) = concat (map event_finish body')"
        using Cons.IH [OF e(2), of st' "evs @ new"] Cons.prems(2) inner h(2) by auto
      ultimately show ?thesis using Some h inner by (intro exI [of _ "new @ more"]) simp
    qed
  qed
qed

section \<open>Properties\<close>

text \<open>
  C21: An Anthropic stream whose events decode and which reaches \<open>message_stop\<close> without an error
  event becomes a stream of chunks without an error: the concatenated contents are the
  concatenated text deltas, the finish reasons are the translated stop reasons, and every
  chunk has one choice with index 0 and the creation time of the stream.
\<close>

theorem anthropic_stream_faithful:
  assumes "\<forall>i. si_sends inp i" "stream_events parse (si_lines inp) = map Some body @ Some stop # rest"
    "ev_Type stop = ''message_stop''" "\<forall>e \<in> set body. ev_Type e \<noteq> ''message_stop'' \<and> ev_Type e \<noteq> ''error''"
  shows "let evs = anthropic_readSSE parse name now inp in
    list_all (stamped now) evs \<and> concat (map chunk_text evs) = concat (map event_text body) \<and>
    concat (map chunk_finish evs) = concat (map event_finish body)"
proof -
  have "st_created (newStreamState now name) = now" by (simp add: newStreamState_def)
  from scan_body [OF _ assms(2-4) this, of "si_sends inp" name "[]"] assms(1) show ?thesis
    by (auto simp: anthropic_readSSE_def end_sse_def)
qed

text \<open>A parser for the payloads of one example stream.\<close>

definition demo_events :: "(string \<times> json) list" where
  "demo_events = [
     (''start'', JObj [(''type'', JStr ''message_start''), (''message'', JObj [(''id'', JStr ''m1''), (''usage'', JObj [(''input_tokens'', JInt 7)])])]),
     (''ping'', JObj [(''type'', JStr ''ping'')]),
     (''a'', JObj [(''type'', JStr ''content_block_delta''), (''delta'', JObj [(''type'', JStr ''text_delta''), (''text'', JStr ''Hel'')])]),
     (''b'', JObj [(''type'', JStr ''content_block_delta''), (''delta'', JObj [(''type'', JStr ''text_delta''), (''text'', JStr ''lo'')])]),
     (''end'', JObj [(''type'', JStr ''message_delta''), (''delta'', JObj [(''stop_reason'', JStr ''end_turn'')]), (''usage'', JObj [(''output_tokens'', JInt 2)])]),
     (''stop'', JObj [(''type'', JStr ''message_stop'')])]"

definition demo_parse :: "string \<Rightarrow> string + json" where
  "demo_parse s = (case map_of demo_events s of None \<Rightarrow> Inl ''syntax'' | Some j \<Rightarrow> Inr j)"

definition demo_sse :: sse_input where
  "demo_sse = \<lparr>si_lines = [''event: message_start'', ''data: start'', [], '': keepalive'', ''data: ping'', ''data:a'', ''data: b'', ''data: end'', ''data: stop''],
     si_scan_err = None, si_ctx_done = False, si_sends = (\<lambda>_. True)\<rparr>"

theorem anthropic_stream_faithful_witness:
  "concat (map chunk_text (anthropic_readSSE demo_parse ''claude'' 5 demo_sse)) = ''Hello'' \<and>
   concat (map chunk_finish (anthropic_readSSE demo_parse ''claude'' 5 demo_sse)) = ''stop''"
proof -
  let ?all = "map the (stream_events demo_parse (si_lines demo_sse))"
  have s: "stream_events demo_parse (si_lines demo_sse) = map Some (butlast ?all) @ Some (last ?all) # []" by code_simp
  have sends: "\<forall>i. si_sends demo_sse i" by (simp add: demo_sse_def)
  have stop: "ev_Type (last ?all) = ''message_stop''" by code_simp
  have body: "\<forall>e \<in> set (butlast ?all). ev_Type e \<noteq> ''message_stop'' \<and> ev_Type e \<noteq> ''error''" by code_simp
  have "concat (map event_text (butlast ?all)) = ''Hello''" "concat (map event_finish (butlast ?all)) = ''stop''" by code_simp+
  with anthropic_stream_faithful [OF sends s stop body, of "''claude''" 5] show ?thesis by (simp add: Let_def)
qed

end
