(* ===== verification/Messages.thy ===== *)
theory Messages
  imports ChatProperties AnthropicAdapter
begin

text \<open>
  \<open>internal/server/messages.go\<close>: the handler of \<open>/v1/messages\<close>, which passes a request of
  the Anthropic protocol on as it came and pipes the response back, reading the token counts
  on the way.  It works on the gateway's state; the HTTP client acts on the router's world.
\<close>

section \<open>Usage\<close>

record anthropicUsage =
  au_InputTokens :: int
  au_OutputTokens :: int

definition anthropicUsage0 :: anthropicUsage where
  "anthropicUsage0 = \<lparr>au_InputTokens = 0, au_OutputTokens = 0\<rparr>"

definition anthropicUsage_field :: "string \<Rightarrow> json \<Rightarrow> anthropicUsage \<Rightarrow> anthropicUsage option" where
  "anthropicUsage_field key v u = (let k = to_lower key in
     if k = ''input_tokens'' then map_option (\<lambda>n. u\<lparr>au_InputTokens := n\<rparr>) (dec_int v (au_InputTokens u))
     else if k = ''output_tokens'' then map_option (\<lambda>n. u\<lparr>au_OutputTokens := n\<rparr>) (dec_int v (au_OutputTokens u))
     else Some u)"

text \<open>The anonymous struct \<open>ev\<close> of \<open>scanUsageLine\<close>.\<close>

record usage_event =
  ue_Type :: string
  ue_MessageUsage :: anthropicUsage
  ue_Usage :: anthropicUsage

definition usage_message_field :: "string \<Rightarrow> json \<Rightarrow> anthropicUsage \<Rightarrow> anthropicUsage option" where
  "usage_message_field key v u = (if to_lower key = ''usage'' then dec_struct anthropicUsage_field u v else Some u)"

definition usage_event_field :: "string \<Rightarrow> json \<Rightarrow> usage_event \<Rightarrow> usage_event option" where
  "usage_event_field key v e = (let k = to_lower key in
     if k = ''type'' then map_option (\<lambda>s. e\<lparr>ue_Type := s\<rparr>) (dec_str v (ue_Type e))
     else if k = ''message'' then map_option (\<lambda>u. e\<lparr>ue_MessageUsage := u\<rparr>) (dec_struct usage_message_field (ue_MessageUsage e) v)
     else if k = ''usage'' then map_option (\<lambda>u. e\<lparr>ue_Usage := u\<rparr>) (dec_struct anthropicUsage_field (ue_Usage e) v)
     else Some e)"

definition scanUsageLine :: "(string \<Rightarrow> string + json) \<Rightarrow> string \<Rightarrow> anthropicUsage \<Rightarrow> anthropicUsage" where
  "scanUsageLine parse line usage =
     (if \<not> has_prefix line ''data: '' then usage
      else let payload = drop 6 line
           in if \<not> contains payload ''\"usage\"'' then usage
              else case parse payload of
                Inl _ \<Rightarrow> usage
              | Inr j \<Rightarrow> (case dec_struct usage_event_field \<lparr>ue_Type = [], ue_MessageUsage = anthropicUsage0, ue_Usage = anthropicUsage0\<rparr> j of
                  None \<Rightarrow> usage
                | Some ev \<Rightarrow>
                    if ue_Type ev = ''message_start'' then usage\<lparr>au_InputTokens := au_InputTokens (ue_MessageUsage ev)\<rparr>
                    else if ue_Type ev = ''message_delta'' then usage\<lparr>au_OutputTokens := au_OutputTokens (ue_Usage ev)\<rparr>
                    else usage))"

text \<open>
  The usage of a response body that is not a stream, decoded with the error ignored: a member
  of the wrong type leaves its field alone.
\<close>

definition lenient_int :: "string \<Rightarrow> (string \<times> json) list \<Rightarrow> int" where
  "lenient_int key kvs = foldl (\<lambda>old (k, v). if equal_fold k key then (case dec_int v old of Some n \<Rightarrow> n | None \<Rightarrow> old) else old) 0 kvs"

definition envelope_usage :: "(string \<Rightarrow> string + json) \<Rightarrow> string \<Rightarrow> anthropicUsage" where
  "envelope_usage parse body = (case parse body of
     Inr (JObj kvs) \<Rightarrow> let u = lenient_obj ''usage'' kvs in \<lparr>au_InputTokens = lenient_int ''input_tokens'' u, au_OutputTokens = lenient_int ''output_tokens'' u\<rparr>
   | _ \<Rightarrow> anthropicUsage0)"

section \<open>Piping a stream\<close>

text \<open>What successive calls of \<open>ReadBytes\<close> return: the lines, with their line feeds; the last may lack one.\<close>

function read_lines :: "string \<Rightarrow> string list" where
  "read_lines [] = []"
| "read_lines (c # cs) =
     (let line = takeWhile (\<lambda>b. b \<noteq> CHR 10) (c # cs); rest = dropWhile (\<lambda>b. b \<noteq> CHR 10) (c # cs)
      in case rest of [] \<Rightarrow> [line] | nl # rest' \<Rightarrow> (line @ [nl]) # read_lines rest')"
  by pat_completeness auto
termination
proof (relation "measure length")
  fix c :: char and cs line rest nl rest'
  assume "rest = dropWhile (\<lambda>b. b \<noteq> CHR 10) (c # cs)" "rest = nl # rest'"
  then have "length (nl # rest') \<le> length (c # cs)" by (metis length_dropWhile_le)
  then show "(rest', c # cs) \<in> measure length" by simp
qed simp

declare read_lines.simps(2) [simp del]

fun pipe_lines :: "(string \<Rightarrow> string + json) \<Rightarrow> string list \<Rightarrow> resp_writer \<Rightarrow> anthropicUsage \<Rightarrow> resp_writer \<times> anthropicUsage" where
  "pipe_lines parse [] w usage = (w, usage)"
| "pipe_lines parse (line # lines) w usage = (case write_part (BText line) w of (ok, w') \<Rightarrow>
     if ok then pipe_lines parse lines w' (scanUsageLine parse line usage) else (w', usage))"

definition pipeAnthropicSSE :: "(string \<Rightarrow> string + json) \<Rightarrow> string \<Rightarrow> resp_writer \<Rightarrow> resp_writer \<times> anthropicUsage" where
  "pipeAnthropicSSE parse body w = pipe_lines parse (read_lines body) w anthropicUsage0"

section \<open>The handler\<close>

definition writeAnthropicError :: "int \<Rightarrow> string \<Rightarrow> string \<Rightarrow> resp_writer \<Rightarrow> resp_writer" where
  "writeAnthropicError status errType message w =
     jsonEncode (JObj [(''error'', JObj [(''message'', JStr message), (''type'', JStr errType)]), (''type'', JStr ''error'')])
       (WriteHeader status (set_header ''Content-Type'' ''application/json'' w))"

record peek =
  pk_Model :: string
  pk_Stream :: bool

definition peek_field :: "string \<Rightarrow> json \<Rightarrow> peek \<Rightarrow> peek option" where
  "peek_field key v p = (let k = to_lower key in
     if k = ''model'' then map_option (\<lambda>s. p\<lparr>pk_Model := s\<rparr>) (dec_str v (pk_Model p))
     else if k = ''stream'' then map_option (\<lambda>b. p\<lparr>pk_Stream := b\<rparr>) (dec_bool v (pk_Stream p))
     else Some p)"

definition peek_body :: "(string \<Rightarrow> string + json) \<Rightarrow> string \<Rightarrow> peek option" where
  "peek_body parse body = (case parse body of Inl _ \<Rightarrow> None | Inr j \<Rightarrow> dec_struct peek_field \<lparr>pk_Model = [], pk_Stream = False\<rparr> j)"

definition pass_headers :: "string list \<Rightarrow> header \<Rightarrow> resp_writer \<Rightarrow> resp_writer" where
  "pass_headers hs from w = foldl (\<lambda>w h. let v = header_get from h in if v \<noteq> [] then set_header h v w else w) w hs"

definition passed_headers :: "string list" where
  "passed_headers = [''Content-Type'', ''Retry-After'', ''Request-Id'', ''Anthropic-Ratelimit-Requests-Remaining'', ''Anthropic-Ratelimit-Tokens-Remaining'']"

record 'w messages_deps =
  md_env :: "'w http_env"
  md_registry :: registryState
  md_billing :: bool
  md_stream :: "http_response \<Rightarrow> string"

text \<open>
  What follows a response of the upstream.  \<open>md_stream\<close> gives the bytes of a streamed body up
  to its end or to the error that cuts it off.
\<close>

definition relay_response ::
  "'w messages_deps \<Rightarrow> chat_call \<Rightarrow> string \<Rightarrow> string \<Rightarrow> http_response \<Rightarrow> ('b, 'w, 'k, 'l, 'g) gateway handler" where
  "relay_response deps call prov model resp r w0 s =
     (let w = pass_headers passed_headers (hs_Header resp) w0;
          streamed = has_prefix (header_get (hs_Header resp) ''Content-Type'') ''text/event-stream'';
          parse = he_Parse (md_env deps);
          finish = (\<lambda>w usage.
            let s1 = count_metric (ObserveRequest prov model (hs_Status resp)) s
            in if hs_Status resp = 200
               then (case emitBillingEvent (md_billing deps)
                        (billing_event call r model prov (au_InputTokens usage) (au_OutputTokens usage) 200 streamed [])
                        (count_metric (AddTokens prov model (au_InputTokens usage) (au_OutputTokens usage)) s1) of
                      (e, s2) \<Rightarrow> (e, w, s2))
               else (Returned, w, s1))
      in if streamed
         then (case pipeAnthropicSSE parse (md_stream deps resp) (WriteHeader (hs_Status resp) w) of (w', usage) \<Rightarrow> finish w' usage)
         else (case hs_Body resp of
             Inl _ \<Rightarrow> (Returned, writeAnthropicError 502 ''api_error'' ''Upstream read failed'' w, count_metric (ObserveRequest prov model 502) s)
           | Inr body \<Rightarrow> finish (snd (write_part (BText body) (WriteHeader (hs_Status resp) w)))
               (if hs_Status resp = 200 then envelope_usage parse body else anthropicUsage0)))"

definition messagesHandler :: "'w messages_deps \<Rightarrow> chat_call \<Rightarrow> ('b, 'w, 'k, 'l, 'g) gateway handler" where
  "messagesHandler deps call r w s =
     (let refuse = (\<lambda>status typ msg. (Returned, writeAnthropicError status typ msg w, s));
          on_body = (\<lambda>body.
            (case peek_body (he_Parse (md_env deps)) body of
               None \<Rightarrow> refuse 400 ''invalid_request_error'' ''Request body must be valid JSON with a model field''
             | Some pk \<Rightarrow>
                 let model = pk_Model pk
                 in if model = [] then refuse 400 ''invalid_request_error'' ''Request body must be valid JSON with a model field''
                    else (case ResolveModel (md_registry deps) model of
                      Inl _ \<Rightarrow> refuse 404 ''not_found_error'' (''model: '' @ model)
                    | Inr (OpenAI _) \<Rightarrow> refuse 404 ''not_found_error'' (''model '' @ model @ '' is not served by an Anthropic-protocol provider'')
                    | Inr (Anthropic p) \<Rightarrow>
                        let prov = ac_Name (ap_cfg p)
                        in (case ForwardMessages (md_env deps) p body (header_get (rq_Header r) ''Anthropic-Beta'') (rs_world (gw_router s)) of
                              (Inl _, wo) \<Rightarrow> (Returned, writeAnthropicError 502 ''api_error'' ''Upstream request failed'' w,
                                count_metric (ObserveRequest prov model 502) (s\<lparr>gw_router := (gw_router s)\<lparr>rs_world := wo\<rparr>\<rparr>))
                            | (Inr resp, wo) \<Rightarrow> relay_response deps call prov model resp r w (s\<lparr>gw_router := (gw_router s)\<lparr>rs_world := wo\<rparr>\<rparr>)))))
      in case cc_body call of
           TooLarge \<Rightarrow> refuse 413 ''invalid_request_error'' ''Request body too large''
         | ReadFailed \<Rightarrow> refuse 400 ''invalid_request_error'' ''Failed to read request body''
         | NoBody \<Rightarrow> on_body []
         | Body body \<Rightarrow> on_body body)"

section \<open>Lemmas\<close>

lemma concat_read_lines: "concat (read_lines s) = s"
proof (induction s rule: read_lines.induct)
  case (2 c cs)
  let ?p = "\<lambda>b. b \<noteq> CHR 10"
  show ?case
  proof (cases "dropWhile ?p (c # cs)")
    case Nil
    then have "takeWhile ?p (c # cs) = c # cs" by (metis append_Nil2 takeWhile_dropWhile_id)
    with Nil show ?thesis by (simp add: read_lines.simps(2) Let_def)
  next
    case (Cons nl rest)
    then have "takeWhile ?p (c # cs) @ nl # rest = c # cs" by (metis takeWhile_dropWhile_id)
    with Cons "2.IH" [OF refl refl Cons] show ?thesis by (simp add: read_lines.simps(2) Let_def del: takeWhile.simps dropWhile.simps)
  qed
qed simp

lemma pipe_lines_all:
  assumes "\<And>i. rw_writes w i" "rw_status w = Some st"
  shows "rw_body (fst (pipe_lines parse lines w u)) = rw_body w @ map BText lines \<and> rw_status (fst (pipe_lines parse lines w u)) = Some st \<and>
    snd (pipe_lines parse lines w u) = fold (scanUsageLine parse) lines u"
  using assms
proof (induction lines arbitrary: w u)
  case (Cons line lines)
  obtain ok w1 where wp: "write_part (BText line) w = (ok, w1)" by force
  then have "ok" "rw_writes w1 = rw_writes w" "rw_body w1 = rw_body w @ [BText line]" "rw_status w1 = Some st"
    using Cons.prems by (auto simp: write_part_def Let_def split: if_splits)
  with Cons wp show ?case by simp
qed simp

lemma render_texts: "concat (map (render pr) (map BText lines)) = concat lines"
  by (induction lines) simp_all

lemma pass_headers_frame [simp]:
  "rw_status (pass_headers hs from w) = rw_status w" "rw_body (pass_headers hs from w) = rw_body w" "rw_writes (pass_headers hs from w) = rw_writes w"
  by (induction hs arbitrary: w) (simp_all add: pass_headers_def Let_def)

lemma pipe_relayed:
  assumes "\<And>i. rw_writes w i" "rw_status w = Some st" "rw_body w = []"
  shows "rw_status (fst (pipeAnthropicSSE parse body w)) = Some st"
    "concat (map (render pr) (rw_body (fst (pipeAnthropicSSE parse body w)))) = body"
  using pipe_lines_all [OF assms(1,2), of parse "read_lines body" anthropicUsage0] assms(3) render_texts [of pr "read_lines body"]
  by (simp_all add: pipeAnthropicSSE_def concat_read_lines)

section \<open>Properties\<close>

text \<open>
  C32: The Anthropic endpoint is a verbatim passthrough.  The bytes of the client's body are
  the body of the upstream request, and, with a client that stays, the status and the bytes
  of the upstream's response, streamed or not, are what the client gets.
\<close>

theorem messages_verbatim:
  assumes "cc_body call = Body raw" "peek_body (he_Parse (md_env deps)) raw = Some pk" "pk_Model pk \<noteq> []"
    "ResolveModel (md_registry deps) (pk_Model pk) = Inr (Anthropic p)"
    "ForwardMessages (md_env deps) p raw (header_get (rq_Header r) ''Anthropic-Beta'') (rs_world (gw_router s)) = (Inr resp, wo)"
    "rw_status w = None" "rw_body w = []" "\<And>i. rw_writes w i"
    "messagesHandler deps call r w s = (e, w', s')"
  shows "(\<exists>httpReq. hq_URL httpReq = ap_baseURL p @ messagesPath \<and> hq_Body httpReq = Raw raw \<and>
      he_Do (md_env deps) httpReq (rs_world (gw_router s)) = (Inr resp, wo)) \<and>
    (let streamed = has_prefix (header_get (hs_Header resp) ''Content-Type'') ''text/event-stream'';
         sent = concat (map (render pr) (rw_body w'))
     in (streamed \<longrightarrow> rw_status w' = Some (hs_Status resp) \<and> sent = md_stream deps resp) \<and>
        (\<not> streamed \<longrightarrow> (\<forall>body. hs_Body resp = Inr body \<longrightarrow> rw_status w' = Some (hs_Status resp) \<and> sent = body)))"
proof
  show "\<exists>httpReq. hq_URL httpReq = ap_baseURL p @ messagesPath \<and> hq_Body httpReq = Raw raw \<and>
      he_Do (md_env deps) httpReq (rs_world (gw_router s)) = (Inr resp, wo)"
    using assms(5) by (force simp: ForwardMessages_def Let_def split: option.splits prod.splits sum.splits)
next
  let ?s = "s\<lparr>gw_router := (gw_router s)\<lparr>rs_world := wo\<rparr>\<rparr>" and ?w = "WriteHeader (hs_Status resp) (pass_headers passed_headers (hs_Header resp) w)"
  have eq: "relay_response deps call (ac_Name (ap_cfg p)) (pk_Model pk) resp r w ?s = (e, w', s')"
    using assms(1-5,9) by (simp add: messagesHandler_def Let_def)
  let ?streamed = "has_prefix (header_get (hs_Header resp) ''Content-Type'') ''text/event-stream''"
  have st: "rw_status ?w = Some (hs_Status resp)" "rw_body ?w = []" "\<And>i. rw_writes ?w i" using assms(6-8) by simp_all
  have s: "w' = fst (pipeAnthropicSSE (he_Parse (md_env deps)) (md_stream deps resp) ?w)" if ?streamed
    using eq that by (auto simp: relay_response_def Let_def split: prod.splits if_splits)
  have u: "w' = snd (write_part (BText body) ?w)" if "\<not> ?streamed" "hs_Body resp = Inr body" for body
    using eq that by (auto simp: relay_response_def Let_def split: prod.splits if_splits)
  show "let streamed = ?streamed; sent = concat (map (render pr) (rw_body w'))
     in (streamed \<longrightarrow> rw_status w' = Some (hs_Status resp) \<and> sent = md_stream deps resp) \<and>
        (\<not> streamed \<longrightarrow> (\<forall>body. hs_Body resp = Inr body \<longrightarrow> rw_status w' = Some (hs_Status resp) \<and> sent = body))"
    using s u pipe_relayed [OF st(3,1,2)] st by (simp add: Let_def write_part_body)
qed

definition demo_claude :: anthropic_Provider where
  "demo_claude = \<lparr>ap_cfg = \<lparr>ac_Name = ''claude'', ac_Endpoint = [], ac_APIKey = ''k'', ac_APIVersion = [], ac_Timeout = 0, ac_DefaultMaxTokens = 0,
     ac_Exact = [], ac_Glob = []\<rparr>, ap_baseURL = ''u'', ap_defaultMaxTokens = 1\<rparr>"

definition demo_sse_response :: http_response where
  "demo_sse_response = \<lparr>hs_Status = 200, hs_Header = [(''Content-Type'', ''text/event-stream; charset=utf-8'')], hs_Body = Inr []\<rparr>"

definition demo_messages :: "(goerr + ChatResponse) list messages_deps" where
  "demo_messages = \<lparr>md_env = \<lparr>he_Build = (\<lambda>_. None), he_Do = (\<lambda>_ w. (Inr demo_sse_response, w)),
       he_Parse = (\<lambda>s. if s = ''body'' then Inr (JObj [(''model'', JStr ''claude-3'')]) else Inl ''syntax''),
       he_Until = (\<lambda>_. None), he_Version = [], he_Text = (\<lambda>_. []), he_Now = (\<lambda>_. 0)\<rparr>,
     md_registry = NewEmpty\<lparr>defaultProvider := Some (Anthropic demo_claude)\<rparr>, md_billing = True,
     md_stream = (\<lambda>_. ''event: ping\<newline>data: {}\<newline>\<newline>data: cut'')\<rparr>"

theorem messages_verbatim_witness:
  "concat (map (render (\<lambda>_. [])) (rw_body (fst (snd (messagesHandler demo_messages demo_call demo_http_request demo_writer demo_gateway))))) =
     ''event: ping\<newline>data: {}\<newline>\<newline>data: cut''"
proof -
  obtain e w' s' where h: "messagesHandler demo_messages demo_call demo_http_request demo_writer demo_gateway = (e, w', s')"
    by (metis prod_cases3)
  let ?pk = "\<lparr>pk_Model = ''claude-3'', pk_Stream = False\<rparr>"
  have body: "cc_body demo_call = Body ''body''" by (simp add: demo_call_def)
  have peek: "peek_body (he_Parse (md_env demo_messages)) ''body'' = Some ?pk" "pk_Model ?pk \<noteq> []" by code_simp+
  have res: "ResolveModel (md_registry demo_messages) (pk_Model ?pk) = Inr (Anthropic demo_claude)" by code_simp
  have fwd: "ForwardMessages (md_env demo_messages) demo_claude ''body'' (header_get (rq_Header demo_http_request) ''Anthropic-Beta'') (rs_world (gw_router demo_gateway)) =
      (Inr demo_sse_response, rs_world (gw_router demo_gateway))" by (simp add: ForwardMessages_def demo_messages_def Let_def)
  have w: "rw_status demo_writer = None" "rw_body demo_writer = []" "\<And>i. rw_writes demo_writer i" by (simp_all add: new_writer_def)
  have sse: "has_prefix (header_get (hs_Header demo_sse_response) ''Content-Type'') ''text/event-stream''" by code_simp
  from messages_verbatim [OF body peek res fwd w h, of "\<lambda>_. []"] sse h show ?thesis by (simp add: demo_messages_def)
qed

end
