(* ===== verification/WholeServer.thy ===== *)
theory WholeServer
  imports Server AdminViews RequestLogs Messages
begin

text \<open>
  The server with its endpoints in place: \<open>server.New\<close> over the handlers of the other theories and
  one state for all of them, and the two sub-routers \<open>adminKeysHandlers\<close> and
  \<open>adminPricingHandlers\<close>.  The authentication cache and the response cache use keys with
  different prefixes of one Redis and are kept as two stores.  The locale \<open>server_invariant\<close> says
  when the whole server keeps a predicate on its state.
\<close>

section \<open>State and environment\<close>

record ('b, 'w, 'k, 'l, 'g) whole =
  wh_admin :: "'k admin_state"
  wh_registry :: registryState
  wh_gateway :: "('b, 'w, 'k, 'l, 'g) gateway"
  wh_stats :: StatsCollector
  wh_cache_stats :: CacheStatsCollector
  wh_access :: "access_log list"
  wh_ids :: nat

text \<open>
  What the handlers are given besides the state: the router library (paths and its two default
  answers), the dependencies of each group of handlers, what a call finds with its request, what
  the metrics registry gathers, and the outside of the reload.
\<close>

record ('b, 'tok, 'w, 'k, 'l, 'g) server_env =
  sv_mounted :: "string \<Rightarrow> string \<Rightarrow> bool"
  sv_match :: "string \<Rightarrow> string \<Rightarrow> bool"
  sv_NotFound :: "request \<Rightarrow> resp_writer \<Rightarrow> resp_writer"
  sv_MethodNotAllowed :: "request \<Rightarrow> resp_writer \<Rightarrow> resp_writer"
  sv_promhttp :: "('b, 'w, 'k, 'l, 'g) whole \<Rightarrow> request \<Rightarrow> resp_writer \<Rightarrow> resp_writer"
  sv_admin :: "'k admin_deps"
  sv_call :: "request \<Rightarrow> admin_call"
  sv_chat :: "registryState \<Rightarrow> ('b, 'tok, 'w, 'k, 'l, 'g) chat_deps"
  sv_chat_call :: "request \<Rightarrow> chat_call"
  sv_messages :: "registryState \<Rightarrow> 'w messages_deps"
  sv_families :: "('b, 'w, 'k, 'l, 'g) whole \<Rightarrow> (goerr + metric_family list) option"
  sv_gathered :: "('b, 'w, 'k, 'l, 'g) whole \<Rightarrow> gathered option"
  sv_points :: "('b, 'w, 'k, 'l, 'g) whole \<Rightarrow> TimePoint list"
  sv_clock :: "('b, 'w, 'k, 'l, 'g) whole \<Rightarrow> instant"
  sv_uuid :: "nat \<Rightarrow> string"
  sv_log_db :: "('b, 'w, 'k, 'l, 'g) whole \<Rightarrow> log_db option"
  sv_log_err :: "goerr option"
  sv_order :: "LogQuery \<Rightarrow> log_row list \<Rightarrow> log_row list"
  sv_read :: "string \<Rightarrow> goerr + string"
  sv_yaml :: "string \<Rightarrow> goerr + providersFile"
  sv_getenv :: "string \<Rightarrow> string option"
  sv_load_text :: "load_failure \<Rightarrow> string"
  sv_providers_file :: string
  sv_limit_rules :: "RateLimitRule list"
  sv_cached :: "CachedAuthenticator option"
  sv_text :: "goerr \<Rightarrow> string"
  sv_checks :: "(string \<times> (('b, 'w, 'k, 'l, 'g) whole \<Rightarrow> goerr option)) list"
  sv_metrics :: "string option"
  sv_origins :: "string list"
  sv_pool :: bool
  sv_draining :: bool

section \<open>Handlers on the whole state\<close>

definition on_admin :: "'k admin_state handler \<Rightarrow> ('b, 'w, 'k, 'l, 'g) whole handler" where
  "on_admin h r w s = (case h r w (wh_admin s) of (e, w', a) \<Rightarrow> (e, w', s\<lparr>wh_admin := a\<rparr>))"

definition on_gateway :: "('b, 'w, 'k, 'l, 'g) gateway handler \<Rightarrow> ('b, 'w, 'k, 'l, 'g) whole handler" where
  "on_gateway h r w s = (case h r w (wh_gateway s) of (e, w', g) \<Rightarrow> (e, w', s\<lparr>wh_gateway := g\<rparr>))"

definition on_stats :: "StatsCollector handler \<Rightarrow> ('b, 'w, 'k, 'l, 'g) whole handler" where
  "on_stats h r w s = (case h r w (wh_stats s) of (e, w', c) \<Rightarrow> (e, w', s\<lparr>wh_stats := c\<rparr>))"

definition on_cache_stats :: "CacheStatsCollector handler \<Rightarrow> ('b, 'w, 'k, 'l, 'g) whole handler" where
  "on_cache_stats h r w s = (case h r w (wh_cache_stats s) of (e, w', c) \<Rightarrow> (e, w', s\<lparr>wh_cache_stats := c\<rparr>))"

definition on_registry :: "(registryState \<times> 'k admin_state) handler \<Rightarrow> ('b, 'w, 'k, 'l, 'g) whole handler" where
  "on_registry h r w s = (case h r w (wh_registry s, wh_admin s) of (e, w', reg, a) \<Rightarrow> (e, w', s\<lparr>wh_registry := reg, wh_admin := a\<rparr>))"

definition answer_only :: "(request \<Rightarrow> resp_writer \<Rightarrow> resp_writer) \<Rightarrow> 's handler" where
  "answer_only f r w s = (Returned, f r w, s)"

section \<open>The server's dependencies\<close>

text \<open>\<open>Authenticate\<close> of the authenticator of a gateway with a database: cached when there is Redis.\<close>

definition server_authn :: "('b, 'tok, 'w, 'k, 'l, 'g) server_env \<Rightarrow> instant \<Rightarrow> string \<Rightarrow> 'k auth_state \<Rightarrow> (goerr + Principal) \<times> 'k auth_state" where
  "server_authn env now = (let pg = pg_Authenticate (ax_sha (sv_admin env)) now in
     case (ax_cache (sv_admin env), sv_cached env) of
       (Some kv, Some c) \<Rightarrow> cached_Authenticate (ax_sha (sv_admin env)) c kv (Some pg)
     | _ \<Rightarrow> pg)"

definition whole_authn :: "('b, 'tok, 'w, 'k, 'l, 'g) server_env \<Rightarrow> string \<Rightarrow> ('b, 'w, 'k, 'l, 'g) whole \<Rightarrow> (goerr + Principal) \<times> ('b, 'w, 'k, 'l, 'g) whole" where
  "whole_authn env key s = (case server_authn env (sv_clock env s) key (ad_auth (wh_admin s)) of
     (res, a) \<Rightarrow> (res, s\<lparr>wh_admin := (wh_admin s)\<lparr>ad_auth := a\<rparr>\<rparr>))"

text \<open>The request limiter and the token limiter of the chat handler are the same rules.\<close>

definition whole_allow :: "('b, 'tok, 'w, 'k, 'l, 'g) server_env \<Rightarrow> Limiter \<Rightarrow> string \<Rightarrow> int \<Rightarrow> ('b, 'w, 'k, 'l, 'g) whole \<Rightarrow>
    (goerr + Decision) \<times> ('b, 'w, 'k, 'l, 'g) whole" where
  "whole_allow env l0 key n s = (case ch_allow (sv_chat env (wh_registry s)) l0 key n (gw_limits (wh_gateway s)) of
     (d, l) \<Rightarrow> (d, s\<lparr>wh_gateway := (wh_gateway s)\<lparr>gw_limits := l\<rparr>\<rparr>))"

definition whole_deps :: "('b, 'tok, 'w, 'k, 'l, 'g) server_env \<Rightarrow> Rule list \<Rightarrow> (string \<Rightarrow> duration \<Rightarrow> string) \<Rightarrow> ('b, 'w, 'k, 'l, 'g) whole Deps" where
  "whole_deps env rules say = \<lparr>de_Authn = Some (whole_authn env), de_Rules = rules, de_Allow = whole_allow env, de_Text = say,
     de_Fresh = (\<lambda>s. (sv_uuid env (wh_ids s), s\<lparr>wh_ids := Suc (wh_ids s)\<rparr>)), de_Log = (\<lambda>l s. s\<lparr>wh_access := wh_access s @ [l]\<rparr>),
     de_Logger = True, de_Registry = True, de_Router = True, de_MetricsReg = True, de_Pricing = sv_pool env, de_Keystore = sv_pool env,
     de_StoragePool = sv_pool env, de_Stats = True, de_Metrics = True, de_CacheStats = True,
     de_MetricsEnabled = (sv_metrics env \<noteq> None), de_MetricsPath = (case sv_metrics env of None \<Rightarrow> [] | Some p \<Rightarrow> p),
     de_AdminCORSOrigins = sv_origins env, de_Checkers = map (\<lambda>(n, c). (n, \<lambda>s. (c s, s))) (sv_checks env), de_ErrText = sv_text env,
     de_draining = sv_draining env,
     de_Chi = \<lparr>chi_Mounted = sv_mounted env, chi_Match = sv_match env, chi_NotFound = answer_only (sv_NotFound env),
       chi_MethodNotAllowed = answer_only (sv_MethodNotAllowed env)\<rparr>\<rparr>"

section \<open>Sub-routers and endpoints\<close>

definition adminKeysHandlers :: "('b, 'tok, 'w, 'k, 'l, 'g) server_env \<Rightarrow> 'k admin_state handler" where
  "adminKeysHandlers env r = (let ax = sv_admin env; c = sv_call env r in
     if sv_match env ''/admin/keys/'' (rq_Path r) then
       (if rq_Method r = ''GET'' then listKeysHandler ax c r else if rq_Method r = ''POST'' then createKeyHandler ax c r
        else answer_only (sv_MethodNotAllowed env) r)
     else if sv_match env ''/admin/keys/{id}/revoke'' (rq_Path r) then
       (if rq_Method r = ''POST'' then revokeKeyHandler ax c r else answer_only (sv_MethodNotAllowed env) r)
     else answer_only (sv_NotFound env) r)"

definition adminPricingHandlers :: "('b, 'tok, 'w, 'k, 'l, 'g) server_env \<Rightarrow> 'k admin_state handler" where
  "adminPricingHandlers env r = (let ax = sv_admin env; c = sv_call env r in
     if sv_match env ''/admin/pricing/'' (rq_Path r) then
       (if rq_Method r = ''GET'' then listPricing ax r else answer_only (sv_MethodNotAllowed env) r)
     else if sv_match env ''/admin/pricing/{model}'' (rq_Path r) then
       (if rq_Method r = ''GET'' then getPricing ax c r else if rq_Method r = ''PUT'' then upsertPricing ax c r
        else if rq_Method r = ''DELETE'' then deletePricing ax c r else answer_only (sv_MethodNotAllowed env) r)
     else answer_only (sv_NotFound env) r)"

fun server_endpoint :: "('b, 'tok, 'w, 'k, 'l, 'g) server_env \<Rightarrow> endpoint \<Rightarrow> ('b, 'w, 'k, 'l, 'g) whole handler" where
  "server_endpoint env EModels r w s = modelsHandler (wh_registry s)
     (if sv_pool env then Some (pc_cache (ad_pricing (wh_admin s))) else None) (sv_families env s) r w s"
| "server_endpoint env EChat r w s = on_gateway (chatCompletionsHandler (sv_chat env (wh_registry s)) (sv_chat_call env r)) r w s"
| "server_endpoint env EMessages r w s = on_gateway (messagesHandler (sv_messages env (wh_registry s)) (sv_chat_call env r)) r w s"
| "server_endpoint env EPricing r w s = on_admin (adminPricingHandlers env) r w s"
| "server_endpoint env EKeys r w s = on_admin (adminKeysHandlers env) r w s"
| "server_endpoint env EAudit r w s = on_admin (adminAuditHandler (sv_admin env) (sv_call env r)) r w s"
| "server_endpoint env ELogs r w s = adminLogsHandler (sv_admin env) (sv_order env) (sv_log_db env s) (sv_log_err env) (sv_call env r) r w s"
| "server_endpoint env EStatsSummary r w s = on_stats (adminStatsSummaryHandler (ax_time_json (sv_admin env)) (sv_families env s) (sv_clock env s)) r w s"
| "server_endpoint env EStatsTimeseries r w s = adminStatsTimeseriesHandler (ax_time_json (sv_admin env)) (cl_query (sv_call env r)) (sv_points env s) r w s"
| "server_endpoint env EStatsCache r w s = on_cache_stats (adminStatsCacheHandler (ax_time_json (sv_admin env)) (sv_families env s) (sv_clock env s)) r w s"
| "server_endpoint env EMe r w s = on_admin adminMeHandler r w s"
| "server_endpoint env ERoutingRules r w s = adminRoutingRulesHandler (ch_classifier (sv_chat env (wh_registry s))) (sv_gathered env s) r w s"
| "server_endpoint env EProviders r w s = adminProvidersHandler (wh_registry s) (sv_gathered env s) r w s"
| "server_endpoint env EProvidersReload r w s = on_registry (adminProvidersReloadHandler (sv_admin env) (sv_read env) (sv_yaml env) (sv_getenv env)
     (sv_load_text env) (sv_providers_file env)) r w s"
| "server_endpoint env ERateLimitRules r w s = adminRateLimitRulesHandler (sv_limit_rules env) (sv_gathered env s) r w s"
| "server_endpoint env EMetrics r w s = (Returned, sv_promhttp env s r w, s)"

definition gateway_server :: "('b, 'tok, 'w, 'k, 'l, 'g) server_env \<Rightarrow> Rule list \<Rightarrow> (string \<Rightarrow> duration \<Rightarrow> string) \<Rightarrow>
    missingDepError + ('b, 'w, 'k, 'l, 'g) whole handler" where
  "gateway_server env rules say = Server_New (whole_deps env rules say) (server_endpoint env)"

text \<open>
  What happens to a server: requests, one after the other, and outages of the database, which
  begin and end between requests.
\<close>

datatype event = Req request resp_writer | Database "goerr option"

definition set_outage :: "goerr option \<Rightarrow> ('b, 'w, 'k, 'l, 'g) whole \<Rightarrow> ('b, 'w, 'k, 'l, 'g) whole" where
  "set_outage e s = s\<lparr>wh_admin := (wh_admin s)\<lparr>ad_auth := (ad_auth (wh_admin s))\<lparr>as_db_err := e\<rparr>,
     ad_pricing := (ad_pricing (wh_admin s))\<lparr>pc_db_err := e\<rparr>, ad_audit := (ad_audit (wh_admin s))\<lparr>al_db_err := e\<rparr>\<rparr>\<rparr>"

fun session :: "('b, 'w, 'k, 'l, 'g) whole handler \<Rightarrow> event list \<Rightarrow> ('b, 'w, 'k, 'l, 'g) whole \<Rightarrow> ('b, 'w, 'k, 'l, 'g) whole" where
  "session h [] s = s"
| "session h (Req r w # evs) s = session h evs (snd (snd (h r w s)))"
| "session h (Database e # evs) s = session h evs (set_outage e s)"

section \<open>Invariants of a server\<close>

definition keeps :: "('s \<Rightarrow> bool) \<Rightarrow> 's handler \<Rightarrow> bool" where
  "keeps I h \<longleftrightarrow> (\<forall>r w s. I s \<longrightarrow> I (snd (snd (h r w s))))"

lemma keepsD: "keeps I h \<Longrightarrow> I s \<Longrightarrow> h r w s = (e, w', s') \<Longrightarrow> I s'"
  unfolding keeps_def by (metis snd_conv)

lemma keepsI: "(\<And>r w s e w' s'. I s \<Longrightarrow> h r w s = (e, w', s') \<Longrightarrow> I s') \<Longrightarrow> keeps I h"
  unfolding keeps_def by (metis prod.collapse)

lemma keeps_at: "keeps I h \<Longrightarrow> I s \<Longrightarrow> I (snd (snd (h r w s)))"
  by (simp add: keeps_def)

lemma keeps_answer_only [simp]: "keeps I (answer_only f)"
  by (simp add: keeps_def answer_only_def)

lemma keeps_if: "keeps I f \<Longrightarrow> keeps I g \<Longrightarrow> keeps I (\<lambda>r. if P r then f r else g r)"
  by (simp add: keeps_def)

lemma keeps_run:
  assumes "keeps I h" "I s"
  obtains e w' s' where "h r w s = (e, w', s')" "I s'"
  using assms by (metis keeps_def prod.collapse)

lemma keeps_Auth:
  assumes "\<And>key s. I s \<Longrightarrow> I (snd (authn key s))" "keeps I h"
  shows "keeps I (Auth_mw authn h)"
  unfolding keeps_def
proof (intro allI impI)
  fix r w s assume I: "I s"
  show "I (snd (snd (Auth_mw authn h r w s)))"
  proof (cases "credentialFrom r")
    case (Some key)
    obtain res s1 where a: "authn key s = (res, s1)" by fastforce
    with assms(1) [OF I, of key] have "I s1" by simp
    with Some a show ?thesis by (cases res) (simp_all add: Auth_mw_def keeps_at [OF assms(2)])
  qed (simp add: Auth_mw_def I)
qed

lemma keeps_RequireScope: "keeps I h \<Longrightarrow> keeps I (RequireScope c v h)"
  by (auto simp: keeps_def RequireScope_def)

lemma keeps_CORS: "keeps I h \<Longrightarrow> keeps I (CORS os h)"
  by (auto simp: keeps_def CORS_def Let_def)

lemma keeps_Recovery:
  assumes "keeps I h"
  shows "keeps I (Recovery h)"
  unfolding keeps_def
proof (intro allI impI)
  fix r w s assume "I s"
  then obtain e w' s' where "h r w s = (e, w', s')" "I s'" by (rule keeps_run [OF assms])
  then show "I (snd (snd (Recovery h r w s)))" by (cases e) (simp_all add: Recovery_def)
qed

lemma keeps_RequestID:
  assumes "\<And>s. I s \<Longrightarrow> I (snd (fresh s))" "keeps I h"
  shows "keeps I (RequestID fresh h)"
  unfolding keeps_def
proof (intro allI impI)
  fix r w s assume I: "I s"
  obtain i s1 where f: "fresh s = (i, s1)" by fastforce
  with assms(1) [OF I] have "I s1" by simp
  with I f show "I (snd (snd (RequestID fresh h r w s)))" by (simp add: RequestID_def Let_def keeps_at [OF assms(2)])
qed

lemma keeps_Logging:
  assumes "\<And>l s. I s \<Longrightarrow> I (log_line l s)" "keeps I h"
  shows "keeps I (Logging_mw skip log_line h)"
  unfolding keeps_def
proof (intro allI impI)
  fix r w s assume I: "I s"
  then obtain e w' s' where "h r (w\<lparr>rw_flusher := True\<rparr>) s = (e, w', s')" "I s'" by (rule keeps_run [OF assms(2)])
  then show "I (snd (snd (Logging_mw skip log_line h r w s)))"
    by (cases e) (simp_all add: Logging_mw_def Let_def I assms(1) keeps_at [OF assms(2)])
qed

lemma check_loop_keeps:
  assumes "\<And>l k n s. I s \<Longrightarrow> I (snd (allow l k n s))" "I s"
  shows "I (snd (check_loop allow kctx cost unit rules t s))"
  using assms(2)
proof (induction rules arbitrary: t s)
  case (Cons r rs)
  obtain d s1 where a: "allow (rule_Limiter r) (composeKey r kctx) cost s = (d, s1)" by fastforce
  with assms(1) [OF Cons.prems] have "I s1" by (metis snd_conv)
  with Cons a show ?case by (cases d) (auto simp: Rule_Allow_def)
qed simp

lemma keeps_RateLimit:
  assumes "\<And>l k n s. I s \<Longrightarrow> I (snd (allow l k n s))" "keeps I h"
  shows "keeps I (RateLimit_mw t allow rules h)"
  unfolding keeps_def
proof (intro allI impI)
  fix r w s assume I: "I s"
  obtain d s1 where c: "Check allow rules (buildKeyContext r) 1 s = (d, s1)" by fastforce
  have "I (snd (Check allow rules (buildKeyContext r) 1 s))"
    unfolding Check_def check_rules_def using check_loop_keeps [of I allow, OF assms(1) I] I by simp
  with c have "I s1" by simp
  with c I show "I (snd (snd (RateLimit_mw t allow rules h r w s)))"
    by (cases d) (simp_all add: RateLimit_mw_def Let_def keeps_at [OF assms(2)])
qed

lemma run_checks_keeps: "(\<And>n c s. (n, c) \<in> set cs \<Longrightarrow> I s \<Longrightarrow> I (snd (c s))) \<Longrightarrow> I s \<Longrightarrow> I (snd (run_checks cs s))"
proof (induction cs arbitrary: s)
  case (Cons nc cs)
  obtain n c where nc: "nc = (n, c)" by fastforce
  obtain e s1 where "c s = (e, s1)" by fastforce
  moreover with Cons.prems(1) [of n c s] Cons.prems(2) have "I s1" by (simp add: nc)
  moreover from \<open>I s1\<close> have "I (snd (run_checks cs s1))" by (intro Cons.IH) (use Cons.prems(1) in auto)
  ultimately show ?case by (auto simp: nc split: prod.splits)
qed simp

text \<open>
  The contract between a server and a predicate on its state: everything the server calls keeps
  it.
\<close>

locale server_invariant =
  fixes I :: "'s \<Rightarrow> bool" and deps :: "'s Deps" and ep :: "endpoint \<Rightarrow> 's handler"
  assumes authn: "de_Authn deps = Some a \<Longrightarrow> I s \<Longrightarrow> I (snd (a key s))"
    and allow: "I s \<Longrightarrow> I (snd (de_Allow deps l key n s))"
    and fresh: "I s \<Longrightarrow> I (snd (de_Fresh deps s))"
    and access: "I s \<Longrightarrow> I (de_Log deps line s)"
    and checks: "(name, c) \<in> set (de_Checkers deps) \<Longrightarrow> I s \<Longrightarrow> I (snd (c s))"
    and not_found: "keeps I (chi_NotFound (de_Chi deps))"
    and not_allowed: "keeps I (chi_MethodNotAllowed (de_Chi deps))"
    and endpoints: "keeps I (ep e)"
begin

lemma keeps_method: "keeps I h \<Longrightarrow> keeps I (on_method deps m h)"
  using not_allowed by (simp add: keeps_def on_method_def)

lemma keeps_with_auth: "keeps I h \<Longrightarrow> keeps I (with_auth deps h)"
  using authn by (auto simp: with_auth_def intro: keeps_Auth split: option.splits)

lemma keeps_guarded: "keeps I h \<Longrightarrow> keeps I (guarded deps scope h)"
  by (auto simp: guarded_def intro!: keeps_with_auth keeps_RequireScope split: option.splits)

lemma keeps_only_at: "keeps I h \<Longrightarrow> keeps I (only_at deps p h)"
  unfolding only_at_def [abs_def] by (intro keeps_if not_found)

lemmas route_rules = keeps_if keeps_method keeps_guarded keeps_only_at endpoints not_found

lemma keeps_v1: "keeps I (v1_handler deps ep)"
  unfolding v1_handler_def v1_routes_def [abs_def] by (intro keeps_with_auth keeps_RateLimit allow route_rules)

lemma keeps_admin: "keeps I (admin_routes deps ep)"
  unfolding admin_routes_def [abs_def] stats_routes_def [abs_def] Let_def by (intro route_rules)

lemma keeps_readyz: "keeps I (readyzHandler deps)"
  unfolding keeps_def
proof (intro allI impI)
  fix r w s assume I: "I s"
  have "I (snd (run_checks (de_Checkers deps) s))" using run_checks_keeps [of "de_Checkers deps" I s] checks I by blast
  with I show "I (snd (snd (readyzHandler deps r w s)))" by (auto simp: readyzHandler_def Let_def split: prod.splits)
qed

lemma keeps_healthz: "keeps I healthzHandler"
  by (simp add: keeps_def healthzHandler_def)

lemma keeps_dispatch: "keeps I (dispatch deps ep)"
  unfolding dispatch_def [abs_def] by (intro keeps_if keeps_method keeps_healthz keeps_readyz keeps_v1 keeps_CORS keeps_admin endpoints not_found)

lemma keeps_server: "Server_New deps ep = Inr h \<Longrightarrow> keeps I h"
  by (auto simp: Server_New_def split: option.splits intro!: keeps_Recovery keeps_RequestID keeps_Logging fresh access keeps_dispatch)

end

section \<open>A revoked key\<close>

text \<open>
  A key that is dead: its row is in the table, revoked, and the cache vouches for nobody under
  it.
\<close>

definition dead_key :: "(string \<Rightarrow> string) \<Rightarrow> ('k \<Rightarrow> string \<rightharpoonup> blob) \<Rightarrow> string \<Rightarrow> 'k auth_state \<Rightarrow> bool" where
  "dead_key sha look key a \<longleftrightarrow> sha key \<in> ak_Hash ` set (as_rows a) \<and> (\<forall>r \<in> set (as_rows a). \<not> active_row (sha key) r) \<and>
     (\<forall>b p. look (as_kv a) (auth_cache_key sha key) = Some b \<longrightarrow> cached_value b \<noteq> Some (Inr p))"

lemma pg_dead:
  assumes "dead_key sha look key a"
  shows "dead_key sha look key (snd (pg_Authenticate sha now key' a))"
    and "sha key' = sha key \<Longrightarrow> key' \<noteq> [] \<Longrightarrow> fst (pg_Authenticate sha now key' a) =
      Inl (case as_db_err a of None \<Rightarrow> ErrInvalidCredentials | Some e \<Rightarrow> Wrapped ''auth: query api_keys'' e)"
    and "as_kv (snd (pg_Authenticate sha now key' a)) = as_kv a" "as_db_err (snd (pg_Authenticate sha now key' a)) = as_db_err a"
proof -
  let ?h = "hashKeyBytes sha key'" and ?rows = "\<lambda>h. map (\<lambda>r. if active_row h r then r\<lparr>ak_LastUsedAt := Some now\<rparr> else r) (as_rows a)"
  have "map ak_Hash (?rows h) = map ak_Hash (as_rows a)" for h by simp
  then have "ak_Hash ` set (?rows h) = ak_Hash ` set (as_rows a)" for h by (metis set_map)
  moreover have "\<not> active_row (sha key) r" if "r \<in> set (?rows h)" for r h
    using that assms by (auto simp: dead_key_def active_row_def split: if_splits)
  ultimately show "dead_key sha look key (snd (pg_Authenticate sha now key' a))"
    using assms unfolding pg_Authenticate_def dead_key_def Let_def by (auto split: option.splits list.splits)
  show "fst (pg_Authenticate sha now key' a) =
      Inl (case as_db_err a of None \<Rightarrow> ErrInvalidCredentials | Some e \<Rightarrow> Wrapped ''auth: query api_keys'' e)" if "sha key' = sha key" "key' \<noteq> []"
  proof -
    have "filter (active_row (hashKeyBytes sha key')) (as_rows a) = []"
      using assms that(1) by (simp add: dead_key_def hashKeyBytes_def filter_empty_conv)
    then show ?thesis using that(2) by (simp add: pg_Authenticate_def Let_def split: option.splits)
  qed
  show "as_kv (snd (pg_Authenticate sha now key' a)) = as_kv a" "as_db_err (snd (pg_Authenticate sha now key' a)) = as_db_err a"
    by (auto simp: pg_Authenticate_def Let_def split: option.splits list.splits)
qed

lemma cached_write_dead:
  assumes "kv_laws kv look" "\<forall>b p. look k (auth_cache_key sha key) = Some b \<longrightarrow> cached_value b \<noteq> Some (Inr p)"
    and "sha key' = sha key \<Longrightarrow> \<forall>p. res \<noteq> Inr p"
  shows "\<forall>b p. look (cached_write c kv (auth_cache_key sha key') res k) (auth_cache_key sha key) = Some b \<longrightarrow> cached_value b \<noteq> Some (Inr p)"
proof -
  have set: "look (snd (kv_Set kv (auth_cache_key sha key') v d k)) \<in> {(look k)(auth_cache_key sha key' \<mapsto> v), look k}" for v d
    using assms(1) unfolding kv_laws_def by (metis insertCI prod.collapse)
  have "look (cached_write c kv (auth_cache_key sha key') res k) (auth_cache_key sha key) \<in>
      {look k (auth_cache_key sha key)} \<union> (if auth_cache_key sha key' = auth_cache_key sha key then {Some (Blob JNull)} else {})"
  proof (cases res)
    case (Inl e)
    then show ?thesis using set [of "Blob JNull" "ca_negTTL c"] by (auto simp: cached_write_def)
  next
    case (Inr p)
    then have "auth_cache_key sha key' \<noteq> auth_cache_key sha key" using assms(3) auth_cache_key_inj by blast
    then show ?thesis using Inr set [of "Blob (enc_principal p)" "ca_posTTL c"] by (auto simp: cached_write_def)
  qed
  then show ?thesis using assms(2) by (auto simp: cached_value_def split: if_splits)
qed

text \<open>No authentication, with any key, brings it back, and its own fails.\<close>

lemma authn_dead:
  assumes "\<forall>kv. ax_cache (sv_admin env) = Some kv \<longrightarrow> kv_laws kv look" "dead_key (ax_sha (sv_admin env)) look key a"
    and "server_authn env now key' a = (res, a')"
  shows "dead_key (ax_sha (sv_admin env)) look key a'"
    and "ax_sha (sv_admin env) key' = ax_sha (sv_admin env) key \<Longrightarrow> key' \<noteq> [] \<Longrightarrow>
      res = Inl ErrInvalidCredentials \<or> (\<exists>e. as_db_err a = Some e \<and> res = Inl (Wrapped ''auth: query api_keys'' e))"
proof -
  let ?sha = "ax_sha (sv_admin env)"
  have goal: "dead_key ?sha look key a' \<and> (?sha key' = ?sha key \<longrightarrow> key' \<noteq> [] \<longrightarrow>
      res = Inl ErrInvalidCredentials \<or> (\<exists>e. as_db_err a = Some e \<and> res = Inl (Wrapped ''auth: query api_keys'' e)))"
  proof (cases "\<exists>kv c. ax_cache (sv_admin env) = Some kv \<and> sv_cached env = Some c")
    case False
    then have "(res, a') = pg_Authenticate ?sha now key' a"
      using assms(3) by (auto simp: server_authn_def Let_def split: option.splits)
    then show ?thesis using pg_dead [OF assms(2), where now = now and key' = key'] by (auto split: option.splits dest: arg_cong [where f = fst] arg_cong [where f = snd])
  next
    case True
    then obtain kv c where kc: "ax_cache (sv_admin env) = Some kv" "sv_cached env = Some c" by blast
    note laws = assms(1) [rule_format, OF kc(1)]
    have run: "cached_Authenticate ?sha c kv (Some (pg_Authenticate ?sha now)) key' a = (res, a')"
      using assms(3) kc by (simp add: server_authn_def Let_def)
    obtain rd k1 where rd: "cached_read kv (auth_cache_key ?sha key') (as_kv a) = (rd, k1)" by fastforce
    note lk = cached_read_value [OF laws rd]
    have dead1: "dead_key ?sha look key (a\<lparr>as_kv := k1\<rparr>)" using assms(2) lk(1) by (simp add: dead_key_def)
    consider (empty) "key' = []" | (hit) hit where "key' \<noteq> []" "rd = Some (Some hit)" | (miss) "key' \<noteq> []" "\<forall>hit. rd \<noteq> Some (Some hit)" by blast
    then show ?thesis
    proof cases
      case empty
      with run assms(2) show ?thesis by (simp add: cached_Authenticate_def)
    next
      case hit
      then have "res = hit" "a' = a\<lparr>as_kv := k1\<rparr>" using run rd by (simp_all add: cached_Authenticate_def)
      moreover obtain b where b: "look (as_kv a) (auth_cache_key ?sha key') = Some b" "cached_value b = Some hit" using lk(2) [OF hit(2)] by blast
      moreover have "hit = Inl ErrInvalidCredentials" if "?sha key' = ?sha key"
      proof -
        have "auth_cache_key ?sha key' = auth_cache_key ?sha key" using that by (simp add: auth_cache_key_def hashKeyHex_def)
        with b assms(2) have "hit \<noteq> Inr p" for p by (auto simp: dead_key_def)
        with b(2) show ?thesis by (cases hit) (auto simp: cached_value_def split: blob.splits if_splits)
      qed
      ultimately show ?thesis using dead1 by simp
    next
      case miss
      obtain a1 where pg: "pg_Authenticate ?sha now key' (a\<lparr>as_kv := k1\<rparr>) = (res, a1)"
        and a': "a' = a1\<lparr>as_kv := cached_write c kv (auth_cache_key ?sha key') res (as_kv a1)\<rparr>"
        using run miss rd by (auto simp: cached_Authenticate_def split: prod.splits option.splits)
      note d = pg_dead [OF dead1, where now = now and key' = key', unfolded pg, simplified]
      have "\<forall>b p. look (cached_write c kv (auth_cache_key ?sha key') res (as_kv a1)) (auth_cache_key ?sha key) = Some b \<longrightarrow> cached_value b \<noteq> Some (Inr p)"
        using d(1,2) miss(1) by (intro cached_write_dead [OF laws]) (auto simp: dead_key_def)
      then have "dead_key ?sha look key a'" using d(1) by (simp add: a' dead_key_def)
      then show ?thesis using d(2) miss(1) by (auto split: option.splits)
    qed
  qed
  then show "dead_key ?sha look key a'" and "?sha key' = ?sha key \<Longrightarrow> key' \<noteq> [] \<Longrightarrow>
      res = Inl ErrInvalidCredentials \<or> (\<exists>e. as_db_err a = Some e \<and> res = Inl (Wrapped ''auth: query api_keys'' e))" by blast+
qed

section \<open>What the endpoints do to keys, audit log and provider table\<close>

text \<open>
  A handler changes the key table through \<open>Create\<close> and \<open>Revoke\<close> only, and the audit log by adding
  rows.
\<close>

definition auth_step :: "'k admin_deps \<Rightarrow> 'k auth_state \<Rightarrow> 'k auth_state \<Rightarrow> bool" where
  "auth_step ax a a' \<longleftrightarrow> a' = a \<or> (\<exists>uid rnd now name scopes. a' = snd (Create (ax_sha ax) uid rnd now name scopes a)) \<or>
     (\<exists>now i. a' = snd (Revoke (ax_cache ax) now i a))"

definition admin_step :: "'k admin_deps \<Rightarrow> 'k admin_state \<Rightarrow> 'k admin_state \<Rightarrow> bool" where
  "admin_step ax a a' \<longleftrightarrow> auth_step ax (ad_auth a) (ad_auth a') \<and> prefix (al_rows (ad_audit a)) (al_rows (ad_audit a'))"

lemma admin_step_refl [simp]: "admin_step ax a a"
  by (simp add: admin_step_def auth_step_def)

lemma recordAudit_grows: "prefix (al_rows (ad_audit s)) (al_rows (ad_audit (recordAudit ax r act t i m s)))"
  by (simp add: recordAudit_def Record_def Let_def split: prod.splits option.splits)

lemma admin_step_recorded:
  "admin_step ax a (recordAudit ax' r act t i m a') \<longleftrightarrow> admin_step ax a a'" if "ad_audit a' = ad_audit a"
  using recordAudit_grows [of a' ax' r act t i m] that by (simp add: admin_step_def)

lemma admin_step_Create: "Create (ax_sha ax) uid rnd now name scopes (ad_auth a) = (x, b) \<Longrightarrow> admin_step ax a (a\<lparr>ad_auth := b\<rparr>)"
  unfolding admin_step_def auth_step_def by simp (metis snd_conv)

lemma admin_step_Revoke: "Revoke (ax_cache ax) now i (ad_auth a) = (x, b) \<Longrightarrow> admin_step ax a (a\<lparr>ad_auth := b\<rparr>)"
  unfolding admin_step_def auth_step_def by simp (metis snd_conv)

lemma admin_step_pricing: "admin_step ax a (a\<lparr>ad_pricing := p\<rparr>)"
  by (simp add: admin_step_def auth_step_def)

lemma keys_step: "admin_step (sv_admin env) a (snd (snd (adminKeysHandlers env r w a)))"
  by (auto simp: adminKeysHandlers_def Let_def answer_only_def listKeysHandler_def createKeyHandler_def revokeKeyHandler_def admin_step_recorded
      split: sum.splits option.splits prod.splits if_splits intro: admin_step_Create admin_step_Revoke)

lemma pricing_step: "admin_step (sv_admin env) a (snd (snd (adminPricingHandlers env r w a)))"
  by (auto simp: adminPricingHandlers_def Let_def answer_only_def listPricing_def getPricing_def upsertPricing_def deletePricing_def admin_step_recorded
      admin_step_pricing split: sum.splits option.splits prod.splits if_splits bool.splits)

lemma audit_step: "snd (snd (adminAuditHandler ax c r w a)) = a" "snd (snd (adminMeHandler r w a)) = a"
  by (simp_all add: adminAuditHandler_def adminMeHandler_def Let_def split: sum.splits prod.splits option.splits)

lemma reload_step:
  "admin_step ax a (snd (snd (snd (adminProvidersReloadHandler ax rd yaml getenv txt file r w (reg, a)))))"
  "wf_registry reg \<Longrightarrow> wf_registry (fst (snd (snd (adminProvidersReloadHandler ax rd yaml getenv txt file r w (reg, a)))))"
  by (auto simp: adminProvidersReloadHandler_def Let_def Swap_def admin_step_recorded Load_Inr dest: build_Inr split: sum.splits)

lemma read_only_views [simp]:
  "snd (snd (modelsHandler reg pr g r w s)) = s" "snd (snd (adminLogsHandler ax order db er c r w s)) = s"
  "snd (snd (adminStatsTimeseriesHandler t q ps r w s)) = s" "snd (snd (adminRoutingRulesHandler cl gg r w s)) = s"
  "snd (snd (adminProvidersHandler reg gg r w s)) = s" "snd (snd (adminRateLimitRulesHandler rl gg r w s)) = s"
  by (simp_all add: modelsHandler_def adminLogsHandler_def adminStatsTimeseriesHandler_def adminRoutingRulesHandler_def adminProvidersHandler_def
      adminRateLimitRulesHandler_def Let_def split: sum.splits prod.splits option.splits)

lemma on_parts [simp]:
  "wh_admin (snd (snd (on_admin h r w s))) = snd (snd (h r w (wh_admin s)))" "wh_registry (snd (snd (on_admin h r w s))) = wh_registry s"
  "wh_admin (snd (snd (on_gateway gh r w s))) = wh_admin s" "wh_registry (snd (snd (on_gateway gh r w s))) = wh_registry s"
  "wh_admin (snd (snd (on_stats sh r w s))) = wh_admin s" "wh_registry (snd (snd (on_stats sh r w s))) = wh_registry s"
  "wh_admin (snd (snd (on_cache_stats ch r w s))) = wh_admin s" "wh_registry (snd (snd (on_cache_stats ch r w s))) = wh_registry s"
  "wh_admin (snd (snd (on_registry rh r w s))) = snd (snd (snd (rh r w (wh_registry s, wh_admin s))))"
  "wh_registry (snd (snd (on_registry rh r w s))) = fst (snd (snd (rh r w (wh_registry s, wh_admin s))))"
  by (simp_all add: on_admin_def on_gateway_def on_stats_def on_cache_stats_def on_registry_def split: prod.splits)

lemma endpoint_step:
  "admin_step (sv_admin env) (wh_admin s) (wh_admin (snd (snd (server_endpoint env e r w s))))"
  "wf_registry (wh_registry s) \<Longrightarrow> wf_registry (wh_registry (snd (snd (server_endpoint env e r w s))))"
  by (cases e; simp add: keys_step pricing_step audit_step reload_step)+

lemma create_dead:
  assumes "dead_key sha look key a"
  shows "dead_key sha look key (snd (Create sha uid rnd now name scopes a))"
  using assms
  by (auto simp: Create_def Let_def dead_key_def active_row_def list_ex_iff split: if_splits sum.splits option.splits)

lemma revoke_dead:
  assumes "\<forall>kv. cache = Some kv \<longrightarrow> kv_laws kv look" "dead_key sha look key a"
  shows "dead_key sha look key (snd (Revoke cache now i a))"
proof -
  let ?rows = "map (\<lambda>r. if ak_ID r = i then revoke_row now r else r) (as_rows a)"
  have "map ak_Hash ?rows = map ak_Hash (as_rows a)" by (simp add: revoke_row_def)
  then have "ak_Hash ` set ?rows = ak_Hash ` set (as_rows a)" by (metis set_map)
  moreover have "\<not> active_row (sha key) r" if "r \<in> set ?rows" for r
    using that assms(2) revoked_not_active [of "sha key" now] by (auto simp: dead_key_def)
  moreover have "look (snd (kv_Del kv k x)) j \<in> {look x j, None}" if "cache = Some kv" for kv k x j
    using assms(1) that unfolding kv_laws_def by (metis fun_upd_apply insertCI prod.collapse)
  ultimately show ?thesis using assms(2) unfolding Revoke_def dead_key_def Let_def
    by (auto split: if_splits option.splits list.splits) (metis (no_types, lifting) empty_iff insertE not_None_eq option.distinct(1))+
qed

section \<open>The server keeps its invariants\<close>

definition cache_lawful :: "('b, 'tok, 'w, 'k, 'l, 'g) server_env \<Rightarrow> ('k \<Rightarrow> string \<rightharpoonup> blob) \<Rightarrow> bool" where
  "cache_lawful env look \<longleftrightarrow> (\<forall>kv. ax_cache (sv_admin env) = Some kv \<longrightarrow> kv_laws kv look)"

definition locked_out :: "('b, 'tok, 'w, 'k, 'l, 'g) server_env \<Rightarrow> ('k \<Rightarrow> string \<rightharpoonup> blob) \<Rightarrow> string \<Rightarrow> ('b, 'w, 'k, 'l, 'g) whole \<Rightarrow> bool" where
  "locked_out env look key s \<longleftrightarrow> (cache_lawful env look \<longrightarrow> dead_key (ax_sha (sv_admin env)) look key (ad_auth (wh_admin s)))"

definition tables_sound :: "audit_Row list \<Rightarrow> ('b, 'w, 'k, 'l, 'g) whole \<Rightarrow> bool" where
  "tables_sound rows s \<longleftrightarrow> wf_registry (wh_registry s) \<and> prefix rows (al_rows (ad_audit (wh_admin s)))"

lemma whole_deps_simps [simp]:
  "de_Authn (whole_deps env rules say) = Some (whole_authn env)" "de_Allow (whole_deps env rules say) = whole_allow env"
  "de_Fresh (whole_deps env rules say) = (\<lambda>s. (sv_uuid env (wh_ids s), s\<lparr>wh_ids := Suc (wh_ids s)\<rparr>))"
  "de_Log (whole_deps env rules say) = (\<lambda>l s. s\<lparr>wh_access := wh_access s @ [l]\<rparr>)"
  "de_Checkers (whole_deps env rules say) = map (\<lambda>(n, c). (n, \<lambda>s. (c s, s))) (sv_checks env)"
  "chi_NotFound (de_Chi (whole_deps env rules say)) = answer_only (sv_NotFound env)"
  "chi_MethodNotAllowed (de_Chi (whole_deps env rules say)) = answer_only (sv_MethodNotAllowed env)"
  "chi_Mounted (de_Chi (whole_deps env rules say)) = sv_mounted env" "chi_Match (de_Chi (whole_deps env rules say)) = sv_match env"
  by (simp_all add: whole_deps_def)

lemma whole_allow_frame [simp]: "wh_admin (snd (whole_allow env l k n s)) = wh_admin s" "wh_registry (snd (whole_allow env l k n s)) = wh_registry s"
  by (simp_all add: whole_allow_def split: prod.splits)

lemma whole_authn_frame [simp]: "ad_audit (wh_admin (snd (whole_authn env k s))) = ad_audit (wh_admin s)" "wh_registry (snd (whole_authn env k s)) = wh_registry s"
  by (simp_all add: whole_authn_def split: prod.splits)

lemma whole_authn_auth: "ad_auth (wh_admin (snd (whole_authn env k s))) = snd (server_authn env (sv_clock env s) k (ad_auth (wh_admin s)))"
  by (simp add: whole_authn_def split: prod.splits)

interpretation revoked: server_invariant "locked_out env look key" "whole_deps env rules say" "server_endpoint env" for env look key rules say
proof
  show "keeps (locked_out env look key) (server_endpoint env e)" for e
    using endpoint_step(1) [where env = env and e = e] create_dead revoke_dead
    unfolding keeps_def locked_out_def admin_step_def auth_step_def cache_lawful_def by metis
  show "locked_out env look key (snd (a k s))" if "de_Authn (whole_deps env rules say) = Some a" "locked_out env look key s" for a k s
    using that authn_dead(1) [of env look key "ad_auth (wh_admin s)" "sv_clock env s" k]
    by (auto simp: locked_out_def cache_lawful_def whole_authn_auth) (metis prod.collapse)
qed (auto simp: locked_out_def)

interpretation tables: server_invariant "tables_sound rows" "whole_deps env rules say" "server_endpoint env" for rows env rules say
proof
  show "keeps (tables_sound rows) (server_endpoint env e)" for e
    using endpoint_step [where env = env and e = e] unfolding keeps_def tables_sound_def admin_step_def by (meson prefix_order.trans)
qed (auto simp: tables_sound_def)

lemma outage_keeps: "locked_out env look key s \<Longrightarrow> locked_out env look key (set_outage e s)" "tables_sound rows s \<Longrightarrow> tables_sound rows (set_outage e s)"
  by (simp_all add: locked_out_def tables_sound_def set_outage_def dead_key_def)

lemma session_keeps:
  assumes "keeps I h" "\<And>e s. I s \<Longrightarrow> I (set_outage e s)" "I s"
  shows "I (session h evs s)"
  using assms(3)
proof (induction evs arbitrary: s)
  case (Cons ev evs)
  then show ?case by (cases ev) (simp_all add: assms(2) keeps_at [OF assms(1)])
qed simp

section \<open>Requests with a dead key\<close>

definition refusal :: "goerr \<Rightarrow> resp_writer \<Rightarrow> resp_writer" where
  "refusal err w = (if errors_Is err ErrMissingCredentials then
       writeAuthError 401 ''missing_credentials'' ''Missing Authorization header (expected: Bearer <key>)'' w
     else if errors_Is err ErrInvalidCredentials then writeAuthError 401 ''invalid_credentials'' ''Invalid API key'' w
     else writeAuthError 500 ''internal_error'' ''Authentication backend error'' w)"

lemma Auth_refused: "credentialFrom r = Some key \<Longrightarrow> authn key s = (Inl err, s1) \<Longrightarrow> Auth_mw authn f r w s = (Returned, refusal err w, s1)"
  by (simp add: Auth_mw_def refusal_def)

lemma refusal_status:
  "rw_status w = None \<Longrightarrow> rw_status (refusal err w) = Some (if errors_Is err ErrMissingCredentials \<or> errors_Is err ErrInvalidCredentials then 401 else 500)"
  by (simp add: refusal_def writeAuthError_def write_status_json_def WriteHeader_def)

lemma dispatch_refused:
  assumes "de_Authn deps = Some authn" "credentialFrom r = Some key" "authn key s = (Inl err, s1)"
  shows "ep EMetrics = ep' EMetrics \<Longrightarrow> dispatch deps ep r w s = dispatch deps ep' r w s"
    and "\<not> (de_MetricsEnabled deps \<and> chi_Match (de_Chi deps) (de_MetricsPath deps) (rq_Path r)) \<Longrightarrow>
      chi_Mounted (de_Chi deps) ''/v1'' (rq_Path r) \<Longrightarrow> \<not> chi_Match (de_Chi deps) ''/healthz'' (rq_Path r) \<Longrightarrow> \<not> chi_Match (de_Chi deps) ''/readyz'' (rq_Path r) \<Longrightarrow>
      dispatch deps ep r w s = (Returned, refusal err w, s1)"
proof -
  note c = Auth_refused [where authn = authn, OF assms(2,3)]
  have g: "guarded deps scope f r w s = (Returned, refusal err w, s1)" for scope f w by (simp add: guarded_def with_auth_def assms(1) c)
  have v: "v1_handler deps e r w s = (Returned, refusal err w, s1)" for e w by (simp add: v1_handler_def with_auth_def assms(1) c)
  have "admin_routes deps ep r w s = admin_routes deps ep' r w s" for w
    unfolding admin_routes_def Let_def if_distrib [of "\<lambda>h. h w s"] if_distribR g ..
  then have cors: "CORS os (admin_routes deps ep) r w s = CORS os (admin_routes deps ep') r w s" for os by (simp add: CORS_def Let_def)
  show "dispatch deps ep r w s = dispatch deps ep' r w s" if "ep EMetrics = ep' EMetrics" unfolding dispatch_def by (simp add: v cors that assms(1))
  show "dispatch deps ep r w s = (Returned, refusal err w, s1)" if "\<not> (de_MetricsEnabled deps \<and> chi_Match (de_Chi deps) (de_MetricsPath deps) (rq_Path r))"
    "chi_Mounted (de_Chi deps) ''/v1'' (rq_Path r)" "\<not> chi_Match (de_Chi deps) ''/healthz'' (rq_Path r)"
    "\<not> chi_Match (de_Chi deps) ''/readyz'' (rq_Path r)" unfolding dispatch_def using that by (auto simp: v)
qed

text \<open>A dead key is refused by every authentication, and a revoked one is dead.\<close>

lemma locked_out_refused:
  assumes "cache_lawful env look" "locked_out env look key s" "key \<noteq> []"
  obtains err s1 where "whole_authn env key s = (Inl err, s1)"
    "err = ErrInvalidCredentials \<or> (\<exists>e. as_db_err (ad_auth (wh_admin s)) = Some e \<and> err = Wrapped ''auth: query api_keys'' e)"
proof -
  obtain res a where a: "server_authn env (sv_clock env s) key (ad_auth (wh_admin s)) = (res, a)" by fastforce
  have "dead_key (ax_sha (sv_admin env)) look key (ad_auth (wh_admin s))" using assms(1,2) by (simp add: locked_out_def)
  from authn_dead(2) [OF assms(1) [unfolded cache_lawful_def] this a refl assms(3)] a that show thesis by (auto simp: whole_authn_def)
qed

lemma Server_form:
  assumes "Server_New deps ep = Inr h"
  shows "h = Recovery (RequestID (de_Fresh deps)
    (Logging_mw (''/healthz'' # (if de_MetricsEnabled deps then [de_MetricsPath deps] else [])) (de_Log deps) (dispatch deps ep)))"
  using assms by (auto simp: Server_New_def split: option.splits)

definition on_metrics_path :: "('b, 'tok, 'w, 'k, 'l, 'g) server_env \<Rightarrow> request \<Rightarrow> bool" where
  "on_metrics_path env r \<longleftrightarrow> (\<exists>p. sv_metrics env = Some p \<and> sv_match env p (rq_Path r))"

lemma server_refused:
  assumes "cache_lawful env look" "locked_out env look key s" "key \<noteq> []" "credentialFrom r = Some key"
  shows "Server_New (whole_deps env rules say) ep = Inr h \<Longrightarrow> Server_New (whole_deps env rules say) ep' = Inr h' \<Longrightarrow> ep EMetrics = ep' EMetrics \<Longrightarrow>
      h r w s = h' r w s"
    and "Server_New (whole_deps env rules say) ep = Inr h \<Longrightarrow> \<not> on_metrics_path env r \<Longrightarrow> sv_mounted env ''/v1'' (rq_Path r) \<Longrightarrow> \<not> sv_match env ''/healthz'' (rq_Path r) \<Longrightarrow>
      \<not> sv_match env ''/readyz'' (rq_Path r) \<Longrightarrow> rw_status w = None \<Longrightarrow>
      rw_status (fst (snd (h r w s))) = Some 401 \<or> as_db_err (ad_auth (wh_admin s)) \<noteq> None \<and> rw_status (fst (snd (h r w s))) = Some 500"
proof -
  let ?deps = "whole_deps env rules say"
  define rid s0 where "rid = (if header_get (rq_Header r) ''X-Request-Id'' = [] \<or> length (header_get (rq_Header r) ''X-Request-Id'') > 128
      then sv_uuid env (wh_ids s) else header_get (rq_Header r) ''X-Request-Id'')"
    and "s0 = (if header_get (rq_Header r) ''X-Request-Id'' = [] \<or> length (header_get (rq_Header r) ''X-Request-Id'') > 128
      then s\<lparr>wh_ids := Suc (wh_ids s)\<rparr> else s)"
  have rq: "RequestID (de_Fresh ?deps) n r w s = n (r\<lparr>rq_ReqID := rid\<rparr>) (set_header ''X-Request-Id'' rid w) s0" for n
    by (simp add: RequestID_def Let_def rid_def s0_def)
  have auth0: "wh_admin s0 = wh_admin s" by (simp add: s0_def)
  then have "locked_out env look key s0" using assms(2) by (simp add: locked_out_def)
  then obtain err s1 where a: "whole_authn env key s0 = (Inl err, s1)"
    and err: "err = ErrInvalidCredentials \<or> (\<exists>e. as_db_err (ad_auth (wh_admin s0)) = Some e \<and> err = Wrapped ''auth: query api_keys'' e)"
    by (rule locked_out_refused [OF assms(1) _ assms(3)])
  have cr: "credentialFrom (r\<lparr>rq_ReqID := rid\<rparr>) = Some key" using assms(4) by (simp add: credentialFrom_def Let_def split: option.splits if_splits)
  note d = dispatch_refused [where deps = ?deps and authn = "whole_authn env", OF _ cr a, simplified]
  show "h r w s = h' r w s" if "Server_New ?deps ep = Inr h" "Server_New ?deps ep' = Inr h'" "ep EMetrics = ep' EMetrics"
    unfolding Server_form [OF that(1)] Server_form [OF that(2)] Recovery_def rq Logging_mw_def d(1) [where ep = ep and ep' = ep', OF that(3)] ..
  have metrics: "de_MetricsEnabled ?deps \<longrightarrow> \<not> sv_match env (de_MetricsPath ?deps) (rq_Path r)" if "\<not> on_metrics_path env r"
    using that by (auto simp: on_metrics_path_def whole_deps_def)
  show "rw_status (fst (snd (h r w s))) = Some 401 \<or> as_db_err (ad_auth (wh_admin s)) \<noteq> None \<and> rw_status (fst (snd (h r w s))) = Some 500"
    if "Server_New ?deps ep = Inr h" "\<not> on_metrics_path env r" "sv_mounted env ''/v1'' (rq_Path r)" "\<not> sv_match env ''/healthz'' (rq_Path r)"
      "\<not> sv_match env ''/readyz'' (rq_Path r)" "rw_status w = None"
    unfolding Server_form [OF that(1)] Recovery_def rq Logging_mw_def d(2) [where ep = ep, OF metrics [OF that(2)] that(3-5)]
    using err that(6) by (auto simp: refusal_status auth0 Let_def)
qed

lemma revoked_dead:
  assumes "table_ok (as_rows a)" "row \<in> set (as_rows a)" "sha key = ak_Hash row" "Revoke cache now (ak_ID row) a = (Inr rec, a')"
    and "\<forall>kv. cache = Some kv \<longrightarrow> kv_laws kv look \<and> fst (kv_Del kv (auth_cache_key sha key) (as_kv a)) = None"
    and "cache = None \<longrightarrow> look = (\<lambda>_. Map.empty)"
  shows "dead_key sha look key a'"
proof -
  let ?rows = "map (\<lambda>r. if ak_ID r = ak_ID row then revoke_row now r else r) (as_rows a)"
  obtain q qs where q: "filter (\<lambda>r. ak_ID r = ak_ID row) (as_rows a) = q # qs"
    using assms(4) by (auto simp: Revoke_def split: if_splits option.splits list.splits)
  then have "q \<in> set (as_rows a)" "ak_ID q = ak_ID row" by (auto simp: filter_eq_Cons_iff)
  then have "q = row" using assms(1,2) unfolding table_ok_def by (metis distinct_map inj_onD)
  then have kv: "as_rows a' = ?rows" "as_kv a' = (case cache of None \<Rightarrow> as_kv a | Some kv \<Rightarrow> snd (kv_Del kv (auth_cache_key sha key) (as_kv a)))"
    using assms(3,4) q by (auto simp: Revoke_def Let_def auth_cache_key_def hashKeyHex_def split: if_splits option.splits)
  have "map ak_Hash ?rows = map ak_Hash (as_rows a)" by (simp add: revoke_row_def)
  then have "sha key \<in> ak_Hash ` set (as_rows a')" using assms(2,3) unfolding kv(1) by (metis image_eqI set_map)
  moreover have "\<not> active_row (sha key) r" if r: "r \<in> set (as_rows a')" for r
  proof -
    obtain q where q: "q \<in> set (as_rows a)" "r = (if ak_ID q = ak_ID row then revoke_row now q else q)" using r by (auto simp: kv(1))
    then show ?thesis using revoked_not_active [of "sha key" now] table_ok_same [OF assms(1) q(1) assms(2)] assms(3) by (auto simp: active_row_def)
  qed
  moreover have "look (as_kv a') (auth_cache_key sha key) = None"
  proof (cases cache)
    case (Some kv)
    then have "look (snd (kv_Del kv (auth_cache_key sha key) (as_kv a))) = (look (as_kv a))(auth_cache_key sha key := None)"
      using assms(5) kv_Del_done [of kv look "auth_cache_key sha key" "as_kv a"] by (metis prod.collapse)
    then show ?thesis by (simp add: kv(2) Some)
  qed (use assms(6) in simp)
  ultimately show ?thesis by (simp add: dead_key_def)
qed

section \<open>Properties\<close>

text \<open>
  C12: A revoked key stays locked out of the whole server.  Once \<open>Revoke\<close> has succeeded and the
  cached entry is gone, then after any sequence of requests, by anyone, to any endpoint, and of
  database outages, no endpoint but \<open>/metrics\<close> sees a request that carries the key (replacing
  all of them changes nothing), and below \<open>/v1\<close> it is answered with 401, or with 500 while the
  database is down (unless the configured metrics path lies there: that path needs no key).
\<close>

theorem revoked_key_locked_out:
  assumes server: "gateway_server env rules say = Inr h"
    and table: "table_ok (as_rows a)" "row \<in> set (as_rows a)" "ax_sha (sv_admin env) key = ak_Hash row" "key \<noteq> []"
    and revoke: "Revoke (ax_cache (sv_admin env)) now (ak_ID row) a = (Inr rec, ad_auth (wh_admin s))"
    and redis: "\<forall>kv. ax_cache (sv_admin env) = Some kv \<longrightarrow> kv_laws kv look \<and> fst (kv_Del kv (auth_cache_key (ax_sha (sv_admin env)) key) (as_kv a)) = None"
    and r: "credentialFrom r = Some key"
  shows "(\<forall>ep h'. Server_New (whole_deps env rules say) ep = Inr h' \<longrightarrow> ep EMetrics = server_endpoint env EMetrics \<longrightarrow>
      h' r w (session h evs s) = h r w (session h evs s)) \<and>
    (\<not> on_metrics_path env r \<longrightarrow> sv_mounted env ''/v1'' (rq_Path r) \<longrightarrow> \<not> sv_match env ''/healthz'' (rq_Path r) \<longrightarrow> \<not> sv_match env ''/readyz'' (rq_Path r) \<longrightarrow>
      rw_status w = None \<longrightarrow> rw_status (fst (snd (h r w (session h evs s)))) = Some 401 \<or>
        as_db_err (ad_auth (wh_admin (session h evs s))) \<noteq> None \<and> rw_status (fst (snd (h r w (session h evs s)))) = Some 500)"
proof -
  define look' where "look' = (if ax_cache (sv_admin env) = None then (\<lambda>_. Map.empty) else look)"
  have lawful: "cache_lawful env look'" using redis by (auto simp: cache_lawful_def look'_def)
  have "dead_key (ax_sha (sv_admin env)) look' key (ad_auth (wh_admin s))"
    by (rule revoked_dead [where sha = "ax_sha (sv_admin env)", OF table(1-3) revoke]) (use redis in \<open>auto simp: look'_def\<close>)
  then have "locked_out env look' key s" by (simp add: locked_out_def)
  then have locked: "locked_out env look' key (session h evs s)"
    using session_keeps [of "locked_out env look' key", OF revoked.keeps_server [OF server [unfolded gateway_server_def]] outage_keeps(1)] by blast
  show ?thesis
  proof (intro conjI allI impI)
    fix ep h' assume h': "Server_New (whole_deps env rules say) ep = Inr h'" "ep EMetrics = server_endpoint env EMetrics"
    then show "h' r w (session h evs s) = h r w (session h evs s)"
      using server_refused(1) [OF lawful locked table(4) r] server by (simp add: gateway_server_def)
  next
    assume "\<not> on_metrics_path env r" "sv_mounted env ''/v1'' (rq_Path r)" "\<not> sv_match env ''/healthz'' (rq_Path r)" "\<not> sv_match env ''/readyz'' (rq_Path r)" "rw_status w = None"
    then show "rw_status (fst (snd (h r w (session h evs s)))) = Some 401 \<or>
        as_db_err (ad_auth (wh_admin (session h evs s))) \<noteq> None \<and> rw_status (fst (snd (h r w (session h evs s)))) = Some 500"
      using server_refused(2) [OF lawful locked table(4) r] server by (simp add: gateway_server_def)
  qed
qed

definition demo_server_env :: "(gb_Counts \<times> gb_Settings, unit, (goerr + ChatResponse) list, string \<rightharpoonup> blob, unit, unit) server_env" where
  "demo_server_env = \<lparr>sv_mounted = (\<lambda>p path. path = p \<or> has_prefix path (p @ ''/'')), sv_match = (\<lambda>p path. path = p \<or> path @ ''/'' = p),
     sv_NotFound = (\<lambda>_. WriteHeader 404), sv_MethodNotAllowed = (\<lambda>_. WriteHeader 405), sv_promhttp = (\<lambda>_ _. WriteHeader 200),
     sv_admin = demo_admin\<lparr>ax_cache := Some map_kv\<rparr>, sv_call = (\<lambda>_. demo_admin_call), sv_chat = (\<lambda>_. demo_chat_deps), sv_chat_call = (\<lambda>_. demo_call),
     sv_messages = (\<lambda>_. demo_messages), sv_families = (\<lambda>_. None), sv_gathered = (\<lambda>_. None), sv_points = (\<lambda>_. []), sv_clock = (\<lambda>_. 9),
     sv_uuid = (\<lambda>_. ''uuid''), sv_log_db = (\<lambda>_. None), sv_log_err = None, sv_order = (\<lambda>_. sort_key newest_first), sv_read = (\<lambda>_. Inl ErrMiss), sv_yaml = (\<lambda>_. Inl ErrMiss),
     sv_getenv = (\<lambda>_. None), sv_load_text = (\<lambda>_. []), sv_providers_file = [], sv_limit_rules = [], sv_cached = Some demo_cached,
     sv_text = (\<lambda>_. []), sv_checks = [], sv_metrics = None, sv_origins = [], sv_pool = True, sv_draining = False\<rparr>"

definition demo_whole :: "(gb_Counts \<times> gb_Settings, (goerr + ChatResponse) list, string \<rightharpoonup> blob, unit, unit) whole" where
  "demo_whole = \<lparr>wh_admin = demo_admin_state\<lparr>ad_auth := snd (Revoke (Some map_kv) 7 ''key-1'' demo_auth_state)\<rparr>, wh_registry = NewEmpty,
     wh_gateway = demo_gateway, wh_stats = NewStatsCollector 0, wh_cache_stats = NewCacheStatsCollector 0, wh_access = [], wh_ids = 0\<rparr>"

definition keyed_request :: "string \<Rightarrow> string \<Rightarrow> request" where
  "keyed_request key path = \<lparr>rq_Method = ''GET'', rq_Path = path, rq_Header = [(''X-Api-Key'', key)], rq_ReqID = [], rq_Principal = None\<rparr>"

definition demo_events :: "event list" where
  "demo_events = [Req (keyed_request ''s2'' ''/admin/keys'') (new_writer (\<lambda>_. True) True), Req (keyed_request ''s1'' ''/v1/models'') (new_writer (\<lambda>_. True) True),
     Database (Some ErrMiss), Database None]"

lemma server_assembled: "\<exists>h. gateway_server env rules say = Inr h"
  by (simp add: gateway_server_def Server_New_def missing_dep_def whole_deps_def)

theorem revoked_key_locked_out_witness:
  "\<exists>h. gateway_server demo_server_env [] (\<lambda>_ _. []) = Inr h \<and>
     rw_status (fst (snd (h (keyed_request ''s1'' ''/v1/models'') (new_writer (\<lambda>_. True) True) (session h demo_events demo_whole)))) \<in> {Some 401, Some 500}"
proof -
  obtain h where h: "gateway_server demo_server_env [] (\<lambda>_ _. []) = Inr h" using server_assembled by blast
  have t: "table_ok (as_rows demo_auth_state)" "demo_row \<in> set (as_rows demo_auth_state)" "ax_sha (sv_admin demo_server_env) ''s1'' = ak_Hash demo_row"
    "''s1'' \<noteq> []" by (simp_all add: table_ok_def demo_auth_state_def demo_row_def demo_server_env_def demo_admin_def)
  have "\<exists>rec. Revoke (ax_cache (sv_admin demo_server_env)) 7 (ak_ID demo_row) demo_auth_state = (Inr rec, ad_auth (wh_admin demo_whole))"
    by (simp add: demo_server_env_def demo_whole_def demo_row_def Revoke_def demo_auth_state_def Let_def)
  then obtain rec where rv: "Revoke (ax_cache (sv_admin demo_server_env)) 7 (ak_ID demo_row) demo_auth_state = (Inr rec, ad_auth (wh_admin demo_whole))" by blast
  have kv: "\<forall>kv. ax_cache (sv_admin demo_server_env) = Some kv \<longrightarrow> kv_laws kv (\<lambda>m. m) \<and>
      fst (kv_Del kv (auth_cache_key (ax_sha (sv_admin demo_server_env)) ''s1'') (as_kv demo_auth_state)) = None"
    using map_kv_laws by (simp add: demo_server_env_def map_kv_def)
  have r: "credentialFrom (keyed_request ''s1'' ''/v1/models'') = Some ''s1''" by code_simp
  have p: "\<not> on_metrics_path demo_server_env (keyed_request ''s1'' ''/v1/models'')" "sv_mounted demo_server_env ''/v1'' (rq_Path (keyed_request ''s1'' ''/v1/models''))" "\<not> sv_match demo_server_env ''/healthz'' (rq_Path (keyed_request ''s1'' ''/v1/models''))"
    "\<not> sv_match demo_server_env ''/readyz'' (rq_Path (keyed_request ''s1'' ''/v1/models''))"
    by (simp_all add: demo_server_env_def keyed_request_def has_prefix_def on_metrics_path_def)
  from revoked_key_locked_out [OF h t rv kv r, of "new_writer (\<lambda>_. True) True" demo_events] p h show ?thesis by (auto simp: new_writer_def)
qed

text \<open>
  C34: No sequence of requests and outages damages the tables of a server: its provider table stays
  well formed, whatever is reloaded, and its audit log only grows, no row is ever changed or
  removed.
\<close>

theorem server_tables_sound:
  assumes "gateway_server env rules say = Inr h" "wf_registry (wh_registry s)"
  shows "wf_registry (wh_registry (session h evs s)) \<and> prefix (al_rows (ad_audit (wh_admin s))) (al_rows (ad_audit (wh_admin (session h evs s))))"
proof -
  have "tables_sound (al_rows (ad_audit (wh_admin s))) s" using assms(2) by (simp add: tables_sound_def)
  then have "tables_sound (al_rows (ad_audit (wh_admin s))) (session h evs s)"
    using session_keeps [of "tables_sound (al_rows (ad_audit (wh_admin s)))", OF tables.keeps_server [OF assms(1) [unfolded gateway_server_def]] outage_keeps(2)] by blast
  then show ?thesis by (simp add: tables_sound_def)
qed

theorem server_tables_sound_witness:
  "\<exists>h. gateway_server demo_server_env [] (\<lambda>_ _. []) = Inr h \<and> wf_registry (wh_registry (session h demo_events demo_whole))"
proof -
  obtain h where h: "gateway_server demo_server_env [] (\<lambda>_ _. []) = Inr h" using server_assembled by blast
  have "wf_registry (wh_registry demo_whole)" by (simp add: demo_whole_def)
  from server_tables_sound [OF h this] h show ?thesis by blast
qed

end
