(* ===== verification/Storage.thy ===== *)
theory Storage
  imports GoStrings ProviderTypes
begin

text \<open>
  \<open>internal/storage\<close>: the settings of the connection pool (\<open>storage.go\<close>) and the migration
  commands (\<open>migrate.go\<close>).  The pool of pgx and the migration library are arguments: what parsing
  a DSN, building and pinging a pool return, and what opening, \<open>Up\<close>, \<open>Steps\<close> and \<open>Version\<close> do to the
  schema \<open>'d\<close>.
\<close>

section \<open>The pool\<close>

record storage_Config =
  sc_DSN :: string
  sc_MaxConns :: int
  sc_MinConns :: int
  sc_MaxConnLifetime :: duration
  sc_MaxConnIdleTime :: duration

record pool_settings =
  ps_MaxConns :: int
  ps_MinConns :: int
  ps_MaxConnLifetime :: duration
  ps_MaxConnIdleTime :: duration

text \<open>The conversion \<open>int32(n)\<close>.\<close>

definition int32 :: "int \<Rightarrow> int" where
  "int32 n = (n + 2 ^ 31) mod 2 ^ 32 - 2 ^ 31"

definition NewPool :: "(string \<Rightarrow> goerr + pool_settings) \<Rightarrow> (pool_settings \<Rightarrow> goerr option) \<Rightarrow> storage_Config \<Rightarrow> goerr + pool_settings" where
  "NewPool parse new cfg =
     (if sc_DSN cfg = [] then Inl (OtherErr ''storage: Config.DSN is required'')
      else case parse (sc_DSN cfg) of
        Inl e \<Rightarrow> Inl (Wrapped ''storage: parse DSN'' e)
      | Inr p0 \<Rightarrow>
          (let p1 = (if sc_MaxConns cfg > 0 then p0\<lparr>ps_MaxConns := int32 (sc_MaxConns cfg)\<rparr> else p0);
               p2 = (if sc_MinConns cfg > 0 then p1\<lparr>ps_MinConns := int32 (sc_MinConns cfg)\<rparr> else p1);
               p3 = (if sc_MaxConnLifetime cfg > 0 then p2\<lparr>ps_MaxConnLifetime := sc_MaxConnLifetime cfg\<rparr> else p2);
               p4 = (if sc_MaxConnIdleTime cfg > 0 then p3\<lparr>ps_MaxConnIdleTime := sc_MaxConnIdleTime cfg\<rparr> else p3)
           in case new p4 of Some e \<Rightarrow> Inl (Wrapped ''storage: build pool'' e) | None \<Rightarrow> Inr p4))"

definition Pool_Ping :: "(pool_settings \<Rightarrow> goerr option) \<Rightarrow> pool_settings option \<Rightarrow> goerr option" where
  "Pool_Ping ping p = (case p of None \<Rightarrow> Some (OtherErr ''storage: pool is nil'') | Some q \<Rightarrow> ping q)"

section \<open>Migrations\<close>

text \<open>The sentinels of the migration library.\<close>

definition ErrNoChange :: goerr where
  "ErrNoChange = OtherErr ''no change''"

definition ErrNilVersion :: goerr where
  "ErrNilVersion = OtherErr ''no migration''"

record 'd migrate_lib =
  ml_source :: "goerr option"
  ml_open :: "string \<Rightarrow> goerr option"
  ml_up :: "'d \<Rightarrow> goerr option \<times> 'd"
  ml_steps :: "int \<Rightarrow> 'd \<Rightarrow> goerr option \<times> 'd"
  ml_version :: "'d \<Rightarrow> (goerr option \<times> nat \<times> bool)"

definition toMigrateURL :: "string \<Rightarrow> string" where
  "toMigrateURL dsn =
     (if has_prefix dsn ''postgres://'' then ''pgx5://'' @ trim_prefix dsn ''postgres://''
      else if has_prefix dsn ''postgresql://'' then ''pgx5://'' @ trim_prefix dsn ''postgresql://''
      else dsn)"

definition migrateRun :: "'d migrate_lib \<Rightarrow> string \<Rightarrow> ('d \<Rightarrow> goerr option \<times> 'd) \<Rightarrow> 'd \<Rightarrow> goerr option \<times> 'd" where
  "migrateRun ml dsn act d = (case ml_source ml of
     Some e \<Rightarrow> (Some (Wrapped ''storage: build migration source'' e), d)
   | None \<Rightarrow> (case ml_open ml (toMigrateURL dsn) of
       Some e \<Rightarrow> (Some (Wrapped ''storage: open migrate'' e), d)
     | None \<Rightarrow> act d))"

text \<open>An error other than \<open>ErrNoChange\<close>.\<close>

definition unless_unchanged :: "goerr option \<times> 'd \<Rightarrow> goerr option \<times> 'd" where
  "unless_unchanged r = (case r of (Some e, d) \<Rightarrow> (if errors_Is e ErrNoChange then None else Some e, d) | (None, d) \<Rightarrow> (None, d))"

definition MigrateUp :: "'d migrate_lib \<Rightarrow> string \<Rightarrow> 'd \<Rightarrow> goerr option \<times> 'd" where
  "MigrateUp ml dsn = migrateRun ml dsn (\<lambda>d. unless_unchanged (ml_up ml d))"

definition MigrateDown :: "'d migrate_lib \<Rightarrow> string \<Rightarrow> 'd \<Rightarrow> goerr option \<times> 'd" where
  "MigrateDown ml dsn = migrateRun ml dsn (\<lambda>d. unless_unchanged (ml_steps ml (- 1) d))"

definition MigrateVersion :: "'d migrate_lib \<Rightarrow> string \<Rightarrow> 'd \<Rightarrow> goerr + nat \<times> bool" where
  "MigrateVersion ml dsn d = (case ml_version ml d of (vErr, v) \<Rightarrow>
     let nil = (case vErr of None \<Rightarrow> False | Some e \<Rightarrow> errors_Is e ErrNilVersion)
     in case migrateRun ml dsn (\<lambda>d. (if nil then None else vErr, d)) d of
          (Some e, _) \<Rightarrow> Inl e
        | (None, _) \<Rightarrow> Inr (if nil then (0, False) else v))"

section \<open>Lemmas\<close>

text \<open>
  A second \<open>migrate up\<close> succeeds and changes nothing, for a library whose \<open>Up\<close> answers
  \<open>ErrNoChange\<close> once it has succeeded.
\<close>

lemma migrate_up_idempotent:
  assumes "\<And>d d'. ml_up ml d = (None, d') \<Longrightarrow> ml_up ml d' = (Some ErrNoChange, d')"
    and "\<And>d d'. ml_up ml d = (Some ErrNoChange, d') \<Longrightarrow> d' = d"
    and "MigrateUp ml dsn d = (None, d')" "\<And>e d'. ml_up ml d = (Some e, d') \<Longrightarrow> errors_Is e ErrNoChange \<Longrightarrow> e = ErrNoChange"
  shows "MigrateUp ml dsn d' = (None, d')"
proof -
  obtain r d1 where up: "ml_up ml d = (r, d1)" by fastforce
  have "ml_up ml d' = (Some ErrNoChange, d')"
    using assms(1,2,4) [OF _] assms(3) up
    by (auto simp: MigrateUp_def migrateRun_def unless_unchanged_def split: option.splits if_splits prod.splits)
  then show ?thesis using assms(3)
    by (auto simp: MigrateUp_def migrateRun_def unless_unchanged_def ErrNoChange_def split: option.splits)
qed

text \<open>A setting of more than 2 ^ 31 - 1 connections reaches pgx as another number.\<close>

lemma max_conns_wraps: "NewPool (\<lambda>_. Inr p) (\<lambda>_. None) \<lparr>sc_DSN = ''d'', sc_MaxConns = 2 ^ 32 + 1, sc_MinConns = 0, sc_MaxConnLifetime = 0, sc_MaxConnIdleTime = 0\<rparr>
    = Inr (p\<lparr>ps_MaxConns := 1\<rparr>)"
  by (simp add: NewPool_def int32_def Let_def)

end
