(* ===== verification/Telemetry.thy ===== *)
theory Telemetry
  imports GatewayConfig
begin

text \<open>
  \<open>internal/observability/logger.go\<close>, \<open>tracing.go\<close> and \<open>pkg/version\<close>: how the settings of the
  logger and the tracer are derived.  What zap and OpenTelemetry make of them is an argument.
\<close>

section \<open>The logger\<close>

datatype logger_error = InvalidLevel string | InvalidFormat string | BuildLogger goerr

datatype zap_level = DebugLevel | InfoLevel | WarnLevel | ErrorLevel

record logger_settings =
  lo_Level :: zap_level
  lo_Encoding :: string
  lo_TimeKey :: string
  lo_Color :: bool

definition parseLevel :: "string \<Rightarrow> logger_error + zap_level" where
  "parseLevel s = (let l = to_lower s in
     if l = [] \<or> l = ''info'' then Inr InfoLevel
     else if l = ''debug'' then Inr DebugLevel
     else if l = ''warn'' \<or> l = ''warning'' then Inr WarnLevel
     else if l = ''error'' then Inr ErrorLevel
     else Inl (InvalidLevel s))"

definition NewLogger :: "(logger_settings \<Rightarrow> goerr option) \<Rightarrow> LogConfig \<Rightarrow> logger_error + logger_settings" where
  "NewLogger zap cfg = (case parseLevel (lcf_Level cfg) of
     Inl e \<Rightarrow> Inl e
   | Inr level \<Rightarrow>
       (let f = to_lower (lcf_Format cfg);
            build = (\<lambda>st. case zap st of Some e \<Rightarrow> Inl (BuildLogger e) | None \<Rightarrow> Inr st)
        in if f = [] \<or> f = ''json'' then build \<lparr>lo_Level = level, lo_Encoding = ''json'', lo_TimeKey = ''ts'', lo_Color = False\<rparr>
           else if f = ''console'' then build \<lparr>lo_Level = level, lo_Encoding = ''console'', lo_TimeKey = ''ts'', lo_Color = True\<rparr>
           else Inl (InvalidFormat (lcf_Format cfg))))"

section \<open>The tracer\<close>

record TracingConfig =
  tc_Enabled :: bool
  tc_Endpoint :: string
  tc_ServiceName :: string
  tc_SampleRatio :: rat

definition tracing_config :: "Config \<Rightarrow> TracingConfig" where
  "tracing_config cfg = \<lparr>tc_Enabled = ocf_TracingEnabled (cf_Observability cfg), tc_Endpoint = ocf_TracingEndpoint (cf_Observability cfg),
     tc_ServiceName = ocf_ServiceName (cf_Observability cfg), tc_SampleRatio = ocf_SampleRatio (cf_Observability cfg)\<rparr>"

text \<open>The options of a provider; without a batcher spans go nowhere.\<close>

record tracer_settings =
  tr_ServiceName :: string
  tr_SampleRatio :: rat
  tr_Batcher :: "(string \<times> duration) option"

definition NewTracerProvider :: "goerr option \<Rightarrow> (string \<Rightarrow> goerr option) \<Rightarrow> TracingConfig \<Rightarrow> goerr + tracer_settings" where
  "NewTracerProvider merge exporter cfg = (case merge of
     Some e \<Rightarrow> Inl (Wrapped ''build resource'' e)
   | None \<Rightarrow>
       if tc_Enabled cfg then
         (case exporter (tc_Endpoint cfg) of
            Some e \<Rightarrow> Inl (Wrapped ''create otlp exporter'' e)
          | None \<Rightarrow> Inr \<lparr>tr_ServiceName = tc_ServiceName cfg, tr_SampleRatio = tc_SampleRatio cfg, tr_Batcher = Some (tc_Endpoint cfg, 5 * Second)\<rparr>)
       else Inr \<lparr>tr_ServiceName = tc_ServiceName cfg, tr_SampleRatio = tc_SampleRatio cfg, tr_Batcher = None\<rparr>)"

section \<open>Version\<close>

record build_info =
  bi_Version :: string
  bi_Commit :: string
  bi_BuildTime :: string

definition Banner :: "build_info \<Rightarrow> string" where
  "Banner b = ''x-beacon '' @ bi_Version b @ '' (commit '' @ bi_Commit b @ '', built '' @ bi_BuildTime b @ '')''"

section \<open>Lemmas\<close>

text \<open>
  What the configuration accepts, the constructors accept: with a valid configuration the logger
  fails only where zap does, and an enabled tracer has an endpoint and a ratio within bounds.
\<close>

lemma valid_logs:
  assumes "Validate cfg = []"
  shows "\<exists>st. lo_Encoding st \<in> {''json'', ''console''} \<and> NewLogger zap (cf_Log cfg) = (case zap st of Some e \<Rightarrow> Inl (BuildLogger e) | None \<Rightarrow> Inr st)"
proof -
  have l: "to_lower (lcf_Level (cf_Log cfg)) \<in> {''debug'', ''info'', ''warn'', ''error''}" and f: "to_lower (lcf_Format (cf_Log cfg)) \<in> {''json'', ''console''}"
    using assms by (auto simp: Validate_def err_if_def Let_def split: if_splits)
  from l obtain level where "parseLevel (lcf_Level (cf_Log cfg)) = Inr level" by (auto simp: parseLevel_def)
  with f show ?thesis
    by (intro exI [of _ "\<lparr>lo_Level = level, lo_Encoding = to_lower (lcf_Format (cf_Log cfg)), lo_TimeKey = ''ts'',
        lo_Color = (to_lower (lcf_Format (cf_Log cfg)) = ''console'')\<rparr>"]) (auto simp: NewLogger_def Let_def split: option.splits)
qed

lemma valid_traces:
  assumes "Validate cfg = []" "NewTracerProvider merge exporter (tracing_config cfg) = Inr t"
  shows "0 \<le> tr_SampleRatio t \<and> tr_SampleRatio t \<le> 1 \<and> (tr_Batcher t \<noteq> None \<longleftrightarrow> ocf_TracingEnabled (cf_Observability cfg)) \<and>
    (\<forall>ep d. tr_Batcher t = Some (ep, d) \<longrightarrow> ep \<noteq> [])"
  using assms by (auto simp: Validate_def err_if_def NewTracerProvider_def tracing_config_def Let_def split: if_splits option.splits)

end
