(* ===== verification/GoFlag.thy ===== *)
theory GoFlag
  imports GoStrings
begin

text \<open>
  What the two programs use of Go's \<open>flag\<close> package, with the flag type \<open>scopeFlag\<close> of
  \<open>cmd/xbctl/keygen.go\<close>.
\<close>

section \<open>Parsing\<close>

text \<open>\<open>flag.FlagSet.Parse\<close>: it stops at the first argument that is not a flag.\<close>

datatype flag_kind = FlagString | FlagBool | FlagScope

datatype flag_error = FlagSyntax string | FlagUndefined string | FlagHelp | FlagNeedsArgument string | FlagInvalid string string

definition index_of_colon :: "string \<Rightarrow> nat" where
  "index_of_colon s = length (takeWhile (\<lambda>c. c \<noteq> CHR '':'') s)"

definition scope_flag_ok :: "string \<Rightarrow> bool" where
  "scope_flag_ok raw = (let idx = index_of_colon raw in \<not> (idx = length raw \<or> idx = 0 \<or> idx = length raw - 1))"

definition flag_value_ok :: "flag_kind \<Rightarrow> string \<Rightarrow> bool" where
  "flag_value_ok k v = (case k of FlagString \<Rightarrow> True
     | FlagBool \<Rightarrow> v \<in> {''1'', ''t'', ''T'', ''TRUE'', ''true'', ''True'', ''0'', ''f'', ''F'', ''FALSE'', ''false'', ''False''}
     | FlagScope \<Rightarrow> scope_flag_ok v)"

fun flag_parse :: "(string \<times> flag_kind) list \<Rightarrow> (string \<times> string) list \<Rightarrow> string list \<Rightarrow> flag_error + (string \<times> string) list \<times> string list" where
  "flag_parse flags acc [] = Inr (acc, [])"
| "flag_parse flags acc (a # as) =
     (if length a < 2 \<or> a ! 0 \<noteq> CHR ''-'' then Inr (acc, a # as)
      else if a = ''--'' then Inr (acc, as)
      else let body = drop (if a ! 1 = CHR ''-'' then 2 else 1) a
           in if body = [] \<or> hd body = CHR ''-'' \<or> hd body = CHR ''='' then Inl (FlagSyntax a)
              else let name = takeWhile (\<lambda>c. c \<noteq> CHR ''='') body; has_value = (name \<noteq> body); val = drop (length name + 1) body
                   in case map_of flags name of
                        None \<Rightarrow> Inl (if name = ''help'' \<or> name = ''h'' then FlagHelp else FlagUndefined name)
                      | Some k \<Rightarrow>
                          if has_value then (if flag_value_ok k val then flag_parse flags (acc @ [(name, val)]) as else Inl (FlagInvalid name val))
                          else if k = FlagBool then flag_parse flags (acc @ [(name, ''true'')]) as
                          else (case as of [] \<Rightarrow> Inl (FlagNeedsArgument name)
                                | v # as' \<Rightarrow> if flag_value_ok k v then flag_parse flags (acc @ [(name, v)]) as' else Inl (FlagInvalid name v)))"

text \<open>The last value of a flag, or its default.\<close>

definition flag_get :: "(string \<times> string) list \<Rightarrow> string \<Rightarrow> string \<Rightarrow> string" where
  "flag_get vs name dflt = (case map_of (rev vs) name of None \<Rightarrow> dflt | Some v \<Rightarrow> v)"

definition flag_true :: "(string \<times> string) list \<Rightarrow> string \<Rightarrow> bool" where
  "flag_true vs name \<longleftrightarrow> flag_get vs name ''false'' \<in> {''1'', ''t'', ''T'', ''TRUE'', ''true'', ''True''}"

end
