(* ===== verification/GatewayMain.thy ===== *)
theory GatewayMain
  imports GatewayConfig Server AuditLog ProvidersFile Storage Telemetry GoFlag
begin

text \<open>
  \<open>cmd/gateway\<close>: how the process is put together and taken apart (\<open>handlers.go\<close>,
  \<open>main.go\<close>).  What the calls outside the program return at start-up (files, logger, tracer,
  tokenizer tables, connection pools and their pings) is a record of arguments, and so is the end
  of the HTTP server; log output is left out.
\<close>

section \<open>The outside at start-up\<close>

datatype stat_result = FileExists | FileMissing | StatError goerr

record 'r outside =
  ou_read :: "string \<Rightarrow> goerr option"
  ou_decode :: "string \<Rightarrow> Config \<Rightarrow> goerr + Config"
  ou_build :: build_info
  ou_zap :: "logger_settings \<Rightarrow> goerr option"
  ou_metrics :: "goerr option"
  ou_stat :: "string \<Rightarrow> stat_result"
  ou_file :: "string \<Rightarrow> goerr + string"
  ou_yaml :: "string \<Rightarrow> goerr + providersFile"
  ou_env :: "string \<Rightarrow> string option"
  ou_dsn :: "string \<Rightarrow> goerr + pool_settings"
  ou_pool :: "pool_settings \<Rightarrow> goerr option"
  ou_db_ping :: "goerr option"
  ou_redis :: 'r
  ou_redis_ping :: "goerr option"
  ou_resource :: "goerr option"
  ou_exporter :: "string \<Rightarrow> goerr option"
  ou_tokenizer :: "goerr option"
  ou_sha :: "string \<Rightarrow> string"
  ou_pricing :: pricing_state

text \<open>
  A value of an interface type that \<open>*redis.Client\<close> implements: the nil interface, or a pointer
  under its type, which may be nil.  Only the first equals \<open>nil\<close>; passing a pointer where the
  interface is expected gives the second.
\<close>

datatype 'r iface = NilIface | Iface "'r option"

definition iface_nil :: "'r iface \<Rightarrow> bool" where
  "iface_nil i \<longleftrightarrow> i = NilIface"

datatype Authenticator = StaticAuthn StaticAuthenticator | PostgresAuthn | CachedAuthn Authenticator duration duration

datatype start_error =
    StartConfig load_config_error | StartLogger logger_error | StartMetrics goerr | StatProviders goerr | LoadProviders load_failure
  | StartPool goerr | StartAuth "static_error list" | StartTracer goerr | StartLimiter "(nat \<times> rule_error) list" | StartTokenizer goerr

section \<open>Constructors\<close>

definition loadRegistry :: "'r outside \<Rightarrow> string \<Rightarrow> start_error + registryState" where
  "loadRegistry ou path = (case ou_stat ou path of
     FileMissing \<Rightarrow> Inr NewEmpty
   | StatError e \<Rightarrow> Inl (StatProviders e)
   | FileExists \<Rightarrow> map_sum LoadProviders id (Load (ou_file ou) (ou_yaml ou) (ou_env ou) path))"

definition storage_config :: "Config \<Rightarrow> storage_Config" where
  "storage_config cfg = \<lparr>sc_DSN = dcf_DSN (cf_Database cfg), sc_MaxConns = dcf_MaxOpenConns (cf_Database cfg), sc_MinConns = 0,
     sc_MaxConnLifetime = dcf_ConnMaxLifetime (cf_Database cfg), sc_MaxConnIdleTime = 0\<rparr>"

text \<open>The pool, or none; it is not connected yet.\<close>

definition loadPool :: "'r outside \<Rightarrow> Config \<Rightarrow> start_error + bool" where
  "loadPool ou cfg = (if dcf_DSN (cf_Database cfg) = [] then Inr False
     else map_sum StartPool (\<lambda>_. True) (NewPool (ou_dsn ou) (ou_pool ou) (storage_config cfg)))"

definition static_entry :: "StaticAuthKey \<Rightarrow> StaticEntry" where
  "static_entry k = \<lparr>se_ID = sak_ID k, se_Name = sak_Name k, se_Secret = sak_Secret k, se_Scopes = sak_Scopes k\<rparr>"

definition loadAuth :: "'r outside \<Rightarrow> StaticAuthKey list \<Rightarrow> bool \<Rightarrow> start_error + Authenticator option" where
  "loadAuth ou staticKeys pool =
     (if staticKeys \<noteq> [] then (case NewStatic (ou_sha ou) (map static_entry staticKeys) of
        Inl errs \<Rightarrow> Inl (StartAuth errs) | Inr a \<Rightarrow> Inr (Some (StaticAuthn a)))
      else if \<not> pool then Inr None
      else if ou_db_ping ou \<noteq> None then Inr None
      else Inr (Some PostgresAuthn))"

definition loadRedis :: "'r outside \<Rightarrow> Config \<Rightarrow> 'r option" where
  "loadRedis ou cfg = (if rdc_Addr (cf_Redis cfg) = [] then None
     else if ou_redis_ping ou \<noteq> None then None else Some (ou_redis ou))"

definition cache_auth :: "Config \<Rightarrow> 'r option \<Rightarrow> Authenticator option \<Rightarrow> Authenticator option" where
  "cache_auth cfg rdb authn = (case (rdb, authn) of
     (Some _, Some a) \<Rightarrow> if acf_PositiveTTL (cf_Auth cfg) > 0
       then Some (CachedAuthn a (acf_PositiveTTL (cf_Auth cfg)) (acf_NegativeTTL (cf_Auth cfg))) else authn
   | _ \<Rightarrow> authn)"

definition buildReadinessCheckers :: "bool \<Rightarrow> 'r option \<Rightarrow> string list" where
  "buildReadinessCheckers pool rdb = (if pool then [''postgres''] else []) @ (if rdb \<noteq> None then [''redis''] else [])"

definition buildRateLimiter :: "Config \<Rightarrow> 'r iface \<Rightarrow> (nat \<times> rule_error) list + Rule list option" where
  "buildRateLimiter cfg rdb = (if cf_RateLimits cfg = [] then Inr None
     else map_sum id Some (Build (map rule_config (cf_RateLimits cfg)) (\<not> iface_nil rdb)))"

definition buildBilling :: "'r outside \<Rightarrow> Config \<Rightarrow> bool \<Rightarrow> (Worker \<times> pricing_state) option" where
  "buildBilling ou cfg pool = (if \<not> pool then None
     else Some (Start (NewWorker (worker_config cfg)), snd (Reload ((ou_pricing ou)\<lparr>pc_cache := NewPricingCache\<rparr>))))"

definition buildExactCache :: "Config \<Rightarrow> 'r option \<Rightarrow> 'r option \<times> duration" where
  "buildExactCache cfg rdb = (if \<not> ecf_Enabled (cf_Cache cfg) then (None, 0)
     else case rdb of None \<Rightarrow> (None, 0) | Some c \<Rightarrow> (Some c, ecf_TTL (cf_Cache cfg)))"

definition buildClassifier :: "Config \<Rightarrow> bool \<Rightarrow> RuleClassifier option" where
  "buildClassifier cfg tk = (if \<not> rcf_Enabled (cf_Routing cfg) then None
     else if rcf_Rules (cf_Routing cfg) = [] then None
     else case NewRuleClassifier (map route_rule (rcf_Rules (cf_Routing cfg))) tk of Inl _ \<Rightarrow> None | Inr c \<Rightarrow> Some c)"

definition buildCompressor :: "Config \<Rightarrow> bool \<Rightarrow> SlidingWindow option" where
  "buildCompressor cfg tk = (if \<not> pcc_Enabled (cf_Compression cfg) then None
     else if \<not> tk then None else NewSlidingWindow (window_options cfg tk))"

section \<open>Start-up\<close>

record 'r running =
  ru_cfg :: Config
  ru_registry :: registryState
  ru_pool :: bool
  ru_authn :: "Authenticator option"
  ru_redis :: "'r option"
  ru_checkers :: "string list"
  ru_limiter :: "Rule list option"
  ru_policy :: RetryPolicy
  ru_breaker :: BreakerSettings
  ru_billing :: "(Worker \<times> pricing_state) option"
  ru_cache :: "'r option \<times> duration"
  ru_classifier :: "RuleClassifier option"
  ru_compressor :: "SlidingWindow option"
  ru_keystore :: "'r iface option"
  ru_audit :: Recorder

text \<open>The calls a shutdown makes, deferred ones included.\<close>

datatype shutdown_step = StartDraining | PreShutdownWait duration | HttpShutdown duration
  | StopBilling | ShutdownTracing | CloseRedis | ClosePool | SyncLogger

text \<open>A step that may fail with an error of the call it makes.\<close>

definition fails :: "goerr option \<Rightarrow> (goerr \<Rightarrow> start_error) \<Rightarrow> start_error + unit" where
  "fails e f = (case e of None \<Rightarrow> Inr () | Some err \<Rightarrow> Inl (f err))"

text \<open>
  Start-up keeps a stack of deferred calls: \<open>acq\<close> goes on unless its step failed, \<open>defer_if\<close>
  pushes a call.
\<close>

definition acq :: "'e + 'a \<Rightarrow> ('a \<Rightarrow> 'd list \<Rightarrow> ('e + 'b) \<times> 'd list) \<Rightarrow> 'd list \<Rightarrow> ('e + 'b) \<times> 'd list" where
  "acq x f ds = (case x of Inl e \<Rightarrow> (Inl e, ds) | Inr a \<Rightarrow> f a ds)"

definition defer_if :: "bool \<Rightarrow> 'd \<Rightarrow> ('d list \<Rightarrow> 'c) \<Rightarrow> 'd list \<Rightarrow> 'c" where
  "defer_if c d k ds = k (if c then d # ds else ds)"

definition start_run :: "'r outside \<Rightarrow> string \<Rightarrow> shutdown_step list \<Rightarrow> (start_error + 'r running) \<times> shutdown_step list" where
  "start_run ou configPath =
     acq (map_sum StartConfig id (LoadConfig (ou_read ou) (ou_decode ou) configPath)) (\<lambda>cfg.
     acq (map_sum StartLogger id (NewLogger (ou_zap ou) (cf_Log cfg))) (\<lambda>_.
     defer_if True SyncLogger (
     acq (fails (ou_metrics ou) StartMetrics) (\<lambda>_.
     acq (loadRegistry ou (cf_ProvidersFile cfg)) (\<lambda>reg.
     acq (loadPool ou cfg) (\<lambda>pool.
     defer_if pool ClosePool (
     acq (loadAuth ou (acf_StaticKeys (cf_Auth cfg)) pool) (\<lambda>authn.
     let rdb = loadRedis ou cfg; authn' = cache_auth cfg rdb authn in
     defer_if (rdb \<noteq> None) CloseRedis (
     acq (map_sum StartTracer id (NewTracerProvider (ou_resource ou) (ou_exporter ou) (tracing_config cfg))) (\<lambda>_.
     defer_if True ShutdownTracing (
     acq (map_sum StartLimiter id (buildRateLimiter cfg (Iface rdb))) (\<lambda>limiter.
     acq (fails (ou_tokenizer ou) StartTokenizer) (\<lambda>_.
     let billing = buildBilling ou cfg pool in
     defer_if (billing \<noteq> None) StopBilling (\<lambda>ds.
     (Inr \<lparr>ru_cfg = cfg, ru_registry = reg, ru_pool = pool, ru_authn = authn', ru_redis = rdb, ru_checkers = buildReadinessCheckers pool rdb,
       ru_limiter = limiter, ru_policy = retry_policy cfg, ru_breaker = breaker_settings cfg, ru_billing = billing,
       ru_cache = buildExactCache cfg rdb, ru_classifier = buildClassifier cfg True, ru_compressor = buildCompressor cfg True,
       ru_keystore = (if pool then Some (Iface rdb) else None), ru_audit = (if pool then Postgres else Nop)\<rparr>, ds)))))))))))))))"

definition start_up :: "'r outside \<Rightarrow> string \<Rightarrow> start_error + 'r running" where
  "start_up ou configPath = fst (start_run ou configPath [])"

text \<open>
  The dependencies of \<open>server.New\<close>.  \<open>base\<close> gives the functions they stand for at run time and
  \<open>auth\<close> the method \<open>Authenticate\<close> of an authenticator.
\<close>

definition server_deps :: "'s Deps \<Rightarrow> (Authenticator \<Rightarrow> string \<Rightarrow> 's \<Rightarrow> (goerr + Principal) \<times> 's) \<Rightarrow>
    (string \<Rightarrow> 's \<Rightarrow> goerr option \<times> 's) \<Rightarrow> 'r running \<Rightarrow> 's Deps" where
  "server_deps base auth probe ru = (let o' = cf_Observability (ru_cfg ru) in base\<lparr>
     de_Authn := map_option auth (ru_authn ru), de_Rules := (case ru_limiter ru of None \<Rightarrow> [] | Some rules \<Rightarrow> rules),
     de_Logger := True, de_Registry := True, de_Router := True, de_MetricsReg := True, de_Pricing := ru_billing ru \<noteq> None,
     de_Keystore := ru_keystore ru \<noteq> None, de_StoragePool := ru_pool ru, de_Stats := True, de_Metrics := True, de_CacheStats := True,
     de_MetricsEnabled := ocf_MetricsEnabled o', de_MetricsPath := ocf_MetricsPath o',
     de_AdminCORSOrigins := scf_AdminCORSOrigins (cf_Server (ru_cfg ru)), de_Checkers := map (\<lambda>n. (n, probe n)) (ru_checkers ru),
     de_draining := False\<rparr>)"

record http_server =
  hv_Addr :: string
  hv_ReadTimeout :: duration
  hv_ReadHeaderTimeout :: duration
  hv_WriteTimeout :: duration

definition http_server :: "Config \<Rightarrow> http_server" where
  "http_server cfg = \<lparr>hv_Addr = scf_Addr (cf_Server cfg), hv_ReadTimeout = scf_ReadTimeout (cf_Server cfg),
     hv_ReadHeaderTimeout = scf_ReadTimeout (cf_Server cfg), hv_WriteTimeout = scf_WriteTimeout (cf_Server cfg)\<rparr>"

section \<open>Shutdown\<close>

text \<open>
  What follows the signal before the deferred calls: draining, the wait, which the longer of two
  timers never decides, and the shutdown of the HTTP server.
\<close>

definition drain_steps :: "Config \<Rightarrow> shutdown_step list" where
  "drain_steps cfg = (let s = cf_Server cfg in
     [StartDraining] @
     (if scf_PreShutdownDelay s > 0 then [PreShutdownWait (min (scf_PreShutdownDelay s) (scf_ShutdownTimeout s))] else []) @
     [HttpShutdown (scf_ShutdownTimeout s)])"

text \<open>How serving ends: \<open>ListenAndServe\<close> fails, or is closed, or the signal arrives; then \<open>Shutdown\<close> may fail.\<close>

datatype serve_end = ListenError goerr | ListenClosed | Signalled "goerr option"

datatype run_result = BadArgs flag_error | ShowedVersion string | StartFailed start_error | ListenFailed goerr | Stopped | ShutdownFailed goerr

definition parseArgs :: "string list \<Rightarrow> flag_error + string \<times> bool" where
  "parseArgs args = map_sum id (\<lambda>(vs, _). (flag_get vs ''config'' ''configs/config.yaml'', flag_true vs ''version''))
     (flag_parse [(''config'', FlagString), (''version'', FlagBool)] [] args)"

text \<open>The result of the process and the shutdown calls it makes, in order.\<close>

definition runWithCtx :: "'r outside \<Rightarrow> (http_server \<Rightarrow> serve_end) \<Rightarrow> string list \<Rightarrow> run_result \<times> shutdown_step list" where
  "runWithCtx ou serve args = (case parseArgs args of
     Inl e \<Rightarrow> (BadArgs e, [])
   | Inr (configPath, showVersion) \<Rightarrow>
       if showVersion then (ShowedVersion (Banner (ou_build ou)), [])
       else case start_run ou configPath [] of
         (Inl e, ds) \<Rightarrow> (StartFailed e, ds)
       | (Inr ru, ds) \<Rightarrow> (case serve (http_server (ru_cfg ru)) of
           ListenError e \<Rightarrow> (ListenFailed e, ds)
         | ListenClosed \<Rightarrow> (Stopped, ds)
         | Signalled None \<Rightarrow> (Stopped, drain_steps (ru_cfg ru) @ ds)
         | Signalled (Some e) \<Rightarrow> (ShutdownFailed e, drain_steps (ru_cfg ru) @ ds)))"

section \<open>Lemmas\<close>

lemma acq_Inr [simp]: "fst (acq x f ds) = Inr b \<longleftrightarrow> (\<exists>a. x = Inr a \<and> fst (f a ds) = Inr b)"
  by (auto simp: acq_def split: sum.splits)

lemma defer_if_fst [simp]: "fst (defer_if c d k ds) = fst (k (if c then d # ds else ds))"
  by (simp add: defer_if_def)

lemma map_sum_Inr [simp]: "map_sum f g x = Inr b \<longleftrightarrow> (\<exists>a. x = Inr a \<and> g a = b)"
  by (cases x) auto

lemma fails_Inr [simp]: "fails e f = Inr u \<longleftrightarrow> e = None"
  by (auto simp: fails_def split: option.splits)

lemma start_up_parts:
  assumes "start_up ou path = Inr ru"
  shows "LoadConfig (ou_read ou) (ou_decode ou) path = Inr (ru_cfg ru)"
    "loadRegistry ou (cf_ProvidersFile (ru_cfg ru)) = Inr (ru_registry ru)" "loadPool ou (ru_cfg ru) = Inr (ru_pool ru)"
    "ru_redis ru = loadRedis ou (ru_cfg ru)"
    "\<exists>a. loadAuth ou (acf_StaticKeys (cf_Auth (ru_cfg ru))) (ru_pool ru) = Inr a \<and> ru_authn ru = cache_auth (ru_cfg ru) (ru_redis ru) a"
    "buildRateLimiter (ru_cfg ru) (Iface (ru_redis ru)) = Inr (ru_limiter ru)"
    "ru_billing ru = buildBilling ou (ru_cfg ru) (ru_pool ru)" "ru_keystore ru = (if ru_pool ru then Some (Iface (ru_redis ru)) else None)"
    "ru_audit ru = (if ru_pool ru then Postgres else Nop)"
  using assms by (auto simp: start_up_def start_run_def Let_def)

lemma cache_auth_None [simp]: "cache_auth cfg rdb a = None \<longleftrightarrow> a = None"
  by (auto simp: cache_auth_def split: option.splits)

text \<open>\<open>server.New\<close> never misses a dependency, so start-up has no further way to fail.\<close>

lemma server_deps_complete: "missing_dep (server_deps base auth probe ru) = None"
  by (simp add: missing_dep_def server_deps_def Let_def)

text \<open>The place of a call in a shutdown.\<close>

fun rank :: "shutdown_step \<Rightarrow> nat" where
  "rank StartDraining = 0" | "rank (PreShutdownWait d) = 1" | "rank (HttpShutdown d) = 2" | "rank StopBilling = 3"
| "rank ShutdownTracing = 4" | "rank CloseRedis = 5" | "rank ClosePool = 6" | "rank SyncLogger = 7"

definition after_logger :: "start_error \<Rightarrow> bool" where
  "after_logger e = (case e of StartConfig _ \<Rightarrow> False | StartLogger _ \<Rightarrow> False | _ \<Rightarrow> True)"

definition after_pool :: "start_error \<Rightarrow> bool" where
  "after_pool e = (case e of StartAuth _ \<Rightarrow> True | StartTracer _ \<Rightarrow> True | StartLimiter _ \<Rightarrow> True | StartTokenizer _ \<Rightarrow> True | _ \<Rightarrow> False)"

definition after_redis :: "start_error \<Rightarrow> bool" where
  "after_redis e = (case e of StartTracer _ \<Rightarrow> True | StartLimiter _ \<Rightarrow> True | StartTokenizer _ \<Rightarrow> True | _ \<Rightarrow> False)"

definition after_tracer :: "start_error \<Rightarrow> bool" where
  "after_tracer e = (case e of StartLimiter _ \<Rightarrow> True | StartTokenizer _ \<Rightarrow> True | _ \<Rightarrow> False)"

lemmas after_defs = after_logger_def after_pool_def after_redis_def after_tracer_def

definition pushed :: "bool \<Rightarrow> 'd \<Rightarrow> 'd list" where
  "pushed c d = (if c then [d] else [])"

lemma pushed_simps [simp]: "pushed True d = [d]" "pushed False d = []"
  by (simp_all add: pushed_def)

lemma defer_if_pushed: "defer_if c d k ds = k (pushed c d @ ds)"
  by (simp add: defer_if_def pushed_def)

lemma after_simps [simp]:
  "\<not> after_logger (StartLogger z)" "\<not> after_pool (StartLogger z)" "\<not> after_redis (StartLogger z)" "\<not> after_tracer (StartLogger z)"
  "after_logger (StartMetrics x)" "\<not> after_pool (StartMetrics x)" "\<not> after_redis (StartMetrics x)" "\<not> after_tracer (StartMetrics x)"
  "after_logger (StartTracer x)" "after_pool (StartTracer x)" "after_redis (StartTracer x)" "\<not> after_tracer (StartTracer x)"
  "after_logger (StartLimiter y)" "after_pool (StartLimiter y)" "after_redis (StartLimiter y)" "after_tracer (StartLimiter y)"
  "after_logger (StartTokenizer x)" "after_pool (StartTokenizer x)" "after_redis (StartTokenizer x)" "after_tracer (StartTokenizer x)"
  by (simp_all add: after_defs)

lemma loadRegistry_error: "loadRegistry ou p = Inl e \<Longrightarrow> after_logger e \<and> \<not> after_pool e \<and> \<not> after_redis e \<and> \<not> after_tracer e"
  by (auto simp: loadRegistry_def map_sum_Inl after_defs split: stat_result.splits)

lemma loadPool_error: "loadPool ou cfg = Inl e \<Longrightarrow> after_logger e \<and> \<not> after_pool e \<and> \<not> after_redis e \<and> \<not> after_tracer e"
  by (auto simp: loadPool_def map_sum_Inl after_defs split: if_splits)

lemma loadAuth_error: "loadAuth ou ks p = Inl e \<Longrightarrow> after_logger e \<and> after_pool e \<and> \<not> after_redis e \<and> \<not> after_tracer e"
  by (auto simp: loadAuth_def after_defs split: if_splits sum.splits)

lemma loadPool_used: "loadPool ou cfg = Inr b \<Longrightarrow> b \<longleftrightarrow> dcf_DSN (cf_Database cfg) \<noteq> []"
  by (auto simp: loadPool_def split: if_splits)

text \<open>The calls deferred by the time start-up fails or is done.\<close>

lemma acq_failed: "acq x f ds = (Inl e, ds') \<longleftrightarrow> x = Inl e \<and> ds' = ds \<or> (\<exists>a. x = Inr a \<and> f a ds = (Inl e, ds'))"
  by (cases x) (auto simp: acq_def)

lemma acq_started: "acq x f ds = (Inr b, ds') \<longleftrightarrow> (\<exists>a. x = Inr a \<and> f a ds = (Inr b, ds'))"
  by (cases x) (auto simp: acq_def)

lemma fails_Inl [simp]: "fails e f = Inl x \<longleftrightarrow> (\<exists>err. e = Some err \<and> x = f err)"
  by (auto simp: fails_def split: option.splits)

lemma start_run_failed:
  assumes "start_run ou path [] = (Inl e, ds)" "LoadConfig (ou_read ou) (ou_decode ou) path = Inr cfg"
  shows "ds = pushed (after_tracer e) ShutdownTracing @ pushed (after_redis e \<and> loadRedis ou cfg \<noteq> None) CloseRedis @
    pushed (after_pool e \<and> dcf_DSN (cf_Database cfg) \<noteq> []) ClosePool @ pushed (after_logger e) SyncLogger"
proof -
  let ?pool = "dcf_DSN (cf_Database cfg) \<noteq> []" and ?redis = "loadRedis ou cfg \<noteq> None"
  have "ds = [] \<and> \<not> after_logger e \<and> \<not> after_pool e \<and> \<not> after_redis e \<and> \<not> after_tracer e \<or>
    ds = [SyncLogger] \<and> after_logger e \<and> \<not> after_pool e \<and> \<not> after_redis e \<and> \<not> after_tracer e \<or>
    ds = pushed ?pool ClosePool @ [SyncLogger] \<and> after_logger e \<and> after_pool e \<and> \<not> after_redis e \<and> \<not> after_tracer e \<or>
    ds = pushed ?redis CloseRedis @ pushed ?pool ClosePool @ [SyncLogger] \<and> after_logger e \<and> after_pool e \<and> after_redis e \<and> \<not> after_tracer e \<or>
    ds = [ShutdownTracing] @ pushed ?redis CloseRedis @ pushed ?pool ClosePool @ [SyncLogger] \<and> after_logger e \<and> after_pool e \<and> after_redis e \<and> after_tracer e"
    using assms(1) unfolding start_run_def acq_failed defer_if_pushed Let_def
    apply (elim disjE exE conjE)
    subgoal by (simp add: assms(2))
    subgoal by (auto simp: map_sum_Inl)
    subgoal by (auto simp: map_sum_Inl)
    subgoal using loadRegistry_error by (simp, blast)
    subgoal using loadPool_error by (simp, blast)
    subgoal by (drule loadAuth_error, drule loadPool_used) (simp add: assms(2))
    subgoal by (drule loadPool_used) (auto simp: map_sum_Inl assms(2))
    subgoal by (drule loadPool_used) (auto simp: map_sum_Inl assms(2))
    subgoal by (drule loadPool_used) (auto simp: map_sum_Inl assms(2))
    subgoal by simp
    done
  then show ?thesis by (auto simp: pushed_def)
qed

lemma start_run_config_failed: "LoadConfig (ou_read ou) (ou_decode ou) path = Inl ce \<Longrightarrow> start_run ou path [] = (Inl (StartConfig ce), [])"
  by (simp add: start_run_def acq_def)

lemma start_run_started:
  assumes "start_run ou path [] = (Inr ru, ds)"
  shows "ds = pushed (ru_billing ru \<noteq> None) StopBilling @ [ShutdownTracing] @ pushed (ru_redis ru \<noteq> None) CloseRedis @ pushed (ru_pool ru) ClosePool @ [SyncLogger]"
  using assms by (auto simp: start_run_def acq_def defer_if_def Let_def fails_def pushed_def split: sum.splits option.splits)

lemma drain_ranked: "sorted_wrt (\<lambda>a b. rank a < rank b) (drain_steps cfg)" "\<forall>a \<in> set (drain_steps cfg). rank a < 3"
  by (auto simp: drain_steps_def Let_def)

lemma start_run_ranked:
  assumes "start_run ou path [] = (x, ds)"
  shows "sorted_wrt (\<lambda>a b. rank a < rank b) ds \<and> (\<forall>a \<in> set ds. 3 \<le> rank a)"
proof (cases x)
  case (Inr ru)
  from start_run_started [OF assms [unfolded Inr]] show ?thesis by (auto simp: pushed_def)
next
  case (Inl e)
  show ?thesis
  proof (cases "LoadConfig (ou_read ou) (ou_decode ou) path")
    case (Inl ce)
    from start_run_config_failed [OF Inl] assms show ?thesis by simp
  next
    case (Inr cfg)
    from start_run_failed [OF assms [unfolded \<open>x = Inl e\<close>] Inr] show ?thesis by (auto simp: pushed_def)
  qed
qed

lemma start_up_run: "start_run ou path [] = (x, ds) \<Longrightarrow> start_up ou path = x"
  by (simp add: start_up_def)

text \<open>How a run with a configuration ends: start-up fails, or it serves and stops.\<close>

lemma run_cases:
  assumes "runWithCtx ou serve args = (res, steps)" "parseArgs args = Inr (path, False)"
  obtains (failed) e where "start_run ou path [] = (Inl e, steps)" "res = StartFailed e"
  | (served) ru ds where "start_run ou path [] = (Inr ru, ds)" "\<forall>e. res \<noteq> StartFailed e"
      "steps = (case serve (http_server (ru_cfg ru)) of Signalled _ \<Rightarrow> drain_steps (ru_cfg ru) | _ \<Rightarrow> []) @ ds"
  using assms
  by (cases "start_run ou path []") (auto simp: runWithCtx_def split: sum.splits serve_end.splits option.splits)

lemma served_steps:
  assumes "start_run ou path [] = (Inr ru, ds)"
  shows "SyncLogger \<in> set ds \<and> ShutdownTracing \<in> set ds \<and> (ClosePool \<in> set ds \<longleftrightarrow> ru_pool ru) \<and>
    (CloseRedis \<in> set ds \<longleftrightarrow> ru_redis ru \<noteq> None) \<and> (StopBilling \<in> set ds \<longleftrightarrow> ru_billing ru \<noteq> None) \<and>
    StartDraining \<notin> set ds \<and> PreShutdownWait d \<notin> set ds"
  using start_run_started [OF assms] by (auto simp: pushed_def)

lemma drain_parts:
  "SyncLogger \<notin> set (drain_steps cfg)" "ShutdownTracing \<notin> set (drain_steps cfg)" "ClosePool \<notin> set (drain_steps cfg)"
  "CloseRedis \<notin> set (drain_steps cfg)" "StopBilling \<notin> set (drain_steps cfg)" "StartDraining \<in> set (drain_steps cfg)"
  "PreShutdownWait d \<in> set (drain_steps cfg) \<Longrightarrow> d \<le> scf_ShutdownTimeout (cf_Server cfg)"
  by (auto simp: drain_steps_def Let_def split: if_splits)

section \<open>Properties\<close>

text \<open>
  C37: Who is asked for credentials is decided at start-up.  A gateway that starts authenticates
  its requests unless it has no static keys and either no database or one that did not answer
  at start-up; static keys, when there are any, are the ones that count, behind the cache or
  not; and a server made from it is guarded exactly when it authenticates.
\<close>

theorem start_up_authenticates:
  assumes "start_up ou path = Inr ru"
  shows "(ru_authn ru = None \<longleftrightarrow> acf_StaticKeys (cf_Auth (ru_cfg ru)) = [] \<and>
      (dcf_DSN (cf_Database (ru_cfg ru)) = [] \<or> ou_db_ping ou \<noteq> None)) \<and>
    (acf_StaticKeys (cf_Auth (ru_cfg ru)) \<noteq> [] \<longrightarrow> (\<exists>s pos neg.
      NewStatic (ou_sha ou) (map static_entry (acf_StaticKeys (cf_Auth (ru_cfg ru)))) = Inr s \<and>
      ru_authn ru \<in> {Some (StaticAuthn s), Some (CachedAuthn (StaticAuthn s) pos neg)})) \<and>
    (de_Authn (server_deps base auth probe ru) = None \<longleftrightarrow> ru_authn ru = None)"
proof -
  obtain a where a: "loadAuth ou (acf_StaticKeys (cf_Auth (ru_cfg ru))) (ru_pool ru) = Inr a" "ru_authn ru = cache_auth (ru_cfg ru) (ru_redis ru) a"
    using start_up_parts(5) [OF assms] by blast
  have pool: "ru_pool ru \<longleftrightarrow> dcf_DSN (cf_Database (ru_cfg ru)) \<noteq> []"
    using start_up_parts(3) [OF assms] by (auto simp: loadPool_def split: if_splits)
  have "de_Authn (server_deps base auth probe ru) = None \<longleftrightarrow> ru_authn ru = None" by (simp add: server_deps_def Let_def)
  moreover have "ru_authn ru = None \<longleftrightarrow> acf_StaticKeys (cf_Auth (ru_cfg ru)) = [] \<and> (dcf_DSN (cf_Database (ru_cfg ru)) = [] \<or> ou_db_ping ou \<noteq> None)"
    using a pool by (auto simp: loadAuth_def split: if_splits sum.splits)
  moreover have "\<exists>s pos neg. NewStatic (ou_sha ou) (map static_entry (acf_StaticKeys (cf_Auth (ru_cfg ru)))) = Inr s \<and>
      ru_authn ru \<in> {Some (StaticAuthn s), Some (CachedAuthn (StaticAuthn s) pos neg)}" if "acf_StaticKeys (cf_Auth (ru_cfg ru)) \<noteq> []"
    using a that by (auto simp: loadAuth_def cache_auth_def split: if_splits sum.splits option.splits)
  ultimately show ?thesis by blast
qed

lemma parseKeyBys_redis_known: "parseKeyBys ks \<noteq> Inl RedisMissing"
  by (induction ks) (auto simp: map_sum_Inl)

lemma parseRate_redis_known: "parseRate s \<noteq> Inl RedisMissing"
  by (simp add: parseRate_def split: list.split option.split)

lemma buildMemoryBucket_redis_known: "buildMemoryBucket rc \<noteq> Inl RedisMissing"
  by (auto simp: buildMemoryBucket_def Let_def map_sum_Inl parseRate_redis_known split: sum.splits)

lemma buildRedisWindow_redis_known: "buildRedisWindow rc True \<noteq> Inl RedisMissing"
  by (auto simp: buildRedisWindow_def map_sum_Inl)

lemma build_rule_redis_known: "build_rule True seen k rc \<noteq> Inl RedisMissing"
  by (auto simp: build_rule_def parseUnit_def map_sum_Inl parseKeyBys_redis_known buildMemoryBucket_redis_known buildRedisWindow_redis_known
      split: if_splits sum.splits)

lemma build_rules_redis_known:
  "(i, RedisMissing) \<in> set (fst (build_rules_loop h k rcs seen errs out)) \<Longrightarrow> h \<Longrightarrow> (i, RedisMissing) \<in> set errs"
proof (induction h k rcs seen errs out rule: build_rules_loop.induct)
  case (2 h k rc rcs seen errs out)
  then show ?case using build_rule_redis_known [of seen k rc] by (auto simp: Let_def split: sum.splits)
qed simp

lemma build_rules_accepts:
  assumes "build_rules_loop h k rcs seen errs out = ([], out')"
  shows "set out \<subseteq> set out' \<and> (\<forall>rc \<in> set rcs. \<exists>seen' i r. build_rule h seen' i rc = Inr r \<and> r \<in> set out')"
  using assms
proof (induction h k rcs seen errs out rule: build_rules_loop.induct)
  case (2 h k rc rcs seen errs out)
  show ?case
  proof (cases "build_rule h seen k rc")
    case (Inl e)
    with 2(3) build_rules_loop_errs [of h "k + 1" rcs _ "errs @ [(k, e)]" out] show ?thesis
      by (auto simp: Let_def) (metis append_is_Nil_conv fst_conv list.distinct(1) Nil_is_append_conv)+
  next
    case (Inr r)
    with 2(2) [OF refl Inr] 2(3) have "set (out @ [r]) \<subseteq> set out' \<and> (\<forall>rc \<in> set rcs. \<exists>seen' i r. build_rule h seen' i rc = Inr r \<and> r \<in> set out')"
      by (simp add: Let_def)
    with Inr show ?thesis by auto
  qed
qed simp

lemma rate_limiter_redis_known:
  assumes "buildRateLimiter cfg (Iface rdb) = Inl errs"
  shows "(i, RedisMissing) \<notin> set errs"
proof -
  have "fst (build_rules_loop True 0 (map rule_config (cf_RateLimits cfg)) {} [] []) = errs"
    using assms by (auto simp: buildRateLimiter_def iface_nil_def Build_def map_sum_Inl split: if_splits prod.splits)
  then show ?thesis using build_rules_redis_known [of i True 0 "map rule_config (cf_RateLimits cfg)" "{}" "[]" "[]"] by auto
qed

text \<open>
  C39: The check for a missing Redis cannot fail.  \<open>Build\<close> is to refuse \<open>redis_window\<close> rules when
  there is no Redis client, but the gateway hands it a nil pointer inside a non-nil interface:
  a gateway without Redis starts with every \<open>redis_window\<close> rule in force, the missing client is
  never among the errors of the rules, and the keystore is given a cache it takes for present.
\<close>

theorem missing_redis_undetected:
  assumes "start_up ou path = Inr ru" "rdc_Addr (cf_Redis (ru_cfg ru)) = []"
    and "rule \<in> set (cf_RateLimits (ru_cfg ru))" "rl_Algorithm rule = ''redis_window''"
  shows "ru_redis ru = None \<and>
    (\<exists>rules r w. ru_limiter ru = Some rules \<and> r \<in> set rules \<and> rule_Name r = rl_Name rule \<and> rule_Limiter r = Redis w) \<and>
    (\<forall>cfg rdb i errs. buildRateLimiter cfg (Iface rdb) = Inl errs \<longrightarrow> (i, RedisMissing) \<notin> set errs) \<and>
    (\<forall>c. ru_keystore ru = Some c \<longrightarrow> \<not> iface_nil c)"
proof -
  let ?rcs = "map rule_config (cf_RateLimits (ru_cfg ru))"
  obtain rules where l: "ru_limiter ru = Some rules" "Build ?rcs True = Inr rules"
    using start_up_parts(6) [OF assms(1)] assms(3) by (auto simp: buildRateLimiter_def iface_nil_def dest: sym split: if_splits)
  then have "build_rules_loop True 0 ?rcs {} [] [] = ([], rules)" by (auto simp: Build_def split: prod.splits if_splits)
  from build_rules_accepts [OF this] assms(3) obtain seen i r where r: "build_rule True seen i (rule_config rule) = Inr r" "r \<in> set rules"
    by fastforce
  have "rule_Name r = rl_Name rule \<and> (\<exists>w. rule_Limiter r = Redis w)"
    using r(1) assms(4) by (auto simp: build_rule_def rule_config_def split: if_splits sum.splits)
  moreover have "ru_redis ru = None" using start_up_parts(4) [OF assms(1)] assms(2) by (simp add: loadRedis_def)
  moreover have "\<not> iface_nil c" if "ru_keystore ru = Some c" for c
    using that start_up_parts(8) [OF assms(1)] by (auto simp: iface_nil_def split: if_splits)
  ultimately show ?thesis using l r(2) rate_limiter_redis_known by blast
qed

text \<open>
  C38: Whatever a run of the gateway acquired it releases, once and in the reverse order, however
  it ends.  The shutdown calls of a run come in one fixed order: draining, the wait, the HTTP
  server, the billing worker, the tracer, Redis, the pool, the logger.  A start-up that fails
  releases exactly what it had acquired when it failed; a gateway that served stops its billing
  worker, closes Redis and the pool exactly when it has them, and the tracer and the logger
  always; it drains exactly when it was told to stop, not when the listener failed; and the wait
  after that is no longer than the shutdown timeout.
\<close>

theorem resources_released:
  assumes "runWithCtx ou serve args = (res, steps)" "parseArgs args = Inr (path, False)"
    "LoadConfig (ou_read ou) (ou_decode ou) path = Inr cfg"
  shows "sorted_wrt (\<lambda>a b. rank a < rank b) steps \<and>
    (\<forall>e. res = StartFailed e \<longrightarrow> set steps =
       {d. d = SyncLogger \<and> after_logger e \<or> d = ClosePool \<and> after_pool e \<and> dcf_DSN (cf_Database cfg) \<noteq> [] \<or>
           d = CloseRedis \<and> after_redis e \<and> loadRedis ou cfg \<noteq> None \<or> d = ShutdownTracing \<and> after_tracer e}) \<and>
    ((\<forall>e. res \<noteq> StartFailed e) \<longrightarrow> (\<exists>ru. start_up ou path = Inr ru \<and> ru_cfg ru = cfg \<and>
       SyncLogger \<in> set steps \<and> ShutdownTracing \<in> set steps \<and> (ClosePool \<in> set steps \<longleftrightarrow> ru_pool ru) \<and>
       (CloseRedis \<in> set steps \<longleftrightarrow> ru_redis ru \<noteq> None) \<and> (StopBilling \<in> set steps \<longleftrightarrow> ru_billing ru \<noteq> None) \<and>
       (StartDraining \<in> set steps \<longleftrightarrow> (\<exists>r. serve (http_server cfg) = Signalled r)) \<and>
       (\<forall>d. PreShutdownWait d \<in> set steps \<longrightarrow> d \<le> scf_ShutdownTimeout (cf_Server cfg))))"
  using assms(1,2)
proof (cases rule: run_cases)
  case (failed e)
  with start_run_failed [OF failed(1) assms(3)] start_run_ranked [OF failed(1)] show ?thesis by (auto simp: pushed_def)
next
  case (served ru ds)
  have ru: "start_up ou path = Inr ru" using start_up_run [OF served(1)] .
  with start_up_parts(1) [OF this] assms(3) have cfg: "ru_cfg ru = cfg" by simp
  have order: "sorted_wrt (\<lambda>a b. rank a < rank b) steps"
    using served(3) start_run_ranked [OF served(1)] drain_ranked [of "ru_cfg ru"] by (force simp: sorted_wrt_append split: serve_end.splits)
  from served_steps [OF served(1)] served(3) cfg
  have "SyncLogger \<in> set steps \<and> ShutdownTracing \<in> set steps \<and> (ClosePool \<in> set steps \<longleftrightarrow> ru_pool ru) \<and>
    (CloseRedis \<in> set steps \<longleftrightarrow> ru_redis ru \<noteq> None) \<and> (StopBilling \<in> set steps \<longleftrightarrow> ru_billing ru \<noteq> None) \<and>
    (StartDraining \<in> set steps \<longleftrightarrow> (\<exists>r. serve (http_server cfg) = Signalled r)) \<and>
    (\<forall>d. PreShutdownWait d \<in> set steps \<longrightarrow> d \<le> scf_ShutdownTimeout (cf_Server cfg))"
    by (auto simp: drain_parts split: serve_end.splits)
  with ru cfg order served(2) show ?thesis by auto
qed

section \<open>Examples\<close>

definition demo_rule :: RateLimitRule where
  "demo_rule = \<lparr>rl_Name = ''per-key'', rl_Algorithm = ''redis_window'', rl_Rate = [], rl_Window = Minute, rl_Limit = 100, rl_Burst = 0,
     rl_KeyBy = [''api_key''], rl_Unit = []\<rparr>"

definition demo_outside :: "Config \<Rightarrow> unit outside" where
  "demo_outside cfg = \<lparr>ou_read = \<lambda>_. None, ou_decode = \<lambda>_ _. Inr cfg, ou_build = \<lparr>bi_Version = ''dev'', bi_Commit = ''none'', bi_BuildTime = ''unknown''\<rparr>, ou_zap = \<lambda>_. None, ou_metrics = None, ou_stat = \<lambda>_. FileMissing,
     ou_file = \<lambda>_. Inl ErrOpenState, ou_yaml = \<lambda>_. Inl ErrOpenState, ou_env = \<lambda>_. None, ou_dsn = \<lambda>_. Inr \<lparr>ps_MaxConns = 4, ps_MinConns = 0, ps_MaxConnLifetime = 0, ps_MaxConnIdleTime = 0\<rparr>, ou_pool = \<lambda>_. None, ou_db_ping = Some ErrOpenState, ou_redis = (), ou_redis_ping = None, ou_resource = None, ou_exporter = \<lambda>_. None,
     ou_tokenizer = None, ou_sha = id, ou_pricing = \<lparr>pc_cache = NewPricingCache, pc_table = [], pc_db_err = None\<rparr>\<rparr>"

definition demo_cfg :: Config where
  "demo_cfg = setDefaults\<lparr>cf_RateLimits := [demo_rule], cf_Database := (cf_Database setDefaults)\<lparr>dcf_DSN := ''postgres://''\<rparr>\<rparr>"

lemma demo_starts: "\<exists>ru. start_up (demo_outside demo_cfg) [] = Inr ru \<and> ru_cfg ru = demo_cfg"
proof -
  have "Validate demo_cfg = []" by code_simp
  then have c: "LoadConfig (ou_read (demo_outside demo_cfg)) (ou_decode (demo_outside demo_cfg)) [] = Inr demo_cfg"
    by (simp add: LoadConfig_def demo_outside_def)
  have "case buildRateLimiter demo_cfg (Iface (None :: unit option)) of Inl _ \<Rightarrow> False | Inr _ \<Rightarrow> True" by code_simp
  then obtain l where l: "buildRateLimiter demo_cfg (Iface (None :: unit option)) = Inr l" by (auto split: sum.splits)
  have k: "acf_StaticKeys (cf_Auth demo_cfg) = []" "rdc_Addr (cf_Redis demo_cfg) = []" by (simp_all add: demo_cfg_def setDefaults_def)
  have "case NewLogger (\<lambda>_. None) (cf_Log demo_cfg) of Inl _ \<Rightarrow> False | Inr _ \<Rightarrow> True" by code_simp
  then obtain st where "NewLogger (\<lambda>_. None) (cf_Log demo_cfg) = Inr st" by (auto split: sum.splits)
  with c l k show ?thesis
    by (auto simp: start_up_def start_run_def NewPool_def storage_config_def NewTracerProvider_def demo_outside_def loadRegistry_def loadPool_def loadAuth_def loadRedis_def Let_def intro!: exI)
qed

theorem start_up_authenticates_witness:
  "\<exists>ru. start_up (demo_outside demo_cfg) [] = Inr ru \<and> ru_authn ru = None"
proof -
  obtain ru where ru: "start_up (demo_outside demo_cfg) [] = Inr ru" "ru_cfg ru = demo_cfg" using demo_starts by blast
  from start_up_authenticates [OF ru(1)] ru show ?thesis by (auto simp: demo_cfg_def setDefaults_def demo_outside_def)
qed

theorem missing_redis_undetected_witness:
  "\<exists>ru rules r w. start_up (demo_outside demo_cfg) [] = Inr ru \<and> ru_redis ru = None \<and> ru_limiter ru = Some rules \<and> r \<in> set rules \<and>
     rule_Name r = ''per-key'' \<and> rule_Limiter r = Redis w"
proof -
  obtain ru where ru: "start_up (demo_outside demo_cfg) [] = Inr ru" "ru_cfg ru = demo_cfg" using demo_starts by blast
  have "rdc_Addr (cf_Redis (ru_cfg ru)) = []" "demo_rule \<in> set (cf_RateLimits (ru_cfg ru))" "rl_Algorithm demo_rule = ''redis_window''"
    "rl_Name demo_rule = ''per-key''" using ru(2) by (simp_all add: demo_cfg_def setDefaults_def demo_rule_def)
  with missing_redis_undetected [OF ru(1)] ru(1) show ?thesis by metis
qed

text \<open>
  A run with no arguments of a gateway whose database does not answer, told to stop: the pool is
  closed and the gateway drained.
\<close>

theorem resources_released_witness:
  "\<exists>res steps. runWithCtx (demo_outside demo_cfg) (\<lambda>_. Signalled None) [''-config'', []] = (res, steps) \<and> res = Stopped \<and>
     ClosePool \<in> set steps \<and> StartDraining \<in> set steps"
proof -
  obtain ru where ru: "start_up (demo_outside demo_cfg) [] = Inr ru" "ru_cfg ru = demo_cfg" using demo_starts by blast
  obtain res steps where run: "runWithCtx (demo_outside demo_cfg) (\<lambda>_. Signalled None) [''-config'', []] = (res, steps)" by fastforce
  have args: "parseArgs [''-config'', []] = Inr ([], False)" by code_simp
  have cfg: "LoadConfig (ou_read (demo_outside demo_cfg)) (ou_decode (demo_outside demo_cfg)) [] = Inr demo_cfg" using start_up_parts(1) [OF ru(1)] ru(2) by simp
  have "res = Stopped" using run args ru(1) by (cases "start_run (demo_outside demo_cfg) [] []") (auto simp: runWithCtx_def start_up_def)
  moreover have "ru_pool ru" using loadPool_used [OF start_up_parts(3) [OF ru(1)]] ru(2) by (simp add: demo_cfg_def)
  ultimately show ?thesis using resources_released [OF run args cfg] run ru(1) by auto
qed

end
