(* ===== verification/GatewayMetrics.thy ===== *)
theory GatewayMetrics
  imports TimeSeries Observability
begin

text \<open>
  \<open>internal/observability/gateway_metrics.go\<close>: the bundle of metrics and its methods.  The
  metrics library is not modelled: the bundle records the calls made to it, in order.  Two rules
  of the library matter, because it panics when they are broken: \<open>WithLabelValues\<close> takes one
  value per label of the collector, and a counter never decreases.
\<close>

section \<open>The collectors\<close>

datatype collector_kind = KCounter | KGauge | KHistogram

definition latencyBuckets :: "rat list" where
  "latencyBuckets = map fl64 [5 / 1000, 1 / 100, 25 / 1000, 5 / 100, 1 / 10, 1 / 4, 1 / 2, 1, 5 / 2, 5, 10, 30]"

definition cacheLookupBuckets :: "rat list" where
  "cacheLookupBuckets = map fl64 [1 / 10000, 25 / 100000, 5 / 10000, 1 / 1000, 25 / 10000, 5 / 1000, 1 / 100, 25 / 1000, 1 / 10]"

text \<open>\<open>prometheus.ExponentialBuckets\<close>.\<close>

definition ExponentialBuckets :: "rat \<Rightarrow> rat \<Rightarrow> nat \<Rightarrow> rat list" where
  "ExponentialBuckets start factor n = map (\<lambda>i. start * factor ^ i) [0..<n]"

text \<open>Name, kind, label names and, for a histogram, its buckets, in the order of registration.\<close>

definition collectors :: "(string \<times> collector_kind \<times> string list \<times> rat list) list" where
  "collectors = [
     (''gateway_requests_total'', KCounter, [''provider'', ''model'', ''status''], []),
     (''gateway_request_duration_seconds'', KHistogram, [''provider'', ''model''], latencyBuckets),
     (''gateway_tokens_total'', KCounter, [''provider'', ''model'', ''type''], []),
     (''gateway_cost_micro_total'', KCounter, [''provider'', ''model'', ''api_key_id''], []),
     (''gateway_cache_hits_total'', KCounter, [''type''], []),
     (''gateway_cache_writes_total'', KCounter, [''type''], []),
     (''gateway_cache_lookup_duration_seconds'', KHistogram, [''result''], cacheLookupBuckets),
     (''gateway_router_decision_total'', KCounter, [''from'', ''to'', ''rule''], []),
     (''gateway_router_bypass_total'', KCounter, [''reason''], []),
     (''gateway_ratelimit_rejected_total'', KCounter, [''rule''], []),
     (''gateway_router_failover_total'', KCounter, [''from'', ''to''], []),
     (''gateway_breaker_state'', KGauge, [''provider''], []),
     (''gateway_billing_dropped_total'', KCounter, [], []),
     (''gateway_billing_written_total'', KCounter, [], []),
     (''gateway_pricing_cache_size'', KGauge, [], []),
     (''gateway_prompt_compressed_total'', KCounter, [''model''], []),
     (''gateway_prompt_tokens_saved'', KHistogram, [], ExponentialBuckets 64 2 12)]"

datatype prom_call = Add string "string list" rat | SetGauge string "string list" rat | Observe string "string list" rat

abbreviation Inc :: "string \<Rightarrow> string list \<Rightarrow> prom_call" where
  "Inc name values \<equiv> Add name values 1"

record Metrics =
  gm_calls :: "prom_call list"
  gm_timeseries :: TimeSeries
  gm_startedAt :: instant

text \<open>\<open>register\<close> is the library's \<open>Register\<close>, by the names registered before.\<close>

fun register_all :: "(string list \<Rightarrow> string \<Rightarrow> goerr option) \<Rightarrow> string list \<Rightarrow> string list \<Rightarrow> goerr option" where
  "register_all register done [] = None"
| "register_all register done (c # cs) = (case register done c of Some err \<Rightarrow> Some err | None \<Rightarrow> register_all register (done @ [c]) cs)"

definition NewMetrics :: "(string list \<Rightarrow> string \<Rightarrow> goerr option) \<Rightarrow> instant \<Rightarrow> goerr + Metrics" where
  "NewMetrics register now = (case register_all register [] (map fst collectors) of
     Some err \<Rightarrow> Inl err
   | None \<Rightarrow> Inr \<lparr>gm_calls = [], gm_timeseries = NewTimeSeries now, gm_startedAt = now\<rparr>)"

section \<open>The methods\<close>

text \<open>A nil bundle ignores every call.\<close>

definition call_metrics :: "prom_call list \<Rightarrow> Metrics option \<Rightarrow> Metrics option" where
  "call_metrics cs m = map_option (\<lambda>m. m\<lparr>gm_calls := gm_calls m @ cs\<rparr>) m"

text \<open>The time series panics for an instant before its epoch; the result is then undefined.\<close>

definition Metrics_ObserveRequest :: "instant \<Rightarrow> string \<Rightarrow> string \<Rightarrow> int \<Rightarrow> rat \<Rightarrow> Metrics option \<Rightarrow> Metrics option option" where
  "Metrics_ObserveRequest now provider model status durationSec m = (case m of None \<Rightarrow> Some None
     | Some m1 \<Rightarrow> (case ts_Record now status (gm_timeseries m1) of None \<Rightarrow> None
        | Some t \<Rightarrow> Some (call_metrics [Inc ''gateway_requests_total'' [provider, model, statusLabel status],
              Observe ''gateway_request_duration_seconds'' [provider, model] durationSec] (Some (m1\<lparr>gm_timeseries := t\<rparr>)))))"

definition Metrics_AddTokens :: "string \<Rightarrow> string \<Rightarrow> int \<Rightarrow> int \<Rightarrow> Metrics option \<Rightarrow> Metrics option" where
  "Metrics_AddTokens provider model prompt completion = call_metrics
     ((if prompt > 0 then [Add ''gateway_tokens_total'' [provider, model, ''prompt''] (f_of_int prompt)] else []) @
      (if completion > 0 then [Add ''gateway_tokens_total'' [provider, model, ''completion''] (f_of_int completion)] else []))"

definition Metrics_AddCost :: "string \<Rightarrow> string \<Rightarrow> string \<Rightarrow> int \<Rightarrow> Metrics option \<Rightarrow> Metrics option" where
  "Metrics_AddCost provider model apiKeyID micro m = (if m = None \<or> micro = 0 then m
     else call_metrics [Add ''gateway_cost_micro_total'' [provider, model, apiKeyID]
       (if micro < 0 then - f_of_int (- micro) else f_of_int micro)] m)"

definition Metrics_IncCacheHit :: "string \<Rightarrow> Metrics option \<Rightarrow> Metrics option" where
  "Metrics_IncCacheHit kind = call_metrics [Inc ''gateway_cache_hits_total'' [kind]]"

definition Metrics_IncCacheWrite :: "string \<Rightarrow> Metrics option \<Rightarrow> Metrics option" where
  "Metrics_IncCacheWrite kind = call_metrics [Inc ''gateway_cache_writes_total'' [kind]]"

definition Metrics_ObserveCacheLookup :: "string \<Rightarrow> rat \<Rightarrow> Metrics option \<Rightarrow> Metrics option" where
  "Metrics_ObserveCacheLookup result durationSec = call_metrics [Observe ''gateway_cache_lookup_duration_seconds'' [result] durationSec]"

definition Metrics_IncRouterDecision :: "string \<Rightarrow> string \<Rightarrow> string \<Rightarrow> Metrics option \<Rightarrow> Metrics option" where
  "Metrics_IncRouterDecision from to rule = call_metrics [Inc ''gateway_router_decision_total'' [from, to, rule]]"

definition Metrics_IncRouterBypass :: "string \<Rightarrow> Metrics option \<Rightarrow> Metrics option" where
  "Metrics_IncRouterBypass reason = call_metrics [Inc ''gateway_router_bypass_total'' [reason]]"

definition Metrics_IncRatelimitReject :: "string \<Rightarrow> Metrics option \<Rightarrow> Metrics option" where
  "Metrics_IncRatelimitReject rule = call_metrics [Inc ''gateway_ratelimit_rejected_total'' [rule]]"

definition Metrics_IncFailover :: "string \<Rightarrow> string \<Rightarrow> Metrics option \<Rightarrow> Metrics option" where
  "Metrics_IncFailover from to = call_metrics [Inc ''gateway_router_failover_total'' [from, to]]"

definition Metrics_SetBreakerState :: "string \<Rightarrow> int \<Rightarrow> Metrics option \<Rightarrow> Metrics option" where
  "Metrics_SetBreakerState provider state = call_metrics [SetGauge ''gateway_breaker_state'' [provider] (of_int state)]"

definition Metrics_IncBillingDropped :: "Metrics option \<Rightarrow> Metrics option" where
  "Metrics_IncBillingDropped = call_metrics [Inc ''gateway_billing_dropped_total'' []]"

definition Metrics_IncBillingWritten :: "Metrics option \<Rightarrow> Metrics option" where
  "Metrics_IncBillingWritten = call_metrics [Inc ''gateway_billing_written_total'' []]"

definition Metrics_SetPricingCacheSize :: "int \<Rightarrow> Metrics option \<Rightarrow> Metrics option" where
  "Metrics_SetPricingCacheSize n = call_metrics [SetGauge ''gateway_pricing_cache_size'' [] (of_int n)]"

definition Metrics_ObservePromptCompressed :: "string \<Rightarrow> int \<Rightarrow> Metrics option \<Rightarrow> Metrics option" where
  "Metrics_ObservePromptCompressed model tokensSaved = call_metrics ([Inc ''gateway_prompt_compressed_total'' [model]] @
     (if tokensSaved > 0 then [Observe ''gateway_prompt_tokens_saved'' [] (f_of_int tokensSaved)] else []))"

section \<open>Calls the library accepts\<close>

definition kind_of :: "prom_call \<Rightarrow> collector_kind" where
  "kind_of c = (case c of Add _ _ _ \<Rightarrow> KCounter | SetGauge _ _ _ \<Rightarrow> KGauge | Observe _ _ _ \<Rightarrow> KHistogram)"

definition call_typed :: "prom_call \<Rightarrow> bool" where
  "call_typed c = (case c of Add n vs _ \<Rightarrow> list_ex (\<lambda>(m, k, ls, _). m = n \<and> k = KCounter \<and> length ls = length vs) collectors
     | SetGauge n vs _ \<Rightarrow> list_ex (\<lambda>(m, k, ls, _). m = n \<and> k = KGauge \<and> length ls = length vs) collectors
     | Observe n vs _ \<Rightarrow> list_ex (\<lambda>(m, k, ls, _). m = n \<and> k = KHistogram \<and> length ls = length vs) collectors)"

text \<open>A call that would decrease a counter.\<close>

definition decreases :: "prom_call \<Rightarrow> bool" where
  "decreases c = (case c of Add n _ v \<Rightarrow> v < 0 | _ \<Rightarrow> False)"

text \<open>
  The bundles a run of the gateway goes through, with the costs given to \<open>AddCost\<close>, in order.
\<close>

inductive metrics_run :: "int list \<Rightarrow> Metrics option \<Rightarrow> bool" where
  disabled: "metrics_run [] None"
| fresh: "NewMetrics register now = Inr m \<Longrightarrow> metrics_run [] (Some m)"
| request: "metrics_run cs m \<Longrightarrow> Metrics_ObserveRequest now p mo st d m = Some m' \<Longrightarrow> metrics_run cs m'"
| tokens: "metrics_run cs m \<Longrightarrow> metrics_run cs (Metrics_AddTokens p mo a b m)"
| cost: "metrics_run cs m \<Longrightarrow> metrics_run (cs @ [micro]) (Metrics_AddCost p mo k micro m)"
| hit: "metrics_run cs m \<Longrightarrow> metrics_run cs (Metrics_IncCacheHit k m)"
| stored: "metrics_run cs m \<Longrightarrow> metrics_run cs (Metrics_IncCacheWrite k m)"
| lookup: "metrics_run cs m \<Longrightarrow> metrics_run cs (Metrics_ObserveCacheLookup k d m)"
| decision: "metrics_run cs m \<Longrightarrow> metrics_run cs (Metrics_IncRouterDecision f t r m)"
| bypass: "metrics_run cs m \<Longrightarrow> metrics_run cs (Metrics_IncRouterBypass r m)"
| reject: "metrics_run cs m \<Longrightarrow> metrics_run cs (Metrics_IncRatelimitReject r m)"
| failover: "metrics_run cs m \<Longrightarrow> metrics_run cs (Metrics_IncFailover f t m)"
| breaker: "metrics_run cs m \<Longrightarrow> metrics_run cs (Metrics_SetBreakerState p s m)"
| dropped: "metrics_run cs m \<Longrightarrow> metrics_run cs (Metrics_IncBillingDropped m)"
| written: "metrics_run cs m \<Longrightarrow> metrics_run cs (Metrics_IncBillingWritten m)"
| pricing: "metrics_run cs m \<Longrightarrow> metrics_run cs (Metrics_SetPricingCacheSize n m)"
| compressed: "metrics_run cs m \<Longrightarrow> metrics_run cs (Metrics_ObservePromptCompressed mo sv m)"

text \<open>
  Every call is well typed, and the calls that decrease a counter are those on the cost
  counter, one for each negative cost and with that amount.
\<close>

definition cost_amount :: "int \<Rightarrow> rat" where
  "cost_amount micro = (if micro < 0 then - f_of_int (- micro) else f_of_int micro)"

definition decreased :: "prom_call list \<Rightarrow> (string \<times> rat) list" where
  "decreased cs = List.map_filter (\<lambda>c. case c of Add n _ v \<Rightarrow> if v < 0 then Some (n, v) else None | _ \<Rightarrow> None) cs"

definition calls_ok :: "int list \<Rightarrow> Metrics option \<Rightarrow> bool" where
  "calls_ok costs m = (case m of None \<Rightarrow> True | Some m \<Rightarrow> list_all call_typed (gm_calls m) \<and>
     decreased (gm_calls m) = map (\<lambda>micro. (''gateway_cost_micro_total'', cost_amount micro)) (filter (\<lambda>micro. micro < 0) costs))"

lemma decreased_append [simp]: "decreased (a @ b) = decreased a @ decreased b" "decreased [] = []"
  by (simp_all add: decreased_def List.map_filter_def)

lemma decreased_Cons: "decreased (c # cs) =
    (case c of Add n _ v \<Rightarrow> if v < 0 then (n, v) # decreased cs else decreased cs | _ \<Rightarrow> decreased cs)"
  by (cases c) (simp_all add: decreased_def List.map_filter_simps)

lemma decreased_Nil_iff: "decreased cs = [] \<longleftrightarrow> list_all (\<lambda>c. \<not> decreases c) cs"
  by (induction cs) (auto simp: decreased_Cons decreases_def split: prom_call.splits)

lemma calls_ok_call:
  "calls_ok costs m \<Longrightarrow> list_all call_typed cs \<Longrightarrow> decreased cs = [] \<Longrightarrow> calls_ok costs (call_metrics cs m)"
  by (cases m) (auto simp: calls_ok_def call_metrics_def)

lemmas method_defs = Metrics_AddTokens_def Metrics_IncCacheHit_def Metrics_IncCacheWrite_def Metrics_ObserveCacheLookup_def
  Metrics_IncRouterDecision_def Metrics_IncRouterBypass_def Metrics_IncRatelimitReject_def Metrics_IncFailover_def Metrics_SetBreakerState_def
  Metrics_IncBillingDropped_def Metrics_IncBillingWritten_def Metrics_SetPricingCacheSize_def Metrics_ObservePromptCompressed_def

lemma cost_amount_sign: "cost_amount micro < 0 \<longleftrightarrow> micro < 0"
proof (cases "micro < 0")
  case True
  then have "0 < f_of_int (- micro)" unfolding f_of_int_def by (intro fl64_pos) simp
  with True show ?thesis by (simp add: cost_amount_def)
next
  case False
  then show ?thesis using f_of_int_nonneg [of micro] by (simp add: cost_amount_def)
qed

lemma calls_ok_cost:
  assumes "calls_ok costs m"
  shows "calls_ok (costs @ [micro]) (Metrics_AddCost p mo k micro m)"
proof (cases "m = None \<or> micro = 0")
  case True
  with assms show ?thesis by (auto simp: Metrics_AddCost_def calls_ok_def split: option.splits)
next
  case False
  then obtain m0 where m: "m = Some m0" by auto
  have "decreased [Add ''gateway_cost_micro_total'' [p, mo, k] (cost_amount micro)] =
      (if micro < 0 then [(''gateway_cost_micro_total'', cost_amount micro)] else [])"
    by (simp add: decreased_Cons cost_amount_sign)
  moreover have "call_typed (Add ''gateway_cost_micro_total'' [p, mo, k] (cost_amount micro))" by (simp add: call_typed_def collectors_def)
  ultimately show ?thesis using assms False m
    by (simp add: Metrics_AddCost_def calls_ok_def call_metrics_def flip: cost_amount_def)
qed

lemma metrics_run_ok: "metrics_run costs m \<Longrightarrow> calls_ok costs m"
proof (induction rule: metrics_run.induct)
  case (fresh register now m)
  then show ?case by (auto simp: NewMetrics_def calls_ok_def split: option.splits)
next
  case (request cs m now p mo st d m')
  then show ?case
    by (auto simp: Metrics_ObserveRequest_def call_metrics_def calls_ok_def call_typed_def decreased_Cons collectors_def split: option.splits)
next
  case (cost cs m micro p mo k)
  then show ?case by (simp add: calls_ok_cost)
qed (auto simp: method_defs calls_ok_def [of _ None] call_typed_def decreased_Cons collectors_def f_of_int_nonneg not_less intro!: calls_ok_call)

text \<open>
  The cost counter is given whatever the billing worker computed: with prices whose product
  with the token count leaves the range of \<open>int64\<close> that is a negative number.
\<close>

lemma negative_cost_reaches_counter:
  "\<exists>m. Metrics_AddCost ''p'' ''m'' ''k'' (-5) (Some \<lparr>gm_calls = [], gm_timeseries = t, gm_startedAt = 0\<rparr>) = Some m \<and>
     gm_calls m = [Add ''gateway_cost_micro_total'' [''p'', ''m'', ''k''] (-5)]"
proof -
  have "f_of_int 5 = 5" by (simp add: f_of_int_exact)
  then show ?thesis by (simp add: Metrics_AddCost_def call_metrics_def)
qed

section \<open>Properties\<close>

text \<open>
  C40: The metrics never panic over their shape.  The collectors have distinct names, so all of
  them register; and every call any run of the gateway makes names a registered collector of
  the right kind with one value per label.  The calls that decrease a counter, at which the
  library panics, are exactly those \<open>AddCost\<close> makes on the cost counter for a negative cost; so
  a run whose costs are not negative decreases no counter.
\<close>

theorem metrics_well_typed:
  assumes "metrics_run costs (Some m)"
  shows "distinct (map fst collectors) \<and> list_all call_typed (gm_calls m) \<and>
    decreased (gm_calls m) = map (\<lambda>micro. (''gateway_cost_micro_total'', cost_amount micro)) (filter (\<lambda>micro. micro < 0) costs) \<and>
    (list_all (\<lambda>micro. 0 \<le> micro) costs \<longrightarrow> list_all (\<lambda>c. \<not> decreases c) (gm_calls m))"
proof -
  have "distinct (map fst collectors)" by (simp add: collectors_def)
  moreover have d: "list_all call_typed (gm_calls m)"
    "decreased (gm_calls m) = map (\<lambda>micro. (''gateway_cost_micro_total'', cost_amount micro)) (filter (\<lambda>micro. micro < 0) costs)"
    using metrics_run_ok [OF assms] by (simp_all add: calls_ok_def)
  moreover have "list_all (\<lambda>micro. 0 \<le> micro) costs \<Longrightarrow> filter (\<lambda>micro. micro < 0) costs = []" by (auto simp: list_all_iff filter_empty_conv)
  ultimately show ?thesis by (simp add: decreased_Nil_iff [symmetric])
qed

theorem metrics_well_typed_witness:
  "\<exists>m. metrics_run [-5, 7] (Some m) \<and> decreased (gm_calls m) = [(''gateway_cost_micro_total'', -5)] \<and> list_all call_typed (gm_calls m)"
proof -
  let ?m0 = "\<lparr>gm_calls = [], gm_timeseries = NewTimeSeries 0, gm_startedAt = 0\<rparr>"
  have none: "register_all (\<lambda>_ _. None) xs cs = None" for xs cs by (induction cs arbitrary: xs) simp_all
  have "metrics_run [] (Some ?m0)" by (rule metrics_run.fresh [of "\<lambda>_ _. None" 0]) (simp add: NewMetrics_def none)
  from metrics_run.cost [OF metrics_run.cost [OF metrics_run.failover [OF metrics_run.written [OF this], of "''a''" "''b''"], of "-5" "''p''" "''m''" "''k''"],
      of 7 "''p''" "''m''" "''k''"]
  have "\<exists>m. metrics_run [-5, 7] (Some m)" by (simp add: Metrics_AddCost_def Metrics_IncFailover_def Metrics_IncBillingWritten_def call_metrics_def) blast
  then obtain m where m: "metrics_run [-5, 7] (Some m)" by blast
  have "cost_amount (-5) = -5" by (simp add: cost_amount_def f_of_int_exact)
  with metrics_well_typed [OF m] m show ?thesis by auto
qed

end
