(* ===== verification/Xbctl.thy ===== *)
theory Xbctl
  imports Keystore Pricing GatewayConfig Storage GoFlag
begin

text \<open>
  \<open>cmd/xbctl\<close>, the operations command line: \<open>dsn.go\<close>, \<open>keygen.go\<close>, \<open>keylist.go\<close>, \<open>keyrevoke.go\<close>,
  \<open>migrate.go\<close> and \<open>pricing.go\<close>.  The commands work on the tables of the gateway; what the tab
  writer makes of a table is left out.  Connecting, \<open>config.Load\<close> and the finite values of
  \<open>strconv.ParseFloat\<close> are arguments (its infinities and NaN, which the command line also accepts,
  are outside the model).
\<close>

section \<open>Flags\<close>

definition dsn_flags :: "(string \<times> flag_kind) list" where
  "dsn_flags = [(''config'', FlagString), (''dsn'', FlagString)]"

section \<open>Commands\<close>

datatype cli_error = CliFlag flag_error | CliUsage string | CliConfig load_config_error | CliNoDSN | CliConnect goerr | CliDB goerr
  | CliSecret goerr | CliNoKey string | CliRate string | CliPricing goerr

record cli_env =
  ce_load :: "string \<Rightarrow> load_config_error + Config"
  ce_connect :: "string \<Rightarrow> goerr option"
  ce_uuid :: string
  ce_random :: "goerr + nat list"
  ce_now :: instant
  ce_sha :: "string \<Rightarrow> string"
  ce_float :: "string \<Rightarrow> rat option"

definition resolveDSN :: "cli_env \<Rightarrow> (string \<times> string) list \<Rightarrow> cli_error + string" where
  "resolveDSN env vs = (let d = flag_get vs ''dsn'' [] in if d \<noteq> [] then Inr d
     else case ce_load env (flag_get vs ''config'' ''configs/config.yaml'') of
       Inl e \<Rightarrow> Inl (CliConfig e)
     | Inr cfg \<Rightarrow> if dcf_DSN (cf_Database cfg) = [] then Inl CliNoDSN else Inr (dcf_DSN (cf_Database cfg)))"

text \<open>Resolving the DSN and connecting, as every command does.\<close>

definition with_pool :: "cli_env \<Rightarrow> (string \<times> string) list \<Rightarrow> 's \<Rightarrow> ((cli_error + 'a) \<times> 's) \<Rightarrow> (cli_error + 'a) \<times> 's" where
  "with_pool env vs s k = (case resolveDSN env vs of
     Inl e \<Rightarrow> (Inl e, s)
   | Inr dsn \<Rightarrow> (case ce_connect env dsn of Some e \<Rightarrow> (Inl (CliConnect e), s) | None \<Rightarrow> k))"

definition scope_values_of :: "(string \<times> string) list \<Rightarrow> (string \<times> string list) list" where
  "scope_values_of vs = foldl (\<lambda>m (name, raw). if name \<noteq> ''scope'' then m
     else let idx = index_of_colon raw; cat = take idx raw; val = drop (idx + 1) raw
          in al_put cat ((case map_of m cat of None \<Rightarrow> [] | Some xs \<Rightarrow> xs) @ [val]) m) [] vs"

definition keygen_flags :: "(string \<times> flag_kind) list" where
  "keygen_flags = dsn_flags @ [(''name'', FlagString), (''id'', FlagString), (''scope'', FlagScope)]"

text \<open>The result is the id and the secret that is printed; the table has unique ids and hashes.\<close>

definition runKeygen :: "cli_env \<Rightarrow> string list \<Rightarrow> 'k auth_state \<Rightarrow> (cli_error + string \<times> string) \<times> 'k auth_state" where
  "runKeygen env args s = (case flag_parse keygen_flags [] args of
     Inl e \<Rightarrow> (Inl (CliFlag e), s)
   | Inr (vs, _) \<Rightarrow>
       if flag_get vs ''name'' [] = [] then (Inl (CliUsage ''--name is required''), s)
       else case resolveDSN env vs of
         Inl e \<Rightarrow> (Inl e, s)
       | Inr dsn \<Rightarrow>
           (let kid = (if flag_get vs ''id'' [] = [] then ce_uuid env else flag_get vs ''id'' [])
            in case generateSecret (ce_random env) of
                 Inl e \<Rightarrow> (Inl (CliSecret e), s)
               | Inr secret \<Rightarrow>
                   (case ce_connect env dsn of Some e \<Rightarrow> (Inl (CliConnect e), s)
                    | None \<Rightarrow> (case as_db_err s of Some e \<Rightarrow> (Inl (CliDB e), s)
                      | None \<Rightarrow>
                          let scopes = scope_values_of vs;
                              row = \<lparr>ak_ID = kid, ak_Hash = ce_sha env secret, ak_Name = flag_get vs ''name'' [],
                                ak_Scopes = Blob (if scopes = [] then JObj [] else enc_scopes (Some scopes)), ak_CreatedAt = ce_now env,
                                ak_LastUsedAt = None, ak_RevokedAt = None\<rparr>
                          in if list_ex (\<lambda>r. ak_ID r = kid \<or> ak_Hash r = ce_sha env secret) (as_rows s)
                             then (Inl (CliDB (OtherErr ''unique violation'')), s)
                             else (Inr (kid, secret), s\<lparr>as_rows := as_rows s @ [row]\<rparr>)))))"

definition keylist_flags :: "(string \<times> flag_kind) list" where
  "keylist_flags = dsn_flags @ [(''json'', FlagBool), (''all'', FlagBool)]"

record keyRow =
  ky_ID :: string
  ky_Name :: string
  ky_KeyHashHex :: string
  ky_CreatedAt :: instant
  ky_LastUsedAt :: "instant option"
  ky_RevokedAt :: "instant option"

definition key_row :: "api_key \<Rightarrow> keyRow" where
  "key_row r = \<lparr>ky_ID = ak_ID r, ky_Name = ak_Name r, ky_KeyHashHex = hex_encode (ak_Hash r), ky_CreatedAt = ak_CreatedAt r,
     ky_LastUsedAt = ak_LastUsedAt r, ky_RevokedAt = ak_RevokedAt r\<rparr>"

text \<open>Keys created at the same instant come in an unspecified order; here they keep the table's.\<close>

definition runKeylist :: "cli_env \<Rightarrow> string list \<Rightarrow> 'k auth_state \<Rightarrow> (cli_error + bool \<times> keyRow list) \<times> 'k auth_state" where
  "runKeylist env args s = (case flag_parse keylist_flags [] args of
     Inl e \<Rightarrow> (Inl (CliFlag e), s)
   | Inr (vs, _) \<Rightarrow> with_pool env vs s (case as_db_err s of Some e \<Rightarrow> (Inl (CliDB e), s)
       | None \<Rightarrow> (Inr (flag_true vs ''json'',
           map key_row (sort_key (\<lambda>r. - ak_CreatedAt r) (filter (\<lambda>r. flag_true vs ''all'' \<or> ak_RevokedAt r = None) (as_rows s)))), s)))"

definition keyrevoke_flags :: "(string \<times> flag_kind) list" where
  "keyrevoke_flags = dsn_flags @ [(''id'', FlagString)]"

datatype revoke_result = RevokedNow | AlreadyRevoked

text \<open>Ids are unique, so the update affects one row or none.\<close>

definition runKeyrevoke :: "cli_env \<Rightarrow> string list \<Rightarrow> 'k auth_state \<Rightarrow> (cli_error + revoke_result) \<times> 'k auth_state" where
  "runKeyrevoke env args s = (case flag_parse keyrevoke_flags [] args of
     Inl e \<Rightarrow> (Inl (CliFlag e), s)
   | Inr (vs, _) \<Rightarrow>
       (let i = flag_get vs ''id'' [] in
        if i = [] then (Inl (CliUsage ''--id is required''), s)
        else with_pool env vs s (case as_db_err s of Some e \<Rightarrow> (Inl (CliDB e), s)
          | None \<Rightarrow>
              if list_ex (\<lambda>r. ak_ID r = i \<and> ak_RevokedAt r = None) (as_rows s)
              then (Inr RevokedNow, s\<lparr>as_rows := map (\<lambda>r. if ak_ID r = i \<and> ak_RevokedAt r = None then r\<lparr>ak_RevokedAt := Some (ce_now env)\<rparr> else r) (as_rows s)\<rparr>)
              else if list_ex (\<lambda>r. ak_ID r = i) (as_rows s) then (Inr AlreadyRevoked, s)
              else (Inl (CliNoKey i), s))))"

section \<open>Prices\<close>

text \<open>\<open>int64(v*1_000_000 + 0.5)\<close>.\<close>

definition cli_parseRate :: "cli_env \<Rightarrow> string \<Rightarrow> cli_error + int" where
  "cli_parseRate env s = (case ce_float env s of
     None \<Rightarrow> Inl (CliRate s)
   | Some v \<Rightarrow> if v < 0 then Inl (CliRate s)
       else let n = f_trunc (f_add (f_mul v 1000000) (1 / 2)) in Inr (if in_int64 n then n else min_int64))"

definition pricing_set_flags :: "(string \<times> flag_kind) list" where
  "pricing_set_flags = dsn_flags @ [(''currency'', FlagString)]"

definition runPricingSet :: "cli_env \<Rightarrow> string list \<Rightarrow> pricing_state \<Rightarrow> (cli_error + Rate) \<times> pricing_state" where
  "runPricingSet env args s = (case flag_parse pricing_set_flags [] args of
     Inl e \<Rightarrow> (Inl (CliFlag e), s)
   | Inr (vs, rest) \<Rightarrow> (case rest of
       [model, inp, outp] \<Rightarrow> (case cli_parseRate env inp of
           Inl e \<Rightarrow> (Inl e, s)
         | Inr inRate \<Rightarrow> (case cli_parseRate env outp of
             Inl e \<Rightarrow> (Inl e, s)
           | Inr outRate \<Rightarrow>
               (let r = \<lparr>rt_Model = model, rt_Currency = flag_get vs ''currency'' ''USD'', rt_InputPer1kMicro = inRate, rt_OutputPer1kMicro = outRate,
                      rt_UpdatedAt = zero_time\<rparr>
                in with_pool env vs s (case Set (ce_now env) r s of (Some e, s') \<Rightarrow> (Inl (CliPricing e), s') | (None, s') \<Rightarrow> (Inr r, s')))))
     | _ \<Rightarrow> (Inl (CliUsage ''usage: xbctl pricing set <model> <input_per_1k> <output_per_1k>''), s)))"

definition runPricingDelete :: "cli_env \<Rightarrow> string list \<Rightarrow> pricing_state \<Rightarrow> (cli_error + bool) \<times> pricing_state" where
  "runPricingDelete env args s = (case flag_parse dsn_flags [] args of
     Inl e \<Rightarrow> (Inl (CliFlag e), s)
   | Inr (vs, rest) \<Rightarrow> (case rest of
       [model] \<Rightarrow> with_pool env vs s (case Delete model s of (Inl e, s') \<Rightarrow> (Inl (CliPricing e), s') | (Inr ok, s') \<Rightarrow> (Inr ok, s'))
     | _ \<Rightarrow> (Inl (CliUsage ''usage: xbctl pricing delete <model>''), s)))"

text \<open>The insertion sort of \<open>sortRatesByModel\<close>: the inner loop from \<open>j\<close> down, the outer from \<open>i\<close> up.\<close>

fun sink :: "nat \<Rightarrow> Rate list \<Rightarrow> Rate list" where
  "sink 0 rs = rs"
| "sink (Suc j) rs = (if rt_Model (rs ! j) > rt_Model (rs ! Suc j) then sink j (rs[j := rs ! Suc j, Suc j := rs ! j]) else rs)"

definition sortRatesByModel :: "Rate list \<Rightarrow> Rate list" where
  "sortRatesByModel rs = foldl (\<lambda>rs i. sink i rs) rs [1..<length rs]"

definition runPricingList :: "cli_env \<Rightarrow> string list \<Rightarrow> pricing_state \<Rightarrow> (cli_error + Rate list) \<times> pricing_state" where
  "runPricingList env args s = (case flag_parse dsn_flags [] args of
     Inl e \<Rightarrow> (Inl (CliFlag e), s)
   | Inr (vs, _) \<Rightarrow> with_pool env vs s (case Reload (s\<lparr>pc_cache := NewPricingCache\<rparr>) of
       (Some e, s') \<Rightarrow> (Inl (CliPricing e), s') | (None, s') \<Rightarrow> (Inr (sortRatesByModel (All (pc_cache s'))), s')))"

section \<open>Dispatch\<close>

definition shortHash :: "string \<Rightarrow> string" where
  "shortHash h = (if length h \<le> 12 then h else take 12 h)"

text \<open>What a command prints: a usage text, the version, or its result.\<close>

datatype cli_output = UsageText | PricingUsageText | VersionText | NewKey string string | KeyList bool "keyRow list" | KeyRevoked revoke_result
  | SchemaAtHead | RolledBack | SchemaVersion nat bool | PriceList "Rate list" | PriceSet Rate | PriceDeleted bool

definition runMigrate :: "'d migrate_lib \<Rightarrow> cli_env \<Rightarrow> string list \<Rightarrow> 'd \<Rightarrow> (cli_error + cli_output) \<times> 'd" where
  "runMigrate ml env args d = (case flag_parse dsn_flags [] args of
     Inl e \<Rightarrow> (Inl (CliFlag e), d)
   | Inr (vs, rest) \<Rightarrow> (case rest of
       [] \<Rightarrow> (Inl (CliUsage ''migrate: subaction required (up | down | version)''), d)
     | act # extra \<Rightarrow>
         if extra \<noteq> [] then (Inl (CliUsage ''migrate: unexpected arguments''), d)
         else case resolveDSN env vs of
           Inl e \<Rightarrow> (Inl e, d)
         | Inr dsn \<Rightarrow>
             if act = ''up'' then (case MigrateUp ml dsn d of (Some e, d') \<Rightarrow> (Inl (CliDB e), d') | (None, d') \<Rightarrow> (Inr SchemaAtHead, d'))
             else if act = ''down'' then (case MigrateDown ml dsn d of (Some e, d') \<Rightarrow> (Inl (CliDB e), d') | (None, d') \<Rightarrow> (Inr RolledBack, d'))
             else if act = ''version'' then (case MigrateVersion ml dsn d of Inl e \<Rightarrow> (Inl (CliDB e), d) | Inr (v, dirty) \<Rightarrow> (Inr (SchemaVersion v dirty), d))
             else (Inl (CliUsage ''migrate: unknown subaction (want: up | down | version)''), d)))"

text \<open>A result printed.\<close>

definition prints :: "('a \<Rightarrow> cli_output) \<Rightarrow> (cli_error + 'a) \<times> 's \<Rightarrow> (cli_error + cli_output) \<times> 's" where
  "prints f r = (map_sum id f (fst r), snd r)"

definition runPricing :: "cli_env \<Rightarrow> string list \<Rightarrow> pricing_state \<Rightarrow> (cli_error + cli_output) \<times> pricing_state" where
  "runPricing env args s = (case args of
     [] \<Rightarrow> (Inl (CliUsage ''pricing subcommand required''), s)
   | sub # rest \<Rightarrow>
       if sub = ''list'' then prints PriceList (runPricingList env rest s)
       else if sub = ''set'' then prints PriceSet (runPricingSet env rest s)
       else if sub = ''delete'' then prints PriceDeleted (runPricingDelete env rest s)
       else if sub \<in> {''-h'', ''--help'', ''help''} then (Inr PricingUsageText, s)
       else (Inl (CliUsage ''unknown pricing subcommand''), s))"

text \<open>The tables a command may change: keys, prices and the schema.\<close>

record ('k, 'd) cli_state =
  cs_keys :: "'k auth_state"
  cs_prices :: pricing_state
  cs_schema :: 'd

definition cli_run :: "'d migrate_lib \<Rightarrow> cli_env \<Rightarrow> string list \<Rightarrow> ('k, 'd) cli_state \<Rightarrow> (cli_error + cli_output) \<times> ('k, 'd) cli_state" where
  "cli_run ml env args s = (case args of
     [] \<Rightarrow> (Inl (CliUsage ''subcommand required''), s)
   | sub # rest \<Rightarrow>
       if sub \<in> {''-h'', ''--help'', ''help''} then (Inr UsageText, s)
       else if sub \<in> {''-version'', ''--version''} then (Inr VersionText, s)
       else if sub = ''keygen'' then apsnd (\<lambda>k. s\<lparr>cs_keys := k\<rparr>) (prints (\<lambda>(i, secret). NewKey i secret) (runKeygen env rest (cs_keys s)))
       else if sub = ''keylist'' then apsnd (\<lambda>k. s\<lparr>cs_keys := k\<rparr>) (prints (\<lambda>(json, rows). KeyList json rows) (runKeylist env rest (cs_keys s)))
       else if sub = ''keyrevoke'' then apsnd (\<lambda>k. s\<lparr>cs_keys := k\<rparr>) (prints KeyRevoked (runKeyrevoke env rest (cs_keys s)))
       else if sub = ''migrate'' then apsnd (\<lambda>d. s\<lparr>cs_schema := d\<rparr>) (runMigrate ml env rest (cs_schema s))
       else if sub = ''pricing'' then apsnd (\<lambda>p. s\<lparr>cs_prices := p\<rparr>) (runPricing env rest (cs_prices s))
       else (Inl (CliUsage ''unknown subcommand''), s))"

section \<open>Lemmas\<close>

lemma runKeygen_fails: "fst (runKeygen env args s) = Inl e \<Longrightarrow> snd (runKeygen env args s) = s"
  by (auto simp: runKeygen_def Let_def split: sum.splits option.splits if_splits prod.splits)

lemma runKeylist_reads: "snd (runKeylist env args s) = s"
  by (auto simp: runKeylist_def with_pool_def split: sum.splits option.splits prod.splits)

lemma runKeyrevoke_fails: "fst (runKeyrevoke env args s) = Inl e \<Longrightarrow> snd (runKeyrevoke env args s) = s"
  by (auto simp: runKeyrevoke_def Let_def with_pool_def split: sum.splits option.splits if_splits prod.splits)

lemma runPricing_fails: "runPricing env args s = (Inl e, s') \<Longrightarrow> pc_table s' = pc_table s"
  by (auto simp: runPricing_def prints_def runPricingList_def runPricingSet_def runPricingDelete_def with_pool_def Let_def map_sum_Inl
      split: list.splits sum.splits option.splits if_splits prod.splits dest!: Set_fails Delete_fails Reload_keeps_table)

text \<open>A command other than \<open>migrate\<close> that fails leaves the tables as they were.\<close>

lemma failed_command_changes_nothing:
  assumes "cli_run ml env args s = (Inl e, s')" "args = [] \<or> hd args \<noteq> ''migrate''"
  shows "cs_keys s' = cs_keys s \<and> pc_table (cs_prices s') = pc_table (cs_prices s) \<and> cs_schema s' = cs_schema s"
proof (cases args)
  case (Cons sub rest)
  obtain r p where "runPricing env rest (cs_prices s) = (r, p)" by fastforce
  then show ?thesis using assms Cons
    by (auto simp: cli_run_def prints_def map_sum_Inl runKeygen_fails runKeylist_reads runKeyrevoke_fails
        split: if_splits dest: runPricing_fails)
qed (use assms in \<open>simp add: cli_run_def\<close>)

text \<open>The usage line puts \<open>--currency\<close> last, where the parser no longer looks for flags.\<close>

lemma documented_currency_flag_rejected:
  "runPricingSet env [''gpt-4o'', ''0.005'', ''0.015'', ''--currency'', ''EUR''] s =
     (Inl (CliUsage ''usage: xbctl pricing set <model> <input_per_1k> <output_per_1k>''), s)"
  by (simp add: runPricingSet_def pricing_set_flags_def dsn_flags_def)

subsection \<open>Rounding\<close>

lemma cli_rate_rounds:
  assumes "0 \<le> n" "n < 2 ^ 49"
  shows "f_trunc (f_add (f_mul (fl64 (of_int n / 1000000)) 1000000) (1 / 2)) = n"
proof -
  let ?x = "fl64 (of_int n / 1000000) * 1000000" and ?n = "of_int n :: rat"
  have n: "0 \<le> ?n" "?n < 2 ^ 49" using assms by (simp, metis of_int_less_iff of_int_numeral of_int_power)
  have "\<bar>fl64 (?n / 1000000) - ?n / 1000000\<bar> \<le> ?n / 1000000 / 2 ^ 53" using fl64_error [of "?n / 1000000"] n(1) by simp
  then have "\<bar>fl64 (?n / 1000000) - ?n / 1000000\<bar> * 1000000 \<le> ?n / 2 ^ 53" by (simp add: field_simps)
  moreover have "\<bar>?x - ?n\<bar> = \<bar>fl64 (?n / 1000000) - ?n / 1000000\<bar> * 1000000"
  proof -
    have "?x - ?n = (fl64 (?n / 1000000) - ?n / 1000000) * 1000000" by (simp add: left_diff_distrib)
    then show ?thesis by (simp only: abs_mult abs_numeral)
  qed
  ultimately have "\<bar>?x - ?n\<bar> \<le> ?n / 2 ^ 53" by simp
  moreover have "?n / 2 ^ 53 \<le> 1 / 16" using n(2) by simp
  ultimately have x: "\<bar>?x - ?n\<bar> \<le> 1 / 16" by linarith
  have x0: "0 \<le> ?x" using fl64_nonneg [of "?n / 1000000"] n(1) by simp
  have big: "(2 :: rat) ^ 49 + 1 < 2 ^ 50" by simp
  have "?x < 2 ^ 50" using x n(2) big by linarith
  then have p: "\<bar>fl64 ?x - ?x\<bar> \<le> 1 / 8" by (rule fl64_within [OF x0])
  have y: "0 \<le> fl64 ?x + 1 / 2" "fl64 ?x + 1 / 2 < 2 ^ 50" using fl64_nonneg [OF x0] p x n(2) big by linarith+
  have "\<bar>fl64 (fl64 ?x + 1 / 2) - (fl64 ?x + 1 / 2)\<bar> \<le> 1 / 8" by (rule fl64_within [OF y])
  with p x have "?n \<le> fl64 (fl64 ?x + 1 / 2)" "fl64 (fl64 ?x + 1 / 2) < ?n + 1" by linarith+
  then have "\<lfloor>fl64 (fl64 ?x + 1 / 2)\<rfloor> = n" "0 \<le> fl64 (fl64 ?x + 1 / 2)" using n(1) by (simp_all add: floor_unique)
  then show ?thesis by (simp add: f_trunc_def f_add_def f_mul_def)
qed

subsection \<open>Sorting\<close>

lemma sink_step:
  assumes "sorted (map rt_Model xs)"
  shows "\<exists>ys zs. xs = ys @ zs \<and> sink (length xs) (xs @ x # rest) = ys @ x # zs @ rest \<and>
    list_all (\<lambda>y. rt_Model y \<le> rt_Model x) ys \<and> list_all (\<lambda>z. rt_Model x < rt_Model z) zs"
  using assms
proof (induction xs arbitrary: rest rule: rev_induct)
  case Nil
  show ?case by simp
next
  case (snoc y xs)
  have s: "sorted (map rt_Model xs)" "\<forall>z \<in> set xs. rt_Model z \<le> rt_Model y" using snoc.prems by (auto simp: sorted_append)
  show ?case
  proof (cases "rt_Model y > rt_Model x")
    case True
    have swap: "((xs @ [y]) @ x # rest)[length xs := x, Suc (length xs) := y] = xs @ x # y # rest"
      by (simp add: list_update_append)
    from snoc.IH [OF s(1), of "y # rest"] obtain ys zs where yz: "xs = ys @ zs" "sink (length xs) (xs @ x # y # rest) = ys @ x # zs @ y # rest"
      "list_all (\<lambda>y. rt_Model y \<le> rt_Model x) ys" "list_all (\<lambda>z. rt_Model x < rt_Model z) zs" by auto
    have "sink (length (xs @ [y])) ((xs @ [y]) @ x # rest) = sink (length xs) (xs @ x # y # rest)"
      using True swap by (simp add: nth_append)
    with yz True show ?thesis by (intro exI [of _ ys] exI [of _ "zs @ [y]"]) simp
  next
    case False
    then have "list_all (\<lambda>y. rt_Model y \<le> rt_Model x) (xs @ [y])" using s(2) by (auto simp: list_all_iff)
    with False show ?thesis by (intro exI [of _ "xs @ [y]"] exI [of _ "[]"]) (simp add: nth_append)
  qed
qed

text \<open>The state of the outer loop: a sorted prefix, with equal models in their order, and the untouched rest.\<close>

definition sorted_prefix :: "Rate list \<Rightarrow> nat \<Rightarrow> Rate list \<Rightarrow> bool" where
  "sorted_prefix rs i out \<longleftrightarrow> out = sort_key rt_Model (take i rs) @ drop i rs"

lemma sort_key_snoc:
  assumes "sort_key f xs = ys @ zs" "list_all (\<lambda>y. f y \<le> f x) ys" "list_all (\<lambda>z. f x < f z) zs"
  shows "sort_key f (xs @ [x]) = ys @ x # zs"
proof (rule properties_for_sort_key)
  have "mset xs = mset ys + mset zs" using assms(1) by (metis mset_append mset_sort)
  then show "mset (ys @ x # zs) = mset (xs @ [x])" by simp
  have "sorted (map f (ys @ zs))" unfolding assms(1) [symmetric] by simp
  then show "sorted (map f (ys @ x # zs))" using assms(2,3) by (auto simp: sorted_append list_all_iff less_imp_le)
  fix k
  have "filter (\<lambda>y. f k = f y) (ys @ zs) = filter (\<lambda>y. f k = f y) xs" unfolding assms(1) [symmetric]
    by (simp only: eq_commute [of "f k"] sort_key_stable)
  moreover have "filter (\<lambda>y. f k = f y) zs = []" if "f k = f x" using that assms(3) by (auto simp: filter_empty_conv list_all_iff)
  ultimately show "filter (\<lambda>y. f k = f y) (ys @ x # zs) = filter (\<lambda>y. f k = f y) (xs @ [x])" by auto
qed

lemma sink_sorted:
  assumes "sorted_prefix rs i out" "i < length rs"
  shows "sorted_prefix rs (Suc i) (sink i out)"
proof -
  let ?s = "sort_key rt_Model (take i rs)"
  have out: "out = ?s @ rs ! i # drop (Suc i) rs" using assms by (simp add: sorted_prefix_def Cons_nth_drop_Suc)
  have len: "length ?s = i" using assms(2) by simp
  obtain ys zs where yz: "?s = ys @ zs" "sink (length ?s) (?s @ rs ! i # drop (Suc i) rs) = ys @ rs ! i # zs @ drop (Suc i) rs"
    "list_all (\<lambda>y. rt_Model y \<le> rt_Model (rs ! i)) ys" "list_all (\<lambda>z. rt_Model (rs ! i) < rt_Model z) zs"
    using sink_step [of ?s "rs ! i" "drop (Suc i) rs"] by (auto simp del: length_sort)
  have "take (Suc i) rs = take i rs @ [rs ! i]" using assms(2) by (simp add: take_Suc_conv_app_nth)
  then show ?thesis using sort_key_snoc [OF yz(1,3,4)] yz(2) len out by (simp add: sorted_prefix_def)
qed

lemma sort_loop: "i \<le> length rs \<Longrightarrow> 0 < i \<Longrightarrow> sorted_prefix rs i (foldl (\<lambda>rs i. sink i rs) rs [1..<i])"
proof (induction i)
  case (Suc i)
  show ?case
  proof (cases "i = 0")
    case True
    with Suc.prems show ?thesis by (cases rs) (simp_all add: sorted_prefix_def)
  next
    case False
    with Suc have "sorted_prefix rs i (foldl (\<lambda>rs i. sink i rs) rs [1..<i])" by simp
    with sink_sorted [OF this] Suc.prems False show ?thesis by simp
  qed
qed simp

text \<open>The loops with their swaps are a stable sort.\<close>

lemma sortRatesByModel_sorts: "sortRatesByModel rs = sort_key rt_Model rs"
proof (cases "rs = []")
  case False
  then have "sorted_prefix rs (length rs) (sortRatesByModel rs)" unfolding sortRatesByModel_def by (intro sort_loop) simp_all
  then show ?thesis by (simp add: sorted_prefix_def)
qed (simp add: sortRatesByModel_def)

section \<open>Properties\<close>

text \<open>
  A price set on the command line is stored to the micro-unit.  When the texts of the two
  prices denote whole numbers of millionths below 2 ^ 49, which \<open>ParseFloat\<close> reads as the
  nearest floats, exactly these numbers are stored, in spite of the rounding of the
  multiplication; and \<open>pricing list\<close> then shows the entry among the others, sorted by model.
\<close>

lemma cli_price_exact:
  assumes "ce_float env inp = Some (fl64 (of_int a / 1000000))" "ce_float env outp = Some (fl64 (of_int b / 1000000))"
    and "0 \<le> a" "a < 2 ^ 49" "0 \<le> b" "b < 2 ^ 49" "model \<noteq> []" "hd model \<noteq> CHR ''-''" "dsn \<noteq> []"
    and "ce_connect env dsn = None" "pc_db_err s = None" "pricing_table_ok (pc_table s)"
  shows "\<exists>r s'. runPricingSet env [''-dsn'', dsn, model, inp, outp] s = (Inr r, s') \<and>
    map_of (pc_table s') model = Some (r\<lparr>rt_UpdatedAt := ce_now env\<rparr>) \<and>
    rt_InputPer1kMicro r = a \<and> rt_OutputPer1kMicro r = b \<and>
    (\<exists>rates s''. runPricingList env [''-dsn'', dsn] s' = (Inr rates, s'') \<and> sorted (map rt_Model rates) \<and> r\<lparr>rt_UpdatedAt := ce_now env\<rparr> \<in> set rates)"
proof -
  have in64: "in_int64 a" "in_int64 b" using assms(3-6) by (auto simp: in_int64_bounds)
  have rate: "cli_parseRate env inp = Inr a" "cli_parseRate env outp = Inr b"
    using assms(1-6) in64 fl64_nonneg [of "of_int a / 1000000"] fl64_nonneg [of "of_int b / 1000000"]
    by (simp_all add: cli_parseRate_def cli_rate_rounds Let_def)
  have flags: "flag_parse pricing_set_flags [] [''-dsn'', dsn, model, inp, outp] = Inr ([(''dsn'', dsn)], [model, inp, outp])"
    "flag_parse dsn_flags [] [''-dsn'', dsn] = Inr ([(''dsn'', dsn)], [])"
    using assms(7,8) by (simp_all add: pricing_set_flags_def dsn_flags_def flag_value_ok_def hd_conv_nth)
  have pool: "with_pool env [(''dsn'', dsn)] t k = k" for t :: pricing_state and k :: "(cli_error + 'x) \<times> pricing_state"
    using assms(9,10) by (simp add: with_pool_def resolveDSN_def flag_get_def)
  let ?r = "\<lparr>rt_Model = model, rt_Currency = ''USD'', rt_InputPer1kMicro = a, rt_OutputPer1kMicro = b, rt_UpdatedAt = zero_time\<rparr>"
  let ?q = "?r\<lparr>rt_UpdatedAt := ce_now env\<rparr>"
  let ?s' = "s\<lparr>pc_table := al_put model ?q (pc_table s), pc_cache := replaceOne ?q (pc_cache s)\<rparr>"
  have set: "runPricingSet env [''-dsn'', dsn, model, inp, outp] s = (Inr ?r, ?s')"
    unfolding runPricingSet_def flags using assms(3,5,7,11) by (simp add: rate pool Set_def flag_get_def Let_def)
  have ok: "pricing_table_ok (pc_table ?s')" using pricing_table_ok_put [OF assms(12), of ?q] by simp
  define snap where "snap = foldl (\<lambda>m r. al_put (rt_Model r) r m) [] (map snd (pc_table ?s'))"
  have m: "map_of (pc_table ?s') model = Some ?q" by (simp add: map_of_al_put)
  then have "map_of snap model = Some ?q" unfolding snap_def reload_map [OF ok] .
  then have mem: "?q \<in> set (map snd snap)" by (metis map_of_SomeD image_eqI set_map snd_conv)
  have "\<exists>s''. runPricingList env [''-dsn'', dsn] ?s' = (Inr (sort_key rt_Model (map snd snap)), s'')"
    unfolding runPricingList_def flags using assms(11) snap_def
    by (simp add: pool Reload_def All_def sortRatesByModel_sorts store_snapshot_def Let_def)
  then show ?thesis using set m mem by (intro exI [of _ ?r] exI [of _ ?s']) (auto simp del: set_map)
qed

definition demo_cli :: cli_env where
  "demo_cli = \<lparr>ce_load = \<lambda>_. Inr setDefaults, ce_connect = \<lambda>_. None, ce_uuid = ''u'', ce_random = Inr [], ce_now = 9, ce_sha = id,
     ce_float = \<lambda>t. Some (if t = ''0.000249'' then fl64 (of_int 249 / 1000000) else fl64 (of_int 500 / 1000000))\<rparr>"

lemma cli_price_exact_witness:
  "\<exists>r s'. runPricingSet demo_cli [''-dsn'', ''pg'', ''gpt'', ''0.000249'', ''0.0005''] \<lparr>pc_cache = NewPricingCache, pc_table = [], pc_db_err = None\<rparr> = (Inr r, s') \<and>
     rt_InputPer1kMicro r = 249 \<and> rt_OutputPer1kMicro r = 500"
proof -
  have "ce_float demo_cli ''0.000249'' = Some (fl64 (of_int 249 / 1000000))" "ce_float demo_cli ''0.0005'' = Some (fl64 (of_int 500 / 1000000))"
    "ce_connect demo_cli ''pg'' = None" by (simp_all add: demo_cli_def)
  from cli_price_exact [OF this(1,2), of "''gpt''" "''pg''" "\<lparr>pc_cache = NewPricingCache, pc_table = [], pc_db_err = None\<rparr>"] this(3)
  show ?thesis by (auto simp: pricing_table_ok_def)
qed

end
