(* ===== verification/XbctlOutput.thy ===== *)
theory XbctlOutput
  imports Xbctl
begin

text \<open>
  What \<open>xbctl keylist\<close> and \<open>xbctl pricing list\<close> print (\<open>keylist.go\<close>, \<open>pricing.go\<close> of \<open>cmd/xbctl\<close>): the
  cells of the tables, before \<open>text/tabwriter\<close> aligns them, and the JSON document.  The text
  of an instant in Go's layouts is an argument; \<open>FormatFloat(x, 'f', 6, 64)\<close> rounds the exact
  value of the float to six decimals, ties to even.
\<close>

definition format_f6 :: "rat \<Rightarrow> string" where
  "format_f6 x = (let n = nat (rne (\<bar>x\<bar> * 1000000)) in
     (if x < 0 then ''-'' else []) @ nat_str (n div 1000000) @ ''.'' @ pad6 (n mod 1000000))"

definition fmtMicro :: "int \<Rightarrow> string" where
  "fmtMicro m = (let major = f_div (f_of_int m) 1000000 in format_f6 major)"

definition formatTime :: "(instant \<Rightarrow> string) \<Rightarrow> instant option \<Rightarrow> string" where
  "formatTime rfc3339 t = (case t of None \<Rightarrow> ''-'' | Some t \<Rightarrow> rfc3339 t)"

text \<open>The ellipsis is the three bytes of its UTF-8 encoding.\<close>

definition writeKeysTable :: "(instant \<Rightarrow> string) \<Rightarrow> keyRow list \<Rightarrow> string list list" where
  "writeKeysTable rfc3339 rows =
     [[''ID'', ''NAME'', ''HASH'', ''CREATED'', ''LAST USED'', ''REVOKED'']] @
     map (\<lambda>r. [ky_ID r, ky_Name r, shortHash (ky_KeyHashHex r) @ [CHR 0xE2, CHR 0x80, CHR 0xA6],
       formatTime rfc3339 (Some (ky_CreatedAt r)), formatTime rfc3339 (ky_LastUsedAt r), formatTime rfc3339 (ky_RevokedAt r)]) rows @
     (if rows = [] then [[''(no keys)'']] else [])"

definition keyRow_Marshal :: "(instant \<Rightarrow> json) \<Rightarrow> keyRow \<Rightarrow> json" where
  "keyRow_Marshal time_json r = JObj (members [
     (''id'', True, JStr (ky_ID r)), (''name'', True, JStr (ky_Name r)), (''key_hash_hex'', True, JStr (ky_KeyHashHex r)),
     (''created_at'', True, time_json (ky_CreatedAt r)),
     (''last_used_at'', ky_LastUsedAt r \<noteq> None, time_json (the (ky_LastUsedAt r))),
     (''revoked_at'', ky_RevokedAt r \<noteq> None, time_json (the (ky_RevokedAt r)))])"

text \<open>A nil slice is the empty list, which the code prints as \<open>[]\<close> too.\<close>

definition writeKeysJSON :: "(instant \<Rightarrow> json) \<Rightarrow> keyRow list \<Rightarrow> json" where
  "writeKeysJSON time_json rows = JArr (map (keyRow_Marshal time_json) rows)"

definition price_table :: "(instant \<Rightarrow> string) \<Rightarrow> Rate list \<Rightarrow> string list list" where
  "price_table minute_text rates =
     [''MODEL'', ''CURRENCY'', ''INPUT/1K'', ''OUTPUT/1K'', ''UPDATED''] #
     map (\<lambda>r. [rt_Model r, rt_Currency r, fmtMicro (rt_InputPer1kMicro r), fmtMicro (rt_OutputPer1kMicro r), minute_text (rt_UpdatedAt r)]) rates"

section \<open>Lemmas\<close>

lemma rne_near: "\<bar>x - of_int n\<bar> < 1 / 2 \<Longrightarrow> rne x = n"
proof -
  assume a: "\<bar>x - of_int n\<bar> < 1 / 2"
  have "\<bar>of_int (rne x) - x\<bar> \<le> 1 / 2" by (rule rne_error)
  with a have "\<bar>of_int (rne x) - (of_int n :: rat)\<bar> < 1" by linarith
  then have "\<bar>of_int (rne x - n) :: rat\<bar> < 1" by simp
  then show ?thesis by linarith
qed

text \<open>A price below \<open>2^49\<close> micro-units is printed exactly.\<close>

lemma fmtMicro_exact:
  assumes "0 \<le> m" "m < 2 ^ 49"
  shows "fmtMicro m = nat_str (nat m div 1000000) @ ''.'' @ pad6 (nat m mod 1000000)"
proof -
  let ?m = "of_int m :: rat"
  have m: "0 \<le> ?m" "?m < 2 ^ 49" using assms by (simp, metis of_int_less_iff of_int_numeral of_int_power)
  have x: "f_div (f_of_int m) 1000000 = fl64 (?m / 1000000)" using assms by (simp add: f_div_def f_of_int_exact)
  have nn: "0 \<le> fl64 (?m / 1000000)" using fl64_nonneg [of "?m / 1000000"] m(1) by simp
  have "\<bar>fl64 (?m / 1000000) - ?m / 1000000\<bar> \<le> ?m / 1000000 / 2 ^ 53" using fl64_error [of "?m / 1000000"] m(1) by simp
  then have e: "\<bar>fl64 (?m / 1000000) - ?m / 1000000\<bar> * 1000000 \<le> ?m / 2 ^ 53" by (simp add: field_simps)
  have "fl64 (?m / 1000000) * 1000000 - ?m = (fl64 (?m / 1000000) - ?m / 1000000) * 1000000" by (simp add: left_diff_distrib)
  then have "\<bar>fl64 (?m / 1000000) * 1000000 - ?m\<bar> = \<bar>fl64 (?m / 1000000) - ?m / 1000000\<bar> * 1000000"
    by (simp only: abs_mult abs_numeral)
  moreover have "?m / 2 ^ 53 \<le> 1 / 16" using m(2) by simp
  ultimately have "\<bar>fl64 (?m / 1000000) * 1000000 - ?m\<bar> < 1 / 2" using e by linarith
  then have "rne (\<bar>fl64 (?m / 1000000)\<bar> * 1000000) = m" using nn by (simp add: rne_near)
  with nn show ?thesis by (simp add: fmtMicro_def format_f6_def x Let_def)
qed

lemma fmtMicro_read:
  assumes "0 \<le> m" "m < 2 ^ 49"
  shows "read_micro (fmtMicro m) = Some (nat m)"
proof -
  let ?w = "nat_str (nat m div 1000000)" and ?f = "pad6 (nat m mod 1000000)"
  have w: "?w \<noteq> []" "list_all is_digit ?w" "digits_val ?w = nat m div 1000000" using nat_str_digits [of "nat m div 1000000"] by simp_all
  have f: "length ?f = 6" "digits_val ?f = nat m mod 1000000" "list_all is_digit ?f" using pad6_digits [of "nat m mod 1000000"] by simp_all
  have "?f \<noteq> []" using f(1) by auto
  moreover have "split_on CHR ''.'' (?w @ ''.'' @ ?f) = [?w, ?f]"
    using split_on_one [OF digits_no_dot [OF w(2)] digits_no_dot [OF f(3)]] by simp
  ultimately show ?thesis unfolding fmtMicro_exact [OF assms] by (simp add: read_micro_def w f)
qed

text \<open>
  Where \<open>ParseFloat\<close> gives the float nearest to a decimal, what \<open>pricing list\<close> shows for a price
  is read by \<open>pricing set\<close> as that price.
\<close>

lemma listed_price_set_back:
  assumes "0 \<le> m" "m < 2 ^ 49" "\<And>t n. read_micro t = Some n \<Longrightarrow> ce_float env t = Some (fl64 (of_nat n / 1000000))"
  shows "cli_parseRate env (fmtMicro m) = Inr m"
proof -
  have "ce_float env (fmtMicro m) = Some (fl64 (of_int m / 1000000))" using assms(3) [OF fmtMicro_read [OF assms(1,2)]] assms(1) by simp
  moreover have "\<not> fl64 (of_int m / 1000000) < 0" using fl64_nonneg [of "of_int m / 1000000"] assms(1) by simp
  moreover have "in_int64 m" using assms(1,2) by (simp add: in_int64_bounds)
  ultimately show ?thesis using cli_rate_rounds [OF assms(1,2)] by (simp add: cli_parseRate_def Let_def)
qed

text \<open>The table shows one row per key and, without keys, that there are none; the JSON form has one element per key.\<close>

lemma keys_shown:
  "length (writeKeysTable rfc rows) = Suc (max 1 (length rows))"
  "writeKeysJSON tj rows = JArr js \<Longrightarrow> length js = length rows"
  by (auto simp: writeKeysTable_def writeKeysJSON_def neq_Nil_conv)

end
