(* ===== verification/MockUpstream.thy ===== *)
theory MockUpstream
  imports Http "HOL-Library.Word"
begin

unbundle bit_operations_syntax

text \<open>
  \<open>scripts/mockupstream\<close>: the canned OpenAI-compatible server that the compatibility suite and the
  benchmarks put behind the gateway.  A reply is a function of the request body and the clock.
  Go writes the members of a map in key order.  The parser and the printer of JSON texts, the
  printer of a \<open>float32\<close> and SHA-256 are arguments.
\<close>

section \<open>Requests\<close>

text \<open>
  \<open>json.Unmarshal\<close> into a struct with its error ignored: each member whose key matches is decoded
  by \<open>f\<close>, which keeps what it cannot read.
\<close>

definition lenient :: "(json \<Rightarrow> 'a \<Rightarrow> 'a) \<Rightarrow> string \<Rightarrow> 'a \<Rightarrow> (string \<times> json) list \<Rightarrow> 'a" where
  "lenient f key zero kvs = foldl (\<lambda>old (k, v). if equal_fold k key then f v old else old) zero kvs"

record chatRequest =
  cq_Stream :: bool
  cq_Tools :: bool
  cq_Logprobs :: "bool option"
  cq_ResponseFormat :: "string option"
  cq_Model :: string

definition take_str :: "json \<Rightarrow> string \<Rightarrow> string" where
  "take_str v old = (case dec_str v old of Some s \<Rightarrow> s | None \<Rightarrow> old)"

definition take_bool :: "json \<Rightarrow> bool \<Rightarrow> bool" where
  "take_bool v old = (case dec_bool v old of Some b \<Rightarrow> b | None \<Rightarrow> old)"

text \<open>Into a pointer: \<open>null\<close> is nil, anything else allocates.\<close>

definition take_ptr :: "(json \<Rightarrow> 'a \<Rightarrow> 'a) \<Rightarrow> 'a \<Rightarrow> json \<Rightarrow> 'a option \<Rightarrow> 'a option" where
  "take_ptr f zero v old = (if v = JNull then None else Some (f v (case old of Some x \<Rightarrow> x | None \<Rightarrow> zero)))"

definition take_type :: "json \<Rightarrow> string \<Rightarrow> string" where
  "take_type v old = (case v of JObj kvs \<Rightarrow> lenient take_str ''type'' old kvs | _ \<Rightarrow> old)"

text \<open>\<open>tools\<close> is a \<open>json.RawMessage\<close>, of which only whether it has bytes is used; even \<open>null\<close> has.\<close>

definition chatRequest_of :: "(string \<times> json) list \<Rightarrow> chatRequest" where
  "chatRequest_of kvs = \<lparr>cq_Stream = lenient take_bool ''stream'' False kvs, cq_Tools = lenient (\<lambda>_ _. True) ''tools'' False kvs,
     cq_Logprobs = lenient (take_ptr take_bool False) ''logprobs'' None kvs,
     cq_ResponseFormat = lenient (take_ptr take_type []) ''response_format'' None kvs, cq_Model = lenient take_str ''model'' [] kvs\<rparr>"

definition body_members :: "(string \<Rightarrow> string + json) \<Rightarrow> string \<Rightarrow> (string \<times> json) list" where
  "body_members parse body = (case parse body of Inr (JObj kvs) \<Rightarrow> kvs | _ \<Rightarrow> [])"

section \<open>Replies\<close>

definition modelName :: "string \<Rightarrow> string" where
  "modelName fallback = (if fallback \<noteq> [] then fallback else ''gpt-4o-mini'')"

definition mock_usage :: "int \<Rightarrow> int \<Rightarrow> int \<Rightarrow> json" where
  "mock_usage p c t = JObj [(''completion_tokens'', JInt c), (''prompt_tokens'', JInt p), (''total_tokens'', JInt t)]"

definition plain_doc :: "int \<Rightarrow> string \<Rightarrow> json" where
  "plain_doc now model = JObj [
     (''choices'', JArr [JObj [
        (''finish_reason'', JStr ''stop''), (''index'', JInt 0),
        (''message'', JObj [(''content'', JStr ''ok''), (''role'', JStr ''assistant'')])]]),
     (''created'', JInt now), (''id'', JStr ''chatcmpl-mock''), (''model'', JStr (modelName model)),
     (''object'', JStr ''chat.completion''), (''usage'', mock_usage 1 1 2)]"

definition mock_tool_call :: json where
  "mock_tool_call = JObj [
     (''function'', JObj [(''arguments'', JStr ''{\"q\":\"hello\"}''), (''name'', JStr ''search'')]),
     (''id'', JStr ''call_mock_1''), (''type'', JStr ''function'')]"

definition tool_doc :: "int \<Rightarrow> string \<Rightarrow> json" where
  "tool_doc now model = JObj [
     (''choices'', JArr [JObj [
        (''finish_reason'', JStr ''tool_calls''), (''index'', JInt 0),
        (''message'', JObj [(''content'', JNull), (''role'', JStr ''assistant''), (''tool_calls'', JArr [mock_tool_call])])]]),
     (''created'', JInt now), (''id'', JStr ''chatcmpl-mock-tools''), (''model'', JStr (modelName model)),
     (''object'', JStr ''chat.completion''), (''usage'', mock_usage 8 12 20)]"

definition json_mode_doc :: "int \<Rightarrow> string \<Rightarrow> json" where
  "json_mode_doc now model = JObj [
     (''choices'', JArr [JObj [
        (''finish_reason'', JStr ''stop''), (''index'', JInt 0),
        (''message'', JObj [(''content'', JStr ''{\"answer\":\"42\",\"unit\":\"the meaning of life\"}''), (''role'', JStr ''assistant'')])]]),
     (''created'', JInt now), (''id'', JStr ''chatcmpl-mock-json''), (''model'', JStr (modelName model)),
     (''object'', JStr ''chat.completion''), (''usage'', mock_usage 5 14 19)]"

definition mock_logprobs :: json where
  "mock_logprobs = JObj [(''content'', JArr [JObj [
     (''bytes'', JArr [JInt 111, JInt 107]), (''logprob'', JFloat (fl64 (- 1 / 10))), (''token'', JStr ''ok''), (''top_logprobs'', JArr [])]])]"

definition logprobs_doc :: "int \<Rightarrow> string \<Rightarrow> json" where
  "logprobs_doc now model = JObj [
     (''choices'', JArr [JObj [
        (''finish_reason'', JStr ''stop''), (''index'', JInt 0), (''logprobs'', mock_logprobs),
        (''message'', JObj [(''content'', JStr ''ok''), (''role'', JStr ''assistant'')])]]),
     (''created'', JInt now), (''id'', JStr ''chatcmpl-mock-lp''), (''model'', JStr (modelName model)),
     (''object'', JStr ''chat.completion''), (''usage'', mock_usage 1 1 2)]"

definition write_doc :: "json \<Rightarrow> resp_writer \<Rightarrow> resp_writer" where
  "write_doc doc w = jsonEncode doc (set_header ''Content-Type'' ''application/json'' w)"

definition stream_doc :: "int \<Rightarrow> string \<Rightarrow> (string \<times> json) list \<Rightarrow> json" where
  "stream_doc now model choice = JObj [
     (''choices'', JArr [JObj choice]), (''created'', JInt now), (''id'', JStr ''chatcmpl-mock-stream''),
     (''model'', JStr (modelName model)), (''object'', JStr ''chat.completion.chunk'')]"

definition stream_docs :: "int \<Rightarrow> string \<Rightarrow> json list" where
  "stream_docs now model = map (stream_doc now model) [
     [(''delta'', JObj [(''role'', JStr ''assistant'')]), (''index'', JInt 0)],
     [(''delta'', JObj [(''content'', JStr ''hello '')]), (''index'', JInt 0)],
     [(''delta'', JObj [(''content'', JStr ''world'')]), (''index'', JInt 0)],
     [(''delta'', JObj []), (''finish_reason'', JStr ''stop''), (''index'', JInt 0)]]"

text \<open>Write errors are ignored; whether the writer can flush decides only when bytes leave.\<close>

definition writeStreamingChat :: "int \<Rightarrow> string \<Rightarrow> resp_writer \<Rightarrow> resp_writer" where
  "writeStreamingChat now model w =
     (let w0 = WriteHeader 200 (set_header ''Cache-Control'' ''no-cache'' (set_header ''Content-Type'' ''text/event-stream'' w))
      in snd (WriteDone (foldl (\<lambda>w c. snd (WriteData c w)) w0 (stream_docs now model))))"

definition chatCompletions :: "(string \<Rightarrow> string + json) \<Rightarrow> int \<Rightarrow> string \<Rightarrow> resp_writer \<Rightarrow> resp_writer" where
  "chatCompletions parse now body w = (let req = chatRequest_of (body_members parse body); m = cq_Model req in
     if cq_Stream req then writeStreamingChat now m w
     else if cq_Tools req then write_doc (tool_doc now m) w
     else if cq_ResponseFormat req = Some ''json_object'' then write_doc (json_mode_doc now m) w
     else if cq_Logprobs req = Some True then write_doc (logprobs_doc now m) w
     else write_doc (plain_doc now m) w)"

definition modelsList :: "resp_writer \<Rightarrow> resp_writer" where
  "modelsList w = write_doc (JObj [
     (''data'', JArr [JObj [(''id'', JStr ''gpt-4o-mini''), (''object'', JStr ''model''), (''owned_by'', JStr ''mock'')]]),
     (''object'', JStr ''list'')]) w"

section \<open>Embeddings\<close>

text \<open>Rounding to the 24 significant bits of a \<open>float32\<close>, away from its limits.\<close>

definition fl32 :: "rat \<Rightarrow> rat" where
  "fl32 x = (if x = 0 then 0
     else let e = ilog2 \<bar>x\<bar> - 23 in of_int (rne (x * 2 powi (- e))) * 2 powi e)"

definition le_uint32 :: "char \<Rightarrow> char \<Rightarrow> char \<Rightarrow> char \<Rightarrow> 32 word" where
  "le_uint32 a b c d = of_char a OR push_bit 8 (of_char b) OR push_bit 16 (of_char c) OR push_bit 24 (of_char d)"

definition vec_value :: "32 word \<Rightarrow> rat" where
  "vec_value u = fl32 (fl32 (fl32 (fl32 (of_int (uint u)) / fl32 (of_int (2 ^ 32 - 1))) * 2) - 1)"

text \<open>The values of the whole words of a block.\<close>

fun block_values :: "string \<Rightarrow> rat list" where
  "block_values (a # b # c # d # buf) = vec_value (le_uint32 a b c d) # block_values buf"
| "block_values _ = []"

partial_function (option) vec_loop :: "(string \<Rightarrow> string) \<Rightarrow> nat \<Rightarrow> string \<Rightarrow> rat list \<Rightarrow> rat list option" where
  "vec_loop sha n buf out = (if length out < n
     then vec_loop sha n (sha buf) (out @ take (n - length out) (block_values (sha buf))) else Some out)"

definition deterministicVec :: "(string \<Rightarrow> string) \<Rightarrow> string \<Rightarrow> nat \<Rightarrow> rat list option" where
  "deterministicVec sha text n = vec_loop sha n (sha text) []"

definition take_input :: "json \<Rightarrow> string list \<Rightarrow> string list" where
  "take_input v old = (case v of JNull \<Rightarrow> [] | JArr js \<Rightarrow> map (\<lambda>j. take_str j []) js | _ \<Rightarrow> old)"

text \<open>\<open>None\<close> when a vector is never finished.\<close>

definition embeddings :: "(string \<Rightarrow> string + json) \<Rightarrow> (string \<Rightarrow> string) \<Rightarrow> (rat \<Rightarrow> json) \<Rightarrow> string \<Rightarrow> resp_writer \<Rightarrow> resp_writer option" where
  "embeddings parse sha num body w =
     (let kvs = body_members parse body; input = lenient take_input ''input'' [] kvs; model = lenient take_str ''model'' [] kvs
      in map_option (\<lambda>vecs. write_doc (JObj [
           (''data'', JArr (map (\<lambda>(i, v). JObj [(''embedding'', JArr (map num v)), (''index'', JInt (int i)), (''object'', JStr ''embedding'')])
              (enumerate 0 vecs))),
           (''model'', JStr model), (''object'', JStr ''list''),
           (''usage'', JObj [(''prompt_tokens'', JInt (int (length input))), (''total_tokens'', JInt (int (length input)))])]) w)
         (those (map (\<lambda>text. deterministicVec sha text 1536) input)))"

section \<open>The routes\<close>

definition mock_NotFound :: "resp_writer \<Rightarrow> resp_writer" where
  "mock_NotFound w = snd (write_part (BText ''404 page not found\<newline>'') (WriteHeader 404 w))"

definition mock_mux :: "(string \<Rightarrow> string + json) \<Rightarrow> (string \<Rightarrow> string) \<Rightarrow> (rat \<Rightarrow> json) \<Rightarrow> int \<Rightarrow> string \<Rightarrow> string \<Rightarrow> resp_writer \<Rightarrow> resp_writer option" where
  "mock_mux parse sha num now path body w =
     (if path = ''/v1/chat/completions'' then Some (chatCompletions parse now body w)
      else if path = ''/v1/models'' then Some (modelsList w)
      else if path = ''/v1/embeddings'' then embeddings parse sha num body w
      else Some (mock_NotFound w))"

section \<open>Reading requests\<close>

lemma lenient_Nil: "lenient f key zero [] = zero"
  by (simp add: lenient_def)

lemma lenient_Cons: "lenient f key zero ((k, v) # kvs) = lenient f key (if equal_fold k key then f v zero else zero) kvs"
  by (simp add: lenient_def)

lemma lenient_none: "\<forall>k \<in> fst ` set kvs. \<not> equal_fold k key \<Longrightarrow> lenient f key zero kvs = zero"
  by (induction kvs) (auto simp: lenient_Cons lenient_Nil)

lemma lenient_append: "lenient f key zero (xs @ ys) = lenient f key (lenient f key zero xs) ys"
  by (simp add: lenient_def)

lemma lenient_one:
  assumes "(k, v) \<in> set kvs" "equal_fold k key" "distinct (map fst kvs)" "\<forall>k' \<in> fst ` set kvs. equal_fold k' key \<longrightarrow> k' = k"
  shows "lenient f key zero kvs = f v zero"
proof -
  obtain us vs where uv: "kvs = us @ (k, v) # vs" using assms(1) by (meson split_list)
  have "k \<notin> fst ` set us" "k \<notin> fst ` set vs" using assms(3) by (auto simp: uv)
  then have "\<forall>k' \<in> fst ` set us. \<not> equal_fold k' key" "\<forall>k' \<in> fst ` set vs. \<not> equal_fold k' key" using assms(4) unfolding uv by auto
  then show ?thesis using assms(2) by (simp add: uv lenient_append lenient_Cons lenient_none)
qed

lemma lenient_present: "lenient (\<lambda>_ _. True) key b kvs \<longleftrightarrow> b \<or> (\<exists>k \<in> fst ` set kvs. equal_fold k key)"
  by (induction kvs arbitrary: b) (auto 4 4 simp: lenient_Cons lenient_Nil split: if_splits)

text \<open>A request the gateway writes: its own members, and the extra ones.\<close>

definition request_members :: "ChatRequest \<Rightarrow> (string \<times> json) list" where
  "request_members r = members [
     (''model'', True, JStr (r_Model r)),
     (''messages'', True, enc_list Message_MarshalJSON (r_Messages r)),
     (''max_tokens'', r_MaxTokens r \<noteq> 0, JInt (r_MaxTokens r)),
     (''temperature'', r_Temperature r \<noteq> None, enc_float (the (r_Temperature r))),
     (''top_p'', r_TopP r \<noteq> None, enc_float (the (r_TopP r))),
     (''n'', r_N r \<noteq> 0, JInt (r_N r)),
     (''stream'', r_Stream r, JBool (r_Stream r)),
     (''stop'', r_Stop r \<noteq> [], enc_list JStr (r_Stop r)),
     (''user'', r_User r \<noteq> [], JStr (r_User r))]"

lemma request_members_known:
  "distinct (map fst (request_members r))" "set (map fst (request_members r)) \<subseteq> set chatRequestKnownKeys"
  by (simp_all add: request_members_def members_def chatRequestKnownKeys_def)

lemma request_marshalled:
  assumes "extra_ok chatRequestKnownKeys (r_Extra r)"
  obtains kvs where "ChatRequest_MarshalJSON r = JObj kvs" "distinct (map fst kvs)" "set kvs = set (request_members r) \<union> set (r_Extra r)"
proof -
  from with_extra_members [OF request_members_known assms]
  obtain kvs where "with_extra chatRequestKnownKeys (request_members r) (r_Extra r) = JObj kvs" "mset kvs = mset (request_members r @ r_Extra r)" "distinct (map fst kvs)"
    by blast
  moreover from this(2) have "set kvs = set (request_members r) \<union> set (r_Extra r)" by (metis mset_eq_setD set_append)
  ultimately show ?thesis by (intro that) (simp_all add: ChatRequest_MarshalJSON_def request_members_def)
qed

lemma known_keys_fold: "k \<in> set chatRequestKnownKeys \<Longrightarrow> l \<in> set chatRequestKnownKeys \<Longrightarrow> equal_fold k l \<Longrightarrow> k = l"
  using chat_request.lower by (simp add: equal_fold_def)

lemma request_fold:
  assumes ex: "extra_ok chatRequestKnownKeys (r_Extra r)" and k: "k \<in> fst ` (set (request_members r) \<union> set (r_Extra r))" "equal_fold k key"
  shows "key \<in> set chatRequestKnownKeys \<Longrightarrow> k = key \<and> k \<in> fst ` set (request_members r)"
    and "key \<notin> set chatRequestKnownKeys \<Longrightarrow> to_lower key = key \<Longrightarrow> k \<in> fst ` set (r_Extra r)"
proof -
  assume key: "key \<in> set chatRequestKnownKeys"
  then have "k \<notin> fst ` set (r_Extra r)" using ex k(2) by (auto simp: extra_ok_def)
  then have "k \<in> fst ` set (request_members r)" using k(1) by blast
  moreover from this have "k \<in> set chatRequestKnownKeys" using request_members_known(2) [of r] by auto
  ultimately show "k = key \<and> k \<in> fst ` set (request_members r)" using known_keys_fold [OF _ key k(2)] by blast
next
  assume key: "key \<notin> set chatRequestKnownKeys" "to_lower key = key"
  have "k \<notin> set chatRequestKnownKeys" using key k(2) chat_request.lower [of k] by (auto simp: equal_fold_def)
  then show "k \<in> fst ` set (r_Extra r)" using k(1) request_members_known(2) [of r] by auto
qed

text \<open>The mock reads from it the model, whether to stream, and which features the extra members ask for.\<close>

lemma chatRequest_read:
  assumes ex: "extra_ok chatRequestKnownKeys (r_Extra r)" and parse: "parse body = Inr (ChatRequest_MarshalJSON r)"
  defines "q \<equiv> chatRequest_of (body_members parse body)" and "has \<equiv> (\<lambda>key. \<exists>k \<in> fst ` set (r_Extra r). equal_fold k key)"
  shows "cq_Model q = r_Model r" "cq_Stream q = r_Stream r" "cq_Tools q \<longleftrightarrow> has ''tools''"
    "\<not> has ''logprobs'' \<Longrightarrow> cq_Logprobs q = None" "\<not> has ''response_format'' \<Longrightarrow> cq_ResponseFormat q = None"
proof -
  obtain kvs where kvs: "ChatRequest_MarshalJSON r = JObj kvs" "distinct (map fst kvs)" "set kvs = set (request_members r) \<union> set (r_Extra r)"
    using request_marshalled [OF ex] .
  have q: "q = chatRequest_of kvs" by (simp add: q_def body_members_def parse kvs(1))
  have known: "''model'' \<in> set chatRequestKnownKeys" "''stream'' \<in> set chatRequestKnownKeys" "''tools'' \<notin> set chatRequestKnownKeys"
    "''logprobs'' \<notin> set chatRequestKnownKeys" "''response_format'' \<notin> set chatRequestKnownKeys" by (simp_all add: chatRequestKnownKeys_def)
  have low: "to_lower ''tools'' = ''tools''" "to_lower ''logprobs'' = ''logprobs''" "to_lower ''response_format'' = ''response_format''" by code_simp+
  note own = request_fold(1) [OF ex, folded kvs(3)] and extra = request_fold(2) [OF ex, folded kvs(3)]
  have "(''model'', JStr (r_Model r)) \<in> set kvs" by (simp add: kvs(3) request_members_def members_def)
  moreover have "\<forall>k' \<in> fst ` set kvs. equal_fold k' ''model'' \<longrightarrow> k' = ''model''" using own known(1) by blast
  ultimately have "lenient take_str ''model'' [] kvs = take_str (JStr (r_Model r)) []"
    using kvs(2) by (intro lenient_one) simp_all
  then show "cq_Model q = r_Model r" by (simp add: q chatRequest_of_def take_str_def)
  have stream: "\<forall>k' \<in> fst ` set kvs. equal_fold k' ''stream'' \<longrightarrow> k' = ''stream'' \<and> k' \<in> fst ` set (request_members r)" using own known(2) by blast
  show "cq_Stream q = r_Stream r"
  proof (cases "r_Stream r")
    case True
    then have "(''stream'', JBool True) \<in> set kvs" by (simp add: kvs(3) request_members_def members_def)
    moreover have "\<forall>k' \<in> fst ` set kvs. equal_fold k' ''stream'' \<longrightarrow> k' = ''stream''" using stream by blast
    ultimately have "lenient take_bool ''stream'' False kvs = take_bool (JBool True) False" using kvs(2) by (intro lenient_one) simp_all
    with True show ?thesis by (simp add: q chatRequest_of_def take_bool_def)
  next
    case False
    then have "''stream'' \<notin> fst ` set (request_members r)" by (auto simp: request_members_def members_def)
    with stream have "lenient take_bool ''stream'' False kvs = False" by (intro lenient_none) metis
    with False show ?thesis by (simp add: q chatRequest_of_def)
  qed
  have sub: "fst ` set (r_Extra r) \<subseteq> fst ` set kvs" by (auto simp: kvs(3))
  show "cq_Tools q \<longleftrightarrow> has ''tools''"
    using extra [OF _ _ known(3) low(1)] sub unfolding q chatRequest_of_def has_def by (simp add: lenient_present del: bex_simps) blast
  show "cq_Logprobs q = None" if "\<not> has ''logprobs''"
  proof -
    have "\<forall>k \<in> fst ` set kvs. \<not> equal_fold k ''logprobs''" using extra [OF _ _ known(4) low(2)] that unfolding has_def by blast
    then show ?thesis unfolding q chatRequest_of_def chatRequest.select_convs by (rule lenient_none)
  qed
  show "cq_ResponseFormat q = None" if "\<not> has ''response_format''"
  proof -
    have "\<forall>k \<in> fst ` set kvs. \<not> equal_fold k ''response_format''" using extra [OF _ _ known(5) low(3)] that unfolding has_def by blast
    then show ?thesis unfolding q chatRequest_of_def chatRequest.select_convs by (rule lenient_none)
  qed
qed

section \<open>Vectors\<close>

lemma fl32_bound:
  assumes "\<bar>x\<bar> \<le> 2 powi k"
  shows "\<bar>fl32 x\<bar> \<le> 2 powi k"
proof (cases "x = 0")
  case False
  define e where "e = ilog2 \<bar>x\<bar> - 23"
  have "2 powi (ilog2 \<bar>x\<bar>) \<le> \<bar>x\<bar>" using ilog2_bounds [of "\<bar>x\<bar>"] False by simp
  with assms have "(2 :: rat) powi (ilog2 \<bar>x\<bar>) \<le> 2 powi k" by linarith
  then have "ilog2 \<bar>x\<bar> \<le> k" using power_int_strict_increasing [of k "ilog2 \<bar>x\<bar>" "2 :: rat"] by (meson less_le_not_le not_le one_less_numeral_iff semiring_norm(76))
  then have ke: "0 \<le> k - e" by (simp add: e_def)
  let ?n = "(2 :: int) ^ nat (k - e)"
  have n: "(of_int ?n :: rat) = 2 powi k * 2 powi (- e)" using powi_nonneg_rat [OF ke] by (simp add: power_int_add [symmetric])
  have "\<bar>x * 2 powi (- e)\<bar> \<le> of_int ?n"
    unfolding n using assms powi_pos_rat [of "- e"] by (simp add: abs_mult mult_right_mono)
  then have "\<bar>rne (x * 2 powi (- e))\<bar> \<le> ?n"
    using rne_le_of_int [of "x * 2 powi (- e)" ?n] rne_ge_of_int [of "- ?n" "x * 2 powi (- e)"] by (simp add: abs_le_iff)
  then have "\<bar>of_int (rne (x * 2 powi (- e)))\<bar> \<le> (of_int ?n :: rat)" by linarith
  then have "\<bar>of_int (rne (x * 2 powi (- e))) * 2 powi e\<bar> \<le> of_int ?n * (2 powi e :: rat)"
    using powi_pos_rat [of e] by (simp add: abs_mult mult_right_mono)
  also have "\<dots> = 2 powi k" unfolding n by (simp add: power_int_minus)
  finally show ?thesis using False by (simp add: fl32_def Let_def e_def)
qed (simp add: fl32_def powi_pos_rat less_imp_le)

lemma fl32_le: "\<bar>x\<bar> \<le> 2 ^ k \<Longrightarrow> \<bar>fl32 x\<bar> \<le> 2 ^ k"
  using fl32_bound [of x "int k"] by (simp add: power_int_of_nat)

lemma fl32_nonneg: "0 \<le> x \<Longrightarrow> 0 \<le> fl32 x"
  using rne_ge_of_int [of 0 "x * 2 powi (- (ilog2 x - 23))"] powi_pos_rat by (auto simp: fl32_def Let_def mult_nonneg_nonneg less_imp_le)

lemma fl32_MaxUint32: "fl32 (of_int (2 ^ 32 - 1)) = 2 ^ 32"
  by code_simp

lemma vec_value_bounds: "- 1 \<le> vec_value u \<and> vec_value u \<le> 1"
proof -
  define x :: rat where "x = of_int (uint u)"
  let ?a = "fl32 x"
  have "x \<le> of_int (2 ^ 32)" unfolding x_def of_int_le_iff using uint_bounded [of u] by simp
  moreover have "0 \<le> x" unfolding x_def of_int_0_le_iff by simp
  ultimately have a: "0 \<le> ?a" "?a \<le> 2 ^ 32" using fl32_le [of x 32] fl32_nonneg [of x] by auto
  then have b: "0 \<le> fl32 (?a / 2 ^ 32)" "fl32 (?a / 2 ^ 32) \<le> 1" using fl32_le [of "?a / 2 ^ 32" 0] fl32_nonneg [of "?a / 2 ^ 32"] by auto
  then have c: "0 \<le> fl32 (fl32 (?a / 2 ^ 32) * 2)" "fl32 (fl32 (?a / 2 ^ 32) * 2) \<le> 2"
    using fl32_le [of "fl32 (?a / 2 ^ 32) * 2" 1] fl32_nonneg [of "fl32 (?a / 2 ^ 32) * 2"] by auto
  then have "\<bar>fl32 (fl32 (fl32 (?a / 2 ^ 32) * 2) - 1)\<bar> \<le> 1" using fl32_le [of "fl32 (fl32 (?a / 2 ^ 32) * 2) - 1" 0] by auto
  then show ?thesis unfolding vec_value_def fl32_MaxUint32 x_def [symmetric] by linarith
qed

lemma block_values_range: "x \<in> set (block_values buf) \<Longrightarrow> - 1 \<le> x \<and> x \<le> 1"
  by (induction buf rule: block_values.induct) (use vec_value_bounds in auto)

lemma block_values_length: "length (block_values buf) = length buf div 4"
  by (induction buf rule: block_values.induct) auto

lemma vec_loop_returns:
  assumes "\<And>s. 4 \<le> length (sha s)" "length out \<le> n" "\<forall>x \<in> set out. - 1 \<le> x \<and> x \<le> 1"
  shows "\<exists>v. vec_loop sha n buf out = Some v \<and> length v = n \<and> (\<forall>x \<in> set v. - 1 \<le> x \<and> x \<le> 1)"
  using assms(2,3)
proof (induction "n - length out" arbitrary: buf out rule: less_induct)
  case less
  show ?case
  proof (cases "length out < n")
    case True
    let ?out = "out @ take (n - length out) (block_values (sha buf))"
    have "1 \<le> length (block_values (sha buf))" using assms(1) [of buf] by (simp add: block_values_length)
    then have l: "n - length ?out < n - length out" "length ?out \<le> n" using True by auto
    have "\<forall>x \<in> set ?out. - 1 \<le> x \<and> x \<le> 1" using less.prems(2) block_values_range by (auto dest: in_set_takeD)
    then have "\<exists>v. vec_loop sha n (sha buf) ?out = Some v \<and> length v = n \<and> (\<forall>x \<in> set v. - 1 \<le> x \<and> x \<le> 1)"
      using l by (intro less.hyps) simp_all
    with True show ?thesis by (subst vec_loop.simps) simp
  qed (use less.prems in \<open>subst vec_loop.simps; simp\<close>)
qed

section \<open>The mock behind the adapter\<close>

definition response_of :: "(json \<Rightarrow> string) \<Rightarrow> resp_writer \<Rightarrow> http_response" where
  "response_of pr w = \<lparr>hs_Status = (case rw_status w of None \<Rightarrow> 200 | Some s \<Rightarrow> s), hs_Header = rw_sent w, hs_Body = Inr (concat (map (render pr) (rw_body w)))\<rparr>"

definition mock_exchange :: "(string \<Rightarrow> string + json) \<Rightarrow> (json \<Rightarrow> string) \<Rightarrow> ('w \<Rightarrow> int) \<Rightarrow> http_request \<Rightarrow> 'w \<Rightarrow> (goerr + http_response) \<times> 'w" where
  "mock_exchange parse pr clock rq w = (Inr (response_of pr (chatCompletions parse (clock w)
     (case hq_Body rq of Marshalled j \<Rightarrow> pr j | Raw s \<Rightarrow> s) (new_writer (\<lambda>_. True) True))), w)"

text \<open>A document whose text, alone on its line, the parser reads back.\<close>

definition reads_back :: "(string \<Rightarrow> string + json) \<Rightarrow> (json \<Rightarrow> string) \<Rightarrow> json \<Rightarrow> bool" where
  "reads_back parse pr j \<longleftrightarrow> printable parse pr j \<and> parse (pr j @ ''\<newline>'') = Inr j"

definition mock_docs :: "int \<Rightarrow> string \<Rightarrow> json list" where
  "mock_docs now model = [plain_doc now model, tool_doc now model, json_mode_doc now model, logprobs_doc now model] @ stream_docs now model"

lemma written [simp]:
  "write_doc j (new_writer (\<lambda>_. True) True) = \<lparr>rw_header = [(''Content-Type'', ''application/json'')], rw_status = Some 200,
     rw_sent = [(''Content-Type'', ''application/json'')], rw_body = [BJson j], rw_writes = (\<lambda>_. True), rw_flusher = True\<rparr>"
  by (simp add: write_doc_def jsonEncode_def write_part_def set_header_def new_writer_def WriteHeader_def Let_def)

lemma write_frames:
  assumes "rw_status w = Some st" "rw_writes w = (\<lambda>_. True)"
  shows "foldl (\<lambda>w c. snd (WriteData c w)) w js = w\<lparr>rw_body := rw_body w @ map BData js\<rparr>"
  using assms by (induction js arbitrary: w) (simp_all add: WriteData_def write_part_def WriteHeader_def Let_def)

lemma streamed:
  "rw_status (writeStreamingChat now m (new_writer (\<lambda>_. True) True)) = Some 200"
  "rw_body (writeStreamingChat now m (new_writer (\<lambda>_. True) True)) = map BData (stream_docs now m) @ [BDone]"
  by (simp_all add: writeStreamingChat_def write_frames [where st = 200] WriteDone_def write_part_def set_header_def new_writer_def WriteHeader_def Let_def)

definition mock_chunk :: "int \<Rightarrow> string \<Rightarrow> string \<Rightarrow> string \<Rightarrow> string \<Rightarrow> ChatStreamChunk" where
  "mock_chunk now model role text finish = \<lparr>k_ID = ''chatcmpl-mock-stream'', k_Object = ''chat.completion.chunk'', k_Created = now, k_Model = modelName model,
     k_Choices = [\<lparr>sc_Index = 0, sc_Delta = \<lparr>d_Role = role, d_Content = text, d_Extra = []\<rparr>, sc_FinishReason = finish\<rparr>], k_Usage = None\<rparr>"

definition mock_chunks :: "int \<Rightarrow> string \<Rightarrow> ChatStreamChunk list" where
  "mock_chunks now model = [mock_chunk now model ''assistant'' [] [], mock_chunk now model [] ''hello '' [], mock_chunk now model [] ''world'' [],
     mock_chunk now model [] [] ''stop'']"

lemma stream_docs_read:
  assumes "in_int64 now"
  shows "map streamWirePayload_Unmarshal (stream_docs now m) = map (\<lambda>c. Some \<lparr>wp_Chunk = c, wp_Error = None\<rparr>) (mock_chunks now m)"
  using assms
  by (simp add: stream_docs_def stream_doc_def mock_chunks_def mock_chunk_def streamWirePayload_Unmarshal_def dec_struct_def wire_fields dec_list_def
      StreamChoice_fields MessageDelta_UnmarshalJSON_def MessageDelta_field_def extra_of_def to_map_def messageDeltaKnownKeys_def StreamChoice0_def
      MessageDelta0_def ChatStreamChunk0_def in_int64_def min_int64_def max_int64_def)

lemma scan_docs:
  assumes "list_all2 (\<lambda>j c. printable parse pr j \<and> streamWirePayload_Unmarshal j = Some \<lparr>wp_Chunk = c, wp_Error = None\<rparr>) js cs" "\<And>i. sends i"
  shows "scan_sse (openai_handle parse name sends) (concat (map (frame_lines pr) (map BData js @ [BDone]))) () evs = (evs @ map EvChunk cs, True)"
  using assms(1)
proof (induction arbitrary: evs rule: list_all2_induct)
  case Nil
  have "sse_data ''data: [DONE]'' = Some ''[DONE]''" using sse_data_frames(3) [of "''[DONE]''"] by simp
  then show ?case by (simp add: openai_handle_def)
next
  case (Cons j js c cs)
  have "sse_data (''data: '' @ pr j) = Some (pr j)" by (rule sse_data_frames)
  moreover have "openai_handle parse name sends (pr j) () evs = ((), evs @ [EvChunk c], False)"
    using Cons(1) assms(2) by (simp add: openai_handle_def Let_def sendEvent_def printable_def)
  ultimately show ?case using Cons.IH by simp
qed

definition mock_response :: "string \<Rightarrow> int \<Rightarrow> string \<Rightarrow> string \<Rightarrow> string \<Rightarrow> string \<Rightarrow> extra \<Rightarrow> int \<times> int \<times> int \<Rightarrow> ChatResponse" where
  "mock_response name now model i content finish ex = (\<lambda>(pt, ct, tt). \<lparr>p_ID = i, p_Object = ''chat.completion'', p_Created = now, p_Model = modelName model,
     p_Choices = [\<lparr>c_Index = 0, c_Message = \<lparr>m_Role = ''assistant'', m_Content = content, m_Name = [], m_ToolCallID = [], m_Extra = ex\<rparr>,
       c_FinishReason = finish, c_Extra = []\<rparr>],
     p_Usage = Some \<lparr>u_PromptTokens = pt, u_CompletionTokens = ct, u_TotalTokens = tt, u_Extra = []\<rparr>, p_Provider = name\<rparr>)"

lemmas doc_simps = ChatResponse_Unmarshal_def dec_struct_def ChatResponse_fields dec_list_def Choice_UnmarshalJSON_def Choice_field_def
  Message_UnmarshalJSON_def Message_fields Message_field_def dec_usage_ptr_def Usage_UnmarshalJSON_def Usage_field_def extra_of_def to_map_def
  Choice0_def Message0_def Usage0_def ChatResponse0_def choiceKnownKeys_def messageKnownKeys_def usageKnownKeys_def mock_usage_def

lemma lower_tool_calls [simp]: "to_lower ''tool_calls'' = ''tool_calls''"
  by code_simp

lemma small_int64 [simp]: "in_int64 0" "in_int64 1" "in_int64 2" "in_int64 8" "in_int64 12" "in_int64 20"
  by code_simp+

lemma plain_doc_read:
  "in_int64 now \<Longrightarrow> ChatResponse_Unmarshal (plain_doc now m) = Some (mock_response [] now m ''chatcmpl-mock'' ''ok'' ''stop'' [] (1, 1, 2))"
  by (simp add: plain_doc_def mock_response_def doc_simps)

lemma tool_doc_read:
  "in_int64 now \<Longrightarrow> ChatResponse_Unmarshal (tool_doc now m) =
     Some (mock_response [] now m ''chatcmpl-mock-tools'' [] ''tool_calls'' [(''tool_calls'', JArr [mock_tool_call])] (8, 12, 20))"
  by (simp add: tool_doc_def mock_response_def doc_simps)

lemma mock_response_named: "(mock_response a now m i c f ex u)\<lparr>p_Provider := name\<rparr> = mock_response name now m i c f ex u"
  by (simp add: mock_response_def split: prod.splits)

text \<open>The null content of a tool call leaves the gateway as the empty string.\<close>

lemma tool_call_content_emptied:
  "Message_MarshalJSON \<lparr>m_Role = ''assistant'', m_Content = [], m_Name = [], m_ToolCallID = [], m_Extra = [(''tool_calls'', JArr [mock_tool_call])]\<rparr> =
     JObj [(''content'', JStr []), (''role'', JStr ''assistant''), (''tool_calls'', JArr [mock_tool_call])]"
  by code_simp

text \<open>What the adapter makes of a reply that is one document.\<close>

lemma adapter_reads_doc:
  assumes env: "he_Do env = mock_exchange (he_Parse env) pr clock" "he_Build env (op_baseURL p @ chatPath) = None"
    and req: "body = pr (ChatRequest_MarshalJSON (req\<lparr>r_Stream := False\<rparr>))"
    and reply: "chatCompletions (he_Parse env) (clock w) body (new_writer (\<lambda>_. True) True) = write_doc doc (new_writer (\<lambda>_. True) True)"
    and doc: "reads_back (he_Parse env) pr doc" "ChatResponse_Unmarshal doc = Some out"
  shows "openai_ChatCompletion env p req w = (Inr (out\<lparr>p_Provider := oc_Name (op_cfg p)\<rparr>), w)"
  using assms by (simp add: openai_ChatCompletion_def openai_request_def mock_exchange_def response_of_def reads_back_def Let_def)

section \<open>Properties\<close>

text \<open>
  The compatibility suite's upstream and the OpenAI adapter agree.  A request through the
  adapter reaches the mock with its model, its streaming flag and its extra members: with \<open>tools\<close>
  among them the adapter returns the tool call, its \<open>arguments\<close> still the JSON text the upstream
  sent (and the null content as the empty string); with none of the features it returns the plain
  answer; and streamed, it yields the chunks of \<open>hello world\<close> in order, the last one with its
  finish reason, and no error.
\<close>

lemma mock_through_adapter:
  assumes env: "he_Do env = mock_exchange (he_Parse env) pr clock" "he_Build env (op_baseURL p @ chatPath) = None" "in_int64 (clock w)"
    and ex: "extra_ok chatRequestKnownKeys (r_Extra req)"
    and texts: "\<forall>b. reads_back (he_Parse env) pr (ChatRequest_MarshalJSON (req\<lparr>r_Stream := b\<rparr>))"
      "\<forall>j \<in> set (mock_docs (clock w) (r_Model req)). reads_back (he_Parse env) pr j"
    and stream: "\<forall>resp body. hs_Body resp = Inr body \<longrightarrow> si_lines (stream_of resp) = scan_lines body \<and> (\<forall>i. si_sends (stream_of resp) i)"
  shows "((\<exists>k \<in> fst ` set (r_Extra req). equal_fold k ''tools'') \<longrightarrow>
      openai_ChatCompletion env p req w = (Inr (mock_response (oc_Name (op_cfg p)) (clock w) (r_Model req) ''chatcmpl-mock-tools'' [] ''tool_calls''
        [(''tool_calls'', JArr [mock_tool_call])] (8, 12, 20)), w)) \<and>
    (\<not> (\<exists>k \<in> fst ` set (r_Extra req). equal_fold k ''tools'' \<or> equal_fold k ''logprobs'' \<or> equal_fold k ''response_format'') \<longrightarrow>
      openai_ChatCompletion env p req w = (Inr (mock_response (oc_Name (op_cfg p)) (clock w) (r_Model req) ''chatcmpl-mock'' ''ok'' ''stop'' [] (1, 1, 2)), w)) \<and>
    openai_ChatCompletionStream env stream_of p req w = (Inr (map EvChunk (mock_chunks (clock w) (r_Model req))), w)"
proof (intro conjI impI)
  have rd: "extra_ok chatRequestKnownKeys (r_Extra (req\<lparr>r_Stream := b\<rparr>))"
    "he_Parse env (pr (ChatRequest_MarshalJSON (req\<lparr>r_Stream := b\<rparr>))) = Inr (ChatRequest_MarshalJSON (req\<lparr>r_Stream := b\<rparr>))" for b
    using ex texts(1) by (simp_all add: reads_back_def printable_def)
  note plain = chatRequest_read [OF rd(1) [of False], where parse = "he_Parse env", OF rd(2)]
    and streaming = chatRequest_read [OF rd(1) [of True], where parse = "he_Parse env", OF rd(2)]
  have docs: "reads_back (he_Parse env) pr (tool_doc (clock w) (r_Model req))" "reads_back (he_Parse env) pr (plain_doc (clock w) (r_Model req))"
    using texts(2) by (simp_all add: mock_docs_def)
  {
    assume "\<exists>k \<in> fst ` set (r_Extra req). equal_fold k ''tools''"
    then have "chatCompletions (he_Parse env) (clock w) (pr (ChatRequest_MarshalJSON (req\<lparr>r_Stream := False\<rparr>))) (new_writer (\<lambda>_. True) True) =
        write_doc (tool_doc (clock w) (r_Model req)) (new_writer (\<lambda>_. True) True)"
      using plain(1-3) by (simp add: chatCompletions_def Let_def)
    from adapter_reads_doc [OF env(1,2) refl this docs(1) tool_doc_read [OF env(3)]]
    show "openai_ChatCompletion env p req w = (Inr (mock_response (oc_Name (op_cfg p)) (clock w) (r_Model req) ''chatcmpl-mock-tools'' [] ''tool_calls''
        [(''tool_calls'', JArr [mock_tool_call])] (8, 12, 20)), w)" by (simp add: mock_response_named)
  }
  {
    assume "\<not> (\<exists>k \<in> fst ` set (r_Extra req). equal_fold k ''tools'' \<or> equal_fold k ''logprobs'' \<or> equal_fold k ''response_format'')"
    then have "chatCompletions (he_Parse env) (clock w) (pr (ChatRequest_MarshalJSON (req\<lparr>r_Stream := False\<rparr>))) (new_writer (\<lambda>_. True) True) =
        write_doc (plain_doc (clock w) (r_Model req)) (new_writer (\<lambda>_. True) True)"
      using plain by (simp add: chatCompletions_def Let_def)
    from adapter_reads_doc [OF env(1,2) refl this docs(2) plain_doc_read [OF env(3)]]
    show "openai_ChatCompletion env p req w = (Inr (mock_response (oc_Name (op_cfg p)) (clock w) (r_Model req) ''chatcmpl-mock'' ''ok'' ''stop'' [] (1, 1, 2)), w)"
      by (simp add: mock_response_named)
  }
  let ?w = "writeStreamingChat (clock w) (r_Model req) (new_writer (\<lambda>_. True) True)" and ?ps = "map BData (stream_docs (clock w) (r_Model req)) @ [BDone]"
  have reply: "chatCompletions (he_Parse env) (clock w) (pr (ChatRequest_MarshalJSON (req\<lparr>r_Stream := True\<rparr>))) (new_writer (\<lambda>_. True) True) = ?w"
    using streaming(1,2) by (simp add: chatCompletions_def Let_def)
  have pr: "printable (he_Parse env) pr j" if "j \<in> set (stream_docs (clock w) (r_Model req))" for j
    using texts(2) that by (simp add: mock_docs_def reads_back_def)
  then have lines: "scan_lines (concat (map (render pr) ?ps)) = concat (map (frame_lines pr) ?ps)"
    by (intro scan_lines_frames) (auto simp: printable_def)
  have "list_all2 (\<lambda>j c. printable (he_Parse env) pr j \<and> streamWirePayload_Unmarshal j = Some \<lparr>wp_Chunk = c, wp_Error = None\<rparr>)
      (stream_docs (clock w) (r_Model req)) (mock_chunks (clock w) (r_Model req))"
    using pr stream_docs_read [OF env(3), of "r_Model req"]
    by (auto simp: list_all2_conv_all_nth dest: arg_cong [where f = length] map_eq_imp_length_eq) (metis nth_map length_map)
  then have "openai_readSSE (he_Parse env) name (stream_of (response_of pr ?w)) = map EvChunk (mock_chunks (clock w) (r_Model req))" for name
    using stream lines scan_docs [of "he_Parse env" pr "stream_docs (clock w) (r_Model req)" "mock_chunks (clock w) (r_Model req)" "si_sends (stream_of (response_of pr ?w))" name "[]"]
    by (simp add: openai_readSSE_def end_sse_def response_of_def streamed)
  then show "openai_ChatCompletionStream env stream_of p req w = (Inr (map EvChunk (mock_chunks (clock w) (r_Model req))), w)"
    using env reply by (simp add: openai_ChatCompletionStream_def openai_request_def mock_exchange_def Let_def response_of_def streamed)
qed

text \<open>A printer and a parser of the documents of one run, numbered.\<close>

definition demo_tools_request :: ChatRequest where
  "demo_tools_request = ChatRequest0\<lparr>r_Model := ''m'', r_Extra := [(''tools'', JArr [])]\<rparr>"

definition demo_docs :: "json list" where
  "demo_docs = [ChatRequest_MarshalJSON (demo_tools_request\<lparr>r_Stream := False\<rparr>), ChatRequest_MarshalJSON (demo_tools_request\<lparr>r_Stream := True\<rparr>)] @ mock_docs 5 ''m''"

definition number_doc :: "json \<Rightarrow> string" where
  "number_doc j = replicate (Suc (length (takeWhile (\<lambda>d. d \<noteq> j) demo_docs))) CHR ''x''"

definition numbered_doc :: "string \<Rightarrow> string + json" where
  "numbered_doc s = (case takeWhile (\<lambda>c. c = CHR ''x'') s of [] \<Rightarrow> Inl ''syntax'' | _ # xs \<Rightarrow> Inr (demo_docs ! length xs))"

lemma nth_takeWhile_length: "j \<in> set xs \<Longrightarrow> xs ! length (takeWhile (\<lambda>d. d \<noteq> j) xs) = j"
  by (induction xs) auto

lemma numbered_read_back:
  assumes "j \<in> set demo_docs"
  shows "reads_back numbered_doc number_doc j"
proof -
  have "demo_docs ! length (takeWhile (\<lambda>d. d \<noteq> j) demo_docs) = j"
    using assms nth_takeWhile_length [of j demo_docs] by simp
  moreover have "takeWhile (\<lambda>c. c = CHR ''x'') (replicate n CHR ''x'' @ s) = replicate n CHR ''x'' @ takeWhile (\<lambda>c. c = CHR ''x'') s" for n s
    by (induction n) auto
  moreover from this [of _ "[]"] have "takeWhile (\<lambda>c. c = CHR ''x'') (replicate n CHR ''x'') = replicate n CHR ''x''" for n by simp
  moreover have "length (takeWhile (\<lambda>d. d \<noteq> j) demo_docs) \<le> length demo_docs" by (rule length_takeWhile_le)
  moreover have "length demo_docs < 100" by (simp add: demo_docs_def mock_docs_def stream_docs_def)
  ultimately show ?thesis
    by (simp add: reads_back_def printable_def line_safe_def line_fits_def sseLineBufferLimit_def numbered_doc_def number_doc_def)
qed

definition mock_env :: "unit http_env" where
  "mock_env = \<lparr>he_Build = (\<lambda>_. None), he_Do = mock_exchange numbered_doc number_doc (\<lambda>_. 5), he_Parse = numbered_doc, he_Until = (\<lambda>_. None),
     he_Version = ''dev'', he_Text = (\<lambda>_. []), he_Now = (\<lambda>_. 5)\<rparr>"

definition mock_provider :: openai_Provider where
  "mock_provider = \<lparr>op_cfg = \<lparr>oc_Name = ''mock'', oc_Endpoint = ''http://127.0.0.1:9091'', oc_APIKey = ''k'', oc_Organization = [], oc_Timeout = Second,
     oc_Exact = [''m''], oc_Glob = [], oc_OwnedBy = ''mock''\<rparr>, op_baseURL = ''http://127.0.0.1:9091''\<rparr>"

definition mock_lines :: "http_response \<Rightarrow> sse_input" where
  "mock_lines resp = \<lparr>si_lines = (case hs_Body resp of Inl _ \<Rightarrow> [] | Inr body \<Rightarrow> scan_lines body), si_scan_err = None, si_ctx_done = False, si_sends = (\<lambda>_. True)\<rparr>"

lemma mock_through_adapter_witness:
  "openai_ChatCompletion mock_env mock_provider demo_tools_request () =
     (Inr (mock_response ''mock'' 5 ''m'' ''chatcmpl-mock-tools'' [] ''tool_calls'' [(''tool_calls'', JArr [mock_tool_call])] (8, 12, 20)), ()) \<and>
   openai_ChatCompletionStream mock_env mock_lines mock_provider demo_tools_request () = (Inr (map EvChunk (mock_chunks 5 ''m'')), ())"
proof -
  have env: "he_Do mock_env = mock_exchange (he_Parse mock_env) number_doc (\<lambda>_. 5)" "he_Build mock_env (op_baseURL mock_provider @ chatPath) = None" "in_int64 5"
    "he_Parse mock_env = numbered_doc" by (simp_all add: mock_env_def) (simp_all add: in_int64_def min_int64_def max_int64_def)
  have ex: "extra_ok chatRequestKnownKeys (r_Extra demo_tools_request)" by code_simp
  have texts: "\<forall>b. reads_back (he_Parse mock_env) number_doc (ChatRequest_MarshalJSON (demo_tools_request\<lparr>r_Stream := b\<rparr>))"
    "\<forall>j \<in> set (mock_docs 5 (r_Model demo_tools_request)). reads_back (he_Parse mock_env) number_doc j"
    unfolding env(4) by (auto simp: all_bool_eq demo_docs_def demo_tools_request_def intro!: numbered_read_back)
  have lines: "\<forall>resp body. hs_Body resp = Inr body \<longrightarrow> si_lines (mock_lines resp) = scan_lines body \<and> (\<forall>i. si_sends (mock_lines resp) i)"
    by (simp add: mock_lines_def)
  show ?thesis using mock_through_adapter [OF env(1,2) _ ex texts lines, where w = "()"] env(3)
    by (simp add: demo_tools_request_def mock_provider_def)
qed

text \<open>
  The mock's embeddings are always computed, and are usable vectors.  With digests of 32 bytes
  the loop of \<open>deterministicVec\<close> ends for every text and dimension, with exactly that many values,
  all between -1 and 1 although every step of the arithmetic rounds to \<open>float32\<close>; so the handler
  answers every body.
\<close>

lemma embeddings_total:
  assumes "\<And>s. length (sha s) = 32"
  shows "(\<exists>v. deterministicVec sha text n = Some v \<and> length v = n \<and> (\<forall>x \<in> set v. - 1 \<le> x \<and> x \<le> 1)) \<and>
    (\<exists>w'. embeddings parse sha num body w = Some w')"
proof -
  have vec: "\<exists>v. deterministicVec sha t n = Some v \<and> length v = n \<and> (\<forall>x \<in> set v. - 1 \<le> x \<and> x \<le> 1)" for t n
    unfolding deterministicVec_def using vec_loop_returns [of sha "[]" n "sha t"] assms by simp
  then have "those (map (\<lambda>t. deterministicVec sha t 1536) ts) \<noteq> None" for ts
  proof (induction ts)
    case (Cons t ts)
    obtain v where "deterministicVec sha t 1536 = Some v" using vec by blast
    with Cons show ?case by simp
  qed simp
  then have "embeddings parse sha num body w \<noteq> None" unfolding embeddings_def Let_def by simp
  with vec show ?thesis by blast
qed

lemma embeddings_total_witness:
  "\<exists>v. deterministicVec (\<lambda>s. replicate 32 CHR ''A'') ''hello'' 1536 = Some v \<and> length v = 1536"
proof -
  have "length (replicate 32 CHR ''A'') = 32" by simp
  from embeddings_total [where sha = "\<lambda>s. replicate 32 CHR ''A''", OF this] show ?thesis by blast
qed

end
