(* ===== verification/Heartbeat.thy ===== *)
theory Heartbeat
  imports Http "HOL-Library.Sublist"
begin

text \<open>
  The SSE writer of \<open>internal/server/sse/writer.go\<close> as two goroutines use it: the handler of a
  stream, which calls \<open>WriteData\<close> and at its end the stop function, and the goroutine of
  \<open>StartHeartbeat\<close>.  The steps are those of the code between two points where the other
  goroutine can run: a call waits for the mutex, then writes prefix, payload and frame end
  with three calls of \<open>Write\<close>, each of which may fail after some bytes, and unlocks.
  \<open>Http\<close> writes a frame in one step; here that is what the mutex is shown to give.
\<close>

section \<open>Frames\<close>

datatype sse_call = CallData string | CallComment string

abbreviation frameEnd :: string where
  "frameEnd \<equiv> ''\<newline>\<newline>''"

fun call_writes :: "sse_call \<Rightarrow> string list" where
  "call_writes (CallData payload) = [''data: '', payload, frameEnd]"
| "call_writes (CallComment text) = ['': '', text, frameEnd]"

definition call_frame :: "sse_call \<Rightarrow> string" where
  "call_frame c = concat (call_writes c)"

definition keepalive :: sse_call where
  "keepalive = CallComment ''keepalive''"

section \<open>The two goroutines\<close>

datatype goroutine = Handler | Beat

text \<open>
  Where a goroutine is: outside the writer (the handler in its loop, the heartbeat at its
  \<open>select\<close>), before \<open>Lock\<close>, between two writes of a frame (with the bytes of the call that are
  out and the writes that are left), at \<open><-done\<close> of the stop function, or at its end.
\<close>

datatype location = Outside | Locking sse_call | Writing sse_call string "string list" | Stopping | Ended

text \<open>
  \<open>sc_returned\<close> is the history of the calls that returned: the goroutine, the call, the bytes it
  wrote and whether the error was nil.
\<close>

record sse_conc =
  sc_mu :: "goroutine option"
  sc_out :: string
  sc_at :: "goroutine \<Rightarrow> location"
  sc_cancelled :: bool
  sc_ticked :: bool
  sc_done :: bool
  sc_returned :: "(goroutine \<times> sse_call \<times> string \<times> bool) list"

definition move :: "goroutine \<Rightarrow> location \<Rightarrow> sse_conc \<Rightarrow> sse_conc" where
  "move g l s = s\<lparr>sc_at := (sc_at s)(g := l)\<rparr>"

definition StartHeartbeat :: sse_conc where
  "StartHeartbeat = \<lparr>sc_mu = None, sc_out = [], sc_at = (\<lambda>_. Outside), sc_cancelled = False, sc_ticked = False,
     sc_done = False, sc_returned = []\<rparr>"

subsection \<open>Inside the writer\<close>

definition sw_lock :: "goroutine \<Rightarrow> sse_conc \<Rightarrow> sse_conc option" where
  "sw_lock g s = (case sc_at s g of
     Locking c \<Rightarrow> if sc_mu s = None then Some (move g (Writing c [] (call_writes c)) (s\<lparr>sc_mu := Some g\<rparr>)) else None
   | _ \<Rightarrow> None)"

definition sw_write :: "goroutine \<Rightarrow> sse_conc \<Rightarrow> sse_conc option" where
  "sw_write g s = (case sc_at s g of
     Writing c sent (b # bs) \<Rightarrow> Some (move g (Writing c (sent @ b) bs) (s\<lparr>sc_out := sc_out s @ b\<rparr>))
   | _ \<Rightarrow> None)"

text \<open>A call returns: the deferred \<open>Unlock\<close>.\<close>

definition sw_return :: "goroutine \<Rightarrow> sse_call \<Rightarrow> string \<Rightarrow> bool \<Rightarrow> sse_conc \<Rightarrow> sse_conc" where
  "sw_return g c sent ok s = move g Outside (s\<lparr>sc_mu := None, sc_returned := sc_returned s @ [(g, c, sent, ok)]\<rparr>)"

text \<open>A write fails after its first \<open>n\<close> bytes.\<close>

definition sw_fail :: "goroutine \<Rightarrow> nat \<Rightarrow> sse_conc \<Rightarrow> sse_conc option" where
  "sw_fail g n s = (case sc_at s g of
     Writing c sent (b # bs) \<Rightarrow> Some (sw_return g c (sent @ take n b) False (s\<lparr>sc_out := sc_out s @ take n b\<rparr>))
   | _ \<Rightarrow> None)"

definition sw_finish :: "goroutine \<Rightarrow> sse_conc \<Rightarrow> sse_conc option" where
  "sw_finish g s = (case sc_at s g of Writing c sent [] \<Rightarrow> Some (sw_return g c sent True s) | _ \<Rightarrow> None)"

subsection \<open>The heartbeat\<close>

text \<open>The branches of the \<open>select\<close>; when both are ready the runtime takes either.\<close>

definition beat_done :: "sse_conc \<Rightarrow> sse_conc option" where
  "beat_done s = (if sc_at s Beat = Outside \<and> sc_cancelled s then Some (move Beat Ended (s\<lparr>sc_done := True\<rparr>)) else None)"

definition beat_tick :: "sse_conc \<Rightarrow> sse_conc option" where
  "beat_tick s = (if sc_at s Beat = Outside \<and> sc_ticked s then Some (move Beat (Locking keepalive) (s\<lparr>sc_ticked := False\<rparr>)) else None)"

subsection \<open>The handler\<close>

definition handler_data :: "string \<Rightarrow> sse_conc \<Rightarrow> sse_conc option" where
  "handler_data payload s = (if sc_at s Handler = Outside then Some (move Handler (Locking (CallData payload)) s) else None)"

text \<open>The stop function: \<open>cancel()\<close>, then \<open><-done\<close>.\<close>

definition handler_stop :: "sse_conc \<Rightarrow> sse_conc option" where
  "handler_stop s = (if sc_at s Handler = Outside then Some (move Handler Stopping (s\<lparr>sc_cancelled := True\<rparr>)) else None)"

definition handler_stopped :: "sse_conc \<Rightarrow> sse_conc option" where
  "handler_stopped s = (if sc_at s Handler = Stopping \<and> sc_done s then Some (move Handler Ended s) else None)"

subsection \<open>Runs\<close>

text \<open>
  \<open>Tick\<close> is the ticker, whose channel holds one tick and drops further ones; \<open>ClientGone\<close> ends
  the request's context, of which \<open>hbCtx\<close> is a child.
\<close>

datatype sse_action = Lock goroutine | Write goroutine | Fail goroutine nat | Finish goroutine | BeatDone | BeatTick
  | Data string | Stop | Stopped | Tick | ClientGone

fun perform :: "sse_action \<Rightarrow> sse_conc \<Rightarrow> sse_conc option" where
  "perform (Lock g) s = sw_lock g s"
| "perform (Write g) s = sw_write g s"
| "perform (Fail g n) s = sw_fail g n s"
| "perform (Finish g) s = sw_finish g s"
| "perform BeatDone s = beat_done s"
| "perform BeatTick s = beat_tick s"
| "perform (Data payload) s = handler_data payload s"
| "perform Stop s = handler_stop s"
| "perform Stopped s = handler_stopped s"
| "perform Tick s = (if sc_at s Beat = Ended then None else Some (s\<lparr>sc_ticked := True\<rparr>))"
| "perform ClientGone s = Some (s\<lparr>sc_cancelled := True\<rparr>)"

fun run_actions :: "sse_action list \<Rightarrow> sse_conc \<Rightarrow> sse_conc option" where
  "run_actions [] s = Some s"
| "run_actions (a # as) s = (case perform a s of None \<Rightarrow> None | Some s' \<Rightarrow> run_actions as s')"

fun payload_of :: "sse_action \<Rightarrow> string option" where
  "payload_of (Data payload) = Some payload"
| "payload_of _ = None"

text \<open>The payloads the handler passed to \<open>WriteData\<close>, in order.\<close>

definition payloads :: "sse_action list \<Rightarrow> string list" where
  "payloads as = List.map_filter payload_of as"

fun is_fail :: "sse_action \<Rightarrow> bool" where
  "is_fail (Fail _ _) = True"
| "is_fail _ = False"

text \<open>What the clock and the client do, as opposed to the two goroutines.\<close>

fun is_external :: "sse_action \<Rightarrow> bool" where
  "is_external Tick = True"
| "is_external ClientGone = True"
| "is_external _ = False"

section \<open>The invariant\<close>

fun sent_at :: "location \<Rightarrow> string" where
  "sent_at (Writing c sent bs) = sent"
| "sent_at _ = []"

fun is_writing :: "location \<Rightarrow> bool" where
  "is_writing (Writing c sent bs) = True"
| "is_writing _ = False"

fun call_at :: "location \<Rightarrow> sse_call option" where
  "call_at (Locking c) = Some c"
| "call_at (Writing c sent bs) = Some c"
| "call_at _ = None"

fun location_ok :: "location \<Rightarrow> bool" where
  "location_ok (Writing c sent bs) \<longleftrightarrow> sent @ concat bs = call_frame c \<and> length bs \<le> 3"
| "location_ok _ = True"

text \<open>Which calls a goroutine makes.\<close>

fun own_call :: "goroutine \<Rightarrow> sse_call \<Rightarrow> bool" where
  "own_call Handler c \<longleftrightarrow> (\<exists>payload. c = CallData payload)"
| "own_call Beat c \<longleftrightarrow> c = keepalive"

definition entry_ok :: "goroutine \<times> sse_call \<times> string \<times> bool \<Rightarrow> bool" where
  "entry_ok = (\<lambda>(g, c, sent, ok). own_call g c \<and> prefix sent (call_frame c) \<and> (ok \<longrightarrow> sent = call_frame c))"

definition written :: "(goroutine \<times> sse_call \<times> string \<times> bool) list \<Rightarrow> string" where
  "written h = concat (map (\<lambda>(g, c, sent, ok). sent) h)"

definition sse_inv :: "sse_conc \<Rightarrow> bool" where
  "sse_inv s \<longleftrightarrow>
     (\<forall>g. is_writing (sc_at s g) = (sc_mu s = Some g)) \<and>
     (\<forall>g. location_ok (sc_at s g) \<and> (\<forall>c. call_at (sc_at s g) = Some c \<longrightarrow> own_call g c)) \<and>
     sc_out s = written (sc_returned s) @ (case sc_mu s of None \<Rightarrow> [] | Some g \<Rightarrow> sent_at (sc_at s g)) \<and>
     list_all entry_ok (sc_returned s) \<and>
     sc_at s Beat \<noteq> Stopping \<and> (sc_at s Beat = Ended) = sc_done s \<and>
     (sc_at s Handler = Ended \<longrightarrow> sc_done s) \<and> (sc_at s Handler = Stopping \<longrightarrow> sc_cancelled s)"

lemmas writer_defs = sw_lock_def sw_write_def sw_fail_def sw_finish_def sw_return_def move_def
lemmas loop_defs = beat_done_def beat_tick_def handler_data_def handler_stop_def handler_stopped_def move_def

lemma goroutine_all: "(\<forall>g. P g) \<longleftrightarrow> P Handler \<and> P Beat"
  by (metis goroutine.exhaust)

lemma inv_start: "sse_inv StartHeartbeat"
  by (simp add: sse_inv_def StartHeartbeat_def written_def)

lemma call_writes_length [simp]: "length (call_writes c) = 3"
  by (cases c) simp_all

lemmas inv_simps = sse_inv_def goroutine_all call_frame_def written_def entry_ok_def

lemma inv_lock: "sse_inv s \<Longrightarrow> sw_lock g s = Some s' \<Longrightarrow> sse_inv s'"
  by (cases g) (auto simp: inv_simps writer_defs split: location.splits if_splits)

lemma inv_write: "sse_inv s \<Longrightarrow> sw_write g s = Some s' \<Longrightarrow> sse_inv s'"
  by (cases g) (auto simp: inv_simps writer_defs split: location.splits list.splits)

lemma prefix_cut: "sent @ b @ rest = f \<Longrightarrow> prefix (sent @ take n b) f"
  by (metis append.assoc append_take_drop_id prefixI)

lemma inv_fail: "sse_inv s \<Longrightarrow> sw_fail g n s = Some s' \<Longrightarrow> sse_inv s'"
  by (cases g) (auto simp: inv_simps writer_defs prefix_cut split: location.splits list.splits)

lemma inv_finish: "sse_inv s \<Longrightarrow> sw_finish g s = Some s' \<Longrightarrow> sse_inv s'"
  by (cases g) (auto simp: inv_simps writer_defs split: location.splits list.splits)

text \<open>A goroutine outside the writer moves to a place outside the writer.\<close>

lemma inv_move:
  assumes "sse_inv s" "sc_at s g = l0" "\<not> is_writing l0" "\<not> is_writing l" "\<And>c. call_at l = Some c \<Longrightarrow> own_call g c"
    "g = Beat \<Longrightarrow> l \<noteq> Stopping \<and> (l = Ended) = d" "g = Handler \<Longrightarrow> d = sc_done s \<and> (l = Ended \<longrightarrow> d) \<and> (l = Stopping \<longrightarrow> b)"
    "sc_done s \<longrightarrow> d" "sc_cancelled s \<longrightarrow> b"
  shows "sse_inv (move g l (s\<lparr>sc_cancelled := b, sc_ticked := t, sc_done := d\<rparr>))"
proof -
  have ok: "location_ok l" using assms(4) by (cases l) simp_all
  have out: "sent_at ((if g' = g then l else sc_at s g')) = sent_at (sc_at s g')" for g'
    using assms(2-4) by (cases l; cases l0) auto
  from assms ok show ?thesis
    by (cases g) (auto simp: sse_inv_def goroutine_all move_def out split: option.splits if_splits)
qed

lemma inv_beat_done: "sse_inv s \<Longrightarrow> beat_done s = Some s' \<Longrightarrow> sse_inv s'"
  using inv_move [of s Beat Outside Ended True "sc_cancelled s" "sc_ticked s"] by (simp add: beat_done_def split: if_splits)

lemma inv_done: "sse_inv s \<Longrightarrow> sc_done s \<longleftrightarrow> sc_at s Beat = Ended"
  by (simp add: sse_inv_def)

lemma inv_beat_tick:
  assumes "sse_inv s" "beat_tick s = Some s'"
  shows "sse_inv s'"
proof -
  from assms(2) have at: "sc_at s Beat = Outside" and s': "s' = move Beat (Locking keepalive) (s\<lparr>sc_ticked := False\<rparr>)"
    by (auto simp: beat_tick_def split: if_splits)
  have "sse_inv (move Beat (Locking keepalive) (s\<lparr>sc_cancelled := sc_cancelled s, sc_ticked := False, sc_done := sc_done s\<rparr>))"
    by (rule inv_move [OF assms(1) at]) (simp_all add: inv_done [OF assms(1)] at)
  then show ?thesis unfolding s' by simp
qed

lemma inv_handler_data: "sse_inv s \<Longrightarrow> handler_data payload s = Some s' \<Longrightarrow> sse_inv s'"
  using inv_move [of s Handler Outside "Locking (CallData payload)" "sc_done s" "sc_cancelled s" "sc_ticked s"]
  by (simp add: handler_data_def split: if_splits)

lemma inv_handler_stop: "sse_inv s \<Longrightarrow> handler_stop s = Some s' \<Longrightarrow> sse_inv s'"
  using inv_move [of s Handler Outside Stopping "sc_done s" True "sc_ticked s"] by (simp add: handler_stop_def split: if_splits)

lemma inv_handler_stopped:
  assumes "sse_inv s" "handler_stopped s = Some s'"
  shows "sse_inv s'"
proof -
  from assms(2) have at: "sc_at s Handler = Stopping" and d: "sc_done s" and s': "s' = move Handler Ended s"
    by (auto simp: handler_stopped_def split: if_splits)
  have "sse_inv (move Handler Ended (s\<lparr>sc_cancelled := sc_cancelled s, sc_ticked := sc_ticked s, sc_done := sc_done s\<rparr>))"
    by (rule inv_move [OF assms(1) at]) (simp_all add: d)
  then show ?thesis unfolding s' by simp
qed

lemma inv_external:
  "sse_inv s \<Longrightarrow> sse_inv (s\<lparr>sc_ticked := True\<rparr>)" "sse_inv s \<Longrightarrow> sse_inv (s\<lparr>sc_cancelled := True\<rparr>)"
  by (auto simp: sse_inv_def split: option.splits)

lemma inv_perform: "sse_inv s \<Longrightarrow> perform a s = Some s' \<Longrightarrow> sse_inv s'"
  by (cases a) (auto intro: inv_lock inv_write inv_fail inv_finish inv_beat_done inv_beat_tick inv_handler_data inv_handler_stop inv_handler_stopped inv_external split: if_splits)

lemma inv_run: "run_actions as s = Some s' \<Longrightarrow> sse_inv s \<Longrightarrow> sse_inv s'"
  by (induction as arbitrary: s) (auto intro: inv_perform split: option.splits)

section \<open>The calls of the handler\<close>

fun data_of :: "sse_call \<Rightarrow> string option" where
  "data_of (CallData payload) = Some payload"
| "data_of _ = None"

definition call_of :: "goroutine \<times> sse_call \<times> string \<times> bool \<Rightarrow> sse_call" where
  "call_of = (\<lambda>(g, c, sent, ok). c)"

text \<open>The payloads of the calls that returned, and of the one the handler is in.\<close>

definition data_calls :: "sse_conc \<Rightarrow> string list" where
  "data_calls s = List.map_filter (data_of \<circ> call_of) (sc_returned s) @
     (case call_at (sc_at s Handler) of None \<Rightarrow> [] | Some c \<Rightarrow> (case data_of c of None \<Rightarrow> [] | Some d \<Rightarrow> [d]))"

definition all_ok :: "sse_conc \<Rightarrow> bool" where
  "all_ok s \<longleftrightarrow> list_all (\<lambda>(g, c, sent, ok). ok) (sc_returned s)"

lemma map_filter_append: "List.map_filter f (xs @ ys) = List.map_filter f xs @ List.map_filter f ys"
  by (simp add: List.map_filter_def)

lemma data_calls_writer:
  assumes "sse_inv s"
  shows "sw_lock g s = Some s' \<Longrightarrow> data_calls s' = data_calls s" "sw_write g s = Some s' \<Longrightarrow> data_calls s' = data_calls s"
    "sw_fail g n s = Some s' \<Longrightarrow> data_calls s' = data_calls s" "sw_finish g s = Some s' \<Longrightarrow> data_calls s' = data_calls s"
proof -
  have own: "call_at (sc_at s g) = Some c \<Longrightarrow> own_call g c" for c using assms by (simp add: sse_inv_def)
  show "sw_lock g s = Some s' \<Longrightarrow> data_calls s' = data_calls s" "sw_write g s = Some s' \<Longrightarrow> data_calls s' = data_calls s"
    by (cases g; auto simp: data_calls_def writer_defs split: location.splits list.splits if_splits)+
  show "sw_fail g n s = Some s' \<Longrightarrow> data_calls s' = data_calls s" "sw_finish g s = Some s' \<Longrightarrow> data_calls s' = data_calls s"
    using own by (cases g; auto simp: data_calls_def writer_defs map_filter_append List.map_filter_simps call_of_def keepalive_def
        split: location.splits list.splits)+
qed

lemma data_calls_perform:
  assumes "sse_inv s" "perform a s = Some s'"
  shows "data_calls s' = data_calls s @ payloads [a]"
  using assms(2) data_calls_writer [OF assms(1)]
  by (cases a) (auto simp: payloads_def List.map_filter_simps loop_defs data_calls_def split: if_splits)

lemma data_calls_run: "run_actions as s = Some s' \<Longrightarrow> sse_inv s \<Longrightarrow> data_calls s' = data_calls s @ payloads as"
proof (induction as arbitrary: s)
  case Nil
  then show ?case by (simp add: payloads_def List.map_filter_simps)
next
  case (Cons a as)
  then obtain s1 where s1: "perform a s = Some s1" "run_actions as s1 = Some s'" by (auto split: option.splits)
  have "payloads (a # as) = payloads [a] @ payloads as" using map_filter_append [of payload_of "[a]" as] by (simp add: payloads_def)
  with Cons.IH [OF s1(2) inv_perform [OF Cons.prems(2) s1(1)]] data_calls_perform [OF Cons.prems(2) s1(1)] show ?case by simp
qed

lemma all_ok_perform: "perform a s = Some s' \<Longrightarrow> \<not> is_fail a \<Longrightarrow> all_ok s \<Longrightarrow> all_ok s'"
  by (cases a) (auto simp: all_ok_def writer_defs loop_defs split: location.splits list.splits if_splits)

lemma all_ok_run: "run_actions as s = Some s' \<Longrightarrow> list_all (\<lambda>a. \<not> is_fail a) as \<Longrightarrow> all_ok s \<Longrightarrow> all_ok s'"
  by (induction as arbitrary: s) (auto dest: all_ok_perform split: option.splits)

section \<open>Frames on the wire\<close>

text \<open>
  Whatever fails, the output is made of one piece per call, in the order the calls had the lock:
  the whole frame of a call that returned nil, a beginning of the frame of one that did not.
\<close>

lemma frames_never_interleave:
  assumes "run_actions as StartHeartbeat = Some s" "sc_mu s = None"
  shows "sc_out s = written (sc_returned s) \<and> list_all entry_ok (sc_returned s)"
  using inv_run [OF assms(1) inv_start] assms(2) by (simp add: sse_inv_def)

lemma written_ok: "list_all entry_ok h \<Longrightarrow> list_all (\<lambda>(g, c, sent, ok). ok) h \<Longrightarrow> written h = concat (map (call_frame \<circ> call_of) h)"
  by (induction h) (auto simp: written_def entry_ok_def call_of_def)

lemma own_calls: "list_all entry_ok h \<Longrightarrow> c \<in> set (map call_of h) \<Longrightarrow> c = keepalive \<or> data_of c \<noteq> None"
  by (auto simp: list_all_iff entry_ok_def call_of_def elim!: own_call.elims)

text \<open>Once the stop function has returned, neither goroutine is inside the writer.\<close>

lemma ended_idle:
  assumes "sse_inv s" "sc_at s Handler = Ended"
  shows "sc_at s Beat = Ended \<and> sc_mu s = None"
proof -
  from assms have b: "sc_at s Beat = Ended" and w: "\<And>g. is_writing (sc_at s g) = (sc_mu s = Some g)" by (simp_all add: sse_inv_def)
  have "sc_mu s \<noteq> Some g" for g using w [of g] assms(2) b by (cases g) simp_all
  then show ?thesis using b by auto
qed

lemma output_of_calls:
  assumes "run_actions as StartHeartbeat = Some s" "sc_at s Handler = Ended" "list_all (\<lambda>a. \<not> is_fail a) as"
  obtains cs where "sc_out s = concat (map call_frame cs)" "List.map_filter data_of cs = payloads as"
    "\<forall>c\<in>set cs. c = keepalive \<or> data_of c \<noteq> None"
proof
  have inv: "sse_inv s" by (rule inv_run [OF assms(1) inv_start])
  with assms(2) have "sc_mu s = None" by (simp add: ended_idle)
  from frames_never_interleave [OF assms(1) this] have out: "sc_out s = written (sc_returned s)" and ok: "list_all entry_ok (sc_returned s)"
    by simp_all
  have "all_ok s" by (rule all_ok_run [OF assms(1,3)]) (simp add: all_ok_def StartHeartbeat_def)
  with out ok show "sc_out s = concat (map call_frame (map call_of (sc_returned s)))" by (simp add: written_ok all_ok_def)
  have "data_calls s = payloads as" using data_calls_run [OF assms(1) inv_start]
    by (simp add: data_calls_def StartHeartbeat_def List.map_filter_simps)
  then show "List.map_filter data_of (map call_of (sc_returned s)) = payloads as"
    using assms(2) by (simp add: data_calls_def List.map_filter_def filter_map comp_def)
  show "\<forall>c\<in>set (map call_of (sc_returned s)). c = keepalive \<or> data_of c \<noteq> None" using own_calls [OF ok] by blast
qed

lemma comments_of_calls:
  assumes "\<forall>c\<in>set cs. c = keepalive \<or> data_of c \<noteq> None" "List.map_filter data_of cs = []"
  shows "concat (map (render pr) (map (\<lambda>_. BComment ''keepalive'') cs)) = concat (map call_frame cs)"
  using assms by (induction cs) (auto simp: List.map_filter_simps call_frame_def keepalive_def split: option.splits)

lemma keepalive_comment: "is_comment (BComment ''keepalive'')" "render pr (BComment ''keepalive'') = call_frame keepalive"
  by (simp_all add: is_comment_def line_safe_def line_fits_def sseLineBufferLimit_def call_frame_def keepalive_def)

lemma data_frame: "call_frame (CallData d) = ''data: '' @ d @ frameEnd"
  by (simp add: call_frame_def)

lemma frames_of_calls:
  assumes "\<forall>c\<in>set cs. c = keepalive \<or> data_of c \<noteq> None"
    "List.map_filter data_of cs = map (pr \<circ> ChatStreamChunk_Marshal) chunks @ [''[DONE]'']"
  shows "\<exists>parts. frames_of chunks parts \<and> concat (map (render pr) parts) = concat (map call_frame cs)"
  using assms
proof (induction cs arbitrary: chunks)
  case Nil
  then show ?case by (simp add: List.map_filter_simps)
next
  case (Cons c cs)
  show ?case
  proof (cases "data_of c")
    case None
    with Cons.prems have c: "c = keepalive" and rest: "List.map_filter data_of cs = map (pr \<circ> ChatStreamChunk_Marshal) chunks @ [''[DONE]'']"
      by (auto simp: List.map_filter_simps)
    obtain parts where "frames_of chunks parts" "concat (map (render pr) parts) = concat (map call_frame cs)"
      using Cons.IH [OF _ rest] Cons.prems(1) by auto
    with c keepalive_comment(1) keepalive_comment(2) [of pr] show ?thesis by (intro exI [of _ "BComment ''keepalive'' # parts"]) (auto intro: frames_of.comment)
  next
    case (Some d)
    then have c: "c = CallData d" by (cases c) simp_all
    have eq: "d # List.map_filter data_of cs = map (pr \<circ> ChatStreamChunk_Marshal) chunks @ [''[DONE]'']"
      using Cons.prems(2) Some by (simp add: List.map_filter_simps)
    show ?thesis
    proof (cases chunks)
      case Nil
      with eq have d: "d = ''[DONE]''" "List.map_filter data_of cs = []" by simp_all
      have "concat (map (render pr) (map (\<lambda>_. BComment ''keepalive'') cs)) = concat (map call_frame cs)"
        by (rule comments_of_calls) (use Cons.prems(1) d in auto)
      with c d Nil keepalive_comment(1) show ?thesis
        by (intro exI [of _ "BDone # map (\<lambda>_. BComment ''keepalive'') cs"]) (auto intro!: frames_of.finished simp: list_all_iff data_frame)
    next
      case (Cons k ks)
      with eq have d: "d = pr (ChatStreamChunk_Marshal k)" "List.map_filter data_of cs = map (pr \<circ> ChatStreamChunk_Marshal) ks @ [''[DONE]'']"
        by simp_all
      obtain parts where "frames_of ks parts" "concat (map (render pr) parts) = concat (map call_frame cs)"
        using Cons.IH [OF _ d(2)] Cons.prems(1) by auto
      with c d(1) Cons show ?thesis
        by (intro exI [of _ "BData (ChatStreamChunk_Marshal k) # parts"]) (auto intro: frames_of.chunk simp: data_frame)
    qed
  qed
qed

section \<open>The end of a stream\<close>

fun steps_left :: "location \<Rightarrow> nat" where
  "steps_left Ended = 0"
| "steps_left Outside = 1"
| "steps_left (Writing c sent bs) = 2 + length bs"
| "steps_left (Locking c) = 6"
| "steps_left Stopping = 0"

definition stop_measure :: "sse_conc \<Rightarrow> nat" where
  "stop_measure s = steps_left (sc_at s Beat) + (if sc_ticked s then 6 else 0) + (if sc_at s Handler = Stopping then 1 else 0)"

definition stopping :: "sse_conc \<Rightarrow> bool" where
  "stopping s \<longleftrightarrow> sc_at s Handler = Stopping \<or> sc_at s Handler = Ended"

lemma stopping_perform:
  assumes "stopping s" "perform a s = Some s'"
  shows "stopping s'" "stop_measure s' + (if is_external a then 0 else 1) \<le> stop_measure s + (if a = Tick then 6 else 0)"
proof -
  have g: "g = Beat" if "sc_at s g = Locking c \<or> sc_at s g = Writing c sent bs" for g c sent bs
    using that assms(1) by (cases g) (auto simp: stopping_def)
  show "stopping s'" using assms g
    by (cases a) (fastforce simp: stopping_def writer_defs loop_defs split: location.splits list.splits if_splits)+
  show "stop_measure s' + (if is_external a then 0 else 1) \<le> stop_measure s + (if a = Tick then 6 else 0)"
    using assms g by (cases a) (fastforce simp: stopping_def stop_measure_def writer_defs loop_defs split: location.splits list.splits if_splits)+
qed

lemma stopping_run:
  "run_actions as s = Some s' \<Longrightarrow> stopping s \<Longrightarrow>
     length (filter (\<lambda>a. \<not> is_external a) as) + stop_measure s' \<le> stop_measure s + 6 * length (filter (\<lambda>a. a = Tick) as)"
proof (induction as arbitrary: s)
  case Nil
  then show ?case by simp
next
  case (Cons a as)
  then obtain s1 where s1: "perform a s = Some s1" "run_actions as s1 = Some s'" by (auto split: option.splits)
  note step = stopping_perform [OF Cons.prems(2) s1(1)]
  from step(2) Cons.IH [OF s1(2) step(1)] show ?case by (auto split: if_splits)
qed

text \<open>While the stop function waits, one of the goroutines can take a step.\<close>

lemma stopping_enabled:
  assumes "sse_inv s" "sc_at s Handler = Stopping"
  shows "\<exists>a. \<not> is_external a \<and> perform a s \<noteq> None"
proof (cases "sc_at s Beat")
  case Outside
  then have "perform BeatDone s \<noteq> None" using assms by (simp add: sse_inv_def beat_done_def)
  then show ?thesis using is_external.simps by blast
next
  case (Locking c)
  have w: "is_writing (sc_at s g) = (sc_mu s = Some g)" for g using assms(1) by (simp add: sse_inv_def)
  have "sc_mu s \<noteq> Some g" for g using w [of g] assms(2) Locking by (cases g) simp_all
  then have "perform (Lock Beat) s \<noteq> None" using Locking by (auto simp: sw_lock_def)
  then show ?thesis using is_external.simps by blast
next
  case (Writing c sent bs)
  then have "perform (Write Beat) s \<noteq> None \<or> perform (Finish Beat) s \<noteq> None"
    by (cases bs) (auto simp: sw_write_def sw_finish_def)
  then show ?thesis using is_external.simps by blast
next
  case Stopping
  then show ?thesis using assms(1) by (simp add: sse_inv_def)
next
  case Ended
  then have "perform Stopped s \<noteq> None" using assms by (simp add: sse_inv_def handler_stopped_def)
  then show ?thesis using is_external.simps by blast
qed

lemma stop_measure_bound: "sse_inv s \<Longrightarrow> stop_measure s \<le> 13"
  by (cases "sc_at s Beat") (auto simp: stop_measure_def sse_inv_def dest!: spec [of _ Beat])

lemma ended_run:
  "run_actions as s = Some s' \<Longrightarrow> sse_inv s \<Longrightarrow> sc_at s Handler = Ended \<Longrightarrow> sc_out s' = sc_out s"
proof (induction as arbitrary: s)
  case Nil
  then show ?case by simp
next
  case (Cons a as)
  then obtain s1 where s1: "perform a s = Some s1" "run_actions as s1 = Some s'" by (auto split: option.splits)
  have at: "sc_at s g = Ended" for g using ended_idle [OF Cons.prems(2,3)] Cons.prems(3) by (cases g) simp_all
  have "sc_out s1 = sc_out s \<and> sc_at s1 Handler = Ended"
    using s1(1) at by (cases a) (auto simp: writer_defs loop_defs)
  with Cons.IH [OF s1(2) inv_perform [OF Cons.prems(2) s1(1)]] show ?case by simp
qed

section \<open>Properties\<close>

text \<open>
  C27: However the handler of a stream and its heartbeat are scheduled: when the handler has
  written its chunks and the end marker, no write failed and the stop function has returned,
  the OpenAI adapter reads the bytes on the wire as exactly those chunks, in order and without
  an error (extra members in key order).  A chunk's JSON text is assumed to parse back, to have no
  line break in it and to fit the adapter's line buffer of 1 MiB (\<open>printable\<close>).
\<close>

theorem stream_with_heartbeat_read_back:
  assumes "run_actions as StartHeartbeat = Some s" "sc_at s Handler = Ended" "list_all (\<lambda>a. \<not> is_fail a) as"
    "payloads as = map (pr \<circ> ChatStreamChunk_Marshal) chunks @ [''[DONE]'']"
    "list_all (\<lambda>c. chunk_ok c \<and> printable parse pr (ChatStreamChunk_Marshal c)) chunks"
    "\<forall>i. si_sends inp i" "si_lines inp = scan_lines (sc_out s)"
  shows "openai_readSSE parse name inp = map (EvChunk \<circ> chunk_norm) chunks"
proof -
  obtain cs where cs: "sc_out s = concat (map call_frame cs)" "List.map_filter data_of cs = payloads as"
    "\<forall>c\<in>set cs. c = keepalive \<or> data_of c \<noteq> None" using output_of_calls [OF assms(1-3)] by metis
  obtain parts where parts: "frames_of chunks parts" "concat (map (render pr) parts) = sc_out s"
    using frames_of_calls [OF cs(3) cs(2) [unfolded assms(4)]] cs(1) by auto
  show ?thesis by (rule sse_roundtrip [OF parts(1) assms(5,6)]) (simp add: parts(2) assms(7))
qed

text \<open>A handler writes two chunks and the end marker; the heartbeat fires within the first frame and after the last.\<close>

definition demo_actions :: "sse_action list" where
  "demo_actions = [Data ''{a}'', Lock Handler, Write Handler, Tick, BeatTick, Write Handler, Write Handler, Finish Handler,
     Data ''{b}'', Lock Beat, Write Beat, Write Beat, Write Beat, Finish Beat, Lock Handler, Write Handler, Write Handler,
     Write Handler, Finish Handler, Data ''[DONE]'', Lock Handler, Write Handler, Write Handler, Write Handler, Finish Handler,
     Tick, Stop, BeatTick, Lock Beat, Write Beat, Write Beat, Write Beat, Finish Beat, BeatDone, Stopped]"

definition demo_final :: sse_conc where
  "demo_final = the (run_actions demo_actions StartHeartbeat)"

lemma demo_final_run: "run_actions demo_actions StartHeartbeat = Some demo_final"
  by (simp add: demo_final_def demo_actions_def StartHeartbeat_def writer_defs loop_defs keepalive_def)

theorem stream_with_heartbeat_read_back_witness:
  "openai_readSSE demo_unprint ''openai'' (demo_input\<lparr>si_lines := scan_lines (sc_out demo_final)\<rparr>) =
     [EvChunk (demo_chunk ''a''), EvChunk (demo_chunk ''b'')]"
proof -
  have s: "sc_at demo_final Handler = Ended"
    by (simp add: demo_final_def demo_actions_def StartHeartbeat_def writer_defs loop_defs keepalive_def)
  have f: "list_all (\<lambda>a. \<not> is_fail a) demo_actions" by (simp add: demo_actions_def)
  have p: "payloads demo_actions = map (demo_print \<circ> ChatStreamChunk_Marshal) [demo_chunk ''a'', demo_chunk ''b''] @ [''[DONE]'']" by code_simp
  have ok: "list_all (\<lambda>c. chunk_ok c \<and> printable demo_unprint demo_print (ChatStreamChunk_Marshal c)) [demo_chunk ''a'', demo_chunk ''b'']"
    by code_simp
  have n: "map (EvChunk \<circ> chunk_norm) [demo_chunk ''a'', demo_chunk ''b''] = [EvChunk (demo_chunk ''a''), EvChunk (demo_chunk ''b'')]"
    by code_simp
  from stream_with_heartbeat_read_back [OF demo_final_run s f p ok, of "demo_input\<lparr>si_lines := scan_lines (sc_out demo_final)\<rparr>" "''openai''"]
  show ?thesis unfolding n by (simp add: demo_input_def)
qed

text \<open>
  C28: The stop function ends the heartbeat.  Once it has returned, nothing is written any more,
  whatever happens then.  While it waits, one of the goroutines can always take a step, and together
  they take at most 13 steps, and 6 more for each further tick of the ticker: so it returns.
\<close>

theorem stop_ends_heartbeat:
  assumes "run_actions as StartHeartbeat = Some s"
  shows "(sc_at s Handler = Ended \<longrightarrow> (\<forall>bs s'. run_actions bs s = Some s' \<longrightarrow> sc_out s' = sc_out s)) \<and>
    (sc_at s Handler = Stopping \<longrightarrow> (\<exists>a. \<not> is_external a \<and> perform a s \<noteq> None)) \<and>
    (sc_at s Handler = Stopping \<longrightarrow> (\<forall>bs s'. run_actions bs s = Some s' \<longrightarrow>
       length (filter (\<lambda>a. \<not> is_external a) bs) \<le> 13 + 6 * length (filter (\<lambda>a. a = Tick) bs)))"
proof -
  have inv: "sse_inv s" by (rule inv_run [OF assms inv_start])
  have "length (filter (\<lambda>a. \<not> is_external a) bs) \<le> 13 + 6 * length (filter (\<lambda>a. a = Tick) bs)"
    if "sc_at s Handler = Stopping" "run_actions bs s = Some s'" for bs s'
    using stopping_run [OF that(2)] that(1) stop_measure_bound [OF inv] by (simp add: stopping_def)
  with ended_run [OF _ inv] stopping_enabled [OF inv] show ?thesis by blast
qed

text \<open>The demonstrated run, and its state right after the call of the stop function.\<close>

definition demo_stopping :: sse_conc where
  "demo_stopping = the (run_actions (take 27 demo_actions) StartHeartbeat)"

theorem stop_ends_heartbeat_witness:
  "sc_out (the (run_actions [ClientGone] demo_final)) = sc_out demo_final \<and>
   (\<exists>a. \<not> is_external a \<and> perform a demo_stopping \<noteq> None) \<and>
   length (filter (\<lambda>a. \<not> is_external a) (drop 27 demo_actions)) \<le> 13 + 6 * length (filter (\<lambda>a. a = Tick) (drop 27 demo_actions))"
proof -
  note defs = demo_final_def demo_stopping_def demo_actions_def StartHeartbeat_def writer_defs loop_defs keepalive_def
  have ended: "sc_at demo_final Handler = Ended" and stops: "sc_at demo_stopping Handler = Stopping" by (simp_all add: defs)
  have run: "run_actions (take 27 demo_actions) StartHeartbeat = Some demo_stopping" "run_actions (drop 27 demo_actions) demo_stopping = Some demo_final"
    by (simp_all add: defs)
  have "run_actions [ClientGone] demo_final = Some (the (run_actions [ClientGone] demo_final))" by simp
  with ended stop_ends_heartbeat [OF demo_final_run] have "sc_out (the (run_actions [ClientGone] demo_final)) = sc_out demo_final" by blast
  moreover from stop_ends_heartbeat [OF run(1)] stops run(2)
  have "\<exists>a. \<not> is_external a \<and> perform a demo_stopping \<noteq> None"
    "length (filter (\<lambda>a. \<not> is_external a) (drop 27 demo_actions)) \<le> 13 + 6 * length (filter (\<lambda>a. a = Tick) (drop 27 demo_actions))"
    by blast+
  ultimately show ?thesis by simp
qed

end
