(* ===== verification/ResponseLog.thy ===== *)
theory ResponseLog
  imports Middleware
begin

text \<open>
  \<open>loggingResponseWriter\<close> of \<open>internal/server/middleware/logging.go\<close>: the wrapper through which
  a handler below \<open>Logging\<close> writes.  It keeps its own account of the status and of the bytes; the
  lemmas show that the handler sees the writer it wraps, and that the account is the one the
  model of the middleware reads off that writer.
\<close>

record loggingResponseWriter =
  lrw_ResponseWriter :: resp_writer
  lrw_status :: int
  lrw_bytes :: nat
  lrw_wroteHeader :: bool

definition newLoggingResponseWriter :: "resp_writer \<Rightarrow> loggingResponseWriter" where
  "newLoggingResponseWriter w = \<lparr>lrw_ResponseWriter = w, lrw_status = 200, lrw_bytes = 0, lrw_wroteHeader = False\<rparr>"

definition lrw_WriteHeader :: "int \<Rightarrow> loggingResponseWriter \<Rightarrow> loggingResponseWriter" where
  "lrw_WriteHeader code l =
     (if lrw_wroteHeader l then l
      else l\<lparr>lrw_wroteHeader := True, lrw_status := code, lrw_ResponseWriter := WriteHeader code (lrw_ResponseWriter l)\<rparr>)"

text \<open>\<open>len_of\<close> is the number of bytes of a part; a failed write adds none.\<close>

definition lrw_Write :: "(body_part \<Rightarrow> nat) \<Rightarrow> body_part \<Rightarrow> loggingResponseWriter \<Rightarrow> bool \<times> loggingResponseWriter" where
  "lrw_Write len_of part l = (case write_part part (lrw_ResponseWriter l) of
     (ok, w) \<Rightarrow> (ok, l\<lparr>lrw_wroteHeader := True, lrw_ResponseWriter := w, lrw_bytes := lrw_bytes l + (if ok then len_of part else 0)\<rparr>))"

text \<open>\<open>Header()\<close> is the embedded writer's.\<close>

definition lrw_set_header :: "string \<Rightarrow> string \<Rightarrow> loggingResponseWriter \<Rightarrow> loggingResponseWriter" where
  "lrw_set_header k v l = l\<lparr>lrw_ResponseWriter := set_header k v (lrw_ResponseWriter l)\<rparr>"

section \<open>What a handler does to its writer\<close>

datatype writer_call = CallHeader string string | CallWriteHeader int | CallWrite body_part

fun on_writer :: "writer_call \<Rightarrow> resp_writer \<Rightarrow> resp_writer" where
  "on_writer (CallHeader k v) w = set_header k v w"
| "on_writer (CallWriteHeader code) w = WriteHeader code w"
| "on_writer (CallWrite part) w = snd (write_part part w)"

fun on_wrapper :: "(body_part \<Rightarrow> nat) \<Rightarrow> writer_call \<Rightarrow> loggingResponseWriter \<Rightarrow> loggingResponseWriter" where
  "on_wrapper len_of (CallHeader k v) l = lrw_set_header k v l"
| "on_wrapper len_of (CallWriteHeader code) l = lrw_WriteHeader code l"
| "on_wrapper len_of (CallWrite part) l = snd (lrw_Write len_of part l)"

text \<open>The wrapper's account agrees with the writer.\<close>

definition account_ok :: "(body_part \<Rightarrow> nat) \<Rightarrow> resp_writer \<Rightarrow> loggingResponseWriter \<Rightarrow> bool" where
  "account_ok len_of w l \<longleftrightarrow> lrw_ResponseWriter l = w \<and> lrw_wroteHeader l = (rw_status w \<noteq> None) \<and>
     lrw_status l = (case rw_status w of None \<Rightarrow> 200 | Some st \<Rightarrow> st) \<and> lrw_bytes l = sum_list (map len_of (rw_body w))"

lemma account_step:
  assumes "account_ok len_of w l"
  shows "account_ok len_of (on_writer c w) (on_wrapper len_of c l)"
  using assms
  by (cases c) (auto simp: account_ok_def lrw_set_header_def lrw_WriteHeader_def lrw_Write_def write_part_def WriteHeader_def Let_def
      split: option.splits)

text \<open>
  Whatever a handler does through the wrapper happens to the writer below it as if the wrapper
  were not there, and the status and byte count of the log line are those of the response.
\<close>

lemma account_run:
  assumes "rw_status w = None" "rw_body w = []"
  shows "account_ok len_of (foldl (\<lambda>w c. on_writer c w) w cs) (foldl (\<lambda>l c. on_wrapper len_of c l) (newLoggingResponseWriter w) cs)"
proof -
  have "account_ok len_of w l \<Longrightarrow> account_ok len_of (foldl (\<lambda>w c. on_writer c w) w cs) (foldl (\<lambda>l c. on_wrapper len_of c l) l cs)" for l
    by (induction cs arbitrary: w l) (simp_all add: account_step)
  then show ?thesis using assms by (simp add: account_ok_def newLoggingResponseWriter_def)
qed

end
