(* ===== verification/Spec2Isabelle.thy ===== *)
theory Spec2Isabelle
  imports WholeServer AnthropicAdapter GatewayMain GatewayMetrics XbctlOutput MockUpstream Heartbeat ResponseLog
begin

text \<open>
  X-Beacon is an LLM gateway: an HTTP server that takes OpenAI-style chat requests, checks who
  asks and how often, picks a model and a provider, calls the provider with retries, fail-over
  and circuit breakers, relays the answer or the event stream, caches it, and bills it through
  an asynchronous queue.  An admin API, a command line and a metrics bundle surround this path.
  The development models the Go code of the repository theory by theory and proves what each
  part promises and how the parts work together.

  \<^bold>\<open>How Go is modelled.\<close>  A struct is a record, a tagged value a datatype, an error a value of
  \<open>goerr\<close> with \<open>errors_Is\<close> for the chain of wrapped errors, a fallible function returns a sum, and
  a function with effects takes and returns the state it changes.  Strings are lists of bytes.
  \<open>int\<close> and \<open>int64\<close> are integers with the wrap-around (\<open>wrap64\<close>) and the saturating conversions
  written out where a value can leave the range; a \<open>float64\<close> is the rational it denotes and each
  operation rounds to nearest, ties to even, at 53 bits (\<open>Float64\<close>), so NaN, infinities and subnormal
  underflow are outside the model.  Instants and durations count nanoseconds.  Loops over
  lists are folds or structural recursions; the retry loop is a \<open>function\<close> with a termination
  proof by the attempts left; glob matching and page following carry a fuel that is the length
  of the text or of the result.  Goroutines are steps of an inductive relation
  (\<open>BillingWorker.worker_step\<close>, \<open>Pricing.pricing_run\<close>) or actions of an executable machine (\<open>Heartbeat.perform\<close>); everything else is sequential, one request at a time over the
  state it shares with others.

  \<^bold>\<open>Code outside the repository\<close> is an argument, with the behaviour that is relied on as a named
  hypothesis: the Redis commands (records \<open>kv_ops\<close>, \<open>redis_ops\<close> with the laws \<open>kv_laws\<close> and
  \<open>redis_laws\<close>, which list-backed stores are shown to satisfy), the circuit breaker library
  (\<open>gobreaker\<close>), SHA-256, JSON texts against JSON values (\<open>parse\<close>, \<open>print\<close>), the BPE encoder, HTTP
  exchanges with upstreams, clocks, sleeps and random draws, what the Prometheus registry
  gathers, viper, pgx and golang-migrate.  SQL tables are lists of rows and each statement the
  function on rows it stands for.

  \<^bold>\<open>Foundations.\<close>  \<open>Prelude\<close> (64-bit integers, association lists), \<open>GoStrings\<close> (\<open>strings\<close>, \<open>strconv\<close>,
  \<open>path.Match\<close>), \<open>Utf8\<close> (decoding of strings into runes), \<open>Float64\<close>, \<open>GoJson\<close> (decoding of members into fields; locale \<open>struct_codec\<close>),
  \<open>KeyValue\<close> (Redis strings, hexadecimal).

  \<^bold>\<open>Providers.\<close>  \<open>ProviderTypes\<close> (\<open>internal/provider\<close>: wire types and errors), \<open>ProviderJson\<close> (\<open>types.go\<close>:
  custom JSON codecs that keep unknown members; a request decodes from its encoding, one
  \<open>struct_codec\<close> interpretation per wire type), \<open>Adapters\<close> (construction, status mapping), \<open>Upstream\<close>
  (HTTP exchange and SSE scanning; locale \<open>sse_handler\<close>), \<open>OpenaiAdapter\<close> and \<open>AnthropicAdapter\<close> (its two
  interpretations: requests, responses and streams of both protocols; an Anthropic stream keeps
  its text and stop reason, and no truncated stream passes for a complete one), \<open>Registry\<close>
  (\<open>registry.go\<close>, \<open>loader.go\<close>: a built table is well formed and the fail-over chain is exact match,
  globs in order, default, without repeats; locale \<open>model_resolver\<close>), \<open>ProvidersFile\<close> (\<open>internal/envexpand\<close> and
  \<open>registry.Load\<close>: each placeholder is replaced once, values are not expanded again).

  \<^bold>\<open>Routing upstream.\<close>  \<open>Policy\<close> (backoff; the doubling loop equals its closed form), \<open>Breaker\<close> (settings,
  the trip rule in floats, the pool), \<open>Router\<close> (\<open>router.go\<close>: chain, retries, streams and their
  forwarder; the locales \<open>attempt_step\<close> and \<open>provider_try\<close> are interpreted for chat and for streams and give the
  order of the calls and the bound on them for each provider, the return of every breaker permit, the end at a permanent error and the
  origin of the response).

  \<^bold>\<open>Admission.\<close>  \<open>RedisWindow\<close> (\<open>redis_window.go\<close>: the Lua script and \<open>Allow\<close>; over any run of calls by instances with
  clocks of their own, lost replies and the expiry of keys on the server, no window admits more than
  the limit, up to the difference of the clocks), \<open>Ratelimit\<close> (token buckets, rules, \<open>Multi\<close>; locale \<open>limiter\<close>), \<open>Auth\<close> (\<open>internal/auth\<close>: the
  three authenticators under the locale \<open>authenticator\<close>; the cached one refines the database one), \<open>Keystore\<close>
  (create, list and revoke; a created key authenticates, a revoked one no longer does).

  \<^bold>\<open>Prompts and models.\<close>  \<open>Tokenizer\<close> (\<open>pkg/tokenizer\<close>; locale \<open>token_counter\<close>), \<open>Compressor\<close> (\<open>internal/prompt\<close>: system
  messages and a maximal suffix are kept), \<open>Route\<close> (\<open>internal/route\<close>: the first rule that matches and
  whose draw passes), \<open>Cache\<close> (\<open>internal/cache\<close>: keys and stored answers).

  \<^bold>\<open>Money.\<close>  \<open>Pricing\<close> (\<open>internal/billing/pricing.go\<close>: exact costs within stated bounds; over any run of
  edits, reloads and outages the snapshot differs from the table only where others edited it;
  price strings), \<open>BillingWorker\<close> (\<open>worker.go\<close>: the queue and its consumers as a step
  relation: conservation of events, termination after \<open>Stop\<close>, nothing written after the context
  ends, one row per event in the partition of its month), \<open>RequestLogs\<close> (\<open>logs_query.go\<close>,
  \<open>admin_logs.go\<close>: following the pages returns as many rows as match, newest first, and every
  match once when instants differ; the order of ties, which SQL leaves open, is an argument).

  \<^bold>\<open>The server.\<close>  \<open>Http\<close> (response writer, error mapping, SSE writer), \<open>Heartbeat\<close> (the SSE
  writer under the handler of a stream and its heartbeat goroutine, write by write: frames never mix, what
  is written is read back, the stop function returns and nothing is written after it), \<open>Middleware\<close>
  (\<open>internal/server/middleware\<close>), \<open>ResponseLog\<close> (the writer of the access log changes nothing and counts right), \<open>Server\<close> (\<open>server.go\<close>, \<open>readyz.go\<close>: the routes and their guards), \<open>ChatStream\<close> and
  \<open>ChatHandler\<close> (\<open>chat.go\<close>, \<open>chat_stream.go\<close>, the state of the whole gateway), \<open>ChatProperties\<close> (each request
  answered; billed once unless it is refused or served from the cache; cached, framed, replayed choice by choice), \<open>Messages\<close> (\<open>messages.go\<close>: bytes relayed unchanged),
  \<open>Models\<close> (\<open>/v1/models\<close> and the catalog), \<open>AuditLog\<close>, \<open>Admin\<close> (\<open>admin_keys.go\<close>, \<open>admin_pricing.go\<close>, \<open>admin_audit.go\<close>: an
  operation succeeds, makes exactly its change and leaves exactly its audit row, or changes nothing), \<open>AdminViews\<close> (the read-only
  views and the reload of the provider table, all or nothing), \<open>WholeServer\<close> (the server with these endpoints in
  place over one state; the locale \<open>server_invariant\<close> says when a server keeps a predicate, and its two
  interpretations give that a revoked key stays locked out and that provider table and audit log stay
  sound over any session of requests and database outages).

  \<^bold>\<open>Observability.\<close>  \<open>TimeSeries\<close> (the ring of minute slots shows the last hour), \<open>Observability\<close> (\<open>stats.go\<close>,
  \<open>cache_stats.go\<close>, \<open>redact.go\<close>: summaries count requests), \<open>GatewayMetrics\<close> (\<open>gateway_metrics.go\<close>: every call
  on the metrics library is well typed, and only a negative cost decreases a counter).

  \<^bold>\<open>The processes.\<close>  \<open>GatewayConfig\<close> (\<open>internal/config\<close> and the translations of
  \<open>cmd/gateway/handlers.go\<close>), \<open>Telemetry\<close> (settings of logger and tracer, build strings), \<open>GoFlag\<close> (the
  package \<open>flag\<close>), \<open>GatewayMain\<close> (\<open>cmd/gateway\<close>: arguments, start-up with all its failures, the dependencies of
  the server, and the calls deferred on the way: every run releases exactly what it acquired),
  \<open>Storage\<close> (\<open>internal/storage\<close>), \<open>Xbctl\<close> (\<open>cmd/xbctl\<close>: every subcommand; a
  price is stored to the micro-unit, and a command that fails changes no table) with \<open>XbctlOutput\<close> (its tables and
  JSON; a listed price is set back unchanged), \<open>MockUpstream\<close>
  (\<open>scripts/mockupstream\<close>: the canned upstream, and what the OpenAI adapter returns when it talks to it).

  \<^bold>\<open>This theory\<close> holds what spans components: no truncated stream passes for a complete one, for
  both adapters; and a gateway started with static keys is closed to all other principals,
  which joins configuration, start-up, authenticator and routes.

  \<^bold>\<open>Not modelled:\<close> log lines and trace spans, what zap, OpenTelemetry and Prometheus build from the
  settings they are given, usage texts and column alignment of the command line, the SQL files,
  statements a database or Redis executes although their reply is lost (but for the calls of the
  sliding window, where they are steps of the run), keys Redis evicts or loses in a restart, a
  stream chunk that cannot be encoded as JSON, keep-alive comments outside \<open>Heartbeat\<close>, a metrics path
  with wildcards, memory and data races below the granularity of the modelled steps (a server handles its requests
  one at a time), and the timing of timeouts, which appear as outcomes the environment chooses.
\<close>

text \<open>
  C31: No truncated upstream stream passes for a complete one.  Both adapters emit chunks and
  at most one error, which comes last; and when nothing was cancelled and every event was
  delivered, a stream without an error event contained the terminator of its protocol: a
  \<open>[DONE]\<close> payload, or a \<open>message_stop\<close> event.
\<close>

theorem truncated_stream_reported:
  assumes "\<not> si_ctx_done inp" "\<And>i. si_sends inp i"
  shows "stream_shape (openai_readSSE parse name inp) \<and> stream_shape (anthropic_readSSE parse name now inp) \<and>
    (list_all is_chunk (openai_readSSE parse name inp) \<longrightarrow> (\<exists>line \<in> set (si_lines inp). sse_data line = Some ''[DONE]'')) \<and>
    (list_all is_chunk (anthropic_readSSE parse name now inp) \<longrightarrow>
      (\<exists>line \<in> set (si_lines inp). \<exists>data ev. sse_data line = Some data \<and> decode_event parse data = Some ev \<and> ev_Type ev = ''message_stop''))"
proof (intro conjI impI)
  show "stream_shape (openai_readSSE parse name inp)" unfolding openai_readSSE_def by (rule openai_sse.read_shape)
  show "stream_shape (anthropic_readSSE parse name now inp)" unfolding anthropic_readSSE_def by (rule anthropic_sse.read_shape)
next
  assume a: "list_all is_chunk (openai_readSSE parse name inp)"
  let ?scan = "scan_sse (openai_handle parse name (si_sends inp)) (si_lines inp) () []"
  from a have r: "snd ?scan" unfolding openai_readSSE_def by (rule openai_sse.clean_end_returned [OF assms])
  with a have c: "list_all is_chunk (fst ?scan)" by (simp add: openai_readSSE_def end_sse_def split: prod.splits)
  from scan_returned [OF r] obtain line data s evs t where line: "line \<in> set (si_lines inp)" "sse_data line = Some data"
    and h: "openai_handle parse name (si_sends inp) data s evs = (t, fst ?scan, True)" by blast
  from openai_handle_stop_clean [OF h assms(2) c] line
  show "\<exists>line \<in> set (si_lines inp). sse_data line = Some ''[DONE]''" by blast
next
  assume a: "list_all is_chunk (anthropic_readSSE parse name now inp)"
  let ?scan = "scan_sse (anthropic_handle parse name (si_sends inp)) (si_lines inp) (newStreamState now name) []"
  from a have r: "snd ?scan" unfolding anthropic_readSSE_def by (rule anthropic_sse.clean_end_returned [OF assms])
  with a have c: "list_all is_chunk (fst ?scan)" by (simp add: anthropic_readSSE_def end_sse_def split: prod.splits)
  from scan_returned [OF r] obtain line data s evs t where line: "line \<in> set (si_lines inp)" "sse_data line = Some data"
    and h: "anthropic_handle parse name (si_sends inp) data s evs = (t, fst ?scan, True)" by blast
  from anthropic_handle_stop_clean [OF h assms(2) c] obtain ev where "decode_event parse data = Some ev" "ev_Type ev = ''message_stop''"
    by (auto simp: decode_event_def)
  with line show "\<exists>line \<in> set (si_lines inp). \<exists>data ev. sse_data line = Some data \<and> decode_event parse data = Some ev \<and> ev_Type ev = ''message_stop''" by blast
qed

theorem truncated_stream_reported_witness:
  "stream_shape (anthropic_readSSE demo_parse ''claude'' 5 (demo_sse\<lparr>si_lines := butlast (si_lines demo_sse)\<rparr>)) \<and>
   \<not> list_all is_chunk (anthropic_readSSE demo_parse ''claude'' 5 (demo_sse\<lparr>si_lines := butlast (si_lines demo_sse)\<rparr>))"
proof -
  let ?inp = "demo_sse\<lparr>si_lines := butlast (si_lines demo_sse)\<rparr>"
  have inp: "\<not> si_ctx_done ?inp" "\<And>i. si_sends ?inp i" by (simp_all add: demo_sse_def)
  have "list_all (\<lambda>line. case sse_data line of None \<Rightarrow> True
      | Some data \<Rightarrow> (case decode_event demo_parse data of None \<Rightarrow> True | Some ev \<Rightarrow> ev_Type ev \<noteq> ''message_stop'')) (si_lines ?inp)"
    by code_simp
  with truncated_stream_reported [OF inp, of demo_parse "''claude''" 5] show ?thesis
    by (fastforce simp: list_all_iff)
qed

text \<open>
  C23: A gateway started with static keys and without Redis serves nobody else.  Whatever the rest
  of its configuration, no endpoint but \<open>/metrics\<close> ever sees a request whose principal is not one
  of the configured keys, nor an admin endpoint one whose key lacks the scope of that endpoint:
  two sets of endpoints that agree on those requests make the same server.
\<close>

theorem static_gateway_closed:
  assumes "start_up ou path = Inr ru" "acf_StaticKeys (cf_Auth (ru_cfg ru)) \<noteq> []" "rdc_Addr (cf_Redis (ru_cfg ru)) = []"
    and "\<And>a key s. auth (StaticAuthn a) key s = (static_Authenticate (ou_sha ou) a key, s)"
    and "\<And>e r w s k. e = EMetrics \<or> k \<in> set (acf_StaticKeys (cf_Auth (ru_cfg ru))) \<and> rq_Principal r = Some (static_principal (static_entry k)) \<and>
        scope_ok (endpoint_scope e) (rq_Principal r) \<Longrightarrow> ep1 e r w s = ep2 e r w s"
  shows "Server_New (server_deps base auth probe ru) ep1 = Server_New (server_deps base auth probe ru) ep2"
proof -
  let ?keys = "acf_StaticKeys (cf_Auth (ru_cfg ru))"
  have "ru_redis ru = None" using start_up_parts(4) [OF assms(1)] assms(3) by (simp add: loadRedis_def)
  then obtain st where st: "NewStatic (ou_sha ou) (map static_entry ?keys) = Inr st" and ru: "ru_authn ru = Some (StaticAuthn st)"
    using start_up_parts(5) [OF assms(1)] assms(2) by (auto simp: loadAuth_def cache_auth_def split: sum.splits)
  have "de_Authn (server_deps base auth probe ru) = Some (auth (StaticAuthn st))" by (simp add: server_deps_def ru Let_def)
  moreover have "ep1 e r w s = ep2 e r w s" if "authorised (auth (StaticAuthn st)) e (rq_Principal r)" for e r w s
    using that static_principals [OF st] unfolding authorised_def genuine_def assms(4)
    by (force intro: assms(5))
  ultimately show ?thesis by (rule server_guarded)
qed

definition demo_static_cfg :: Config where
  "demo_static_cfg = setDefaults\<lparr>cf_Auth := (cf_Auth setDefaults)\<lparr>acf_StaticKeys :=
     [\<lparr>sak_ID = ''ci'', sak_Name = ''CI'', sak_Secret = ''s3cret'', sak_Scopes = None\<rparr>]\<rparr>\<rparr>"

definition demo_auth :: "Authenticator \<Rightarrow> string \<Rightarrow> unit \<Rightarrow> (goerr + Principal) \<times> unit" where
  "demo_auth a key s = (case a of StaticAuthn st \<Rightarrow> static_Authenticate id st key | _ \<Rightarrow> Inl ErrInvalidCredentials, s)"

definition open_endpoint :: "endpoint \<Rightarrow> unit handler" where
  "open_endpoint e r w s = (Returned, WriteHeader 200 w, s)"

definition closed_endpoint :: "endpoint \<Rightarrow> unit handler" where
  "closed_endpoint e r w s = (if e \<noteq> EMetrics \<and> rq_Principal r = None then (Panicked, w, s) else open_endpoint e r w s)"

theorem static_gateway_closed_witness:
  "\<exists>ru. start_up (demo_outside demo_static_cfg) [] = Inr ru \<and>
     Server_New (server_deps demo_deps demo_auth (\<lambda>_ s. (None, s)) ru) open_endpoint =
     Server_New (server_deps demo_deps demo_auth (\<lambda>_ s. (None, s)) ru) closed_endpoint"
proof -
  have "Validate demo_static_cfg = []" by code_simp
  then have c: "LoadConfig (ou_read (demo_outside demo_static_cfg)) (ou_decode (demo_outside demo_static_cfg)) [] = Inr demo_static_cfg"
    by (simp add: LoadConfig_def demo_outside_def)
  have k: "rdc_Addr (cf_Redis demo_static_cfg) = []" "cf_RateLimits demo_static_cfg = []" "dcf_DSN (cf_Database demo_static_cfg) = []"
    "acf_StaticKeys (cf_Auth demo_static_cfg) \<noteq> []"
    by (simp_all add: demo_static_cfg_def setDefaults_def)
  have "case NewStatic id (map static_entry (acf_StaticKeys (cf_Auth demo_static_cfg))) of Inl _ \<Rightarrow> False | Inr _ \<Rightarrow> True" by code_simp
  then obtain st where st: "NewStatic id (map static_entry (acf_StaticKeys (cf_Auth demo_static_cfg))) = Inr st" by (auto split: sum.splits)
  have "case NewLogger (\<lambda>_. None) (cf_Log demo_static_cfg) of Inl _ \<Rightarrow> False | Inr _ \<Rightarrow> True" by code_simp
  then obtain lg where lg: "NewLogger (\<lambda>_. None) (cf_Log demo_static_cfg) = Inr lg" by (auto split: sum.splits)
  have "\<exists>ru. start_up (demo_outside demo_static_cfg) [] = Inr ru \<and> ru_cfg ru = demo_static_cfg"
    using c k st lg by (auto simp: start_up_def start_run_def NewTracerProvider_def demo_outside_def loadRegistry_def loadPool_def loadAuth_def loadRedis_def buildRateLimiter_def Let_def intro!: exI)
  then obtain ru where ru: "start_up (demo_outside demo_static_cfg) [] = Inr ru" "ru_cfg ru = demo_static_cfg" by blast
  have "Server_New (server_deps demo_deps demo_auth (\<lambda>_ s. (None, s)) ru) open_endpoint =
     Server_New (server_deps demo_deps demo_auth (\<lambda>_ s. (None, s)) ru) closed_endpoint"
    by (rule static_gateway_closed [OF ru(1)])
      (auto simp: ru(2) k demo_auth_def demo_outside_def closed_endpoint_def open_endpoint_def)
  with ru show ?thesis by blast
qed

end
